(* ===== verification/DD_Prelude.thy ===== *)
theory DD_Prelude
  imports Main "HOL-Library.Word" "HOL-Library.Char_ord" "HOL-Library.List_Lexorder"
    "HOL-Library.Multiset"
begin

text \<open>
  Prelude of the development: the machine integers of the sources, the collections of
  rewrite rules the component theories share, the few generic facts about words, and the
  model of the C++ standard containers with an order, \<open>std::map\<close> and \<open>std::set\<close>.

  A \<open>std::map<K, V>\<close> is an association list in strictly increasing key order, so that
  \<open>begin()\<close>, iteration and \<open>extract(begin())\<close> are list operations. The sources rely
  on that order (\<open>mStfInfoMap\<close> is traversed from the oldest time frame on).
\<close>

section \<open>Machine integers\<close>

type_synonym u8 = "8 word"
type_synonym u16 = "16 word"
type_synonym u32 = "32 word"
type_synonym u64 = "64 word"

named_theorems word_nat \<open>order and arithmetic of words, read as natural numbers\<close>
named_theorems frame \<open>fields an operation leaves unchanged\<close>
named_theorems step_defs \<open>definitions of the operations of one component\<close>

declare word_less_nat_alt [word_nat] word_le_nat_alt [word_nat]

lemma unat_lt_size64: "unat (x :: u64) < 18446744073709551616"
  using unsigned_less [where 'a = nat and w = x] by simp

lemma unat_minus_le [word_nat]:
  fixes a b :: "'w::len word"
  assumes "b \<le> a"
  shows "unat (a - b) = unat a - unat b"
  using assms by (simp add: unat_sub_if' word_le_nat_alt)

lemma unat_plus_small:
  fixes a b :: "'w::len word"
  assumes "unat a + unat b < 2 ^ LENGTH('w)"
  shows "unat (a + b) = unat a + unat b"
  using assms by (simp add: unat_word_ariths)

lemma unat_mult_small:
  fixes a b :: "'w::len word"
  assumes "unat a * unat b < 2 ^ LENGTH('w)"
  shows "unat (a * b) = unat a * unat b"
  using assms by (simp add: unat_word_ariths)

text \<open>\<open>std::clamp(v, lo, hi)\<close>: the source compares against \<open>lo\<close> first.\<close>

definition std_clamp :: "'a::linorder \<Rightarrow> 'a \<Rightarrow> 'a \<Rightarrow> 'a" where
  "std_clamp v lo hi = (if v < lo then lo else if hi < v then hi else v)"

lemma std_clamp_bounds: "lo \<le> hi \<Longrightarrow> lo \<le> std_clamp v lo hi \<and> std_clamp v lo hi \<le> hi"
  by (auto simp: std_clamp_def)

lemma std_clamp_id: "lo \<le> v \<Longrightarrow> v \<le> hi \<Longrightarrow> std_clamp v lo hi = v"
  by (auto simp: std_clamp_def)

section \<open>Ordered maps\<close>

text \<open>The interface the components use, with the laws they rely on.\<close>

locale ordered_map =
  fixes get :: "'m \<Rightarrow> 'k::linorder \<Rightarrow> 'v option"
    and put :: "'k \<Rightarrow> 'v \<Rightarrow> 'm \<Rightarrow> 'm"
    and del :: "'k \<Rightarrow> 'm \<Rightarrow> 'm"
    and entries :: "'m \<Rightarrow> ('k \<times> 'v) list"
    and wf :: "'m \<Rightarrow> bool"
  assumes get_put: "get (put k v m) = (get m)(k \<mapsto> v)"
    and get_del: "wf m \<Longrightarrow> get (del k m) = (get m)(k := None)"
    and get_entries: "wf m \<Longrightarrow> get m k = Some v \<longleftrightarrow> (k, v) \<in> set (entries m)"
    and entries_sorted: "wf m \<Longrightarrow> sorted_wrt (<) (map fst (entries m))"
    and wf_put: "wf m \<Longrightarrow> wf (put k v m)"
    and wf_del: "wf m \<Longrightarrow> wf (del k m)"
begin

lemma put_twice: "get (put k v (put k w m)) = get (put k v m)"
  by (simp add: get_put)

lemma del_put: "wf m \<Longrightarrow> get m k = None \<Longrightarrow> get (del k (put k v m)) = get m"
  by (simp add: get_put get_del wf_put fun_upd_idem)

lemma entries_distinct: "wf m \<Longrightarrow> distinct (map fst (entries m))"
  using entries_sorted strict_sorted_iff by blast

lemma in_entries_put:
  "wf m \<Longrightarrow> (k', v') \<in> set (entries (put k v m)) \<longleftrightarrow>
     (k' = k \<and> v' = v) \<or> (k' \<noteq> k \<and> (k', v') \<in> set (entries m))"
  using get_entries [of "put k v m" k' v'] get_entries [of m k' v']
  by (auto simp: wf_put get_put split: if_splits)

lemma in_entries_del:
  "wf m \<Longrightarrow> (k', v') \<in> set (entries (del k m)) \<longleftrightarrow> k' \<noteq> k \<and> (k', v') \<in> set (entries m)"
  using get_entries [of "del k m" k' v'] get_entries [of m k' v']
  by (auto simp: wf_del get_del split: if_splits)

lemma entries_del_sub: "wf m \<Longrightarrow> set (entries (del k m)) \<subseteq> set (entries m)"
  using in_entries_del by auto

end

type_synonym ('k, 'v) smap = "('k \<times> 'v) list"

definition sm_wf :: "('k::linorder, 'v) smap \<Rightarrow> bool" where
  "sm_wf m \<longleftrightarrow> sorted_wrt (<) (map fst m)"

definition sm_get :: "('k::linorder, 'v) smap \<Rightarrow> 'k \<Rightarrow> 'v option" where
  "sm_get m k = map_of m k"

definition sm_has :: "('k::linorder, 'v) smap \<Rightarrow> 'k \<Rightarrow> bool" where
  "sm_has m k \<longleftrightarrow> map_of m k \<noteq> None"

fun sm_put :: "'k::linorder \<Rightarrow> 'v \<Rightarrow> ('k, 'v) smap \<Rightarrow> ('k, 'v) smap" where
  "sm_put k v [] = [(k, v)]"
| "sm_put k v (e # m) =
     (if k < fst e then (k, v) # e # m
      else if fst e < k then e # sm_put k v m
      else (k, v) # m)"

definition sm_del :: "'k::linorder \<Rightarrow> ('k, 'v) smap \<Rightarrow> ('k, 'v) smap" where
  "sm_del k m = filter (\<lambda>e. fst e \<noteq> k) m"

text \<open>\<open>operator[]\<close>: reading a key that is absent inserts a value-initialised one.\<close>

definition sm_at :: "'v \<Rightarrow> ('k::linorder, 'v) smap \<Rightarrow> 'k \<Rightarrow> 'v" where
  "sm_at d m k = (case sm_get m k of None \<Rightarrow> d | Some v \<Rightarrow> v)"

lemma sm_get_put: "sm_get (sm_put k v m) = (sm_get m)(k \<mapsto> v)"
  by (induction m) (auto simp: sm_get_def fun_eq_iff)

lemma sm_get_del: "sm_get (sm_del k m) = (sm_get m)(k := None)"
  by (induction m) (auto simp: sm_get_def sm_del_def fun_eq_iff)

lemma set_sm_put_keys: "fst ` set (sm_put k v m) = insert k (fst ` set m)"
  by (induction m) auto

lemma sm_wf_put: "sm_wf m \<Longrightarrow> sm_wf (sm_put k v m)"
proof (induction m)
  case Nil
  then show ?case by (simp add: sm_wf_def)
next
  case (Cons e m)
  have keys: "set (map fst (sm_put k v m)) = insert k (fst ` set m)"
    using set_sm_put_keys [of k v m] by simp
  show ?case
    using Cons keys by (auto simp: sm_wf_def)
qed

lemma sm_wf_del: "sm_wf m \<Longrightarrow> sm_wf (sm_del k m)"
  by (induction m) (auto simp: sm_wf_def sm_del_def)

lemma sm_get_in: "sm_wf m \<Longrightarrow> sm_get m k = Some v \<longleftrightarrow> (k, v) \<in> set m"
  using strict_sorted_iff [of "map fst m"] map_of_eq_Some_iff [of m k v]
  by (auto simp: sm_get_def sm_wf_def)

interpretation smap: ordered_map sm_get sm_put sm_del "\<lambda>m. m" sm_wf
  by unfold_locales
    (simp_all add: sm_get_put sm_get_del sm_get_in sm_wf_put sm_wf_del, simp add: sm_wf_def)

lemmas smap_simps [simp] = sm_get_put sm_get_del sm_wf_put sm_wf_del

lemma sm_wf_Nil [simp]: "sm_wf []"
  by (simp add: sm_wf_def)

lemma sm_wf_Cons: "sm_wf (e # m) \<longleftrightarrow> sm_wf m \<and> (\<forall>x \<in> set m. fst e < fst x)"
  by (auto simp: sm_wf_def)

lemma sm_has_get: "sm_has m k \<longleftrightarrow> sm_get m k \<noteq> None"
  by (simp add: sm_has_def sm_get_def)

lemma sm_has_in: "sm_has m k \<longleftrightarrow> k \<in> fst ` set m"
  by (auto simp: sm_has_def map_of_eq_None_iff)

lemma sm_has_put [simp]: "sm_has (sm_put k v m) k' \<longleftrightarrow> k' = k \<or> sm_has m k'"
  by (simp add: sm_has_get)

lemma sm_has_del [simp]: "sm_has (sm_del k m) k' \<longleftrightarrow> k' \<noteq> k \<and> sm_has m k'"
  by (simp add: sm_has_get)

lemma sm_has_Nil [simp]: "\<not> sm_has [] k"
  by (simp add: sm_has_def)

lemma sm_get_Nil [simp]: "sm_get [] k = None"
  by (simp add: sm_get_def)

lemma sm_del_absent: "\<not> sm_has m k \<Longrightarrow> sm_del k m = m"
  by (auto simp: sm_has_in sm_del_def filter_id_conv)

lemma length_sm_put_absent: "\<not> sm_has m k \<Longrightarrow> length (sm_put k v m) = Suc (length m)"
  by (induction m) (auto simp: sm_has_in)

text \<open>Sums over the values of a map.\<close>

lemma sum_sm_put:
  assumes "sm_wf m"
  shows "(\<Sum>e\<leftarrow>sm_put k v m. g (snd e)) + (case sm_get m k of None \<Rightarrow> 0 | Some w \<Rightarrow> g w)
    = (\<Sum>e\<leftarrow>m. g (snd e)) + (g v :: _ :: comm_monoid_add)"
  using assms
proof (induction m)
  case Nil
  then show ?case by (simp add: sm_get_def)
next
  case (Cons e m)
  have wf: "sm_wf m" using Cons.prems by (simp add: sm_wf_def)
  have "sm_get m k = None" if "k < fst e"
    using that Cons.prems by (force simp: sm_get_def sm_wf_def map_of_eq_None_iff)
  then show ?case using Cons.IH [OF wf] by (auto simp: sm_get_def ac_simps)
qed

lemma sum_sm_del:
  assumes "sm_wf m"
  shows "(\<Sum>e\<leftarrow>sm_del k m. g (snd e)) + (case sm_get m k of None \<Rightarrow> 0 | Some w \<Rightarrow> g w)
    = (\<Sum>e\<leftarrow>m. (g (snd e) :: _ :: comm_monoid_add))"
  using assms
proof (induction m)
  case Nil
  then show ?case by (simp add: sm_get_def sm_del_def)
next
  case (Cons e m)
  have wf: "sm_wf m" using Cons.prems by (simp add: sm_wf_def)
  have "sm_del k m = m \<and> sm_get m k = None" if "k = fst e"
    using that Cons.prems by (force simp: sm_get_def sm_wf_def sm_del_def map_of_eq_None_iff
        intro!: filter_True)
  then show ?case using Cons.IH [OF wf]
    by (auto simp: sm_get_def sm_del_def ac_simps split: option.splits)
qed

end
