(* ===== verification/DD_Queue.thy ===== *)
theory DD_Queue
  imports DD_Prelude
begin

text \<open>
  \<open>common/base/ConcurrentQueue.h\<close>: the thread-safe container every thread of the program
  hands its work through, and the pipeline of such queues.

  Every method takes the container's lock for its whole body, except
  \<open>pop_wait_for(T&, us)\<close>, which releases it before \<open>try_pop\<close>; a method is therefore one
  atomic function on the state \<open>cqueue\<close>. A blocking wait on the condition variable is
  modelled by the list of wake-ups the waiting thread experiences: each is the state of the
  queue at the moment the lock is taken again, with the reason of the wake-up.
\<close>

section \<open>The container\<close>

datatype queue_type = eFIFO | eLIFO

record 'a cqueue =
  mContainer :: "'a list"
  cqRunning :: bool

definition cq_init :: "'a cqueue" where
  "cq_init = \<lparr>mContainer = [], cqRunning = True\<rparr>"

definition cq_stop :: "'a cqueue \<Rightarrow> 'a cqueue" where
  "cq_stop q = q\<lparr>cqRunning := False\<rparr>"

definition cq_start :: "'a cqueue \<Rightarrow> 'a cqueue" where
  "cq_start q = q\<lparr>mContainer := [], cqRunning := True\<rparr>"

definition cq_flush :: "'a cqueue \<Rightarrow> nat \<times> 'a cqueue" where
  "cq_flush q = (length (mContainer q), q\<lparr>mContainer := []\<rparr>)"

definition emplace :: "queue_type \<Rightarrow> 'a \<Rightarrow> 'a list \<Rightarrow> 'a list" where
  "emplace ty x xs = (case ty of eFIFO \<Rightarrow> xs @ [x] | eLIFO \<Rightarrow> x # xs)"

definition cq_push :: "queue_type \<Rightarrow> 'a \<Rightarrow> 'a cqueue \<Rightarrow> bool \<times> 'a cqueue" where
  "cq_push ty x q =
     (if \<not> cqRunning q then (False, q)
      else (True, q\<lparr>mContainer := emplace ty x (mContainer q)\<rparr>))"

definition drop_oldest :: "queue_type \<Rightarrow> 'a list \<Rightarrow> 'a list" where
  "drop_oldest ty xs = (case ty of eFIFO \<Rightarrow> tl xs | eLIFO \<Rightarrow> butlast xs)"

definition cq_push_capacity :: "queue_type \<Rightarrow> nat \<Rightarrow> 'a \<Rightarrow> 'a cqueue \<Rightarrow> bool \<times> 'a cqueue" where
  "cq_push_capacity ty cap x q =
     (if \<not> cqRunning q then (False, q)
      else
        let xs = (if 0 < cap \<and> cap \<le> length (mContainer q)
                  then drop_oldest ty (mContainer q) else mContainer q)
        in (True, q\<lparr>mContainer := emplace ty x xs\<rparr>))"

text \<open>
  \<open>pop()\<close>: while the queue is empty and running the caller stays blocked; a stopped queue is
  drained before \<open>nullopt\<close> is returned.
\<close>

datatype 'a pop_result = Blocked | Stopped | Popped 'a

definition cq_pop :: "'a cqueue \<Rightarrow> 'a pop_result \<times> 'a cqueue" where
  "cq_pop q =
     (case mContainer q of
        [] \<Rightarrow> (if cqRunning q then (Blocked, q) else (Stopped, q))
      | x # xs \<Rightarrow> (Popped x, q\<lparr>mContainer := xs\<rparr>))"

definition cq_try_pop :: "'a cqueue \<Rightarrow> 'a option \<times> 'a cqueue" where
  "cq_try_pop q =
     (case mContainer q of
        [] \<Rightarrow> (None, q)
      | x # xs \<Rightarrow> (Some x, q\<lparr>mContainer := xs\<rparr>))"

definition cq_pop_n :: "nat \<Rightarrow> 'a cqueue \<Rightarrow> 'a list pop_result \<times> 'a cqueue" where
  "cq_pop_n n q =
     (if mContainer q = [] then (if cqRunning q then (Blocked, q) else (Popped [], q))
      else (let ret = min (length (mContainer q)) n
            in (Popped (take ret (mContainer q)), q\<lparr>mContainer := drop ret (mContainer q)\<rparr>)))"

definition cq_try_pop_n :: "nat \<Rightarrow> 'a cqueue \<Rightarrow> 'a list \<times> 'a cqueue" where
  "cq_try_pop_n n q =
     (if mContainer q = [] then ([], q)
      else (let ret = min (length (mContainer q)) n
            in (take ret (mContainer q), q\<lparr>mContainer := drop ret (mContainer q)\<rparr>)))"

text \<open>
  The timed waits. A wake-up carries whether the wait timed out and the queue as the other
  threads have left it. \<open>wait_new\<close> is the loop
  \<open>while (mRunning && wait_until(..) != timeout) { if (!empty) break; }\<close>; it answers the
  queue at the loop's exit, and \<open>None\<close> while the caller is still waiting.
\<close>

datatype 'a wake = Timeout "'a cqueue" | Notified "'a cqueue"

fun wait_new :: "'a cqueue \<Rightarrow> 'a wake list \<Rightarrow> 'a cqueue option" where
  "wait_new q ws =
     (if \<not> cqRunning q then Some q
      else (case ws of
              [] \<Rightarrow> None
            | Timeout q' # _ \<Rightarrow> Some q'
            | Notified q' # ws' \<Rightarrow> (if mContainer q' \<noteq> [] then Some q' else wait_new q' ws')))"

declare wait_new.simps [simp del]

text \<open>
  \<open>bool pop_wait_for(T&, us)\<close>. The lock is released between the wait and \<open>try_pop\<close>;
  \<open>relock\<close> is what other threads do to the queue in that window.
\<close>

definition cq_pop_wait_for_ref ::
    "('a cqueue \<Rightarrow> 'a cqueue) \<Rightarrow> 'a cqueue \<Rightarrow> 'a wake list \<Rightarrow> ('a option \<times> 'a cqueue) option" where
  "cq_pop_wait_for_ref relock q ws =
     (if mContainer q = [] \<and> cqRunning q then
        (case wait_new q ws of
           None \<Rightarrow> None
         | Some q' \<Rightarrow>
             (if \<not> cqRunning q' \<or> mContainer q' = [] then Some (None, q')
              else Some (cq_try_pop (relock q'))))
      else Some (cq_try_pop (relock q)))"

text \<open>\<open>std::optional<T> pop_wait_for(us)\<close>: one critical section.\<close>

definition cq_pop_wait_for :: "'a cqueue \<Rightarrow> 'a wake list \<Rightarrow> ('a option \<times> 'a cqueue) option" where
  "cq_pop_wait_for q ws =
     (if mContainer q = [] \<and> cqRunning q then map_option cq_try_pop (wait_new q ws)
      else Some (cq_try_pop q))"

definition cq_size :: "'a cqueue \<Rightarrow> nat" where
  "cq_size q = length (mContainer q)"

definition cq_empty :: "'a cqueue \<Rightarrow> bool" where
  "cq_empty q \<longleftrightarrow> cq_size q = 0"

definition cq_is_running :: "'a cqueue \<Rightarrow> bool" where
  "cq_is_running q \<longleftrightarrow> cqRunning q"

lemmas cq_defs [step_defs] = cq_stop_def cq_start_def cq_flush_def cq_push_def
  cq_push_capacity_def cq_pop_def cq_try_pop_def cq_pop_n_def cq_try_pop_n_def Let_def

section \<open>Laws of the operations\<close>

lemma emplace_simps [simp]:
  "emplace eFIFO x xs = xs @ [x]" "emplace eLIFO x xs = x # xs"
  by (simp_all add: emplace_def)

lemma set_emplace [simp]: "set (emplace ty x xs) = insert x (set xs)"
  by (cases ty) auto

lemma length_emplace [simp]: "length (emplace ty x xs) = Suc (length xs)"
  by (cases ty) auto

lemma length_drop_oldest [simp]: "length (drop_oldest ty xs) = length xs - 1"
  by (cases ty) (auto simp: drop_oldest_def)

lemma set_drop_oldest: "set (drop_oldest ty xs) \<subseteq> set xs"
  by (cases ty; cases xs) (auto simp: drop_oldest_def dest: in_set_butlastD)

text \<open>The interface a client of a queue relies on.\<close>

locale work_queue =
  fixes push :: "'a \<Rightarrow> 'q \<Rightarrow> bool \<times> 'q"
    and pop :: "'q \<Rightarrow> 'a pop_result \<times> 'q"
    and content :: "'q \<Rightarrow> 'a list"
    and running :: "'q \<Rightarrow> bool"
    and after :: "'a \<Rightarrow> 'a list \<Rightarrow> 'a list"
  assumes push_running: "running q \<Longrightarrow> fst (push x q) \<and> content (snd (push x q)) = after x (content q)"
    and push_stopped: "\<not> running q \<Longrightarrow> push x q = (False, q)"
    and running_push: "running (snd (push x q)) = running q"
    and pop_item: "content q = y # ys \<Longrightarrow>
      fst (pop q) = Popped y \<and> content (snd (pop q)) = ys \<and> running (snd (pop q)) = running q"
    and pop_none: "content q = [] \<Longrightarrow>
      pop q = (if running q then Blocked else Stopped, q)"
    and set_after: "set (after x xs) = insert x (set xs)"
begin

lemma pushed_iff: "fst (push x q) \<longleftrightarrow> running q"
  using push_running push_stopped by (cases "running q") auto

lemma content_push: "content (snd (push x q)) = (if running q then after x (content q) else content q)"
  using push_running push_stopped by auto

lemma set_push: "set (content (snd (push x q))) \<subseteq> insert x (set (content q))"
  by (auto simp: content_push set_after)

lemma push_keeps: "y \<in> set (content q) \<Longrightarrow> y \<in> set (content (snd (push x q)))"
  by (simp add: content_push set_after)

lemma pop_member: "pop q = (Popped y, q') \<Longrightarrow> y \<in> set (content q)"
  using pop_item pop_none by (cases "content q") (fastforce split: if_splits)+

lemma pop_rest: "pop q = (Popped y, q') \<Longrightarrow> content q = y # content q'"
  using pop_item pop_none by (cases "content q") (fastforce split: if_splits)+

lemma pop_not_stopped: "content q \<noteq> [] \<Longrightarrow> fst (pop q) \<noteq> Stopped \<and> fst (pop q) \<noteq> Blocked"
  using pop_item by (cases "content q") auto

end

interpretation fifo: work_queue "cq_push eFIFO" cq_pop mContainer cqRunning "emplace eFIFO"
  by unfold_locales (auto simp: cq_push_def cq_pop_def)

interpretation lifo: work_queue "cq_push eLIFO" cq_pop mContainer cqRunning "emplace eLIFO"
  by unfold_locales (auto simp: cq_push_def cq_pop_def)

section \<open>Runs of a queue\<close>

datatype 'a qop = QPush 'a | QPop | QTryPop | QStop

text \<open>
  A run of the queue under any interleaving of the critical sections of its users; it
  collects the elements that were accepted and the elements that were handed out.
\<close>

fun cq_step :: "queue_type \<Rightarrow> 'a qop \<Rightarrow> 'a cqueue \<Rightarrow> 'a list \<times> 'a list \<times> 'a cqueue" where
  "cq_step ty (QPush x) q = (let (ok, q') = cq_push ty x q in (if ok then [x] else [], [], q'))"
| "cq_step ty QPop q =
     (case cq_pop q of (Popped y, q') \<Rightarrow> ([], [y], q') | (_, q') \<Rightarrow> ([], [], q'))"
| "cq_step ty QTryPop q =
     (case cq_try_pop q of (Some y, q') \<Rightarrow> ([], [y], q') | (None, q') \<Rightarrow> ([], [], q'))"
| "cq_step ty QStop q = ([], [], cq_stop q)"

fun cq_run :: "queue_type \<Rightarrow> 'a qop list \<Rightarrow> 'a cqueue \<Rightarrow> 'a list \<times> 'a list \<times> 'a cqueue" where
  "cq_run ty [] q = ([], [], q)"
| "cq_run ty (e # es) q =
     (let (i, po, q') = cq_step ty e q; (is, pos, q'') = cq_run ty es q' in (i @ is, po @ pos, q''))"

lemma cq_step_fifo:
  "cq_step eFIFO e q = (i, po, q') \<Longrightarrow> mContainer q @ i = po @ mContainer q'"
  by (cases e) (auto simp: cq_push_def cq_pop_def cq_try_pop_def cq_stop_def
      split: if_splits list.splits)

lemma cq_run_fifo:
  "cq_run eFIFO es q = (is, pos, q') \<Longrightarrow> mContainer q @ is = pos @ mContainer q'"
proof (induction es arbitrary: q "is" pos)
  case Nil
  then show ?case by simp
next
  case (Cons e es)
  obtain i po q1 where st: "cq_step eFIFO e q = (i, po, q1)"
    by (cases "cq_step eFIFO e q") auto
  obtain is2 pos2 where rn: "cq_run eFIFO es q1 = (is2, pos2, q')"
    using Cons.prems st by (auto split: prod.splits)
  have "mContainer q @ i @ is2 = po @ mContainer q1 @ is2"
    using cq_step_fifo [OF st] by simp
  also have "\<dots> = po @ pos2 @ mContainer q'"
    using Cons.IH [OF rn] by simp
  finally show ?case
    using Cons.prems st rn by auto
qed

lemma cq_push_capacity_bound:
  assumes "0 < cap" and "length (mContainer q) \<le> cap"
  shows "length (mContainer (snd (cq_push_capacity ty cap x q))) \<le> cap"
  using assms by (auto simp: cq_push_capacity_def Let_def)

lemma cq_push_capacity_keeps:
  assumes "cqRunning q" and "0 < cap" and "length (mContainer q) < cap"
  shows "cq_push_capacity ty cap x q = cq_push ty x q"
  using assms by (auto simp: cq_push_capacity_def cq_push_def Let_def)

lemma wait_new_Timeout [simp]: "cqRunning q \<Longrightarrow> wait_new q (Timeout q' # ws) = Some q'"
  by (subst wait_new.simps) simp

lemma wait_new_stopped [simp]: "\<not> cqRunning q \<Longrightarrow> wait_new q ws = Some q"
  by (subst wait_new.simps) simp

section \<open>Pipelines\<close>

text \<open>
  \<open>IFifoPipeline\<close>: a vector of queues. The stage that follows a stage is a virtual function
  of the device (\<open>getNextPipelineStage\<close>), the argument \<open>nxt\<close>; the number of stages stands
  for the drop queue. A stage of the caller that does not exist is undefined behaviour in C++
  and \<open>None\<close> here.
\<close>

type_synonym 'a pipeline = "'a cqueue list"

definition pl_new :: "nat \<Rightarrow> 'a pipeline" where
  "pl_new stages = replicate stages cq_init"

definition stopPipeline :: "'a pipeline \<Rightarrow> 'a pipeline" where
  "stopPipeline p = map cq_stop p"

definition clearPipeline :: "'a pipeline \<Rightarrow> 'a pipeline" where
  "clearPipeline p = map (\<lambda>q. snd (cq_flush q)) p"

definition pl_queue :: "(nat \<Rightarrow> nat) \<Rightarrow> nat \<Rightarrow> 'a \<Rightarrow> 'a pipeline \<Rightarrow> bool \<times> 'a pipeline" where
  "pl_queue nxt stage x p =
     (if nxt stage < length p then
        (let (ok, q) = cq_push eFIFO x (p ! nxt stage) in (ok, p[nxt stage := q]))
      else (False, p))"

definition pl_close :: "(nat \<Rightarrow> nat) \<Rightarrow> nat \<Rightarrow> 'a pipeline \<Rightarrow> 'a pipeline" where
  "pl_close nxt stage p =
     (if nxt stage < length p then p[nxt stage := cq_stop (p ! nxt stage)] else p)"

definition pl_flush :: "(nat \<Rightarrow> nat) \<Rightarrow> nat \<Rightarrow> 'a pipeline \<Rightarrow> nat \<times> 'a pipeline" where
  "pl_flush nxt stage p =
     (if nxt stage < length p then
        (let (n, q) = cq_flush (p ! nxt stage) in (n, p[nxt stage := q]))
      else (0, p))"

definition pl_dequeue :: "nat \<Rightarrow> 'a pipeline \<Rightarrow> ('a pop_result \<times> 'a pipeline) option" where
  "pl_dequeue stage p =
     (if stage < length p then
        (let (r, q) = cq_pop (p ! stage) in Some (r, p[stage := q]))
      else None)"

definition pl_dequeue_for ::
    "nat \<Rightarrow> 'a wake list \<Rightarrow> 'a pipeline \<Rightarrow> ('a option \<times> 'a pipeline) option" where
  "pl_dequeue_for stage ws p =
     (if stage < length p then
        map_option (\<lambda>(r, q). (r, p[stage := q])) (cq_pop_wait_for (p ! stage) ws)
      else None)"

definition pl_try_pop :: "nat \<Rightarrow> 'a pipeline \<Rightarrow> (bool \<times> 'a pipeline) option" where
  "pl_try_pop stage p =
     (if stage < length p then
        (let (r, q) = cq_try_pop (p ! stage) in Some (r \<noteq> None, p[stage := q]))
      else None)"

definition pl_is_running :: "nat \<Rightarrow> 'a pipeline \<Rightarrow> bool option" where
  "pl_is_running stage p = (if stage < length p then Some (cq_is_running (p ! stage)) else None)"

section \<open>Properties\<close>

text \<open>
  A FIFO queue loses, invents and reorders nothing: over any interleaving of pushes,
  pops and stops, the initial content followed by the accepted elements is the sequence handed out
  followed by what is still queued. A stopped queue accepts nothing and still hands out its
  content.
\<close>

theorem queue_fifo_order:
  "case cq_run eFIFO es q of (accepted, handed_out, q') \<Rightarrow>
     mContainer q @ accepted = handed_out @ mContainer q' \<and>
     (cqRunning q \<or> accepted = [] \<and> \<not> cqRunning q')"
proof -
  have "\<not> cqRunning q \<Longrightarrow> cq_run eFIFO es q = (is, pos, q') \<Longrightarrow> is = [] \<and> \<not> cqRunning q'"
    for es q "is" pos q'
  proof (induction es arbitrary: q "is" pos)
    case Nil
    then show ?case by simp
  next
    case (Cons e es)
    obtain i po q1 where st: "cq_step eFIFO e q = (i, po, q1)" by (cases "cq_step eFIFO e q")
    have "i = [] \<and> \<not> cqRunning q1"
      using st Cons.prems(1)
      by (cases e) (auto simp: cq_push_def cq_pop_def cq_try_pop_def cq_stop_def split: list.splits)
    then show ?case using Cons st by (auto split: prod.splits)
  qed
  then show ?thesis using cq_run_fifo by (fastforce split: prod.splits)
qed

text \<open>
  A queue filled through \<open>push_capacity\<close> holds the most recent elements, as many as the
  capacity allows: a FIFO queue in the order of arrival, a LIFO one newest first.
\<close>

theorem push_capacity_keeps_newest:
  assumes "0 < cap"
  shows "mContainer (fold (\<lambda>x q. snd (cq_push_capacity ty cap x q)) xs cq_init) =
    (case ty of eFIFO \<Rightarrow> drop (length xs - cap) xs | eLIFO \<Rightarrow> rev (drop (length xs - cap) xs))"
proof -
  have "cqRunning (fold (\<lambda>x q. snd (cq_push_capacity ty cap x q)) xs cq_init) \<and>
    mContainer (fold (\<lambda>x q. snd (cq_push_capacity ty cap x q)) xs cq_init) =
      (case ty of eFIFO \<Rightarrow> drop (length xs - cap) xs | eLIFO \<Rightarrow> rev (drop (length xs - cap) xs))"
  proof (induction xs rule: rev_induct)
    case Nil
    then show ?case by (cases ty) (simp_all add: cq_init_def)
  next
    case (snoc x xs)
    show ?case
    proof (cases "cap \<le> length xs")
      case True
      then have "drop (Suc (length xs) - cap) xs = tl (drop (length xs - cap) xs)"
        by (simp add: Suc_diff_le drop_Suc tl_drop)
      moreover have "butlast (rev ys) = rev (tl ys)" for ys :: "'a list"
        by (simp add: butlast_rev)
      ultimately show ?thesis
        using snoc True assms by (cases ty) (auto simp: cq_push_capacity_def Let_def drop_oldest_def)
    next
      case False
      then show ?thesis using snoc by (cases ty) (auto simp: cq_push_capacity_def Let_def)
    qed
  qed
  then show ?thesis ..
qed

theorem push_capacity_keeps_newest_witness:
  "mContainer (fold (\<lambda>x q. snd (cq_push_capacity eFIFO 2 x q)) [5, 2, 3 :: nat] cq_init) = [2, 3]"
  using push_capacity_keeps_newest [of 2 eFIFO "[5, 2, 3 :: nat]"] by simp

end
