(* ===== verification/DD_Utilities.thy ===== *)
theory DD_Utilities
  imports DD_Prelude Complex_Main
begin

text \<open>
  \<open>common/base/Utilities.h\<close>: the recorder of time-frame ids that the scheduler uses to
  remember what it has dropped and built, and the ring of the most recent samples.

  The bits of the recorder are a \<open>boost::dynamic_bitset\<close>, which is not part of the
  sources: its operations are a parameter, and the locale \<open>bitset\<close> states their
  documented behaviour (an index must be below the size).
\<close>

section \<open>The bit vector the recorder stores into\<close>

record 'b bitset_ops =
  bs_size :: "'b \<Rightarrow> nat"
  bs_test :: "'b \<Rightarrow> nat \<Rightarrow> bool"
  bs_assign :: "'b \<Rightarrow> nat \<Rightarrow> bool \<Rightarrow> 'b"
  bs_resize :: "'b \<Rightarrow> nat \<Rightarrow> 'b"
  bs_reset :: "'b \<Rightarrow> 'b"

locale bitset =
  fixes B :: "'b bitset_ops"
  assumes size_assign: "i < bs_size B b \<Longrightarrow> bs_size B (bs_assign B b i v) = bs_size B b"
    and test_assign: "i < bs_size B b \<Longrightarrow> j < bs_size B b \<Longrightarrow>
      bs_test B (bs_assign B b i v) j = (if j = i then v else bs_test B b j)"
    and size_resize: "bs_size B (bs_resize B b n) = n"
    and test_resize: "j < n \<Longrightarrow>
      bs_test B (bs_resize B b n) j = (j < bs_size B b \<and> bs_test B b j)"
    and size_reset: "bs_size B (bs_reset B b) = bs_size B b"
    and test_reset: "j < bs_size B b \<Longrightarrow> \<not> bs_test B (bs_reset B b) j"

text \<open>A bit vector with these laws, on which closed instances are evaluated.\<close>

definition vec_bits :: "(nat \<times> (nat \<Rightarrow> bool)) bitset_ops" where
  "vec_bits = \<lparr>
     bs_size = fst,
     bs_test = snd,
     bs_assign = (\<lambda>b i v. (fst b, (snd b)(i := v))),
     bs_resize = (\<lambda>b n. (n, \<lambda>j. j < fst b \<and> snd b j)),
     bs_reset = (\<lambda>b. (fst b, \<lambda>_. False))\<rparr>"

interpretation vec: bitset vec_bits
  by unfold_locales (auto simp: vec_bits_def)

section \<open>EventRecorder\<close>

record 'b event_recorder =
  mFirstEvent :: u64
  mRecords :: 'b

text \<open>The constructor; \<open>std::uint64_t(-1)\<close> marks that no event is recorded.\<close>

definition er_new :: "'b bitset_ops \<Rightarrow> 'b \<Rightarrow> nat \<Rightarrow> 'b event_recorder" where
  "er_new B b0 n = \<lparr>mFirstEvent = - 1, mRecords = bs_resize B b0 n\<rparr>"

definition manageSize :: "'b bitset_ops \<Rightarrow> u64 \<Rightarrow> 'b \<Rightarrow> 'b" where
  "manageSize B idx b =
     (if bs_size B b \<le> unat idx then bs_resize B b (unat ((idx + 3) * 4 div 3)) else b)"

definition SetEvent :: "'b bitset_ops \<Rightarrow> u64 \<Rightarrow> bool \<Rightarrow> 'b event_recorder \<Rightarrow> bool \<times> 'b event_recorder"
  where
  "SetEvent B evt val r =
     (let r1 = (if mFirstEvent r = - 1 then r\<lparr>mFirstEvent := evt\<rparr> else r)
      in if evt < mFirstEvent r1 then (False, r1)
         else
           let idx = evt - mFirstEvent r1;
               recs = manageSize B idx (mRecords r1)
           in (bs_test B recs (unat idx) \<noteq> val,
               r1\<lparr>mRecords := bs_assign B recs (unat idx) val\<rparr>))"

definition GetEvent :: "'b bitset_ops \<Rightarrow> 'b event_recorder \<Rightarrow> u64 \<Rightarrow> bool" where
  "GetEvent B r evt =
     (if mFirstEvent r = - 1 then False
      else if evt < mFirstEvent r then False
      else
        let idx = evt - mFirstEvent r
        in if bs_size B (mRecords r) \<le> unat idx then False
           else bs_test B (mRecords r) (unat idx))"

definition er_reset :: "'b bitset_ops \<Rightarrow> 'b event_recorder \<Rightarrow> 'b event_recorder" where
  "er_reset B r = r\<lparr>mFirstEvent := - 1, mRecords := bs_reset B (mRecords r)\<rparr>"

text \<open>\<open>SetEvent(id)\<close> as its callers use it: the default value, the result ignored.\<close>

abbreviation record_event :: "'b bitset_ops \<Rightarrow> u64 \<Rightarrow> 'b event_recorder \<Rightarrow> 'b event_recorder" where
  "record_event B evt r \<equiv> snd (SetEvent B evt True r)"

text \<open>
  The ids for which the growth of the bit vector does not wrap around: beyond \<open>2^62\<close>,
  \<open>(pIdx + 3) * 4\<close> exceeds 64 bits and the vector would shrink below the index.
\<close>

definition small_id :: "u64 \<Rightarrow> bool" where
  "small_id e \<longleftrightarrow> unat e < 2 ^ 61"

definition er_ok :: "'b bitset_ops \<Rightarrow> 'b event_recorder \<Rightarrow> bool" where
  "er_ok B r \<longleftrightarrow> mFirstEvent r = - 1 \<longrightarrow> (\<forall>i < bs_size B (mRecords r). \<not> bs_test B (mRecords r) i)"

lemma small_id_not_unset: "small_id e \<Longrightarrow> e \<noteq> - 1"
  by (auto simp: small_id_def unsigned_minus_1_eq_mask mask_eq_exp_minus_1)

lemma small_id_mono: "small_id e \<Longrightarrow> e' \<le> e \<Longrightarrow> small_id e'"
  by (auto simp: small_id_def word_nat)

lemma small_id_diff: "small_id e \<Longrightarrow> f \<le> e \<Longrightarrow> small_id (e - f)"
  by (auto simp: small_id_def unat_minus_le)

lemma new_size_exceeds:
  assumes "small_id idx"
  shows "unat idx < unat ((idx + 3) * 4 div 3)"
proof -
  have idx: "unat idx < 2305843009213693952"
    using assms by (simp add: small_id_def)
  have s3: "unat (idx + 3) = unat idx + 3"
    using idx by (simp add: unat_plus_small)
  have s4: "unat ((idx + 3) * 4) = (unat idx + 3) * 4"
    using idx by (subst unat_mult_small) (simp_all add: s3)
  have "unat ((idx + 3) * 4 div 3) = (unat idx + 3) * 4 div 3"
    using s4 by (simp add: unat_div del: distrib_right_numeral)
  then show ?thesis by simp
qed

text \<open>What a client of the recorder relies on.\<close>

locale event_log =
  fixes seen :: "'l \<Rightarrow> u64 \<Rightarrow> bool"
    and add :: "u64 \<Rightarrow> 'l \<Rightarrow> 'l"
    and clear :: "'l \<Rightarrow> 'l"
    and ok :: "'l \<Rightarrow> bool"
  assumes ok_add: "ok l \<Longrightarrow> small_id e \<Longrightarrow> ok (add e l)"
    and ok_clear: "ok (clear l)"
    and seen_clear: "\<not> seen (clear l) e"
    and seen_add: "ok l \<Longrightarrow> small_id e \<Longrightarrow> seen (add e l) e' \<Longrightarrow> e' = e \<or> seen l e'"
    and seen_keep: "ok l \<Longrightarrow> small_id e \<Longrightarrow> seen l e' \<Longrightarrow> seen (add e l) e'"
begin

lemma ok_adds: "ok l \<Longrightarrow> \<forall>e \<in> set es. small_id e \<Longrightarrow> ok (fold add es l)"
  by (induction es arbitrary: l) (auto simp: ok_add)

lemma seen_adds:
  "ok l \<Longrightarrow> \<forall>e \<in> set es. small_id e \<Longrightarrow> seen (fold add es l) x \<Longrightarrow> x \<in> set es \<or> seen l x"
proof (induction es arbitrary: l)
  case Nil
  then show ?case by simp
next
  case (Cons a es)
  then have "x \<in> set es \<or> seen (add a l) x" by (simp add: ok_add)
  then show ?case using Cons.prems by (auto dest: seen_add)
qed

lemma seen_keeps:
  "ok l \<Longrightarrow> \<forall>e \<in> set es. small_id e \<Longrightarrow> seen l x \<Longrightarrow> seen (fold add es l) x"
  by (induction es arbitrary: l) (auto simp: ok_add seen_keep)

end

context bitset
begin

lemma manageSize_covers:
  assumes "small_id idx"
  shows "unat idx < bs_size B (manageSize B idx b)"
  using new_size_exceeds [OF assms] by (auto simp: manageSize_def size_resize)

lemma manageSize_grows:
  assumes "small_id idx"
  shows "bs_size B b \<le> bs_size B (manageSize B idx b)"
  using new_size_exceeds [OF assms] by (auto simp: manageSize_def size_resize)

lemma manageSize_test:
  assumes "small_id idx" and "j < bs_size B (manageSize B idx b)"
  shows "bs_test B (manageSize B idx b) j = (j < bs_size B b \<and> bs_test B b j)"
  using assms by (auto simp: manageSize_def size_resize test_resize split: if_splits)

lemma SetEvent_below_first:
  assumes "mFirstEvent r \<noteq> - 1" and "e < mFirstEvent r"
  shows "SetEvent B e v r = (False, r)"
  using assms by (simp add: SetEvent_def)

text \<open>The recorder as a set of ids: what the first \<open>GetEvent\<close> after a \<open>SetEvent\<close> answers.\<close>

lemma GetEvent_SetEvent:
  assumes ok: "er_ok B r" and e: "small_id e" and first: "mFirstEvent r = - 1 \<or> mFirstEvent r \<le> e"
  shows "GetEvent B (snd (SetEvent B e v r)) x = (if x = e then v else GetEvent B r x)"
proof -
  define f where "f = (if mFirstEvent r = - 1 then e else mFirstEvent r)"
  define m where "m = manageSize B (e - f) (mRecords r)"
  have ne: "e \<noteq> - 1" using e by (rule small_id_not_unset)
  have fe: "f \<le> e" using first by (auto simp: f_def)
  have f1: "f \<noteq> - 1" using ne by (auto simp: f_def)
  have sm: "small_id (e - f)" using e fe by (rule small_id_diff)
  have set: "snd (SetEvent B e v r) = \<lparr>mFirstEvent = f, mRecords = bs_assign B m (unat (e - f)) v,
      \<dots> = event_recorder.more r\<rparr>"
    using fe by (auto simp: SetEvent_def f_def m_def Let_def not_less)
  have in_m: "unat (e - f) < bs_size B m"
    using manageSize_covers [OF sm] by (simp add: m_def)
  have inj: "f \<le> x \<Longrightarrow> unat (x - f) = unat (e - f) \<longleftrightarrow> x = e"
    using fe by (auto simp: unat_minus_le word_le_nat_alt)
      (metis eq_diff_iff word_unat_eq_iff)
  show ?thesis
  proof (cases "x < f")
    case True
    then have "\<not> GetEvent B (snd (SetEvent B e v r)) x"
      using f1 by (simp add: set GetEvent_def)
    moreover have "x \<noteq> e" using True fe by auto
    moreover have "\<not> GetEvent B r x"
      using True by (auto simp: GetEvent_def f_def split: if_splits)
    ultimately show ?thesis by simp
  next
    case False
    then have fx: "f \<le> x" by simp
    have new: "GetEvent B (snd (SetEvent B e v r)) x =
        (unat (x - f) < bs_size B m \<and> (if x = e then v else bs_test B m (unat (x - f))))"
      using False f1 in_m inj [OF fx]
      by (auto simp: set GetEvent_def Let_def size_assign test_assign not_le)
    have old: "x \<noteq> e \<Longrightarrow> (unat (x - f) < bs_size B m \<and> bs_test B m (unat (x - f))) = GetEvent B r x"
    proof (cases "mFirstEvent r = - 1")
      case True
      then show ?thesis
        using ok manageSize_test [OF sm, of "unat (x - f)" "mRecords r"]
        by (auto simp: er_ok_def m_def GetEvent_def)
    next
      case nofirst: False
      then have "f = mFirstEvent r" by (simp add: f_def)
      then show ?thesis
        using nofirst False manageSize_test [OF sm, of "unat (x - f)" "mRecords r"]
          manageSize_grows [OF sm, of "mRecords r"]
        by (auto simp: m_def GetEvent_def Let_def not_le)
    qed
    show ?thesis using new old in_m by auto
  qed
qed

lemma GetEvent_record:
  assumes "er_ok B r" and "small_id e"
  shows "GetEvent B (record_event B e r) x =
    (if x = e \<and> (mFirstEvent r = - 1 \<or> mFirstEvent r \<le> e) then True else GetEvent B r x)"
proof (cases "mFirstEvent r = - 1 \<or> mFirstEvent r \<le> e")
  case True
  then show ?thesis using GetEvent_SetEvent [OF assms] by simp
next
  case False
  then have "SetEvent B e True r = (False, r)" by (intro SetEvent_below_first) auto
  then show ?thesis using False by auto
qed

lemma er_ok_SetEvent:
  assumes "er_ok B r" and "small_id e"
  shows "er_ok B (snd (SetEvent B e v r))"
  using assms small_id_not_unset [OF assms(2)]
  by (auto simp: SetEvent_def Let_def er_ok_def)

lemma er_ok_reset: "er_ok B (er_reset B r)"
  by (auto simp: er_ok_def er_reset_def size_reset test_reset)

lemma er_ok_new: "(\<And>i. i < bs_size B b \<Longrightarrow> \<not> bs_test B b i) \<Longrightarrow> er_ok B (er_new B b n)"
  by (auto simp: er_ok_def er_new_def size_resize test_resize)

lemma GetEvent_reset: "\<not> GetEvent B (er_reset B r) e"
  by (simp add: GetEvent_def er_reset_def)

end

sublocale bitset \<subseteq> log: event_log "GetEvent B" "\<lambda>e r. record_event B e r" "er_reset B" "er_ok B"
  by unfold_locales
    (auto simp: er_ok_SetEvent er_ok_reset GetEvent_reset GetEvent_record split: if_splits)

section \<open>Properties\<close>

context bitset
begin

lemma first_after_record:
  "small_id e \<Longrightarrow> mFirstEvent (record_event B e r) = (if mFirstEvent r = - 1 then e else mFirstEvent r)"
  by (auto simp: SetEvent_def Let_def)

lemma recorded_list:
  assumes "er_ok B r" and "mFirstEvent r = - 1" and "\<And>x. \<not> GetEvent B r x"
    and "es \<noteq> []" and "\<forall>e \<in> set es. small_id e"
  shows "er_ok B (fold (\<lambda>e r. record_event B e r) es r) \<and>
    mFirstEvent (fold (\<lambda>e r. record_event B e r) es r) = hd es \<and>
    GetEvent B (fold (\<lambda>e r. record_event B e r) es r) x = (x \<in> set es \<and> hd es \<le> x)"
  using assms(4,5)
proof (induction es arbitrary: x rule: rev_induct)
  case Nil
  then show ?case by simp
next
  case (snoc e es)
  let ?r = "fold (\<lambda>e r. record_event B e r) es r"
  have e: "small_id e" using snoc.prems by simp
  show ?case
  proof (cases "es = []")
    case True
    then show ?thesis
      using e assms(1-3) by (simp add: er_ok_SetEvent first_after_record GetEvent_record)
  next
    case False
    have IH: "er_ok B ?r" "mFirstEvent ?r = hd es" "\<And>x. GetEvent B ?r x = (x \<in> set es \<and> hd es \<le> x)"
      using snoc.IH [OF False] snoc.prems(2) by auto
    have "hd es \<noteq> - 1"
      using small_id_not_unset snoc.prems(2) False by auto
    then show ?thesis
      using e IH False by (auto simp: er_ok_SetEvent first_after_record GetEvent_record)
  qed
qed

end

text \<open>
  After the events \<open>es\<close> have been recorded in a fresh recorder, \<open>GetEvent\<close> answers true
  exactly for the recorded ids that are not below the first one: a smaller id is silently not
  recorded. (The ids are below \<open>2^61\<close>, where the growth of the bit set does not overflow.)
\<close>

theorem recorder_remembers:
  assumes "bitset B" and "\<And>i. i < bs_size B b0 \<Longrightarrow> \<not> bs_test B b0 i"
    and "es \<noteq> []" and "\<forall>e \<in> set es. small_id e"
  shows "GetEvent B (fold (\<lambda>e r. record_event B e r) es (er_new B b0 n)) x \<longleftrightarrow> x \<in> set es \<and> hd es \<le> x"
proof -
  have "er_ok B (er_new B b0 n)" using bitset.er_ok_new [OF assms(1,2)] .
  moreover have "mFirstEvent (er_new B b0 n) = - 1" "\<And>x. \<not> GetEvent B (er_new B b0 n) x"
    by (simp_all add: er_new_def GetEvent_def)
  ultimately show ?thesis using bitset.recorded_list [OF assms(1)] assms(3,4) by blast
qed

theorem recorder_remembers_witness:
  "GetEvent vec_bits (fold (\<lambda>e r. record_event vec_bits e r) [7, 9, 4] (er_new vec_bits (0, \<lambda>_. False) 2)) 9 \<and>
   \<not> GetEvent vec_bits (fold (\<lambda>e r. record_event vec_bits e r) [7, 9, 4] (er_new vec_bits (0, \<lambda>_. False) 2)) 4"
proof -
  have blank: "\<And>i. i < bs_size vec_bits (0, \<lambda>_. False) \<Longrightarrow> \<not> bs_test vec_bits (0, \<lambda>_. False) i"
    by (simp add: vec_bits_def)
  have "[7, 9, 4 :: u64] \<noteq> []" "\<forall>e \<in> set [7, 9, 4 :: u64]. small_id e"
    by (simp_all add: small_id_def)
  note r = recorder_remembers [OF vec.bitset_axioms blank this]
  have "hd [7, 9, 4 :: u64] = 7" by simp
  then show ?thesis using r [of 2 9] r [of 2 4] by simp
qed

end
