(* ===== verification/DD_SubTimeFrame.thy ===== *)
theory DD_SubTimeFrame
  imports DD_Prelude "HOL-Library.AList"
begin

text \<open>
  The sub time frame, \<open>common/SubTimeFrameDataModel.{h,cxx}\<close>: the messages of one frame,
  grouped by data identifier and sub-specification, with the header of the frame and the
  lazily computed data size.

  Data descriptions and origins belong to the O2 library; they are the type variables
  \<open>'d\<close> and \<open>'o\<close>, of which only the linear order is used. An unordered map is an association
  list without duplicate keys, in the order of iteration; a message is the list of its bytes.
  A pointer to the data parts of a message is the position of the message
  (data identifier, sub-specification, index in the vector).
\<close>

section \<open>Equipment identifiers\<close>

type_synonym ('d, 'o) DataIdentifier = "'d \<times> 'o"

datatype ('d, 'o) EquipmentIdentifier =
  EquipmentIdentifier (mDataDescription: 'd) (mSubSpecification: u32) (mDataOrigin: 'o)

definition eid_of :: "('d, 'o) DataIdentifier \<Rightarrow> u32 \<Rightarrow> ('d, 'o) EquipmentIdentifier" where
  "eid_of di ss = EquipmentIdentifier (fst di) ss (snd di)"

definition eid_identifier :: "('d, 'o) EquipmentIdentifier \<Rightarrow> ('d, 'o) DataIdentifier" where
  "eid_identifier e = (mDataDescription e, mDataOrigin e)"

definition eid_less :: "('d::linorder, 'o::linorder) EquipmentIdentifier \<Rightarrow>
    ('d, 'o) EquipmentIdentifier \<Rightarrow> bool" where
  "eid_less a b =
     (if mDataDescription a < mDataDescription b then True
      else if mDataDescription a = mDataDescription b \<and> mDataOrigin a < mDataOrigin b then True
      else if mDataDescription a = mDataDescription b \<and> mDataOrigin a = mDataOrigin b
        \<and> mSubSpecification a < mSubSpecification b then True
      else False)"

definition eid_eq :: "('d, 'o) EquipmentIdentifier \<Rightarrow> ('d, 'o) EquipmentIdentifier \<Rightarrow> bool" where
  "eid_eq a b =
     (if mDataDescription a = mDataDescription b \<and> mSubSpecification a = mSubSpecification b
        \<and> mDataOrigin a = mDataOrigin b then True else False)"

lemma eid_eq_iff: "eid_eq a b \<longleftrightarrow> a = b"
  by (cases a; cases b) (simp add: eid_eq_def)

lemma eid_of_inject [simp]: "eid_of di ss = eid_of di' ss' \<longleftrightarrow> di = di' \<and> ss = ss'"
  by (auto simp: eid_of_def prod_eq_iff)

instantiation EquipmentIdentifier :: (linorder, linorder) linorder
begin

definition less_EquipmentIdentifier_def: "a < b \<longleftrightarrow> eid_less a b"

definition less_eq_EquipmentIdentifier_def:
  "a \<le> b \<longleftrightarrow> eid_less a b \<or> a = (b :: ('a, 'b) EquipmentIdentifier)"

instance
proof
  fix x y z :: "('a, 'b) EquipmentIdentifier"
  have asym: "\<not> (eid_less x y \<and> eid_less y x)" for x y :: "('a, 'b) EquipmentIdentifier"
    by (auto simp: eid_less_def split: if_splits)
  have trans: "eid_less x z" if "eid_less x y" "eid_less y z"
    for x y z :: "('a, 'b) EquipmentIdentifier"
    using that by (auto simp: eid_less_def split: if_splits)
  have total: "eid_less x y \<or> x = y \<or> eid_less y x"
    by (cases x; cases y) (auto simp: eid_less_def)
  show "x < y \<longleftrightarrow> x \<le> y \<and> \<not> y \<le> x"
    using asym [of x y] by (auto simp: less_EquipmentIdentifier_def less_eq_EquipmentIdentifier_def)
  show "x \<le> x" by (simp add: less_eq_EquipmentIdentifier_def)
  show "x \<le> y \<Longrightarrow> y \<le> z \<Longrightarrow> x \<le> z"
    using trans by (auto simp: less_eq_EquipmentIdentifier_def)
  show "x \<le> y \<Longrightarrow> y \<le> x \<Longrightarrow> x = y"
    using asym [of x y] by (auto simp: less_eq_EquipmentIdentifier_def)
  show "x \<le> y \<or> y \<le> x"
    using total by (auto simp: less_eq_EquipmentIdentifier_def)
qed

end

section \<open>Messages and frames\<close>

text \<open>The fields of the O2 data header the sources touch.\<close>

record ('d, 'o) DataHeader =
  dhDescription :: 'd
  dhOrigin :: 'o
  dhSubSpecification :: u32
  splitPayloadIndex :: u32
  splitPayloadParts :: u32
  firstTForbit :: u32
  tfCounter :: u32
  runNumber :: u32

type_synonym fmq_message = "u8 list"

record ('d, 'o) StfData =
  sdHeader :: "('d, 'o) DataHeader option"
  sdData :: fmq_message

record ('d, 'o) StfMessage =
  smHeader :: "('d, 'o) DataHeader option"
  smDataParts :: "fmq_message list"

type_synonym ('d, 'o) StfDataVector = "('d, 'o) StfMessage list"
type_synonym ('d, 'o) StfSubSpecMap = "(u32 \<times> ('d, 'o) StfDataVector) list"
type_synonym ('d, 'o) StfDataIdentMap = "(('d, 'o) DataIdentifier \<times> ('d, 'o) StfSubSpecMap) list"

datatype Origin = OriginInvalid | eReadout | eReadoutTopology | OriginNull

record StfHeader =
  hId :: u64
  hFirstOrbit :: u32
  hRunNumber :: u32
  hOrigin :: Origin
  hCreationTimeMs :: u64

record ('d, 'o) SubTimeFrame =
  stfHeader :: StfHeader
  stfData :: "('d, 'o) StfDataIdentMap"
  stfDataSize :: u64
  stfDataUpdated :: bool

type_synonym ('d, 'o) parts_ptr = "('d, 'o) DataIdentifier \<times> u32 \<times> nat"

definition Header_new :: "u64 \<Rightarrow> StfHeader" where
  "Header_new sid = \<lparr>hId = sid, hFirstOrbit = - 1, hRunNumber = 0, hOrigin = OriginInvalid,
     hCreationTimeMs = - 1\<rparr>"

definition SubTimeFrame_new :: "u64 \<Rightarrow> u64 \<Rightarrow> ('d, 'o) SubTimeFrame" where
  "SubTimeFrame_new now sid = \<lparr>stfHeader = (Header_new sid)\<lparr>hCreationTimeMs := now\<rparr>,
     stfData = [], stfDataSize = 0, stfDataUpdated = False\<rparr>"

definition setOrigin :: "Origin \<Rightarrow> ('d, 'o) SubTimeFrame \<Rightarrow> ('d, 'o) SubTimeFrame" where
  "setOrigin og f =
     (if hOrigin (stfHeader f) = OriginInvalid
      then f\<lparr>stfHeader := (stfHeader f)\<lparr>hOrigin := og\<rparr>\<rparr> else f)"

definition stf_clear :: "('d, 'o) SubTimeFrame \<Rightarrow> ('d, 'o) SubTimeFrame" where
  "stf_clear f = f\<lparr>stfData := [], stfDataUpdated := False\<rparr>"

definition updateId :: "u64 \<Rightarrow> ('d, 'o) SubTimeFrame \<Rightarrow> ('d, 'o) SubTimeFrame" where
  "updateId sid f =
     (if sid > 0 then f\<lparr>stfHeader := (stfHeader f)\<lparr>hId := sid\<rparr>, stfDataUpdated := False\<rparr> else f)"

definition updateFirstOrbit :: "u32 \<Rightarrow> ('d, 'o) SubTimeFrame \<Rightarrow> ('d, 'o) SubTimeFrame" where
  "updateFirstOrbit orb f =
     (if orb < hFirstOrbit (stfHeader f)
      then f\<lparr>stfHeader := (stfHeader f)\<lparr>hFirstOrbit := orb\<rparr>, stfDataUpdated := False\<rparr> else f)"

definition updateRunNumber :: "u32 \<Rightarrow> ('d, 'o) SubTimeFrame \<Rightarrow> ('d, 'o) SubTimeFrame" where
  "updateRunNumber run f =
     (if hRunNumber (stfHeader f) \<noteq> run
      then f\<lparr>stfHeader := (stfHeader f)\<lparr>hRunNumber := run\<rparr>, stfDataUpdated := False\<rparr> else f)"

definition updateCreationTimeMs :: "u64 \<Rightarrow> ('d, 'o) SubTimeFrame \<Rightarrow> ('d, 'o) SubTimeFrame" where
  "updateCreationTimeMs ms f = f\<lparr>stfHeader := (stfHeader f)\<lparr>hCreationTimeMs := ms\<rparr>\<rparr>"

section \<open>Adding data\<close>

text \<open>\<open>mData[id][subspec]\<close>: reading, which inserts an empty vector, and writing back.\<close>

definition vec_at :: "('d, 'o) StfDataIdentMap \<Rightarrow> ('d, 'o) DataIdentifier \<Rightarrow> u32 \<Rightarrow>
    ('d, 'o) StfDataVector" where
  "vec_at m di ss =
     (case map_of m di of None \<Rightarrow> []
      | Some sub \<Rightarrow> (case map_of sub ss of None \<Rightarrow> [] | Some v \<Rightarrow> v))"

definition vec_set :: "('d, 'o) DataIdentifier \<Rightarrow> u32 \<Rightarrow> ('d, 'o) StfDataVector \<Rightarrow>
    ('d, 'o) StfDataIdentMap \<Rightarrow> ('d, 'o) StfDataIdentMap" where
  "vec_set di ss v m =
     AList.update di
       (AList.update ss v (case map_of m di of None \<Rightarrow> [] | Some sub \<Rightarrow> sub)) m"

text \<open>A message constructed from the parts received; the last message of a vector extended.\<close>

definition push_part :: "fmq_message \<Rightarrow> ('d, 'o) StfMessage \<Rightarrow> ('d, 'o) StfMessage" where
  "push_part p msg = msg\<lparr>smDataParts := smDataParts msg @ [p]\<rparr>"

definition addStfDataReadout :: "('d, 'o) DataIdentifier \<Rightarrow> u32 \<Rightarrow> ('d, 'o) StfData \<Rightarrow>
    ('d, 'o) SubTimeFrame \<Rightarrow> ('d, 'o) parts_ptr \<times> ('d, 'o) SubTimeFrame" where
  "addStfDataReadout di ss d f =
     (let v0 = vec_at (stfData f) di ss;
          v1 = (if v0 = [] then v0 @ [\<lparr>smHeader = sdHeader d, smDataParts = []\<rparr>] else v0);
          i = length v1 - 1;
          v2 = v1[i := push_part (sdData d) (v1 ! i)]
      in ((di, ss, i), f\<lparr>stfData := vec_set di ss v2 (stfData f), stfDataUpdated := False\<rparr>))"

text \<open>\<open>addStfDataAppend\<close> and the \<open>addStfDataReadout\<close> without lookup have the same body: the
  data is dropped when there is no vector or the vector has no part.\<close>

definition parts_at :: "('d, 'o) SubTimeFrame \<Rightarrow> ('d, 'o) parts_ptr \<Rightarrow> fmq_message list" where
  "parts_at f p = (case p of (di, ss, i) \<Rightarrow> smDataParts (vec_at (stfData f) di ss ! i))"

definition addStfDataAppend :: "('d, 'o) parts_ptr option \<Rightarrow> fmq_message \<Rightarrow>
    ('d, 'o) SubTimeFrame \<Rightarrow> ('d, 'o) SubTimeFrame" where
  "addStfDataAppend q part f =
     (case q of None \<Rightarrow> f
      | Some p \<Rightarrow>
          if parts_at f p = [] then f
          else (case p of (di, ss, i) \<Rightarrow>
            let v = vec_at (stfData f) di ss
            in f\<lparr>stfData := vec_set di ss (v[i := push_part part (v ! i)]) (stfData f),
                 stfDataUpdated := False\<rparr>))"

definition addStfDataReadoutPtr :: "('d, 'o) parts_ptr option \<Rightarrow> fmq_message \<Rightarrow>
    ('d, 'o) SubTimeFrame \<Rightarrow> ('d, 'o) SubTimeFrame" where
  "addStfDataReadoutPtr q part f = addStfDataAppend q part f"

definition addStfDataStart :: "('d, 'o) DataIdentifier \<Rightarrow> u32 \<Rightarrow> ('d, 'o) StfData \<Rightarrow>
    ('d, 'o) SubTimeFrame \<Rightarrow> ('d, 'o) parts_ptr \<times> ('d, 'o) SubTimeFrame" where
  "addStfDataStart di ss d f =
     (let v0 = vec_at (stfData f) di ss;
          v1 = v0 @ [push_part (sdData d) \<lparr>smHeader = sdHeader d, smDataParts = []\<rparr>]
      in ((di, ss, length v0),
          f\<lparr>stfData := vec_set di ss v1 (stfData f), stfDataUpdated := False\<rparr>))"

section \<open>Size and header update\<close>

definition message_size :: "('d, 'o) StfMessage \<Rightarrow> nat" where
  "message_size msg = sum_list (map length (smDataParts msg))"

definition setTfCounter_RunNumber :: "u32 \<Rightarrow> u32 \<Rightarrow> ('d, 'o) DataHeader \<Rightarrow> ('d, 'o) DataHeader" where
  "setTfCounter_RunNumber c r h = h\<lparr>tfCounter := c, runNumber := r\<rparr>"

definition setFirstOrbit :: "u32 \<Rightarrow> ('d, 'o) DataHeader \<Rightarrow> ('d, 'o) DataHeader" where
  "setFirstOrbit orb h = h\<lparr>firstTForbit := orb\<rparr>"

definition split_counters :: "nat \<Rightarrow> ('d, 'o) DataHeader \<Rightarrow> ('d, 'o) DataHeader" where
  "split_counters n h =
     (if n > 1 then h\<lparr>splitPayloadIndex := of_nat n, splitPayloadParts := of_nat n\<rparr>
      else if n = 1 then h\<lparr>splitPayloadIndex := 0, splitPayloadParts := 1\<rparr>
      else h)"

text \<open>\<open>std::uint32_t\<close> parameters receive the 64-bit identifier: \<open>ucast\<close>.\<close>

definition update_header :: "StfHeader \<Rightarrow> nat \<Rightarrow> ('d, 'o) DataHeader \<Rightarrow> ('d, 'o) DataHeader" where
  "update_header H n h =
     (let h1 = setTfCounter_RunNumber (ucast (hId H)) (hRunNumber H) h;
          h2 = (if hFirstOrbit H \<noteq> - 1 then setFirstOrbit (hFirstOrbit H) h1 else h1)
      in split_counters n h2)"

fun update_vector :: "StfHeader \<Rightarrow> u64 \<Rightarrow> ('d, 'o) StfDataVector \<Rightarrow> u64 \<times> ('d, 'o) StfDataVector" where
  "update_vector H s [] = (s, [])"
| "update_vector H s (msg # v) =
     (case smHeader msg of
        None \<Rightarrow> (let (s', v') = update_vector H s v in (s', msg # v'))
      | Some h \<Rightarrow>
          if smDataParts msg = [] then (let (s', v') = update_vector H s v in (s', msg # v'))
          else
            let msg' = msg\<lparr>smHeader := Some (update_header H (length (smDataParts msg)) h)\<rparr>;
                s1 = fold (\<lambda>p t. t + of_nat (length p)) (smDataParts msg) s;
                (s', v') = update_vector H s1 v
            in (s', msg' # v'))"

fun update_subspecs :: "StfHeader \<Rightarrow> u64 \<Rightarrow> ('d, 'o) StfSubSpecMap \<Rightarrow> u64 \<times> ('d, 'o) StfSubSpecMap" where
  "update_subspecs H s [] = (s, [])"
| "update_subspecs H s ((ss, v) # m) =
     (let (s1, v') = update_vector H s v; (s2, m') = update_subspecs H s1 m
      in (s2, (ss, v') # m'))"

fun update_idents :: "StfHeader \<Rightarrow> u64 \<Rightarrow> ('d, 'o) StfDataIdentMap \<Rightarrow> u64 \<times> ('d, 'o) StfDataIdentMap" where
  "update_idents H s [] = (s, [])"
| "update_idents H s ((di, sub) # m) =
     (let (s1, sub') = update_subspecs H s sub; (s2, m') = update_idents H s1 m
      in (s2, (di, sub') # m'))"

definition updateStf :: "('d, 'o) SubTimeFrame \<Rightarrow> ('d, 'o) SubTimeFrame" where
  "updateStf f =
     (if stfDataUpdated f then f
      else let (s, m) = update_idents (stfHeader f) 0 (stfData f)
           in f\<lparr>stfDataSize := s, stfData := m, stfDataUpdated := True\<rparr>)"

definition getDataSize :: "('d, 'o) SubTimeFrame \<Rightarrow> u64 \<times> ('d, 'o) SubTimeFrame" where
  "getDataSize f = (stfDataSize (updateStf f), updateStf f)"

definition getEquipmentIdentifiers :: "('d, 'o) SubTimeFrame \<Rightarrow> ('d, 'o) EquipmentIdentifier list" where
  "getEquipmentIdentifiers f =
     concat (map (\<lambda>e. map (\<lambda>s. eid_of (fst e) (fst s)) (snd e)) (stfData f))"

section \<open>Merging\<close>

text \<open>The messages of the incoming frame are moved to the end of the vectors of the target.\<close>

fun merge_subspecs :: "('d, 'o) DataIdentifier \<Rightarrow> ('d, 'o) StfSubSpecMap \<Rightarrow>
    ('d, 'o) StfDataIdentMap \<Rightarrow> ('d, 'o) StfDataIdentMap" where
  "merge_subspecs di [] dst = dst"
| "merge_subspecs di ((ss, v) # m) dst =
     merge_subspecs di m (vec_set di ss (vec_at dst di ss @ v) dst)"

fun merge_idents :: "('d, 'o) StfDataIdentMap \<Rightarrow> ('d, 'o) StfDataIdentMap \<Rightarrow>
    ('d, 'o) StfDataIdentMap" where
  "merge_idents [] dst = dst"
| "merge_idents ((di, sub) # m) dst = merge_idents m (merge_subspecs di sub dst)"

text \<open>The errors the merge reports; none of them stops it.\<close>

datatype ('d, 'o) merge_error = OriginMismatch | FirstOrbitMismatch
  | EquipmentPresent "('d, 'o) EquipmentIdentifier"

fun repeated_equipment :: "('d, 'o) EquipmentIdentifier set \<Rightarrow> ('d, 'o) EquipmentIdentifier list \<Rightarrow>
    ('d, 'o) merge_error list" where
  "repeated_equipment U [] = []"
| "repeated_equipment U (e # es) =
     (if e \<in> U then EquipmentPresent e # repeated_equipment U es
      else repeated_equipment (insert e U) es)"

definition mergeStf :: "('d, 'o) SubTimeFrame \<Rightarrow> ('d, 'o) SubTimeFrame \<Rightarrow>
    ('d, 'o) merge_error list \<times> ('d, 'o) SubTimeFrame" where
  "mergeStf p0 f0 =
     (let p = (if hOrigin (stfHeader p0) = OriginNull then updateStf p0 else p0)
      in if hOrigin (stfHeader p0) = OriginNull \<and> stfDataSize p = 0 then ([], f0)
         else
           let f = (if hOrigin (stfHeader f0) = OriginNull then f0\<lparr>stfHeader := stfHeader p\<rparr> else f0);
               e1 = (if hOrigin (stfHeader f) \<noteq> hOrigin (stfHeader p) then [OriginMismatch] else []);
               e2 = (if hFirstOrbit (stfHeader f) \<noteq> hFirstOrbit (stfHeader p)
                     then [FirstOrbitMismatch] else []);
               e3 = repeated_equipment (set (getEquipmentIdentifiers f)) (getEquipmentIdentifiers p)
           in (e1 @ e2 @ e3, f\<lparr>stfData := merge_idents (stfData p) (stfData f)\<rparr>))"

text \<open>Frames with descriptions and origins that are names, as the announcements send them.\<close>

type_synonym frame_t = "(string, string) SubTimeFrame"

end
