(* ===== verification/Stfb_Readout.thy ===== *)
theory Stfb_Readout
  imports DD_SubTimeFrame
begin

text \<open>
  The readout data model, \<open>common/ReadoutDataModel.{h,cxx}\<close>: the reader of raw data headers
  (RDH), the walk over the pages of a data block, the sub-specification, the sanity check of a
  block and the filter of empty triggers, and the parsing of the configuration values.

  The layout of the RDH belongs to the O2 library: \<open>rdh_env\<close> holds its size and the accessors
  of \<open>RDHReaderIf\<close>, applied to the bytes from the RDH on. A reader is the rest of the buffer
  from its RDH on; \<open>end()\<close> is \<open>None\<close>. Reads past the end of the buffer are the error
  \<open>OutOfBounds\<close>, which stands for undefined behaviour.
\<close>

section \<open>The reader\<close>

record 'o rdh_env =
  rdhSize :: nat
  getSystemID :: "fmq_message \<Rightarrow> u8"
  getFeeID :: "fmq_message \<Rightarrow> u64"
  getLinkID :: "fmq_message \<Rightarrow> u16"
  getEndPointID :: "fmq_message \<Rightarrow> u8"
  getCruID :: "fmq_message \<Rightarrow> u16"
  getMemorySize :: "fmq_message \<Rightarrow> u32"
  getOffsetToNext :: "fmq_message \<Rightarrow> u32"
  getStopBit :: "fmq_message \<Rightarrow> bool"
  getOrbit :: "fmq_message \<Rightarrow> u32"
  DAQtoO2 :: "u8 \<Rightarrow> 'o"
  DAQ_INVALID :: u8

datatype rdh_error = RDHReaderException | OutOfBounds

definition RDHReader :: "'o rdh_env \<Rightarrow> fmq_message \<Rightarrow> rdh_error + fmq_message" where
  "RDHReader E d = (if rdhSize E > length d then Inl RDHReaderException else Inr d)"

definition rdh_next :: "'o rdh_env \<Rightarrow> fmq_message \<Rightarrow> fmq_message option" where
  "rdh_next E d =
     (if getStopBit E d then None
      else let off = unat (getOffsetToNext E d)
           in if off < 64 \<or> off > 8192 then None
              else if length d - rdhSize E < off then None
              else Some (drop off d))"

section \<open>Configuration values\<close>

datatype SubSpecMode = eCruLinkId | eFeeId
datatype SanityCheckMode = eNoSanityCheck | eSanityCheckDrop | eSanityCheckPrint
datatype RdhVersion = eRdhInvalid | eRdhVer3 | eRdhVer4 | eRdhVer5 | eRdhVer6
datatype RunType = RunInvalid | ePhysics | eTopology

text \<open>The extraction operators on one token: whether the stream is good, and the value.\<close>

definition read_sanity :: "string \<Rightarrow> SanityCheckMode \<Rightarrow> bool \<times> SanityCheckMode" where
  "read_sanity token v =
     (if token = ''off'' then (True, eNoSanityCheck)
      else if token = ''drop'' then (True, eSanityCheckDrop)
      else if token = ''print'' then (True, eSanityCheckPrint)
      else (False, v))"

definition read_subspec :: "string \<Rightarrow> SubSpecMode \<Rightarrow> bool \<times> SubSpecMode" where
  "read_subspec token v =
     (if token = ''cru_linkid'' then (True, eCruLinkId)
      else if token = ''feeid'' then (True, eFeeId)
      else (False, v))"

definition read_rdh_version :: "string \<Rightarrow> RdhVersion \<Rightarrow> bool \<times> RdhVersion" where
  "read_rdh_version token v =
     (if token = ''3'' then (True, eRdhVer3)
      else if token = ''4'' then (True, eRdhVer4)
      else if token = ''5'' then (True, eRdhVer5)
      else if token = ''6'' then (True, eRdhVer6)
      else (False, eRdhInvalid))"

definition read_run_type :: "string \<Rightarrow> RunType \<Rightarrow> bool \<times> RunType" where
  "read_run_type token v =
     (if token = ''physics'' then (True, ePhysics)
      else if token = ''topology'' then (True, eTopology)
      else (False, RunInvalid))"

fun subspec_to_string :: "SubSpecMode \<Rightarrow> string" where
  "subspec_to_string eCruLinkId = ''cru_linkid''"
| "subspec_to_string eFeeId = ''feeid''"

fun run_type_to_string :: "RunType \<Rightarrow> string" where
  "run_type_to_string ePhysics = ''physics''"
| "run_type_to_string eTopology = ''topology''"
| "run_type_to_string RunInvalid = ''invalid''"

fun rdh_version_to_int :: "RdhVersion \<Rightarrow> int" where
  "rdh_version_to_int eRdhInvalid = -1"
| "rdh_version_to_int eRdhVer3 = 3"
| "rdh_version_to_int eRdhVer4 = 4"
| "rdh_version_to_int eRdhVer5 = 5"
| "rdh_version_to_int eRdhVer6 = 6"

text \<open>The static members of \<open>ReadoutDataUtils\<close> that are set once by the device.\<close>

record 'o rdo_config =
  sSpecifiedDataOrigin :: 'o
  sRawDataSubspectype :: SubSpecMode
  sRdhSanityCheckMode :: SanityCheckMode
  sRdhVersion :: RdhVersion
  sEmptyTriggerHBFrameFilterring :: bool

section \<open>Data blocks\<close>

unbundle bit_operations_syntax

definition getDataOrigin :: "'o rdh_env \<Rightarrow> 'o rdo_config \<Rightarrow> fmq_message \<Rightarrow> 'o" where
  "getDataOrigin E c R =
     (if sRdhVersion c = eRdhVer6 then
        let orig = DAQtoO2 E (getSystemID E R)
        in if orig \<noteq> DAQtoO2 E (DAQ_INVALID E) then orig else sSpecifiedDataOrigin c
      else sSpecifiedDataOrigin c)"

definition getSubSpecification :: "'o rdh_env \<Rightarrow> 'o rdo_config \<Rightarrow> fmq_message \<Rightarrow> u32" where
  "getSubSpecification E c R =
     (case sRawDataSubspectype c of
        eCruLinkId \<Rightarrow>
          push_bit 16 (ucast (getCruID E R)) OR
          push_bit (if getEndPointID E R = 0 then 0 else 8) (ucast (getLinkID E R) + 1)
      | eFeeId \<Rightarrow> ucast (getFeeID E R))"

text \<open>The walk over the pages: total memory size and the stop bit of the last page seen.\<close>

function hbf_walk :: "'o rdh_env \<Rightarrow> fmq_message \<Rightarrow> u64 \<Rightarrow> u64 \<times> bool" where
  "hbf_walk E R m =
     (let m' = m + ucast (getMemorySize E R); s = getStopBit E R
      in case rdh_next E R of None \<Rightarrow> (m', s) | Some R' \<Rightarrow> hbf_walk E R' m')"
  by pat_completeness auto
termination
proof (relation "measure (\<lambda>(E, R, m). length R)", goal_cases)
  case 1
  then show ?case by simp
next
  case (2 E R m m' s R')
  have "64 \<le> unat (getOffsetToNext E R)" "unat (getOffsetToNext E R) \<le> length R - rdhSize E"
    "R' = drop (unat (getOffsetToNext E R)) R"
    using 2 by (auto simp: rdh_next_def Let_def split: if_splits)
  then show ?case by simp
qed

declare hbf_walk.simps [simp del]

definition getHBFrameMemorySize :: "'o rdh_env \<Rightarrow> fmq_message \<Rightarrow> u64 \<times> bool" where
  "getHBFrameMemorySize E msg =
     (let (m, s) = (case RDHReader E msg of Inl _ \<Rightarrow> (0, False) | Inr R \<Rightarrow> hbf_walk E R 0)
      in (m, if m > of_nat (length msg) then False else s))"

text \<open>\<open>rdhSanityCheck\<close>: the loop over the pages of the block; an exception of the reader is the
  left value. \<open>sFirstSeenHBOrbitCnt\<close> is the state.\<close>

function sanity_loop :: "'o rdh_env \<Rightarrow> 'o rdo_config \<Rightarrow> u32 \<Rightarrow> fmq_message \<Rightarrow> rdh_error + bool" where
  "sanity_loop E c ss d =
     (if length d = 0 then Inr True
      else case RDHReader E d of
        Inl e \<Rightarrow> Inl e
      | Inr Rc \<Rightarrow>
          if length d < 64 then Inr False
          else if ss \<noteq> getSubSpecification E c Rc then Inr False
          else
            let mem = unat (getMemorySize E Rc); off = unat (getOffsetToNext E Rc)
            in if getStopBit E Rc then Inr (mem \<le> length d)
               else if off = 0 then Inr False
               else if off \<ge> length d then Inr False
               else if mem \<ge> length d then Inr False
               else sanity_loop E c ss (drop off d))"
  by pat_completeness auto
termination
  by (relation "measure (\<lambda>(E, c, ss, d). length d)") auto

declare sanity_loop.simps [simp del]

definition rdhSanityCheck :: "'o rdh_env \<Rightarrow> 'o rdo_config \<Rightarrow> fmq_message \<Rightarrow> u32 \<Rightarrow>
    (rdh_error + bool) \<times> u32" where
  "rdhSanityCheck E c d first =
     (case RDHReader E d of
        Inl e \<Rightarrow> (Inl e, first)
      | Inr R \<Rightarrow>
          if length d < rdhSize E then (Inr False, first)
          else
            let orb = getOrbit E R
            in if first = 0 then (sanity_loop E c (getSubSpecification E c R) d, orb)
               else if orb < first then (Inr False, first)
               else (sanity_loop E c (getSubSpecification E c R) d, first))"

text \<open>\<open>filterEmptyTriggerBlocks\<close>: the exceptions of the reader are caught. An offset beyond the
  block is reported and then used: the second RDH is read outside the block.\<close>

definition filterEmptyTriggerBlocks :: "'o rdh_env \<Rightarrow> 'o rdo_config \<Rightarrow> fmq_message \<Rightarrow> rdh_error + bool" where
  "filterEmptyTriggerBlocks E c d =
     (if length d = 64 \<or> length d = 128 \<or> length d = 16384 then
        (case RDHReader E d of
           Inl _ \<Rightarrow> Inr False
         | Inr R1 \<Rightarrow>
             let mem1 = unat (getMemorySize E R1)
             in if getStopBit E R1 \<and> length d = rdhSize E \<and> mem1 = rdhSize E then Inr True
                else if getStopBit E R1 then Inr False
                else
                  let off = unat (getOffsetToNext E R1)
                  in if off > length d then Inl OutOfBounds
                     else
                       let rest = drop off d; size2 = min (length d - off) 8192
                       in case RDHReader E (take size2 rest) of
                            Inl _ \<Rightarrow> Inr False
                          | Inr _ \<Rightarrow>
                              if getSubSpecification E c R1 \<noteq> getSubSpecification E c rest then Inr False
                              else if mem1 \<noteq> unat (getMemorySize E rest) \<or> mem1 \<noteq> rdhSize E then Inr False
                              else Inr (getStopBit E rest))
      else Inr False)"

end
