(* ===== verification/Stfb_Builder.thy ===== *)
theory Stfb_Builder
  imports Stfb_Readout
begin

text \<open>
  The builder of sub time frames from readout data, \<open>SubTimeFrameReadoutBuilder\<close> in
  \<open>common/SubTimeFrameBuilder.{h,cxx}\<close>.

  Whether a header can be allocated is an argument of the operations (\<open>newHeaderMessage\<close> of the
  memory resources), as is the time of construction of a frame. \<open>rb_env\<close> adds to the RDH
  accessors the data header the O2 constructor fills in and the raw-data description.
  A result is \<open>None\<close> when the call does not return, \<open>Inl\<close> when an exception escapes.
\<close>

record ReadoutSubTimeframeHeader =
  rhVersion :: u8
  rhTimeFrameId :: u32
  rhRunNumber :: u32
  rhLinkId :: u8
  rhTimeframeOrbitFirst :: u32
  rhLastTFMessage :: bool
  rhIsRdhFormat :: bool

record ('d, 'o) rb_env =
  rbRdh :: "'o rdh_env"
  rbCfg :: "'o rdo_config"
  rbHdr0 :: "('d, 'o) DataHeader"
  rbRawData :: 'd

record ('d, 'o) readout_builder =
  rbRunning :: bool
  rbStf :: "('d, 'o) SubTimeFrame option"
  rbTopoStfMap :: "(u32 \<times> u64 \<times> ('d, 'o) SubTimeFrame option) list"
  rbAcceptStfData :: bool
  rbFirstFiltered :: "u32 list"
  rbTfId :: u32
  rbFirstSeenHBOrbitCnt :: u32

definition readout_builder_new :: "('d, 'o) readout_builder" where
  "readout_builder_new = \<lparr>rbRunning = True, rbStf = None, rbTopoStfMap = [], rbAcceptStfData = True,
     rbFirstFiltered = [], rbTfId = 1, rbFirstSeenHBOrbitCnt = 0\<rparr>"

section \<open>Filtering\<close>

text \<open>The blocks to remove: the filter of empty triggers keeps the first block of every
  equipment in the frame.\<close>

fun filter_rest :: "'o rdh_env \<Rightarrow> 'o rdo_config \<Rightarrow> fmq_message list \<Rightarrow> rdh_error + bool list" where
  "filter_rest E c [] = Inr []"
| "filter_rest E c (h # hs) =
     (case filterEmptyTriggerBlocks E c h of
        Inl e \<Rightarrow> Inl e
      | Inr r \<Rightarrow> (case filter_rest E c hs of Inl e \<Rightarrow> Inl e | Inr rs \<Rightarrow> Inr (r # rs)))"

definition filter_blocks :: "'o rdh_env \<Rightarrow> 'o rdo_config \<Rightarrow> u32 list \<Rightarrow> fmq_message list \<Rightarrow>
    rdh_error + bool list \<times> u32 list" where
  "filter_blocks E c seen hbfs =
     (if sEmptyTriggerHBFrameFilterring c then
        (case hbfs of
           [] \<Rightarrow> Inr ([], seen)
         | h # hs \<Rightarrow>
             (case RDHReader E h of
                Inl e \<Rightarrow> Inl e
              | Inr R \<Rightarrow>
                  let ss = getSubSpecification E c R
                  in if ss \<notin> set seen then
                       (case filter_rest E c hs of Inl e \<Rightarrow> Inl e | Inr rs \<Rightarrow> Inr (False # rs, ss # seen))
                     else
                       (case filter_rest E c hbfs of Inl e \<Rightarrow> Inl e | Inr rs \<Rightarrow> Inr (rs, seen))))
      else Inr (replicate (length hbfs) False, seen))"

text \<open>The dump of a rejected block, page by page.\<close>

partial_function (option) dump_loop :: "'o rdh_env \<Rightarrow> fmq_message \<Rightarrow> nat \<Rightarrow> (rdh_error + unit) option" where
  "dump_loop E d i =
     (if i < length d then
        (case RDHReader E (drop i d) of
           Inl e \<Rightarrow> Some (Inl e)
         | Inr R \<Rightarrow> dump_loop E d (i + min (unat (getOffsetToNext E R)) (length d - i)))
      else Some (Inr ()))"

definition dump_block :: "'o rdh_env \<Rightarrow> fmq_message \<Rightarrow> (rdh_error + unit) option" where
  "dump_block E d =
     (case RDHReader E d of Inl e \<Rightarrow> Some (Inl e) | Inr _ \<Rightarrow> dump_loop E d 0)"

fun sanity_blocks :: "'o rdh_env \<Rightarrow> 'o rdo_config \<Rightarrow> (bool \<times> fmq_message) list \<Rightarrow> u32 \<Rightarrow>
    (rdh_error + bool list \<times> u32) option" where
  "sanity_blocks E c [] orb = Some (Inr ([], orb))"
| "sanity_blocks E c ((rm, h) # bs) orb =
     (if rm then
        (case sanity_blocks E c bs orb of
           None \<Rightarrow> None | Some (Inl e) \<Rightarrow> Some (Inl e) | Some (Inr (rs, o')) \<Rightarrow> Some (Inr (True # rs, o')))
      else
        (case rdhSanityCheck E c h orb of
           (Inl e, _) \<Rightarrow> Some (Inl e)
         | (Inr ok, o1) \<Rightarrow>
             (case (if \<not> ok \<and> sRdhSanityCheckMode c = eSanityCheckPrint then dump_block E h
                    else Some (Inr ())) of
                None \<Rightarrow> None
              | Some (Inl e) \<Rightarrow> Some (Inl e)
              | Some (Inr _) \<Rightarrow>
                  (case sanity_blocks E c bs o1 of
                     None \<Rightarrow> None | Some (Inl e) \<Rightarrow> Some (Inl e)
                   | Some (Inr (rs, o')) \<Rightarrow>
                       Some (Inr ((\<not> ok \<and> sRdhSanityCheckMode c = eSanityCheckDrop) # rs, o'))))))"

definition sanity_check_blocks :: "'o rdh_env \<Rightarrow> 'o rdo_config \<Rightarrow> bool list \<Rightarrow> fmq_message list \<Rightarrow> u32 \<Rightarrow>
    (rdh_error + bool list \<times> u32) option" where
  "sanity_check_blocks E c rm hbfs orb =
     (if sRdhSanityCheckMode c \<noteq> eNoSanityCheck then sanity_blocks E c (zip rm hbfs) orb
      else Some (Inr (rm, orb)))"

section \<open>Adding heart-beat frames\<close>

definition raw_header :: "('d, 'o) rb_env \<Rightarrow> 'o \<Rightarrow> u32 \<Rightarrow> ('d, 'o) DataHeader" where
  "raw_header B og ss =
     (rbHdr0 B)\<lparr>dhDescription := rbRawData B, dhOrigin := og, dhSubSpecification := ss\<rparr>"

text \<open>The loop that adds the blocks: \<open>ptr\<close> is \<open>pInVector\<close>; \<open>None\<close> when the header of the first
  block cannot be allocated.\<close>

fun add_blocks :: "('d, 'o) rb_env \<Rightarrow> bool \<Rightarrow> 'o \<Rightarrow> u32 \<Rightarrow> (bool \<times> fmq_message) list \<Rightarrow>
    ('d, 'o) parts_ptr option \<Rightarrow> ('d, 'o) SubTimeFrame \<Rightarrow> ('d, 'o) SubTimeFrame option" where
  "add_blocks B alloc og ss [] ptr f = Some f"
| "add_blocks B alloc og ss ((rm, h) # bs) ptr f =
     (if rm then add_blocks B alloc og ss bs ptr f
      else case ptr of
        None \<Rightarrow>
          if \<not> alloc then None
          else
            let (ptr', f') = addStfDataReadout (rbRawData B, og) ss
              \<lparr>sdHeader = Some (raw_header B og ss), sdData = h\<rparr> f
            in add_blocks B alloc og ss bs (Some ptr') f'
      | Some p \<Rightarrow> add_blocks B alloc og ss bs ptr (addStfDataReadoutPtr ptr h f))"

text \<open>The frame the blocks are added to: a new one when there is none.\<close>

definition ensure_stf :: "u64 \<Rightarrow> ReadoutSubTimeframeHeader \<Rightarrow> ('d, 'o) readout_builder \<Rightarrow>
    ('d, 'o) SubTimeFrame \<times> ('d, 'o) readout_builder" where
  "ensure_stf now H b =
     (case rbStf b of
        Some f \<Rightarrow> (f, b)
      | None \<Rightarrow>
          let f = updateRunNumber (rhRunNumber H) (SubTimeFrame_new now (ucast (rhTimeFrameId H)))
          in (f, b\<lparr>rbStf := Some f, rbAcceptStfData := True, rbFirstFiltered := []\<rparr>))"

text \<open>The first orbit, from the readout header or from the first block; \<open>None\<close> when the RDH of
  the first block cannot be read.\<close>

definition frame_orbit :: "'o rdh_env \<Rightarrow> ReadoutSubTimeframeHeader \<Rightarrow> fmq_message list \<Rightarrow> u32 option" where
  "frame_orbit E H hbfs =
     (if rhTimeframeOrbitFirst H \<noteq> 0 then Some (rhTimeframeOrbitFirst H)
      else case RDHReader E (hbfs ! 0) of Inl _ \<Rightarrow> None | Inr R \<Rightarrow> Some (getOrbit E R))"

definition addHbFrames :: "('d, 'o) rb_env \<Rightarrow> u64 \<Rightarrow> bool \<Rightarrow> 'o \<Rightarrow> u32 \<Rightarrow> ReadoutSubTimeframeHeader \<Rightarrow>
    fmq_message list \<Rightarrow> ('d, 'o) readout_builder \<Rightarrow>
    (rdh_error + bool \<times> ('d, 'o) readout_builder) option" where
  "addHbFrames B now alloc og ss H hbfs b0 =
     (if \<not> rbRunning b0 then Some (Inr (False, b0\<lparr>rbAcceptStfData := False\<rparr>))
      else if \<not> rbAcceptStfData b0 then Some (Inr (False, b0))
      else
        let (f0, b1) = ensure_stf now H b0; E = rbRdh B; c = rbCfg B
        in case frame_orbit E H hbfs of
             None \<Rightarrow> Some (Inr (False, b1))
           | Some orb \<Rightarrow>
               let f1 = updateFirstOrbit orb f0; b2 = b1\<lparr>rbStf := Some f1\<rparr>
               in case filter_blocks E c (rbFirstFiltered b2) hbfs of
                    Inl e \<Rightarrow> Some (Inl e)
                  | Inr (rm, seen) \<Rightarrow>
                      (case sanity_check_blocks E c rm hbfs (rbFirstSeenHBOrbitCnt b2) of
                         None \<Rightarrow> None
                       | Some (Inl e) \<Rightarrow> Some (Inl e)
                       | Some (Inr (rm2, orb2)) \<Rightarrow>
                           let b3 = b2\<lparr>rbFirstFiltered := seen, rbFirstSeenHBOrbitCnt := orb2\<rparr>
                           in (case add_blocks B alloc og ss (zip rm2 hbfs) None f1 of
                                 None \<Rightarrow> Some (Inr (False,
                                   b3\<lparr>rbAcceptStfData := False, rbStf := Some (stf_clear f1)\<rparr>))
                               | Some f2 \<Rightarrow> Some (Inr (True, b3\<lparr>rbStf := Some f2\<rparr>)))))"

section \<open>Topological frames\<close>

fun add_topo_blocks :: "('d, 'o) rb_env \<Rightarrow> bool \<Rightarrow> 'o \<Rightarrow> u32 \<Rightarrow> bool \<Rightarrow> fmq_message list \<Rightarrow>
    ('d, 'o) SubTimeFrame \<Rightarrow> ('d, 'o) SubTimeFrame option" where
  "add_topo_blocks B alloc og ss incl [] f = Some f"
| "add_topo_blocks B alloc og ss incl (h # hs) f =
     (if incl then
        (if \<not> alloc then None
         else add_topo_blocks B alloc og ss False hs
           (snd (addStfDataReadout (rbRawData B, og) ss
              \<lparr>sdHeader = Some (raw_header B og ss), sdData = h\<rparr> f)))
      else add_topo_blocks B alloc og ss incl hs
        (snd (addStfDataReadout (rbRawData B, og) ss \<lparr>sdHeader = None, sdData = h\<rparr> f)))"

definition topo_stf :: "u64 \<Rightarrow> ReadoutSubTimeframeHeader \<Rightarrow> u32 \<Rightarrow>
    (u64 \<times> ('d, 'o) SubTimeFrame option) option \<Rightarrow> u64 \<times> ('d, 'o) SubTimeFrame \<times> u32" where
  "topo_stf now H tfid entry =
     (case entry of
        Some (n, Some f) \<Rightarrow> (n, f, tfid)
      | _ \<Rightarrow>
          let f0 = updateRunNumber (rhRunNumber H) (SubTimeFrame_new now (ucast tfid));
              f1 = (if rhTimeframeOrbitFirst H \<noteq> 0 then updateFirstOrbit (rhTimeframeOrbitFirst H) f0
                    else f0)
          in (0, f1, tfid + 1))"

definition addTopoStfData :: "('d, 'o) rb_env \<Rightarrow> u64 \<Rightarrow> bool \<Rightarrow> 'o \<Rightarrow> u32 \<Rightarrow> ReadoutSubTimeframeHeader \<Rightarrow>
    fmq_message list \<Rightarrow> u64 \<Rightarrow> ('d, 'o) readout_builder \<Rightarrow>
    ('d, 'o) SubTimeFrame option \<times> ('d, 'o) readout_builder" where
  "addTopoStfData B now alloc og ss H hbfs maxn b0 =
     (if \<not> rbRunning b0 then (None, b0)
      else if \<not> rbAcceptStfData b0 then (None, b0)
      else
        let (n, f0, tfid) = topo_stf now H (rbTfId b0) (map_of (rbTopoStfMap b0) ss);
            b1 = b0\<lparr>rbTfId := tfid\<rparr>
        in case add_topo_blocks B alloc og ss True hbfs f0 of
             None \<Rightarrow> (None, b1\<lparr>rbAcceptStfData := False,
                rbTopoStfMap := AList.update ss (n, Some (stf_clear f0)) (rbTopoStfMap b1)\<rparr>)
           | Some f1 \<Rightarrow>
               let n1 = n + of_nat (length hbfs)
               in if n1 \<ge> maxn then
                    (Some (setOrigin eReadoutTopology f1),
                     b1\<lparr>rbTopoStfMap := AList.update ss (0, None) (rbTopoStfMap b1)\<rparr>)
                  else (None, b1\<lparr>rbTopoStfMap := AList.update ss (n1, Some f1) (rbTopoStfMap b1)\<rparr>))"

section \<open>Taking frames out\<close>

definition getCurrentStfId :: "('d, 'o) readout_builder \<Rightarrow> u32 option" where
  "getCurrentStfId b = map_option (\<lambda>f. ucast (hId (stfHeader f))) (rbStf b)"

definition getStf :: "('d, 'o) readout_builder \<Rightarrow>
    ('d, 'o) SubTimeFrame option \<times> ('d, 'o) readout_builder" where
  "getStf b =
     (let r = (if \<not> rbAcceptStfData b then map_option (setOrigin OriginNull) (rbStf b) else rbStf b)
      in (r, b\<lparr>rbStf := None, rbAcceptStfData := True, rbFirstFiltered := []\<rparr>))"

definition getTopoStf :: "('d, 'o) readout_builder \<Rightarrow>
    ('d, 'o) SubTimeFrame option \<times> ('d, 'o) readout_builder" where
  "getTopoStf b =
     (case rbTopoStfMap b of
        [] \<Rightarrow> (None, b)
      | (ss, n, f) # m \<Rightarrow> (f, b\<lparr>rbTopoStfMap := m, rbAcceptStfData := True\<rparr>))"

definition rb_stop :: "('d, 'o) readout_builder \<Rightarrow> ('d, 'o) readout_builder" where
  "rb_stop b = b\<lparr>rbRunning := False\<rparr>"

end
