(* ===== verification/Stfb_Input.thy ===== *)
theory Stfb_Input
  imports Stfb_Builder
begin

text \<open>
  The input of the StfBuilder, \<open>StfBuilder/StfBuilderInput.{h,cxx}\<close>: the receiver thread, the
  building thread, the building thread of topological frames and the sequencer, each as the
  step one iteration of its loop makes. The queues between the threads are lists in the order
  of the pushes; \<open>mDevice.I().queue(eStfBuilderOut, ..)\<close> appends to \<open>inOut\<close>.
\<close>

record readout_multipart =
  rmHdrSize :: nat
  rmHdr :: ReadoutSubTimeframeHeader
  rmHbfs :: "fmq_message list"

record ('d, 'o) stf_input =
  inRunning :: bool
  inAcceptingData :: bool
  inBuildStf :: bool
  inStfIdReceiving :: u32
  inBuilderInputQueue :: "readout_multipart option list"
  inStarted :: bool
  inBuilder :: "('d, 'o) readout_builder"
  inStfIdBuilding :: u32
  inSeqStfQueue :: "('d, 'o) SubTimeFrame list"
  inLastSeqStfId :: u64
  inMissingStfs :: u64
  inTopoStfId :: u64
  inOut :: "('d, 'o) SubTimeFrame list"

definition sReadoutInterfaceVersion :: u8 where
  "sReadoutInterfaceVersion = 2"

text \<open>\<open>sizeof(ReadoutSubTimeframeHeader)\<close> with the alignment of the fields on x86-64.\<close>

definition readout_header_size :: nat where
  "readout_header_size = 32"

definition setRunningState :: "bool \<Rightarrow> ('d, 'o) stf_input \<Rightarrow> ('d, 'o) stf_input" where
  "setRunningState r s =
     (let s1 = (if r \<and> \<not> inAcceptingData s
                then s\<lparr>inStfIdReceiving := 0, inStfIdBuilding := 0, inLastSeqStfId := 0\<rparr> else s)
      in s1\<lparr>inAcceptingData := r\<rparr>)"

section \<open>Receiver\<close>

text \<open>What \<open>Receive\<close> answers; a multipart without messages is \<open>None\<close>.\<close>

datatype fmq_receive = RetTimeout | RetInterrupted | RetError | RetMsgs "readout_multipart option"

definition receiver_step :: "fmq_receive \<Rightarrow> ('d, 'o) stf_input \<Rightarrow> ('d, 'o) stf_input" where
  "receiver_step ret s =
     (case ret of
        RetMsgs (Some m) \<Rightarrow>
          if \<not> inAcceptingData s then s
          else if rmHdrSize m \<noteq> readout_header_size then s
          else if rhVersion (rmHdr m) \<noteq> sReadoutInterfaceVersion then s
          else if inBuildStf s \<and> rhTimeFrameId (rmHdr m) < inStfIdReceiving s then s
          else
            let s1 = (if inBuildStf s then s\<lparr>inStfIdReceiving := rhTimeFrameId (rmHdr m)\<rparr> else s)
            in s1\<lparr>inBuilderInputQueue := inBuilderInputQueue s1 @ [Some m]\<rparr>
      | _ \<Rightarrow> s)"

section \<open>Building\<close>

definition finishBuildingCurrentStf :: "bool \<Rightarrow> ('d, 'o) stf_input \<Rightarrow> ('d, 'o) stf_input" where
  "finishBuildingCurrentStf timeout s =
     (let (r, b) = getStf ((inBuilder s)\<lparr>rbFirstSeenHBOrbitCnt := 0\<rparr>)
      in case r of
           None \<Rightarrow> s\<lparr>inBuilder := b\<rparr>
         | Some f \<Rightarrow>
             let f1 = (if timeout then snd (getDataSize f) else f)
             in s\<lparr>inBuilder := b, inSeqStfQueue := inSeqStfQueue s @ [setOrigin eReadout f1]\<rparr>)"

definition fee_masked :: "'o rdo_config \<Rightarrow> u32 \<Rightarrow> u32 \<Rightarrow> u32" where
  "fee_masked c feemask ss = (if sRawDataSubspectype c = eFeeId then ss AND feemask else ss)"

text \<open>The blocks of one message, in maximal runs of equal sub-specification. \<open>alloc k\<close> says
  whether the header of the k-th run can be allocated. An RDH that cannot be read ends the loop;
  the run collected so far is not added.\<close>

fun insert_spans :: "('d, 'o) rb_env \<Rightarrow> u64 \<Rightarrow> (nat \<Rightarrow> bool) \<Rightarrow> u32 \<Rightarrow> 'o \<Rightarrow>
    ReadoutSubTimeframeHeader \<Rightarrow> u32 \<Rightarrow> fmq_message list \<Rightarrow> fmq_message list \<Rightarrow> nat \<Rightarrow>
    ('d, 'o) readout_builder \<Rightarrow> (rdh_error + ('d, 'o) readout_builder) option" where
  "insert_spans B now alloc feemask og H ss span [] k b =
     (case addHbFrames B now (alloc k) og (fee_masked (rbCfg B) feemask ss) H span b of
        None \<Rightarrow> None | Some (Inl e) \<Rightarrow> Some (Inl e) | Some (Inr (_, b')) \<Rightarrow> Some (Inr b'))"
| "insert_spans B now alloc feemask og H ss span (h # hs) k b =
     (case RDHReader (rbRdh B) h of
        Inl _ \<Rightarrow> Some (Inr b)
      | Inr R \<Rightarrow>
          let nss = getSubSpecification (rbRdh B) (rbCfg B) R
          in if nss \<noteq> ss then
               (case addHbFrames B now (alloc k) og (fee_masked (rbCfg B) feemask ss) H span b of
                  None \<Rightarrow> None | Some (Inl e) \<Rightarrow> Some (Inl e)
                | Some (Inr (_, b')) \<Rightarrow> insert_spans B now alloc feemask og H nss [h] hs (k + 1) b')
             else insert_spans B now alloc feemask og H ss (span @ [h]) hs k b)"

text \<open>The part of the iteration after the checks: a change of the frame id without a stop flag
  finishes the current frame.\<close>

definition switch_stf :: "u32 \<Rightarrow> ('d, 'o) stf_input \<Rightarrow> ('d, 'o) stf_input" where
  "switch_stf tfid s =
     (let inb = getCurrentStfId (inBuilder s);
          s1 = s\<lparr>inStfIdBuilding := (case inb of Some i \<Rightarrow> i | None \<Rightarrow> tfid)\<rparr>
      in if tfid \<noteq> inStfIdBuilding s1 then
           (if inb \<noteq> None then finishBuildingCurrentStf False s1 else s1)\<lparr>inStfIdBuilding := tfid\<rparr>
         else s1)"

definition build_message :: "('d, 'o) rb_env \<Rightarrow> u64 \<Rightarrow> (nat \<Rightarrow> bool) \<Rightarrow> u32 \<Rightarrow> readout_multipart \<Rightarrow>
    ('d, 'o) stf_input \<Rightarrow> (rdh_error + ('d, 'o) stf_input) option" where
  "build_message B now alloc feemask m s0 =
     (let H = rmHdr m; s = switch_stf (rhTimeFrameId H) s0
      in case rmHbfs m of
           [] \<Rightarrow> Some (Inr (if rhLastTFMessage H then finishBuildingCurrentStf False s else s))
         | h # hs \<Rightarrow>
             (case RDHReader (rbRdh B) h of
                Inl _ \<Rightarrow> Some (Inr s)
              | Inr R1 \<Rightarrow>
                  (case insert_spans B now alloc feemask (getDataOrigin (rbRdh B) (rbCfg B) R1) H
                          (getSubSpecification (rbRdh B) (rbCfg B) R1) [h] hs 0 (inBuilder s) of
                     None \<Rightarrow> None
                   | Some (Inl e) \<Rightarrow> Some (Inl e)
                   | Some (Inr b) \<Rightarrow>
                       let s1 = s\<lparr>inBuilder := b\<rparr>
                       in Some (Inr (if rhLastTFMessage H then finishBuildingCurrentStf False s1
                                     else s1)))))"

text \<open>One iteration: \<open>popped\<close> is the outcome of \<open>pop_wait_for\<close>. The boolean says whether the loop
  goes on (the condition \<open>mRunning\<close> of the loop is the caller's).\<close>

definition builder_iteration :: "('d, 'o) rb_env \<Rightarrow> u64 \<Rightarrow> (nat \<Rightarrow> bool) \<Rightarrow> u32 \<Rightarrow>
    readout_multipart option option \<Rightarrow> ('d, 'o) stf_input \<Rightarrow>
    (rdh_error + bool \<times> ('d, 'o) stf_input) option" where
  "builder_iteration B now alloc feemask popped s =
     (case popped of
        None \<Rightarrow>
          if inRunning s then
            Some (Inr (True, if inStarted s then finishBuildingCurrentStf True s else s))
          else Some (Inr (False, s))
      | Some None \<Rightarrow> Some (Inr (True, s))
      | Some (Some m) \<Rightarrow>
          let s1 = s\<lparr>inStarted := True\<rparr>; H = rmHdr m
          in if rmHbfs m = [] \<and> \<not> rhLastTFMessage H then Some (Inr (True, s1))
             else if rmHbfs m \<noteq> [] \<and> rhIsRdhFormat H \<and>
               (case RDHReader (rbRdh B) (rmHbfs m ! 0) of Inl _ \<Rightarrow> True | Inr _ \<Rightarrow> False)
             then Some (Inr (True, s1))
             else
               (case build_message B now alloc feemask m s1 of
                  None \<Rightarrow> None
                | Some (Inl e) \<Rightarrow> Some (Inl e)
                | Some (Inr s2) \<Rightarrow> Some (Inr (True, s2))))"

section \<open>Topological building\<close>

definition topo_pages :: "u64 \<Rightarrow> u64" where
  "topo_pages v = std_clamp v 1 50000"

definition queueStf :: "('d, 'o) SubTimeFrame option \<Rightarrow> ('d, 'o) stf_input \<Rightarrow> ('d, 'o) stf_input" where
  "queueStf r s =
     (case r of
        None \<Rightarrow> s
      | Some f \<Rightarrow>
          let i = inTopoStfId s + 1
          in s\<lparr>inTopoStfId := i, inOut := inOut s @ [setOrigin eReadoutTopology (updateId i f)]\<rparr>)"

function finishBuildingCurrentStfs :: "('d, 'o) stf_input \<Rightarrow> ('d, 'o) stf_input" where
  "finishBuildingCurrentStfs s =
     (let (r, b) = getTopoStf (inBuilder s); s1 = s\<lparr>inBuilder := b\<rparr>
      in if r = None then s1 else finishBuildingCurrentStfs (queueStf r s1))"
  by pat_completeness auto
termination
  by (relation "measure (\<lambda>s. length (rbTopoStfMap (inBuilder s)))")
    (auto simp: getTopoStf_def queueStf_def Let_def split: list.splits prod.splits option.splits)

declare finishBuildingCurrentStfs.simps [simp del]

definition topo_iteration :: "('d, 'o) rb_env \<Rightarrow> u64 \<Rightarrow> bool \<Rightarrow> u32 \<Rightarrow> u64 \<Rightarrow>
    readout_multipart option option \<Rightarrow> ('d, 'o) stf_input \<Rightarrow> bool \<times> ('d, 'o) stf_input" where
  "topo_iteration B now alloc feemask pages popped s =
     (case popped of
        None \<Rightarrow>
          if inRunning s then (True, if inStarted s then finishBuildingCurrentStfs s else s)
          else (False, s)
      | Some None \<Rightarrow> (True, s)
      | Some (Some m) \<Rightarrow>
          (case rmHbfs m of
             [] \<Rightarrow> (True, s)
           | h # hs \<Rightarrow>
               let s1 = s\<lparr>inStarted := True\<rparr>
               in (case RDHReader (rbRdh B) h of
                     Inl _ \<Rightarrow> (True, s1)
                   | Inr R1 \<Rightarrow>
                       let (r, b) = addTopoStfData B now alloc
                             (getDataOrigin (rbRdh B) (rbCfg B) R1)
                             (fee_masked (rbCfg B) feemask (getSubSpecification (rbRdh B) (rbCfg B) R1))
                             (rmHdr m) (h # hs) (topo_pages pages) (inBuilder s1)
                       in (True, queueStf r (s1\<lparr>inBuilder := b\<rparr>)))))"

section \<open>Sequencing\<close>

definition sMaxMissingStfsForSeq :: u64 where
  "sMaxMissingStfsForSeq = 2 * 11234 div 256"

definition empty_stfs :: "u64 \<Rightarrow> u64 \<Rightarrow> nat \<Rightarrow> ('d, 'o) SubTimeFrame list" where
  "empty_stfs now start n =
     map (\<lambda>k. setOrigin OriginNull (SubTimeFrame_new now (start + of_nat k))) [0..<n]"

definition sequencer_step :: "u64 \<Rightarrow> ('d, 'o) SubTimeFrame option \<Rightarrow> ('d, 'o) stf_input \<Rightarrow>
    ('d, 'o) stf_input" where
  "sequencer_step now popped s =
     (case popped of
        None \<Rightarrow> s
      | Some f \<Rightarrow>
          if \<not> inAcceptingData s then s
          else
            let cur = hId (stfHeader f); prev = inLastSeqStfId s
            in if cur \<le> prev then s
               else if prev + 1 = cur then s\<lparr>inLastSeqStfId := cur, inOut := inOut s @ [f]\<rparr>
               else
                 let start = prev + 1; missing = cur - start;
                     s1 = (if missing < sMaxMissingStfsForSeq
                           then s\<lparr>inOut := inOut s @ empty_stfs now start (unat missing),
                                  inMissingStfs := inMissingStfs s + missing\<rparr>
                           else s)
                 in s1\<lparr>inLastSeqStfId := cur, inOut := inOut s1 @ [f]\<rparr>)"

end
