(* ===== verification/DD_SubTimeFrame_Props.thy ===== *)
theory DD_SubTimeFrame_Props
  imports DD_SubTimeFrame
begin

text \<open>
  Properties of the sub time frame: what the size computation and the header update produce,
  that the lazy size is current after every sequence of operations that merges only into
  frames that have not been sized, what a merge does to every message vector, and what it
  fails to invalidate.
\<close>

section \<open>The nested map\<close>

lemma vec_at_set:
  "vec_at (vec_set di ss v m) di' ss' = (if di' = di \<and> ss' = ss then v else vec_at m di' ss')"
  by (auto simp: vec_at_def vec_set_def update_conv' split: option.splits)

lemma vec_at_Nil [simp]: "vec_at [] di ss = []"
  by (simp add: vec_at_def)

definition sub_at :: "('d, 'o) StfSubSpecMap \<Rightarrow> u32 \<Rightarrow> ('d, 'o) StfDataVector" where
  "sub_at sub ss = (case map_of sub ss of None \<Rightarrow> [] | Some v \<Rightarrow> v)"

definition map_wf :: "('d, 'o) StfDataIdentMap \<Rightarrow> bool" where
  "map_wf m \<longleftrightarrow> distinct (map fst m) \<and> list_all (\<lambda>e. distinct (map fst (snd e))) m"

lemma vec_at_Cons:
  "vec_at ((di, sub) # m) di' ss = (if di' = di then sub_at sub ss else vec_at m di' ss)"
  by (simp add: vec_at_def sub_at_def)

lemma vec_at_absent: "di \<notin> fst ` set m \<Longrightarrow> vec_at m di ss = []"
  unfolding vec_at_def by (simp add: map_of_eq_None_iff [THEN iffD2])

lemma merge_subspecs_at:
  assumes "distinct (map fst sub)"
  shows "vec_at (merge_subspecs di sub dst) di' ss' =
    vec_at dst di' ss' @ (if di' = di then sub_at sub ss' else [])"
  using assms
proof (induction sub arbitrary: dst)
  case Nil
  then show ?case by (simp add: sub_at_def)
next
  case (Cons e sub)
  obtain ss v where e: "e = (ss, v)" by (cases e)
  have "map_of sub ss = None"
    using Cons.prems e by (simp add: map_of_eq_None_iff)
  then have "sub_at sub ss = []" by (simp add: sub_at_def)
  with Cons e show ?case by (auto simp: vec_at_set) (auto simp: sub_at_def)
qed

lemma merge_idents_at:
  assumes "map_wf src"
  shows "vec_at (merge_idents src dst) di ss = vec_at dst di ss @ vec_at src di ss"
  using assms
proof (induction src arbitrary: dst)
  case Nil
  then show ?case by simp
next
  case (Cons e src)
  obtain d sub where e: "e = (d, sub)" by (cases e)
  have "vec_at src d ss = []"
    using Cons.prems e by (intro vec_at_absent) (auto simp: map_wf_def)
  with Cons e show ?case
    by (auto simp: map_wf_def merge_subspecs_at vec_at_Cons)
qed

lemma set_update_sub: "set (AList.update k v m) \<subseteq> insert (k, v) (set m)"
  by (induction m) auto

lemma map_wf_vec_set: "map_wf m \<Longrightarrow> map_wf (vec_set di ss v m)"
  unfolding map_wf_def vec_set_def
proof (intro conjI)
  assume "distinct (map fst m) \<and> list_all (\<lambda>e. distinct (map fst (snd e))) m"
  then have d: "distinct (map fst m)"
    and l: "\<And>e. e \<in> set m \<Longrightarrow> distinct (map fst (snd e))" by (auto simp: list_all_iff)
  let ?sub = "case map_of m di of None \<Rightarrow> [] | Some sub \<Rightarrow> sub"
  show "distinct (map fst (AList.update di (AList.update ss v ?sub) m))"
    using d by (rule distinct_update)
  have "distinct (map fst ?sub)"
    using l [OF map_of_SomeD] by (simp split: option.splits)
  then have s: "distinct (map fst (AList.update ss v ?sub))" by (rule distinct_update)
  show "list_all (\<lambda>e. distinct (map fst (snd e)))
      (AList.update di (AList.update ss v ?sub) m)"
    using s l subsetD [OF set_update_sub [of di "AList.update ss v ?sub" m]]
    by (fastforce simp: list_all_iff)
qed

lemma map_wf_merge_subspecs: "map_wf dst \<Longrightarrow> map_wf (merge_subspecs di sub dst)"
  by (induction di sub dst rule: merge_subspecs.induct) (simp_all add: map_wf_vec_set)

lemma map_wf_merge_idents: "map_wf dst \<Longrightarrow> map_wf (merge_idents src dst)"
  by (induction src dst rule: merge_idents.induct) (simp_all add: map_wf_merge_subspecs)

section \<open>Sizes\<close>

text \<open>The bytes the frame accounts: those of the messages that have a header.\<close>

definition message_bytes :: "('d, 'o) StfMessage \<Rightarrow> nat" where
  "message_bytes msg = (if smHeader msg = None then 0 else message_size msg)"

definition vec_bytes :: "('d, 'o) StfDataVector \<Rightarrow> nat" where
  "vec_bytes v = sum_list (map message_bytes v)"

definition sub_bytes :: "('d, 'o) StfSubSpecMap \<Rightarrow> nat" where
  "sub_bytes sub = sum_list (map (\<lambda>e. vec_bytes (snd e)) sub)"

definition map_bytes :: "('d, 'o) StfDataIdentMap \<Rightarrow> nat" where
  "map_bytes m = sum_list (map (\<lambda>e. sub_bytes (snd e)) m)"

lemma sum_update:
  "sum_list (map (\<lambda>e. g (snd e)) (AList.update k v m)) +
     (case map_of m k of None \<Rightarrow> 0 | Some w \<Rightarrow> g w) = sum_list (map (\<lambda>e. g (snd e)) m) + (g v :: nat)"
  by (induction m) auto

lemma map_bytes_vec_set:
  "map_bytes (vec_set di ss v m) + vec_bytes (vec_at m di ss) = map_bytes m + vec_bytes v"
proof -
  let ?sub = "case map_of m di of None \<Rightarrow> [] | Some sub \<Rightarrow> sub"
  have a: "map_bytes (vec_set di ss v m) + sub_bytes ?sub
      = map_bytes m + sub_bytes (AList.update ss v ?sub)"
    using sum_update [of sub_bytes di "AList.update ss v ?sub" m]
    by (simp add: map_bytes_def vec_set_def sub_bytes_def split: option.splits)
  have b: "sub_bytes (AList.update ss v ?sub) + vec_bytes (vec_at m di ss)
      = sub_bytes ?sub + vec_bytes v"
    using sum_update [of vec_bytes ss v ?sub]
    by (cases "map_of m di"; cases "map_of ?sub ss") (simp_all add: sub_bytes_def vec_at_def vec_bytes_def)
  from a b show ?thesis by linarith
qed

lemma vec_bytes_append [simp]: "vec_bytes (v @ w) = vec_bytes v + vec_bytes w"
  by (simp add: vec_bytes_def)

lemma merge_subspecs_bytes:
  "map_bytes (merge_subspecs di sub dst) = map_bytes dst + sub_bytes sub"
proof (induction di sub dst rule: merge_subspecs.induct)
  case (1 di dst)
  then show ?case by (simp add: sub_bytes_def)
next
  case (2 di ss v m dst)
  then show ?case
    using map_bytes_vec_set [of di ss "vec_at dst di ss @ v" dst] by (simp add: sub_bytes_def)
qed

lemma merge_idents_bytes: "map_bytes (merge_idents src dst) = map_bytes dst + map_bytes src"
proof (induction src dst rule: merge_idents.induct)
  case (1 dst)
  then show ?case by (simp add: map_bytes_def)
next
  case (2 di sub m dst)
  have "map_bytes ((di, sub) # m) = sub_bytes sub + map_bytes m" by (simp add: map_bytes_def)
  with 2 show ?case by (simp add: merge_subspecs_bytes)
qed

section \<open>The update\<close>

definition updated_message :: "StfHeader \<Rightarrow> ('d, 'o) StfMessage \<Rightarrow> ('d, 'o) StfMessage" where
  "updated_message H msg =
     (if smDataParts msg = [] then msg
      else msg\<lparr>smHeader := map_option (update_header H (length (smDataParts msg))) (smHeader msg)\<rparr>)"

lemma fold_size: "fold (\<lambda>p t. t + of_nat (length p)) ps s = s + of_nat (sum_list (map length ps))"
  for s :: u64
  by (induction ps arbitrary: s) simp_all

lemma update_vector_eq:
  "update_vector H s v = (s + of_nat (vec_bytes v), map (updated_message H) v)"
  by (induction v arbitrary: s)
    (auto simp: vec_bytes_def message_bytes_def message_size_def updated_message_def fold_size
      split: option.splits)

lemma update_subspecs_eq:
  "update_subspecs H s m =
     (s + of_nat (sub_bytes m), map (\<lambda>e. (fst e, map (updated_message H) (snd e))) m)"
  by (induction m arbitrary: s) (auto simp: sub_bytes_def update_vector_eq)

lemma update_idents_eq:
  "update_idents H s m =
     (s + of_nat (map_bytes m),
      map (\<lambda>e. (fst e, map (\<lambda>x. (fst x, map (updated_message H) (snd x))) (snd e))) m)"
  by (induction m arbitrary: s) (auto simp: map_bytes_def update_subspecs_eq)

lemma map_of_map_snd: "map_of (map (\<lambda>e. (fst e, g (snd e))) m) k = map_option g (map_of m k)"
  by (induction m) auto

lemma update_idents_at:
  "vec_at (snd (update_idents H s m)) di ss = map (updated_message H) (vec_at m di ss)"
  by (simp add: update_idents_eq vec_at_def map_of_map_snd split: option.splits)

lemma message_bytes_updated [simp]: "message_bytes (updated_message H msg) = message_bytes msg"
  by (cases "smHeader msg") (simp_all add: message_bytes_def updated_message_def message_size_def)

lemma vec_bytes_updated [simp]: "vec_bytes (map (updated_message H) v) = vec_bytes v"
  by (simp add: vec_bytes_def comp_def)

lemma map_bytes_updated: "map_bytes (snd (update_idents H s m)) = map_bytes m"
  by (simp add: update_idents_eq map_bytes_def sub_bytes_def comp_def)

lemma map_wf_updated: "map_wf m \<Longrightarrow> map_wf (snd (update_idents H s m))"
  by (simp add: update_idents_eq map_wf_def comp_def list_all_iff)

lemma update_header_idem: "update_header H n (update_header H n h) = update_header H n h"
  by (simp add: update_header_def split_counters_def setTfCounter_RunNumber_def setFirstOrbit_def Let_def)

lemma updated_message_idem [simp]:
  "updated_message H (updated_message H msg) = updated_message H msg"
  by (simp add: updated_message_def update_header_idem option.map_comp comp_def)

section \<open>Lazy accounting\<close>

text \<open>What the frame promises: when its flag is set, the size is that of the data, and every
  header carries the meta data of the frame.\<close>

definition accounted :: "('d, 'o) SubTimeFrame \<Rightarrow> bool" where
  "accounted f \<longleftrightarrow> map_wf (stfData f) \<and>
     (stfDataUpdated f \<longrightarrow> stfDataSize f = of_nat (map_bytes (stfData f)) \<and>
       (\<forall>di ss. map (updated_message (stfHeader f)) (vec_at (stfData f) di ss) = vec_at (stfData f) di ss))"

lemma accounted_fresh: "\<not> stfDataUpdated f \<Longrightarrow> map_wf (stfData f) \<Longrightarrow> accounted f"
  by (simp add: accounted_def)

lemma updateStf_data:
  assumes "accounted f"
  shows "vec_at (stfData (updateStf f)) di ss = map (updated_message (stfHeader f)) (vec_at (stfData f) di ss)"
    and "stfDataSize (updateStf f) = of_nat (map_bytes (stfData f))"
    and "map_bytes (stfData (updateStf f)) = map_bytes (stfData f)"
    and "stfHeader (updateStf f) = stfHeader f"
    and "map_wf (stfData (updateStf f))"
proof -
  obtain s m where sm: "update_idents (stfHeader f) 0 (stfData f) = (s, m)" by fastforce
  have s: "s = of_nat (map_bytes (stfData f))"
    using sm by (simp add: update_idents_eq)
  note m = update_idents_at [of "stfHeader f" 0 "stfData f" di ss]
    map_bytes_updated [of "stfHeader f" 0 "stfData f"] map_wf_updated [of "stfData f" "stfHeader f" 0]
  show "vec_at (stfData (updateStf f)) di ss = map (updated_message (stfHeader f)) (vec_at (stfData f) di ss)"
    and "stfDataSize (updateStf f) = of_nat (map_bytes (stfData f))"
    and "map_bytes (stfData (updateStf f)) = map_bytes (stfData f)"
    and "stfHeader (updateStf f) = stfHeader f"
    and "map_wf (stfData (updateStf f))"
    using assms m s sm unfolding accounted_def updateStf_def
    by (cases "stfDataUpdated f"; simp)+
qed

lemma updated_message_inv:
  "smDataParts (updated_message H msg) = smDataParts msg"
  by (simp add: updated_message_def)

lemma updateStf_accounted:
  assumes "accounted f" shows "accounted (updateStf f)"
  unfolding accounted_def using updateStf_data [OF assms] by (simp add: comp_def)

lemma update_header_origin [simp]:
  "update_header (H\<lparr>hOrigin := og\<rparr>) = update_header H"
  "update_header (H\<lparr>hCreationTimeMs := t\<rparr>) = update_header H"
  by (simp_all add: fun_eq_iff update_header_def Let_def)

lemma updated_message_origin [simp]:
  "updated_message (H\<lparr>hOrigin := og\<rparr>) = updated_message H"
  "updated_message (H\<lparr>hCreationTimeMs := t\<rparr>) = updated_message H"
  by (simp_all add: fun_eq_iff updated_message_def)

inductive stf_op :: "('d, 'o) SubTimeFrame \<Rightarrow> ('d, 'o) SubTimeFrame \<Rightarrow> bool" where
  op_origin: "stf_op f (setOrigin og f)"
| op_clear: "stf_op f (stf_clear f)"
| op_id: "stf_op f (updateId i f)"
| op_orbit: "stf_op f (updateFirstOrbit orb f)"
| op_run: "stf_op f (updateRunNumber r f)"
| op_time: "stf_op f (updateCreationTimeMs t f)"
| op_readout: "stf_op f (snd (addStfDataReadout di ss d f))"
| op_start: "stf_op f (snd (addStfDataStart di ss d f))"
| op_append: "stf_op f (addStfDataAppend q part f)"
| op_update: "stf_op f (updateStf f)"
| op_merge: "\<not> stfDataUpdated f \<Longrightarrow> stf_op f (snd (mergeStf p f))"

inductive stf_reach :: "('d, 'o) SubTimeFrame \<Rightarrow> bool" where
  reach_new: "stf_reach (SubTimeFrame_new now i)"
| reach_op: "stf_reach f \<Longrightarrow> stf_op f g \<Longrightarrow> stf_reach g"

lemma mergeStf_updated: "stfDataUpdated (snd (mergeStf p f)) = stfDataUpdated f"
  by (simp add: mergeStf_def Let_def)

lemma mergeStf_wf: "map_wf (stfData f) \<Longrightarrow> map_wf (stfData (snd (mergeStf p f)))"
  by (simp add: mergeStf_def Let_def map_wf_merge_idents)

lemma stf_op_accounted: "stf_op f g \<Longrightarrow> accounted f \<Longrightarrow> accounted g"
proof (induction rule: stf_op.induct)
  case (op_origin f og)
  then show ?case by (simp add: accounted_def setOrigin_def)
next
  case (op_update f)
  then show ?case by (simp add: updateStf_accounted)
next
  case (op_time f t)
  then show ?case by (simp add: accounted_def updateCreationTimeMs_def)
next
  case (op_merge f p)
  then show ?case
    by (intro accounted_fresh) (simp_all add: mergeStf_updated mergeStf_wf accounted_def)
qed (auto simp: accounted_def stf_clear_def updateId_def updateFirstOrbit_def updateRunNumber_def
    addStfDataReadout_def addStfDataStart_def addStfDataAppend_def Let_def map_wf_vec_set
    map_wf_def [of "[]"] split: option.splits prod.splits)

lemma reach_accounted: "stf_reach f \<Longrightarrow> accounted f"
proof (induction rule: stf_reach.induct)
  case (reach_new now i)
  then show ?case by (simp add: SubTimeFrame_new_def accounted_def map_wf_def)
next
  case (reach_op f g)
  then show ?case by (blast intro: stf_op_accounted)
qed

section \<open>Properties\<close>

lemma vec_updated:
  assumes "accounted f" "msg \<in> set (vec_at (stfData (updateStf f)) di ss)"
    "smHeader msg = Some h" "smDataParts msg \<noteq> []"
  shows "\<exists>h0. h = update_header (stfHeader f) (length (smDataParts msg)) h0"
  using assms by (auto simp: updateStf_data updated_message_def split: if_splits)

definition header_current :: "StfHeader \<Rightarrow> nat \<Rightarrow> ('d, 'o) DataHeader \<Rightarrow> bool" where
  "header_current H n h \<longleftrightarrow>
     tfCounter h = ucast (hId H) \<and> runNumber h = hRunNumber H \<and>
     splitPayloadParts h = of_nat n \<and>
     splitPayloadIndex h = (if n = 1 then 0 else splitPayloadParts h) \<and>
     (hFirstOrbit H = - 1 \<or> firstTForbit h = hFirstOrbit H)"

lemma update_header_current:
  assumes "0 < n" shows "header_current H n (update_header H n h)"
proof -
  from assms consider "n = 1" | "1 < n" by linarith
  then show ?thesis
    by cases (simp_all add: header_current_def update_header_def split_counters_def
        setTfCounter_RunNumber_def setFirstOrbit_def Let_def)
qed

text \<open>After any sequence of operations on a sub time frame that merges only into frames
  that have not been sized yet, \<open>getDataSize\<close> returns the number of data bytes of all messages
  that have a header (modulo \<open>2^64\<close>), leaves every data part as it is, and leaves in every
  header with data the low 32 bits of the frame id, the run number, the split-payload
  counters of the message and, if the frame knows it, the first orbit.\<close>

theorem data_size_current:
  assumes "stf_reach f"
  shows "fst (getDataSize f) = of_nat (map_bytes (stfData f)) \<and>
    (\<forall>di ss. map smDataParts (vec_at (stfData (snd (getDataSize f))) di ss)
          = map smDataParts (vec_at (stfData f) di ss)) \<and>
    (\<forall>di ss msg h. msg \<in> set (vec_at (stfData (snd (getDataSize f))) di ss) \<and>
          smHeader msg = Some h \<and> smDataParts msg \<noteq> [] \<longrightarrow>
          header_current (stfHeader f) (length (smDataParts msg)) h)"
proof (intro conjI allI impI)
  note acc = reach_accounted [OF assms]
  show "fst (getDataSize f) = of_nat (map_bytes (stfData f))"
    using updateStf_data [OF acc] by (simp add: getDataSize_def)
  show "map smDataParts (vec_at (stfData (snd (getDataSize f))) di ss)
          = map smDataParts (vec_at (stfData f) di ss)" for di ss
    using updateStf_data [OF acc] by (simp add: getDataSize_def updated_message_inv)
  fix di ss msg h
  assume m: "msg \<in> set (vec_at (stfData (snd (getDataSize f))) di ss) \<and>
          smHeader msg = Some h \<and> smDataParts msg \<noteq> []"
  then obtain h0 where h0: "h = update_header (stfHeader f) (length (smDataParts msg)) h0"
    using vec_updated [OF acc, of msg di ss h] by (auto simp: getDataSize_def)
  show "header_current (stfHeader f) (length (smDataParts msg)) h"
    using m unfolding h0 by (intro update_header_current) simp
qed

definition ex_header :: "(nat, nat) DataHeader" where
  "ex_header = \<lparr>dhDescription = 1, dhOrigin = 2, dhSubSpecification = 7, splitPayloadIndex = 0,
     splitPayloadParts = 0, firstTForbit = 0, tfCounter = 0, runNumber = 0\<rparr>"

definition ex_frame :: "(nat, nat) SubTimeFrame" where
  "ex_frame = snd (addStfDataStart (1, 2) 7 \<lparr>sdHeader = Some ex_header, sdData = [1, 2, 3]\<rparr>
     (SubTimeFrame_new 5 9))"

lemma ex_frame_reach: "stf_reach ex_frame"
  unfolding ex_frame_def by (rule reach_op [OF reach_new op_start])

lemma ex_frame_bytes: "map_bytes (stfData ex_frame) = 3"
  by (simp add: ex_frame_def addStfDataStart_def SubTimeFrame_new_def vec_set_def push_part_def
      map_bytes_def sub_bytes_def vec_bytes_def message_bytes_def message_size_def)

theorem data_size_current_witness: "fst (getDataSize ex_frame) = 3"
  using data_size_current [OF ex_frame_reach] ex_frame_bytes by simp

text \<open>Merging.\<close>

lemma mergeStf_at:
  assumes "map_wf (stfData p)" "hOrigin (stfHeader p) \<noteq> OriginNull"
  shows "vec_at (stfData (snd (mergeStf p f))) di ss
      = vec_at (stfData f) di ss @ vec_at (stfData p) di ss"
    and "map_bytes (stfData (snd (mergeStf p f))) = map_bytes (stfData f) + map_bytes (stfData p)"
  using assms by (simp_all add: mergeStf_def Let_def merge_idents_at merge_idents_bytes)

lemma mergeStf_header:
  assumes "hOrigin (stfHeader p) \<noteq> OriginNull"
  shows "stfHeader (snd (mergeStf p f)) =
    (if hOrigin (stfHeader f) = OriginNull then stfHeader p else stfHeader f)"
  using assms by (simp add: mergeStf_def Let_def)

lemma repeated_iff:
  assumes "distinct es"
  shows "EquipmentPresent e \<in> set (repeated_equipment U es) \<longleftrightarrow> e \<in> U \<and> e \<in> set es"
  using assms by (induction es arbitrary: U) auto

lemma equipment_of:
  "set (getEquipmentIdentifiers f) =
     {eid_of di ss | di ss sub. (di, sub) \<in> set (stfData f) \<and> ss \<in> fst ` set sub}"
  by (force simp: getEquipmentIdentifiers_def)

lemma distinct_equipment: "map_wf (stfData f) \<Longrightarrow> distinct (getEquipmentIdentifiers f)"
proof -
  have "distinct (map fst m) \<and> list_all (\<lambda>e. distinct (map fst (snd e))) m \<Longrightarrow>
    distinct (concat (map (\<lambda>e. map (\<lambda>s. eid_of (fst e) (fst s)) (snd e)) m))"
    for m :: "('a, 'b) StfDataIdentMap"
  proof (induction m)
    case Nil
    then show ?case by simp
  next
    case (Cons e m)
    obtain di sub where e: "e = (di, sub)" by (cases e)
    have "distinct (map (\<lambda>s. eid_of di (fst s)) sub)"
      using Cons.prems e by (auto simp: distinct_map inj_on_def)
    moreover have "di \<notin> fst ` set m" using Cons.prems e by simp
    ultimately show ?case using Cons e by (force simp: image_iff)
  qed
  then show "map_wf (stfData f) \<Longrightarrow> distinct (getEquipmentIdentifiers f)"
    by (simp add: getEquipmentIdentifiers_def map_wf_def)
qed

text \<open>C20. Merging a sub time frame loses and reorders nothing: every message vector of the
  result is that of the target followed by that of the merged frame, and an equipment present
  in both is reported and its messages are kept. The header is that of the target unless the
  target is a null frame. If the target has not been sized, its size afterwards is the number
  of bytes of both.\<close>

theorem merge_conserves:
  assumes p: "map_wf (stfData p)" "hOrigin (stfHeader p) \<noteq> OriginNull"
    and f: "map_wf (stfData f)" "\<not> stfDataUpdated f"
  shows "(\<forall>di ss. vec_at (stfData (snd (mergeStf p f))) di ss
            = vec_at (stfData f) di ss @ vec_at (stfData p) di ss) \<and>
    (\<forall>e. EquipmentPresent e \<in> set (fst (mergeStf p f)) \<longleftrightarrow>
          e \<in> set (getEquipmentIdentifiers f) \<and> e \<in> set (getEquipmentIdentifiers p)) \<and>
    stfHeader (snd (mergeStf p f)) =
      (if hOrigin (stfHeader f) = OriginNull then stfHeader p else stfHeader f) \<and>
    fst (getDataSize (snd (mergeStf p f))) = of_nat (map_bytes (stfData f) + map_bytes (stfData p))"
proof (intro conjI allI)
  show "vec_at (stfData (snd (mergeStf p f))) di ss
      = vec_at (stfData f) di ss @ vec_at (stfData p) di ss" for di ss
    by (rule mergeStf_at [OF p])
  show "stfHeader (snd (mergeStf p f)) =
      (if hOrigin (stfHeader f) = OriginNull then stfHeader p else stfHeader f)"
    by (rule mergeStf_header [OF p(2)])
  have acc: "accounted (snd (mergeStf p f))"
    using f by (intro accounted_fresh) (simp_all add: mergeStf_updated mergeStf_wf)
  show "fst (getDataSize (snd (mergeStf p f))) = of_nat (map_bytes (stfData f) + map_bytes (stfData p))"
    unfolding getDataSize_def fst_conv updateStf_data(2) [OF acc] mergeStf_at(2) [OF p] ..
  have eq: "getEquipmentIdentifiers (f\<lparr>stfHeader := H\<rparr>) = getEquipmentIdentifiers f" for H
    by (simp add: getEquipmentIdentifiers_def)
  show "EquipmentPresent e \<in> set (fst (mergeStf p f)) \<longleftrightarrow>
          e \<in> set (getEquipmentIdentifiers f) \<and> e \<in> set (getEquipmentIdentifiers p)" for e
    using p(2) repeated_iff [OF distinct_equipment [OF p(1)]]
    by (simp add: mergeStf_def Let_def eq)
qed

definition ex_frame2 :: "(nat, nat) SubTimeFrame" where
  "ex_frame2 = setOrigin eReadout ex_frame"

lemma ex_frame2_facts:
  "map_wf (stfData ex_frame2)" "hOrigin (stfHeader ex_frame2) \<noteq> OriginNull"
  "\<not> stfDataUpdated ex_frame2" "map_bytes (stfData ex_frame2) = 3" "stf_reach ex_frame2"
proof -
  show r: "stf_reach ex_frame2"
    unfolding ex_frame2_def by (rule reach_op [OF ex_frame_reach op_origin])
  show "map_wf (stfData ex_frame2)" using reach_accounted [OF r] by (simp add: accounted_def)
  show "hOrigin (stfHeader ex_frame2) \<noteq> OriginNull" "\<not> stfDataUpdated ex_frame2"
    by (simp_all add: ex_frame2_def ex_frame_def addStfDataStart_def SubTimeFrame_new_def
        setOrigin_def Header_new_def)
  have "stfData ex_frame2 = stfData ex_frame" by (simp add: ex_frame2_def setOrigin_def)
  then show "map_bytes (stfData ex_frame2) = 3" using ex_frame_bytes by simp
qed

theorem merge_conserves_witness:
  "fst (getDataSize (snd (mergeStf ex_frame2 ex_frame2))) = 6"
  using merge_conserves [OF ex_frame2_facts(1,2,1,3)] ex_frame2_facts(4) by simp

text \<open>A merge does not invalidate the computed size: after merging into a frame whose size
  has already been asked for, \<open>getDataSize\<close> still answers the old size, short of the number of
  bytes the merge brought, and the headers of the merged messages are not updated.\<close>

theorem merge_after_sizing_stale:
  assumes f: "stf_reach f" and p: "map_wf (stfData p)" "hOrigin (stfHeader p) \<noteq> OriginNull"
  shows "fst (getDataSize (snd (mergeStf p (snd (getDataSize f))))) = fst (getDataSize f) \<and>
    map_bytes (stfData (snd (mergeStf p (snd (getDataSize f)))))
      = map_bytes (stfData f) + map_bytes (stfData p) \<and>
    vec_at (stfData (snd (getDataSize (snd (mergeStf p (snd (getDataSize f))))))) di ss
      = vec_at (stfData (snd (getDataSize f))) di ss @ vec_at (stfData p) di ss"
proof -
  note acc = reach_accounted [OF f]
  have up: "stfDataUpdated (updateStf f)" by (auto simp: updateStf_def split: prod.splits)
  have same: "updateStf (snd (mergeStf p (updateStf f))) = snd (mergeStf p (updateStf f))"
    using up by (subst updateStf_def) (simp add: mergeStf_updated)
  have size: "stfDataSize (snd (mergeStf p (updateStf f))) = stfDataSize (updateStf f)"
    by (simp add: mergeStf_def Let_def)
  show ?thesis
    unfolding getDataSize_def snd_conv fst_conv same size
    using mergeStf_at [OF p] updateStf_data(3) [OF acc] by simp
qed

theorem merge_after_sizing_stale_witness:
  "fst (getDataSize (snd (mergeStf ex_frame2 (snd (getDataSize ex_frame2))))) = 3 \<and>
   map_bytes (stfData (snd (mergeStf ex_frame2 (snd (getDataSize ex_frame2))))) = 6"
proof -
  have "fst (getDataSize ex_frame2) = 3"
    using updateStf_data(2) [OF reach_accounted [OF ex_frame2_facts(5)]] ex_frame2_facts(4)
    by (simp add: getDataSize_def)
  then show ?thesis
    using merge_after_sizing_stale [OF ex_frame2_facts(5,1,2)] ex_frame2_facts(4) by simp
qed

end
