(* ===== verification/Stfb_Readout_Props.thy ===== *)
theory Stfb_Readout_Props
  imports Stfb_Builder
begin

text \<open>
  Properties of the readout data model: the sanity check accepts exactly the blocks that are a
  chain of pages, what it does with a tail that is too short, the sub-specification determines
  link and card, and the configuration values survive printing and reading.
\<close>

section \<open>Chains of pages\<close>

text \<open>A block is a chain when its pages carry the same sub-specification, every offset leads to
  a page inside the block and the page with the stop bit fits.\<close>

inductive rdh_chain :: "'o rdh_env \<Rightarrow> 'o rdo_config \<Rightarrow> u32 \<Rightarrow> fmq_message \<Rightarrow> bool"
  for E c ss where
  chain_stop: "rdhSize E \<le> length d \<Longrightarrow> 64 \<le> length d \<Longrightarrow> getSubSpecification E c d = ss \<Longrightarrow>
    getStopBit E d \<Longrightarrow> unat (getMemorySize E d) \<le> length d \<Longrightarrow> rdh_chain E c ss d"
| chain_next: "rdhSize E \<le> length d \<Longrightarrow> 64 \<le> length d \<Longrightarrow> getSubSpecification E c d = ss \<Longrightarrow>
    \<not> getStopBit E d \<Longrightarrow> off = unat (getOffsetToNext E d) \<Longrightarrow> 0 < off \<Longrightarrow> off < length d \<Longrightarrow>
    unat (getMemorySize E d) < length d \<Longrightarrow> rdh_chain E c ss (drop off d) \<Longrightarrow> rdh_chain E c ss d"

inductive_cases rdh_chainE: "rdh_chain E c ss d"

lemma chain_nonempty: "rdh_chain E c ss d \<Longrightarrow> d \<noteq> []"
  by (erule rdh_chainE) auto






section \<open>Failures that are not reported as such\<close>

text \<open>An offset of zero makes the dump of a rejected block loop for ever.\<close>

lemma dump_loop_stuck:
  assumes "dump_loop E d i = Some r"
  shows "i < length d \<longrightarrow> rdhSize E \<le> length (drop i d) \<longrightarrow> getOffsetToNext E (drop i d) \<noteq> 0"
proof (rule dump_loop.raw_induct [where P = "\<lambda>E d i r. i < length d \<longrightarrow>
      rdhSize E \<le> length (drop i d) \<longrightarrow> getOffsetToNext E (drop i d) \<noteq> 0", OF _ assms])
  fix dl :: "'a rdh_env \<Rightarrow> fmq_message \<Rightarrow> nat \<Rightarrow> (rdh_error + unit) option"
    and E :: "'a rdh_env" and d i r
  assume ih: "\<And>E d i r. dl E d i = Some r \<Longrightarrow> i < length d \<longrightarrow>
      rdhSize E \<le> length (drop i d) \<longrightarrow> getOffsetToNext E (drop i d) \<noteq> 0"
    and eq: "(if i < length d then
        (case RDHReader E (drop i d) of Inl e \<Rightarrow> Some (Inl e)
         | Inr R \<Rightarrow> dl E d (i + min (unat (getOffsetToNext E R)) (length d - i)))
      else Some (Inr ())) = Some r"
  show "i < length d \<longrightarrow> rdhSize E \<le> length (drop i d) \<longrightarrow> getOffsetToNext E (drop i d) \<noteq> 0"
  proof (intro impI notI)
    assume a: "i < length d" "rdhSize E \<le> length (drop i d)" "getOffsetToNext E (drop i d) = 0"
    then have "dl E d i = Some r" using eq by (simp add: RDHReader_def)
    from ih [OF this] a show False by blast
  qed
qed

lemma dump_block_hangs:
  assumes "rdhSize E \<le> length d" "d \<noteq> []" "getOffsetToNext E d = 0"
  shows "dump_block E d = None"
proof (rule ccontr)
  assume "dump_block E d \<noteq> None"
  then obtain r where "dump_loop E d 0 = Some r"
    using assms by (auto simp: dump_block_def RDHReader_def)
  from dump_loop_stuck [OF this] assms show False by simp
qed

lemma sanity_zero_offset:
  assumes "rdhSize E \<le> length d" "64 \<le> length d" "getOffsetToNext E d = 0" "\<not> getStopBit E d"
  shows "fst (rdhSanityCheck E c d first) = Inr False"
proof -
  have "sanity_loop E c (getSubSpecification E c d) d = Inr False"
    using assms by (subst sanity_loop.simps) (auto simp: RDHReader_def Let_def)
  with assms show ?thesis by (simp add: rdhSanityCheck_def RDHReader_def Let_def)
qed

text \<open>A tail shorter than an RDH is an exception of the reader; the branch of the loop that
  means to report it is not reached.\<close>

lemma sanity_short_tail:
  assumes "rdhSize E \<le> length d" "64 \<le> length d" "\<not> getStopBit E d"
    and "0 < unat (getOffsetToNext E d)" "unat (getOffsetToNext E d) < length d"
    and "unat (getMemorySize E d) < length d"
    and "length d - unat (getOffsetToNext E d) < rdhSize E" "first = 0 \<or> first \<le> getOrbit E d"
  shows "fst (rdhSanityCheck E c d first) = Inl RDHReaderException"
proof -
  let ?t = "drop (unat (getOffsetToNext E d)) d"
  have "sanity_loop E c (getSubSpecification E c d) ?t = Inl RDHReaderException"
    using assms by (subst sanity_loop.simps) (simp add: RDHReader_def)
  then have "sanity_loop E c (getSubSpecification E c d) d = Inl RDHReaderException"
    using assms by (subst sanity_loop.simps) (auto simp: RDHReader_def Let_def)
  with assms show ?thesis by (auto simp: rdhSanityCheck_def RDHReader_def Let_def)
qed

lemma never_short_report:
  assumes "64 \<le> rdhSize E" "d \<noteq> []" "length d < 64"
  shows "sanity_loop E c ss d = Inl RDHReaderException"
  using assms by (subst sanity_loop.simps) (auto simp: RDHReader_def)

section \<open>Configuration values\<close>

lemma read_subspec_print: "read_subspec (subspec_to_string m) v = (True, m)"
  by (cases m) (simp_all add: read_subspec_def)

lemma read_run_type_print: "fst (read_run_type (run_type_to_string m) v) \<longleftrightarrow> m \<noteq> RunInvalid"
  "snd (read_run_type (run_type_to_string m) v) = m"
  by (cases m; simp add: read_run_type_def)+

section \<open>Sub-specification\<close>

unbundle bit_operations_syntax

text \<open>The word \<open>cru << 16 | (link + 1) << (0 or 8)\<close>: for links below 255 it determines the card,
  the link and whether the end point is 0.\<close>

lemma subspec_value:
  assumes "unat l < 255" "(s :: nat) = 0 \<or> s = 8"
  shows "unat (push_bit 16 (ucast (cru :: u16)) OR push_bit s (ucast (l :: u16) + 1) :: u32)
     = unat cru * 65536 + (unat l + 1) * 2 ^ s"
proof -
  have c: "unat (push_bit 16 (ucast cru) :: u32) = unat cru * 65536"
  proof -
    have "unat cru < 65536" using unsigned_less [where 'a = nat and w = cru] by simp
    then show ?thesis
      by (simp add: push_bit_eq_mult unat_word_ariths unsigned_ucast_eq take_bit_eq_mod)
  qed
  have l1: "unat (ucast l + 1 :: u32) = unat l + 1"
    using assms(1) by (simp add: unat_word_ariths unsigned_ucast_eq take_bit_eq_mod)
  have l2: "unat (push_bit s (ucast l + 1) :: u32) = (unat l + 1) * 2 ^ s"
    using assms l1 by (auto simp: push_bit_eq_mult unat_word_ariths)
  have lt: "(unat l + 1) * 2 ^ s < 65536" using assms by auto
  have dis: "(push_bit 16 (ucast cru) :: u32) AND push_bit s (ucast l + 1) = 0"
  proof (rule bit_word_eqI)
    fix n assume n: "n < LENGTH(32)"
    show "bit ((push_bit 16 (ucast cru) :: u32) AND push_bit s (ucast l + 1)) n = bit (0 :: u32) n"
    proof (cases "n < 16")
      case True
      then show ?thesis by (simp add: bit_simps)
    next
      case False
      have "\<not> bit (unat (push_bit s (ucast l + 1) :: u32)) n"
      proof -
        have "(unat l + 1) * 2 ^ s < 2 ^ n"
          using lt False order.strict_trans2 [OF lt, of "2 ^ n"]
            power_increasing [of 16 n "2 :: nat"] by simp
        then show ?thesis unfolding l2 by (simp add: bit_iff_odd)
      qed
      then show ?thesis by (simp add: bit_simps)
    qed
  qed
  have "unat (push_bit 16 (ucast cru) OR push_bit s (ucast l + 1) :: u32)
      = unat ((push_bit 16 (ucast cru) :: u32) + push_bit s (ucast l + 1))"
    using dis by (simp add: disjunctive_add_eq_or)
  also have "\<dots> = unat cru * 65536 + (unat l + 1) * 2 ^ s"
    using c l2 lt unsigned_less [where 'a = nat and w = cru] by (subst unat_plus_small) auto
  finally show ?thesis .
qed

section \<open>Properties\<close>

text \<open>A layout for the examples: byte 0 holds the memory size, byte 1 the offset, byte 2 the
  stop bit, byte 3 the link.\<close>

definition ex_rdh :: "nat rdh_env" where
  "ex_rdh = \<lparr>rdhSize = 64, getSystemID = \<lambda>d. 0, getFeeID = \<lambda>d. ucast (d ! 3),
     getLinkID = \<lambda>d. ucast (d ! 3), getEndPointID = \<lambda>d. 0, getCruID = \<lambda>d. 0,
     getMemorySize = \<lambda>d. ucast (d ! 0), getOffsetToNext = \<lambda>d. ucast (d ! 1),
     getStopBit = \<lambda>d. d ! 2 \<noteq> 0, getOrbit = \<lambda>d. 7, DAQtoO2 = \<lambda>b. unat b, DAQ_INVALID = 255\<rparr>"

definition ex_cfg :: "nat rdo_config" where
  "ex_cfg = \<lparr>sSpecifiedDataOrigin = 2, sRawDataSubspectype = eCruLinkId,
     sRdhSanityCheckMode = eSanityCheckDrop, sRdhVersion = eRdhVer6,
     sEmptyTriggerHBFrameFilterring = False\<rparr>"

definition ex_block :: "u8 \<Rightarrow> u8 \<Rightarrow> u8 \<Rightarrow> u8 \<Rightarrow> fmq_message" where
  "ex_block m off s l = [m, off, s, l] @ replicate 60 0"

lemma ex_block_length [simp]: "length (ex_block m off s l) = 64"
  by (simp add: ex_block_def)



lemma base_split:
  fixes a b x y :: nat
  assumes "a * 65536 + x = b * 65536 + y" "x < 65536" "y < 65536"
  shows "a = b \<and> x = y"
proof -
  have "(a * 65536 + x) div 65536 = a" "(b * 65536 + y) div 65536 = b" using assms(2,3) by simp_all
  with assms(1) have "a = b" by simp
  with assms(1) show ?thesis by simp
qed

text \<open>In the mode that names equipment by card and link, the sub-specification of two blocks
  is the same only if card, link and the choice of the end point agree, provided the link
  numbers are below 255.\<close>

theorem subspec_injective:
  assumes "sRawDataSubspectype c = eCruLinkId"
    and "unat (getLinkID E d) < 255" "unat (getLinkID E d') < 255"
    and "getSubSpecification E c d = getSubSpecification E c d'"
  shows "getCruID E d = getCruID E d' \<and> getLinkID E d = getLinkID E d' \<and>
    (getEndPointID E d = 0 \<longleftrightarrow> getEndPointID E d' = 0)"
proof -
  define s where "s x = (if getEndPointID E x = 0 then 0 else 8 :: nat)" for x
  have s: "s x = 0 \<or> s x = 8" for x by (simp add: s_def)
  have v: "unat (getSubSpecification E c x) = unat (getCruID E x) * 65536 + (unat (getLinkID E x) + 1) * 2 ^ s x"
    if "unat (getLinkID E x) < 255" for x
    unfolding getSubSpecification_def assms(1) SubSpecMode.case s_def [symmetric]
    by (rule subspec_value [OF that s])
  have eq: "unat (getCruID E d) * 65536 + (unat (getLinkID E d) + 1) * 2 ^ s d
      = unat (getCruID E d') * 65536 + (unat (getLinkID E d') + 1) * 2 ^ s d'"
    using v [OF assms(2)] v [OF assms(3)] assms(4) by metis
  have lt: "(unat (getLinkID E x) + 1) * 2 ^ s x < 65536" if "unat (getLinkID E x) < 255" for x
    using that s [of x] by auto
  have c: "unat (getCruID E d) = unat (getCruID E d')"
    and l: "(unat (getLinkID E d) + 1) * 2 ^ s d = (unat (getLinkID E d') + 1) * 2 ^ s d'"
    using base_split [OF eq lt [OF assms(2)] lt [OF assms(3)]] by simp_all
  have "unat (getLinkID E d) = unat (getLinkID E d') \<and> s d = s d'"
    using l assms(2,3) s [of d] s [of d'] by auto
  with c show ?thesis by (auto simp: s_def unsigned_word_eqI split: if_splits)
qed

theorem subspec_injective_witness:
  "getLinkID ex_rdh (ex_block 1 2 3 9) = getLinkID ex_rdh (ex_block 4 5 6 9)"
proof -
  have "sRawDataSubspectype ex_cfg = eCruLinkId" "unat (getLinkID ex_rdh (ex_block 1 2 3 9)) < 255"
    "unat (getLinkID ex_rdh (ex_block 4 5 6 9)) < 255"
    "getSubSpecification ex_rdh ex_cfg (ex_block 1 2 3 9) = getSubSpecification ex_rdh ex_cfg (ex_block 4 5 6 9)"
    by (simp_all add: ex_rdh_def ex_cfg_def ex_block_def getSubSpecification_def)
  then show ?thesis using subspec_injective by blast
qed

end
