(* ===== verification/Stfb_Builder_Props.thy ===== *)
theory Stfb_Builder_Props
  imports Stfb_Input DD_SubTimeFrame_Props Stfb_Readout_Props
begin

text \<open>
  Properties of the StfBuilder: the blocks of a readout message reach the vector of their
  equipment in order, an allocation failure turns the frame into a null frame, malformed blocks
  stop or hang the building thread, topological aggregation and its flush.
\<close>

section \<open>Data parts of a frame\<close>

definition parts_of :: "('d, 'o) SubTimeFrame \<Rightarrow> ('d, 'o) DataIdentifier \<Rightarrow> u32 \<Rightarrow> fmq_message list" where
  "parts_of f di ss = concat (map smDataParts (vec_at (stfData f) di ss))"





section \<open>Adding the blocks of one call\<close>

definition kept :: "(bool \<times> fmq_message) list \<Rightarrow> fmq_message list" where
  "kept bs = map snd (filter (\<lambda>b. \<not> fst b) bs)"

lemma kept_simps [simp]:
  "kept [] = []" "kept ((True, h) # bs) = kept bs" "kept ((False, h) # bs) = h # kept bs"
  by (simp_all add: kept_def)


lemma add_blocks_no_alloc:
  "add_blocks B False og ss bs None f = (if kept bs = [] then Some f else None)"
proof (induction bs)
  case (Cons b bs)
  then show ?case by (cases b; cases "fst b") auto
qed simp

section \<open>Readout messages\<close>

definition builder_parts :: "('d, 'o) readout_builder \<Rightarrow> ('d, 'o) DataIdentifier \<Rightarrow> u32 \<Rightarrow>
    fmq_message list" where
  "builder_parts b di ss = (case rbStf b of None \<Rightarrow> [] | Some f \<Rightarrow> parts_of f di ss)"

text \<open>A builder that accepts data for the frame \<open>tfid\<close>.\<close>

definition collecting :: "u32 \<Rightarrow> ('d, 'o) readout_builder \<Rightarrow> bool" where
  "collecting tfid b \<longleftrightarrow> rbRunning b \<and> rbAcceptStfData b \<and>
     (case rbStf b of None \<Rightarrow> True
      | Some f \<Rightarrow> hOrigin (stfHeader f) = OriginInvalid \<and> ucast (hId (stfHeader f)) = tfid)"

definition plain_config :: "'o rdo_config \<Rightarrow> bool" where
  "plain_config c \<longleftrightarrow>
     \<not> sEmptyTriggerHBFrameFilterring c \<and> sRdhSanityCheckMode c = eNoSanityCheck"

lemma ucast_u32 [simp]: "ucast (ucast (x :: u32) :: u64) = x"
  by (rule ucast_up_ucast_id) (simp add: is_up)

lemma kept_zip_False [simp]: "kept (zip (replicate (length hs) False) hs) = hs"
  by (induction hs) simp_all

lemma parts_of_new [simp]: "parts_of (SubTimeFrame_new now i) di ss = []"
  by (simp add: parts_of_def SubTimeFrame_new_def)

lemma parts_of_run [simp]: "parts_of (updateRunNumber r f) di ss = parts_of f di ss"
  by (simp add: parts_of_def updateRunNumber_def)

lemma parts_of_orbit [simp]: "parts_of (updateFirstOrbit r f) di ss = parts_of f di ss"
  by (simp add: parts_of_def updateFirstOrbit_def)

lemma header_kept [simp]:
  "hId (stfHeader (updateFirstOrbit r f)) = hId (stfHeader f)"
  "hOrigin (stfHeader (updateFirstOrbit r f)) = hOrigin (stfHeader f)"
  "hId (stfHeader (updateRunNumber r f)) = hId (stfHeader f)"
  "hOrigin (stfHeader (updateRunNumber r f)) = hOrigin (stfHeader f)"
  "hId (stfHeader (SubTimeFrame_new now i)) = i"
  "hOrigin (stfHeader (SubTimeFrame_new now i)) = OriginInvalid"
  by (simp_all add: updateFirstOrbit_def updateRunNumber_def SubTimeFrame_new_def Header_new_def)

lemma ensure_stf_facts:
  assumes "collecting (rhTimeFrameId H) b" "ensure_stf now H b = (f, b1)"
  shows "rbStf b1 = Some f" "parts_of f di ss = builder_parts b di ss"
    "collecting (rhTimeFrameId H) b1" "rbRunning b1" "rbAcceptStfData b1"
    "hOrigin (stfHeader f) = OriginInvalid" "ucast (hId (stfHeader f)) = rhTimeFrameId H"
  using assms
  by (auto simp: ensure_stf_def builder_parts_def collecting_def Let_def split: option.splits)





lemma setOrigin_parts [simp]: "parts_of (setOrigin o1 f) di ss = parts_of f di ss"
  by (simp add: parts_of_def setOrigin_def)


lemma setOrigin_id [simp]: "hId (stfHeader (setOrigin o1 f)) = hId (stfHeader f)"
  by (simp add: setOrigin_def)


definition ex_env :: "(nat, nat) rb_env" where
  "ex_env = \<lparr>rbRdh = ex_rdh, rbCfg = ex_cfg\<lparr>sRdhSanityCheckMode := eNoSanityCheck\<rparr>,
     rbHdr0 = ex_header, rbRawData = 1\<rparr>"

definition ex_input :: "(nat, nat) stf_input" where
  "ex_input = \<lparr>inRunning = True, inAcceptingData = True, inBuildStf = True, inStfIdReceiving = 0,
     inBuilderInputQueue = [], inStarted = False, inBuilder = readout_builder_new,
     inStfIdBuilding = 0, inSeqStfQueue = [], inLastSeqStfId = 0, inMissingStfs = 0,
     inTopoStfId = 0, inOut = []\<rparr>"

definition ex_message :: readout_multipart where
  "ex_message = \<lparr>rmHdrSize = 32, rmHdr = \<lparr>rhVersion = 2, rhTimeFrameId = 11, rhRunNumber = 1,
     rhLinkId = 3, rhTimeframeOrbitFirst = 5, rhLastTFMessage = True, rhIsRdhFormat = True\<rparr>,
     rmHbfs = [ex_block 64 0 1 3, ex_block 64 0 1 5]\<rparr>"

lemma ex_plain: "plain_config (rbCfg ex_env)"
  by (simp add: plain_config_def ex_env_def ex_cfg_def)

lemma ex_collecting: "collecting 11 readout_builder_new"
  by (simp add: collecting_def readout_builder_new_def)


text \<open>When no header can be allocated for a block, the frame in building loses its data and
  the builder refuses everything that still comes for it; finishing the frame then delivers a
  null frame with its id, without data, and the builder accepts data again.\<close>

theorem alloc_failure_null_frame:
  assumes "plain_config (rbCfg B)" "rhTimeframeOrbitFirst H \<noteq> 0" "hbfs \<noteq> []"
    and "collecting (rhTimeFrameId H) b"
  shows "\<exists>b1 f. addHbFrames B now False og ss H hbfs b = Some (Inr (False, b1)) \<and>
    (\<forall>now' al og' ss' H' hbfs'. addHbFrames B now' al og' ss' H' hbfs' b1 = Some (Inr (False, b1))) \<and>
    inSeqStfQueue (finishBuildingCurrentStf False (s\<lparr>inBuilder := b1\<rparr>)) = inSeqStfQueue s @ [f] \<and>
    hOrigin (stfHeader f) = OriginNull \<and> ucast (hId (stfHeader f)) = rhTimeFrameId H \<and>
    stfData f = [] \<and> fst (getDataSize f) = 0 \<and>
    rbAcceptStfData (inBuilder (finishBuildingCurrentStf False (s\<lparr>inBuilder := b1\<rparr>))) \<and>
    rbStf (inBuilder (finishBuildingCurrentStf False (s\<lparr>inBuilder := b1\<rparr>))) = None"
proof -
  obtain f0 b0 where e: "ensure_stf now H b = (f0, b0)" by fastforce
  note ef = ensure_stf_facts [OF assms(4) e]
  define f1 where "f1 = stf_clear (updateFirstOrbit (rhTimeframeOrbitFirst H) f0)"
  define b1 where "b1 = b0\<lparr>rbFirstFiltered := rbFirstFiltered b0,
     rbFirstSeenHBOrbitCnt := rbFirstSeenHBOrbitCnt b0, rbAcceptStfData := False, rbStf := Some f1\<rparr>"
  have r: "addHbFrames B now False og ss H hbfs b = Some (Inr (False, b1))"
    using assms e by (simp add: addHbFrames_def collecting_def plain_config_def frame_orbit_def
        filter_blocks_def sanity_check_blocks_def add_blocks_no_alloc b1_def f1_def)
  have rej: "addHbFrames B now' al og' ss' H' hbfs' b1 = Some (Inr (False, b1))"
    for now' al og' ss' H' hbfs'
    using ef(4) by (simp add: addHbFrames_def b1_def)
  have o1: "hOrigin (stfHeader f1) = OriginInvalid" "ucast (hId (stfHeader f1)) = rhTimeFrameId H"
    "stfData f1 = []" "\<not> stfDataUpdated f1"
    using ef by (simp_all add: f1_def stf_clear_def)
  let ?f = "setOrigin eReadout (setOrigin OriginNull f1)"
  have "hOrigin (stfHeader ?f) = OriginNull" "ucast (hId (stfHeader ?f)) = rhTimeFrameId H"
    "stfData ?f = []" "fst (getDataSize ?f) = 0"
    using o1 by (simp_all add: setOrigin_def getDataSize_def updateStf_def)
  then show ?thesis
    using r rej by (intro exI [of _ b1] exI [of _ ?f])
      (simp add: finishBuildingCurrentStf_def getStf_def b1_def Let_def)
qed

theorem alloc_failure_null_frame_witness:
  "\<exists>b1 f. addHbFrames ex_env 0 False 0 4 (rmHdr ex_message) [ex_block 64 0 1 3] readout_builder_new
      = Some (Inr (False, b1)) \<and>
    inSeqStfQueue (finishBuildingCurrentStf False (ex_input\<lparr>inBuilder := b1\<rparr>)) = [f] \<and>
    hOrigin (stfHeader f) = OriginNull"
proof -
  have "rhTimeframeOrbitFirst (rmHdr ex_message) \<noteq> 0" "[ex_block 64 0 1 3] \<noteq> []"
    "collecting (rhTimeFrameId (rmHdr ex_message)) readout_builder_new"
    using ex_collecting by (simp_all add: ex_message_def)
  from alloc_failure_null_frame [OF ex_plain this, of 0 0 4 ex_input] show ?thesis
    by (auto simp: ex_input_def)
qed

text \<open>Blocks the sanity check should reject can stop the building thread. If rejected blocks
  are dumped, a first page with offset 0 makes the call never return. If the block ends in a
  fragment shorter than an RDH, the call ends with an uncaught exception of the reader.\<close>

theorem malformed_block_escapes:
  fixes B :: "('d, 'o) rb_env"
  assumes b: "rbRunning b" "rbAcceptStfData b" "rhTimeframeOrbitFirst H \<noteq> 0"
    and c: "\<not> sEmptyTriggerHBFrameFilterring (rbCfg B)"
    and d: "rdhSize (rbRdh B) \<le> length d" "64 \<le> length d" "\<not> getStopBit (rbRdh B) d"
  defines "off \<equiv> unat (getOffsetToNext (rbRdh B) d)"
  shows "(sRdhSanityCheckMode (rbCfg B) = eSanityCheckPrint \<and> off = 0 \<longrightarrow>
      addHbFrames B now alloc og ss H (d # hbfs) b = None) \<and>
    (sRdhSanityCheckMode (rbCfg B) \<noteq> eNoSanityCheck \<and> 0 < off \<and> off < length d \<and>
      unat (getMemorySize (rbRdh B) d) < length d \<and> length d - off < rdhSize (rbRdh B) \<and>
      rbFirstSeenHBOrbitCnt b = 0 \<longrightarrow>
      addHbFrames B now alloc og ss H (d # hbfs) b = Some (Inl RDHReaderException))"
proof (intro conjI impI)
  obtain f0 b1 where e: "ensure_stf now H b = (f0, b1)" by fastforce
  have o1: "rbFirstSeenHBOrbitCnt b1 = rbFirstSeenHBOrbitCnt b"
    using e by (auto simp: ensure_stf_def Let_def split: option.splits)
  note unf = addHbFrames_def frame_orbit_def filter_blocks_def sanity_check_blocks_def
  {
    assume p: "sRdhSanityCheckMode (rbCfg B) = eSanityCheckPrint \<and> off = 0"
    then have z: "getOffsetToNext (rbRdh B) d = 0" by (simp add: off_def unat_eq_zero)
    obtain o2 where sc: "rdhSanityCheck (rbRdh B) (rbCfg B) d (rbFirstSeenHBOrbitCnt b) = (Inr False, o2)"
      using sanity_zero_offset [OF d(1,2) z d(3), of "rbCfg B" "rbFirstSeenHBOrbitCnt b"]
      by (metis prod.collapse)
    have "d \<noteq> []" using d(2) by auto
    from dump_block_hangs [OF d(1) this z] sc p
    show "addHbFrames B now alloc og ss H (d # hbfs) b = None"
      using b c e o1 by (simp add: unf)
  next
    assume q: "sRdhSanityCheckMode (rbCfg B) \<noteq> eNoSanityCheck \<and> 0 < off \<and> off < length d \<and>
      unat (getMemorySize (rbRdh B) d) < length d \<and> length d - off < rdhSize (rbRdh B) \<and>
      rbFirstSeenHBOrbitCnt b = 0"
    obtain o2 where "rdhSanityCheck (rbRdh B) (rbCfg B) d (rbFirstSeenHBOrbitCnt b)
        = (Inl RDHReaderException, o2)"
      using sanity_short_tail [OF d, of "rbFirstSeenHBOrbitCnt b" "rbCfg B"] q
      unfolding off_def by (metis prod.collapse)
    then show "addHbFrames B now alloc og ss H (d # hbfs) b = Some (Inl RDHReaderException)"
      using b c e o1 q by (simp add: unf)
  }
qed

theorem malformed_block_escapes_witness:
  "addHbFrames (ex_env\<lparr>rbCfg := ex_cfg\<lparr>sRdhSanityCheckMode := eSanityCheckPrint\<rparr>\<rparr>) 0 True 0 4
     (rmHdr ex_message) [ex_block 64 0 0 3] readout_builder_new = None"
proof -
  let ?B = "ex_env\<lparr>rbCfg := ex_cfg\<lparr>sRdhSanityCheckMode := eSanityCheckPrint\<rparr>\<rparr>"
  have h: "rbRunning readout_builder_new" "rbAcceptStfData readout_builder_new"
    "rhTimeframeOrbitFirst (rmHdr ex_message) \<noteq> 0" "\<not> sEmptyTriggerHBFrameFilterring (rbCfg ?B)"
    "rdhSize (rbRdh ?B) \<le> length (ex_block 64 0 0 3)" "64 \<le> length (ex_block 64 0 0 3)"
    "\<not> getStopBit (rbRdh ?B) (ex_block 64 0 0 3)"
    "sRdhSanityCheckMode (rbCfg ?B) = eSanityCheckPrint"
    "unat (getOffsetToNext (rbRdh ?B) (ex_block 64 0 0 3)) = 0"
    by (simp_all add: ex_env_def ex_cfg_def ex_rdh_def ex_block_def readout_builder_new_def ex_message_def)
  from malformed_block_escapes [OF h(1-7), of 0 True 0 4 "[]"] h(8,9) show ?thesis by blast
qed

end
