(* ===== verification/Stfb_Input_Props.thy ===== *)
theory Stfb_Input_Props
  imports Stfb_Builder_Props
begin

text \<open>
  Properties of the StfBuilder input: the order and the gaps of the frames the sequencer passes
  on, the receiver's check of the frame ids, the flush of topological frames.
\<close>

section \<open>Sequencer\<close>

definition out_ids :: "('d, 'o) stf_input \<Rightarrow> u64 list" where
  "out_ids s = map (\<lambda>f. hId (stfHeader f)) (inOut s)"

text \<open>Two ids that follow each other: consecutive, or a gap too large to be filled.\<close>

definition seq_next :: "u64 \<Rightarrow> u64 \<Rightarrow> bool" where
  "seq_next a b \<longleftrightarrow> a < b \<and> (unat b = unat a + 1 \<or> 87 < unat b - unat a)"

definition sequencer_run :: "(u64 \<times> ('d, 'o) SubTimeFrame option) list \<Rightarrow> ('d, 'o) stf_input \<Rightarrow>
    ('d, 'o) stf_input" where
  "sequencer_run ps s = fold (\<lambda>p s. sequencer_step (fst p) (snd p) s) ps s"

definition seq_inv :: "u64 \<Rightarrow> ('d, 'o) stf_input \<Rightarrow> bool" where
  "seq_inv i0 s \<longleftrightarrow> successively seq_next (i0 # out_ids s) \<and> last (i0 # out_ids s) = inLastSeqStfId s"

lemma missing_const: "sMaxMissingStfsForSeq = 87"
  by (simp add: sMaxMissingStfsForSeq_def)

lemma empty_ids: "map (\<lambda>f. hId (stfHeader f)) (empty_stfs now start n) = map (\<lambda>k. start + of_nat k) [0..<n]"
  by (simp add: empty_stfs_def comp_def)

lemma gap_unat:
  fixes prev cur :: u64
  assumes "prev < cur" "k \<le> unat (cur - (prev + 1))"
  shows "unat (prev + 1 + of_nat k) = unat prev + 1 + k" "unat (cur - (prev + 1)) = unat cur - unat prev - 1"
proof -
  have lt: "unat prev < unat cur" using assms(1) by (simp add: word_less_nat_alt)
  have c: "unat cur < 2 ^ 64" using unat_lt_size64 [of cur] by simp
  have p1: "unat (prev + 1) = unat prev + 1"
    using lt c by (subst unat_plus_small) simp_all
  have le: "prev + 1 \<le> cur" using lt p1 by (simp add: word_le_nat_alt)
  show d: "unat (cur - (prev + 1)) = unat cur - unat prev - 1"
    using p1 by (simp add: unat_minus_le [OF le])
  have "unat (of_nat k :: u64) = k"
    using assms(2) d c by (simp add: unat_of_nat)
  then show "unat (prev + 1 + of_nat k) = unat prev + 1 + k"
    using assms(2) d c lt p1 by (subst unat_plus_small) simp_all
qed

lemma fill_successively:
  fixes prev cur :: u64
  assumes "prev < cur" "n \<le> unat (cur - (prev + 1))"
  shows "successively seq_next (prev # map (\<lambda>k. prev + 1 + of_nat k) [0..<n]) \<and>
    unat (last (prev # map (\<lambda>k. prev + 1 + of_nat k) [0..<n])) = unat prev + n"
  using assms(2)
proof (induction n)
  case 0
  then show ?case by simp
next
  case (Suc n)
  let ?xs = "prev # map (\<lambda>k. prev + 1 + of_nat k) [0..<n]"
  have ih: "successively seq_next ?xs" "unat (last ?xs) = unat prev + n" using Suc by auto
  have u: "unat (prev + 1 + of_nat n) = unat prev + 1 + n"
    using Suc.prems by (intro gap_unat(1) [OF assms(1)]) simp
  have "seq_next (last ?xs) (prev + 1 + of_nat n)"
    unfolding seq_next_def word_less_nat_alt u ih(2) by simp
  then have "successively seq_next (?xs @ [prev + 1 + of_nat n])"
    unfolding successively_append_iff using ih(1) by simp
  then show ?case using u by simp
qed

lemma seq_next_missing:
  fixes prev cur :: u64
  assumes "prev < cur" "\<not> cur - (prev + 1) < 87"
  shows "seq_next prev cur"
  using assms gap_unat(2) [OF assms(1) order.refl]
  by (simp add: seq_next_def word_less_nat_alt not_less) linarith

lemma sequencer_step_inv:
  assumes "seq_inv i0 s" shows "seq_inv i0 (sequencer_step now popped s)"
proof (cases popped)
  case None
  with assms show ?thesis by (simp add: sequencer_step_def)
next
  case (Some f)
  define cur where "cur = hId (stfHeader f)"
  define prev where "prev = inLastSeqStfId s"
  have su: "successively seq_next (i0 # out_ids s)" "last (i0 # out_ids s) = prev"
    using assms by (simp_all add: seq_inv_def prev_def)
  have app: "successively seq_next (i0 # out_ids s @ xs @ [cur])"
    if "successively seq_next (prev # xs)" "seq_next (last (prev # xs)) cur" for xs
  proof -
    have "successively seq_next ((i0 # out_ids s) @ (xs @ [cur]))"
      unfolding successively_append_iff using su that
      by (cases xs) (auto simp: successively_append_iff)
    then show ?thesis by simp
  qed
  show ?thesis
  proof (cases "\<not> inAcceptingData s \<or> cur \<le> prev")
    case True
    with Some assms show ?thesis by (auto simp: sequencer_step_def cur_def prev_def Let_def)
  next
    case False
    then have acc: "inAcceptingData s" and lt: "prev < cur" and nle: "\<not> cur \<le> prev" by auto
    show ?thesis
    proof (cases "prev + 1 = cur")
      case True
      have "unat cur = unat prev + 1"
        using gap_unat(1) [OF lt, of 0] True by simp
      then have "seq_next prev cur" using lt by (simp add: seq_next_def)
      with app [of "[]"] have "successively seq_next (i0 # out_ids s @ [cur])" by simp
      moreover have "out_ids (sequencer_step now popped s) = out_ids s @ [cur]"
        "inLastSeqStfId (sequencer_step now popped s) = cur"
        using True Some acc nle
        by (simp_all add: sequencer_step_def out_ids_def cur_def prev_def Let_def)
      ultimately show ?thesis by (simp add: seq_inv_def)
    next
      case False
      let ?m = "cur - (prev + 1)"
      define xs where "xs = (if ?m < 87 then map (\<lambda>k. prev + 1 + of_nat k) [0..<unat ?m] else [])"
      have xs: "successively seq_next (prev # xs)" "seq_next (last (prev # xs)) cur"
      proof -
        have fs: "successively seq_next (prev # map (\<lambda>k. prev + 1 + of_nat k) [0..<unat ?m])"
          "unat (last (prev # map (\<lambda>k. prev + 1 + of_nat k) [0..<unat ?m])) = unat prev + unat ?m"
          using fill_successively [OF lt order.refl] by simp_all
        have "unat cur = unat prev + unat ?m + 1"
          using gap_unat(2) [OF lt order.refl] lt by (simp add: word_less_nat_alt)
        then have nx: "seq_next (last (prev # map (\<lambda>k. prev + 1 + of_nat k) [0..<unat ?m])) cur"
          unfolding seq_next_def word_less_nat_alt fs(2) by simp
        have "successively seq_next (prev # xs) \<and> seq_next (last (prev # xs)) cur"
        proof (cases "?m < 87")
          case True
          show ?thesis unfolding xs_def if_P [OF True] using fs(1) nx by blast
        next
          case False
          with seq_next_missing [OF lt False] show ?thesis by (simp add: xs_def)
        qed
        then show "successively seq_next (prev # xs)" "seq_next (last (prev # xs)) cur"
          by simp_all
      qed
      have "out_ids (sequencer_step now popped s) = out_ids s @ xs @ [cur]"
        "inLastSeqStfId (sequencer_step now popped s) = cur"
        using Some acc nle False
        by (simp_all add: sequencer_step_def out_ids_def xs_def cur_def prev_def Let_def
            missing_const empty_ids)
      with app [OF xs] show ?thesis by (simp add: seq_inv_def)
    qed
  qed
qed

lemma sequencer_run_inv: "seq_inv i0 s \<Longrightarrow> seq_inv i0 (sequencer_run ps s)"
  by (induction ps arbitrary: s) (simp_all add: sequencer_run_def sequencer_step_inv)

text \<open>The frames that come out are those that came in, or null frames without data.\<close>

lemma sequencer_step_frames:
  "set (inOut (sequencer_step now popped s)) \<subseteq> set (inOut s) \<union> set_option popped \<union>
     {f. hOrigin (stfHeader f) = OriginNull \<and> stfData f = []}"
  by (auto simp: sequencer_step_def empty_stfs_def setOrigin_def SubTimeFrame_new_def Header_new_def
      Let_def split: option.splits if_splits)

lemma sequencer_run_frames:
  "set (inOut (sequencer_run ps s)) \<subseteq> set (inOut s) \<union> (\<Union>p\<in>set ps. set_option (snd p)) \<union>
     {f. hOrigin (stfHeader f) = OriginNull \<and> stfData f = []}"
proof (induction ps arbitrary: s)
  case Nil
  then show ?case by (simp add: sequencer_run_def)
next
  case (Cons p ps)
  have "sequencer_run (p # ps) s = sequencer_run ps (sequencer_step (fst p) (snd p) s)"
    by (simp add: sequencer_run_def)
  then show ?case
    using Cons.IH [of "sequencer_step (fst p) (snd p) s"]
      sequencer_step_frames [of "fst p" "snd p" s] by auto
qed

text \<open>C19. Whatever frames the sequencer receives after the start of a run, the ids of the frames
  it passes on are strictly increasing, and two that follow each other are consecutive unless
  more than 86 frames are missing between them; every frame passed on is one that was received
  or a null frame without data, and the last id passed on is the one remembered.\<close>

theorem sequencer_output:
  assumes "inOut s = []" "inLastSeqStfId s = 0"
  shows "successively seq_next (0 # out_ids (sequencer_run ps s)) \<and>
    last (0 # out_ids (sequencer_run ps s)) = inLastSeqStfId (sequencer_run ps s) \<and>
    set (inOut (sequencer_run ps s)) \<subseteq> (\<Union>p\<in>set ps. set_option (snd p)) \<union>
      {f. hOrigin (stfHeader f) = OriginNull \<and> stfData f = []}"
proof -
  have "seq_inv 0 s" using assms by (simp add: seq_inv_def out_ids_def)
  from sequencer_run_inv [OF this] sequencer_run_frames [of ps s] assms(1)
  show ?thesis by (simp add: seq_inv_def)
qed

theorem sequencer_output_witness:
  "out_ids (sequencer_run [(0, Some (SubTimeFrame_new 0 1)), (0, Some (SubTimeFrame_new 0 4))] ex_input)
     = [1, 2, 3, 4] \<and>
   successively seq_next (0 # out_ids (sequencer_run
     [(0, Some (SubTimeFrame_new 0 1)), (0, Some (SubTimeFrame_new 0 4))] ex_input))"
proof -
  have "inOut ex_input = []" "inLastSeqStfId ex_input = 0" by (simp_all add: ex_input_def)
  moreover have "out_ids (sequencer_run
      [(0, Some (SubTimeFrame_new 0 1)), (0, Some (SubTimeFrame_new 0 4))] ex_input) = [1, 2, 3, 4]"
    by (simp add: sequencer_run_def sequencer_step_def ex_input_def out_ids_def missing_const
        empty_ids SubTimeFrame_new_def Header_new_def upt_rec word_le_nat_alt)
  ultimately show ?thesis using sequencer_output by blast
qed

section \<open>Topological frames\<close>

definition taken :: "u32 \<times> u64 \<times> ('d, 'o) SubTimeFrame option \<Rightarrow> bool" where
  "taken e \<longleftrightarrow> snd (snd e) = None"

definition numbered :: "u64 \<Rightarrow> ('d, 'o) SubTimeFrame list \<Rightarrow> ('d, 'o) SubTimeFrame list" where
  "numbered i fs = map (\<lambda>(k, f). setOrigin eReadoutTopology (updateId (i + 1 + of_nat k) f))
     (enumerate 0 fs)"

lemma numbered_Cons: "numbered i (f # fs) =
    setOrigin eReadoutTopology (updateId (i + 1) f) # numbered (i + 1) fs"
proof -
  have "enumerate (Suc 0) fs = map (\<lambda>(k, f). (Suc k, f)) (enumerate 0 fs)"
    by (simp add: enumerate_Suc_eq prod_eq_iff case_prod_unfold)
  then show ?thesis by (simp add: numbered_def comp_def case_prod_unfold ac_simps)
qed

lemma flush_output:
  "inOut (finishBuildingCurrentStfs s) = inOut s @ numbered (inTopoStfId s)
     (map (\<lambda>e. the (snd (snd e))) (takeWhile (\<lambda>e. \<not> taken e) (rbTopoStfMap (inBuilder s)))) \<and>
   rbTopoStfMap (inBuilder (finishBuildingCurrentStfs s))
     = tl (dropWhile (\<lambda>e. \<not> taken e) (rbTopoStfMap (inBuilder s)))"
proof (induction s rule: finishBuildingCurrentStfs.induct)
  case (1 s)
  show ?case
  proof (cases "rbTopoStfMap (inBuilder s)")
    case Nil
    then show ?thesis
      by (subst (1 2) finishBuildingCurrentStfs.simps) (simp add: getTopoStf_def numbered_def Let_def)
  next
    case (Cons e m)
    obtain ss n r where e: "e = (ss, n, r)" by (cases e)
    define b where "b = (inBuilder s)\<lparr>rbTopoStfMap := m, rbAcceptStfData := True\<rparr>"
    have g: "getTopoStf (inBuilder s) = (r, b)" by (simp add: getTopoStf_def Cons e b_def)
    show ?thesis
    proof (cases r)
      case None
      then show ?thesis using g Cons e
        by (subst (1 2) finishBuildingCurrentStfs.simps) (simp add: taken_def numbered_def b_def Let_def)
    next
      case (Some f)
      have st: "finishBuildingCurrentStfs s = finishBuildingCurrentStfs (queueStf r (s\<lparr>inBuilder := b\<rparr>))"
        using g Some by (subst finishBuildingCurrentStfs.simps) (simp add: Let_def)
      have "r \<noteq> None" using Some by simp
      from 1 [OF g [symmetric] refl refl this] show ?thesis
        unfolding st using Cons e Some
        by (simp add: queueStf_def b_def taken_def numbered_Cons Let_def)
    qed
  qed
qed

text \<open>When no data arrives, the frames collected per equipment are queued with consecutive
  ids, in the order of the table, up to the first equipment whose frame has already been handed
  out: its empty entry is removed and ends the flush, and all frames after it stay.\<close>

theorem topo_flush:
  assumes "inStarted s" "inRunning s"
  shows "snd (topo_iteration B now alloc fm pages None s) = finishBuildingCurrentStfs s \<and>
    inOut (finishBuildingCurrentStfs s) = inOut s @ numbered (inTopoStfId s)
      (map (\<lambda>e. the (snd (snd e))) (takeWhile (\<lambda>e. \<not> taken e) (rbTopoStfMap (inBuilder s)))) \<and>
    rbTopoStfMap (inBuilder (finishBuildingCurrentStfs s))
      = tl (dropWhile (\<lambda>e. \<not> taken e) (rbTopoStfMap (inBuilder s)))"
  using assms flush_output [of s] by (simp add: topo_iteration_def)

text \<open>Two equipments, the frame of the first already handed out: nothing is queued.\<close>

definition ex_topo_input :: "(nat, nat) stf_input" where
  "ex_topo_input = ex_input\<lparr>inStarted := True,
     inBuilder := readout_builder_new\<lparr>rbTopoStfMap := [(4, 0, None), (6, 1, Some ex_frame)]\<rparr>\<rparr>"

theorem topo_flush_witness:
  "inOut (finishBuildingCurrentStfs ex_topo_input) = [] \<and>
   rbTopoStfMap (inBuilder (finishBuildingCurrentStfs ex_topo_input)) = [(6, 1, Some ex_frame)]"
proof -
  have h: "inStarted ex_topo_input" "inRunning ex_topo_input"
    by (simp_all add: ex_topo_input_def ex_input_def)
  have m: "rbTopoStfMap (inBuilder ex_topo_input) = [(4, 0, None), (6, 1, Some ex_frame)]"
    "inOut ex_topo_input = []"
    by (simp_all add: ex_topo_input_def ex_input_def)
  have t: "taken (4 :: u32, 0 :: u64, None :: (nat, nat) SubTimeFrame option)" by (simp add: taken_def)
  have n: "numbered i [] = []" for i by (simp add: numbered_def)
  from topo_flush [OF h] show ?thesis unfolding m by (simp add: t n)
qed

end
