(* ===== verification/DD_Discovery.thy ===== *)
theory DD_Discovery
  imports DD_Prelude
begin

text \<open>
  The messages the processes exchange (\<open>common/discovery/discovery.proto\<close>), with the fields
  the modelled components read or write. A \<open>map\<close> field is an ordered map, a \<open>repeated\<close>
  field a list; enum values keep their names, prefixed where two enums share one.
\<close>

datatype ProcessTypePB = ProcUnknown | ProcStfBuilder | ProcStfSender | ProcTfBuilder | ProcTfScheduler

datatype ProcessState = PROC_IGNORE | PROC_RUNNING | PROC_NOT_RUNNING

record BasicInfo =
  bi_type :: ProcessTypePB
  process_id :: string
  last_update_t :: u64
  process_state :: ProcessState

record TfBuilderUpdateMessage =
  tbu_info :: BasicInfo
  last_built_tf_id :: u64
  free_memory :: u64
  num_buffered_tfs :: u32
  num_tfs_in_building :: u32

record StfSenderInfo =
  buffer_size :: u64
  buffer_used :: u64
  num_buffered_stfs :: u32

datatype StfSource = SRC_IGNORE | SRC_DEFAULT | SRC_EMPTY | SRC_TOPOLOGICAL

record StfSourceInfo =
  data_origin :: string
  data_subspec :: u64

record StfSenderStfInfo =
  ssi_info :: BasicInfo
  run_number :: u64
  stf_id :: u64
  stf_size :: u64
  stfs_info :: StfSenderInfo
  stf_source :: StfSource
  stf_source_info :: "StfSourceInfo list"

datatype StfInfoStatus = SI_IGNORE | SI_OK | SI_DROP_NOT_RUNNING | SI_DROP_RESOURCES
  | SI_DROP_SCHED_DISCARDED | SI_DROP_STFS_INCOMPLETE | SI_DROP_STFS_BUFFER_FULL

record TfBuildingInformation =
  tf_id :: u64
  tf_size :: u64
  stf_size_map :: "(string, u64) smap"
  tf_source :: StfSource

datatype TfBuildingStatus = BTF_OK | BTF_ERROR_NOMEM | BTF_ERROR_NOT_RUNNING | BTF_OTHER

datatype StfDataStatus = DATA_OK | DATA_DROPPED_TIMEOUT | DATA_DROPPED_SCHEDULER
  | DATA_DROPPED_UNKNOWN | TF_BUILDER_UNKNOWN

datatype ConnStatus = CONN_IGNORE | CONN_OK | ERROR_DISCOVERY | ERROR_SOCKET_COUNT
  | ERROR_STF_SENDERS_NOT_READY | ERROR_GRPC_STF_SENDER | ERROR_GRPC_TF_BUILDER
  | ERROR_STF_SENDER_CONNECTING | ERROR_STF_SENDER_EXISTS | ERROR_PARTITION_TERMINATING
  | ERROR_TRANSPORT_NOT_ENABLED

datatype PartitionState = PARTITION_IGNORE | PARTITION_UNKNOWN | PARTITION_ERROR
  | PARTITION_REQUEST_INVALID | PARTITION_CONFIGURING | PARTITION_CONFIGURED
  | PARTITION_TERMINATING | PARTITION_TERMINATED

record TfBuilderSocket =
  sock_idx :: u32
  sock_endpoint :: string
  sock_peer_id :: string

record IpPort =
  ip :: string
  port :: u32

record TfBuilderConfigStatus =
  tbc_info :: BasicInfo
  sockets_map :: "(u32, TfBuilderSocket) smap"
  sockets_enabled :: bool
  ucx_enabled :: bool
  ucx_listen_ep :: IpPort

end
