(* ===== verification/Sched_TfBuilderInfo.thy ===== *)
theory Sched_TfBuilderInfo
  imports DD_Discovery
begin

text \<open>
  \<open>TfScheduler/TfSchedulerTfBuilderInfo.{h,cxx}\<close>: what the scheduler knows of the TfBuilders,
  and the choice of a TfBuilder for a time frame.

  The three containers of the class hold \<open>std::shared_ptr<TfBuilderInfo>\<close> to the same
  objects: an update through \<open>mGlobalInfo\<close> is seen by the search through
  \<open>mReadyTfBuilders\<close>. The objects therefore live in an explicit store, and the containers
  hold references into it. \<open>mTotalUtilization\<close> is a double that only counts upwards in
  steps of 1.0; it is a natural number here (exact below \<open>2^53\<close>). Time points are
  nanoseconds as integers. The counters kept for monitoring are not modelled.
\<close>

section \<open>State\<close>

record TfBuilderInfo =
  mUpdateLocalTime :: int
  mTfBuilderUpdate :: TfBuilderUpdateMessage
  mLastScheduledTf :: u64
  mEstimatedFreeMemory :: u64
  mReportedFreeMemory :: u64
  mTfsInBuilding :: u64
  mTotalUtilization :: nat

definition new_TfBuilderInfo :: "int \<Rightarrow> TfBuilderUpdateMessage \<Rightarrow> TfBuilderInfo" where
  "new_TfBuilderInfo t upd =
     \<lparr>mUpdateLocalTime = t, mTfBuilderUpdate = upd, mLastScheduledTf = 0,
      mEstimatedFreeMemory = free_memory upd, mReportedFreeMemory = free_memory upd,
      mTfsInBuilding = 0, mTotalUtilization = 0\<rparr>"

definition tb_id :: "TfBuilderInfo \<Rightarrow> string" where
  "tb_id i = process_id (tbu_info (mTfBuilderUpdate i))"

definition last_scheduled_tf_id :: "TfBuilderInfo \<Rightarrow> u64" where
  "last_scheduled_tf_id i = mLastScheduledTf i"

text \<open>\<open>TfBuilderTopoInfo\<close>: the sub-specification and the first three characters of the origin.\<close>

record TfBuilderTopoInfo =
  tti_subspec :: u64
  tti_origin :: string

definition topo_key :: "string \<Rightarrow> u64 \<Rightarrow> TfBuilderTopoInfo" where
  "topo_key origin subspec = \<lparr>tti_subspec = subspec, tti_origin = take 3 origin\<rparr>"

definition topo_eq :: "TfBuilderTopoInfo \<Rightarrow> TfBuilderTopoInfo \<Rightarrow> bool" where
  "topo_eq l r \<longleftrightarrow> tti_subspec l = tti_subspec r \<and> take 3 (tti_origin l) = take 3 (tti_origin r)"

text \<open>
  The hash function object of \<open>mTopoTfBuilders\<close> is itself a \<open>TfBuilderTopoInfo\<close>
  (\<open>hasher\<close>). \<open>std::hash\<close> is implementation-defined: a parameter.
\<close>

definition topo_hash ::
    "(u64 \<Rightarrow> u64) \<Rightarrow> (string \<Rightarrow> u64) \<Rightarrow> TfBuilderTopoInfo \<Rightarrow> TfBuilderTopoInfo \<Rightarrow> u64" where
  "topo_hash hash_u64 hash_sv hasher s =
     (let h1 = hash_u64 (tti_subspec hasher);
          h2 = hash_sv (take 3 (tti_origin s))
      in Bit_Operations.xor h1 (push_bit 1 h2))"

type_synonym ref = nat

record tfb_state =
  tfbRunning :: bool
  mMaxTfsInBuilding :: u64
  heap :: "ref \<Rightarrow> TfBuilderInfo"
  next_ref :: ref
  mGlobalInfo :: "(string, ref) smap"
  mReadyTfBuilders :: "ref list"
  mTopoTfBuilders :: "(TfBuilderTopoInfo \<times> ref) list"

abbreviation ref_id :: "tfb_state \<Rightarrow> ref \<Rightarrow> string" where
  "ref_id st r \<equiv> tb_id (heap st r)"

definition upd_obj :: "ref \<Rightarrow> (TfBuilderInfo \<Rightarrow> TfBuilderInfo) \<Rightarrow> tfb_state \<Rightarrow> tfb_state" where
  "upd_obj r f st = st\<lparr>heap := (heap st)(r := f (heap st r))\<rparr>"

section \<open>Operations\<close>

definition tfb_start :: "tfb_state \<Rightarrow> tfb_state" where
  "tfb_start st = st\<lparr>mGlobalInfo := [], tfbRunning := True\<rparr>"

definition tfb_stop :: "tfb_state \<Rightarrow> tfb_state" where
  "tfb_stop st = st\<lparr>tfbRunning := False, mGlobalInfo := [], mReadyTfBuilders := [],
     mTopoTfBuilders := []\<rparr>"

definition addReadyTfBuilder :: "ref \<Rightarrow> tfb_state \<Rightarrow> tfb_state" where
  "addReadyTfBuilder r st = st\<lparr>mReadyTfBuilders := mReadyTfBuilders st @ [r]\<rparr>"

fun erase_first :: "('a \<Rightarrow> bool) \<Rightarrow> 'a list \<Rightarrow> 'a list" where
  "erase_first p [] = []"
| "erase_first p (x # xs) = (if p x then xs else x # erase_first p xs)"

definition removeReadyTfBuilder :: "string \<Rightarrow> tfb_state \<Rightarrow> tfb_state" where
  "removeReadyTfBuilder i st =
     st\<lparr>mReadyTfBuilders := erase_first (\<lambda>r. ref_id st r = i) (mReadyTfBuilders st),
        mTopoTfBuilders := filter (\<lambda>e. ref_id st (snd e) \<noteq> i) (mTopoTfBuilders st)\<rparr>"

definition update_estimate :: "TfBuilderUpdateMessage \<Rightarrow> TfBuilderInfo \<Rightarrow> TfBuilderInfo" where
  "update_estimate upd i =
     (if last_built_tf_id upd = last_scheduled_tf_id i then
        i\<lparr>mTfBuilderUpdate := upd, mEstimatedFreeMemory := free_memory upd\<rparr>
      else if last_built_tf_id upd < last_scheduled_tf_id i then
        (if free_memory upd < mEstimatedFreeMemory i then
           i\<lparr>mEstimatedFreeMemory := free_memory upd\<rparr>
         else
           i\<lparr>mEstimatedFreeMemory := min (mEstimatedFreeMemory i) (free_memory upd)\<rparr>)
      else i)"

definition updateTfBuilderInfo :: "int \<Rightarrow> TfBuilderUpdateMessage \<Rightarrow> tfb_state \<Rightarrow> tfb_state" where
  "updateTfBuilderInfo now upd st =
     (let i = process_id (tbu_info upd) in
      if process_state (tbu_info upd) = PROC_NOT_RUNNING then
        (case sm_get (mGlobalInfo st) i of
           None \<Rightarrow> st
         | Some _ \<Rightarrow>
             let st1 = removeReadyTfBuilder i st
             in st1\<lparr>mGlobalInfo := sm_del i (mGlobalInfo st1)\<rparr>)
      else
        (case sm_get (mGlobalInfo st) i of
           None \<Rightarrow>
             let r = next_ref st;
                 st1 = st\<lparr>heap := (heap st)(r := new_TfBuilderInfo now upd),
                          next_ref := Suc r,
                          mGlobalInfo := sm_put i r (mGlobalInfo st)\<rparr>
             in addReadyTfBuilder r st1
         | Some r \<Rightarrow>
             upd_obj r (\<lambda>o1. update_estimate upd
               (o1\<lparr>mUpdateLocalTime := now,
                   mReportedFreeMemory := free_memory upd,
                   mTfsInBuilding := scast (num_tfs_in_building upd)\<rparr>)) st))"

text \<open>Memory is overestimated by 10 per cent, in 64-bit arithmetic.\<close>

definition sTfSizeOverestimatePercent :: u64 where
  "sTfSizeOverestimatePercent = 10"

definition est_tf_size :: "u64 \<Rightarrow> u64" where
  "est_tf_size sz = sz * (sTfSizeOverestimatePercent + 100) div 100"

text \<open>
  The search loop over the ready list: the index it stops at (\<open>None\<close> for \<open>end()\<close>) and the
  final value of \<open>lMaxTfExceeded\<close>.
\<close>

fun find_scan :: "(ref \<Rightarrow> TfBuilderInfo) \<Rightarrow> u64 \<Rightarrow> u64 \<Rightarrow> bool \<Rightarrow> ref list \<Rightarrow> nat option \<times> bool" where
  "find_scan h mx est ex [] = (None, ex)"
| "find_scan h mx est ex (r # rs) =
     (if mx \<le> mTfsInBuilding (h r) then
        (let (n, e) = find_scan h mx est True rs in (map_option Suc n, e))
      else if est \<le> mEstimatedFreeMemory (h r) then (Some 0, False)
      else (let (n, e) = find_scan h mx est ex rs in (map_option Suc n, e)))"

datatype no_tfb = NO_TFBUILDERS | NUM_TF_EXCEEDED | NO_MEMORY

definition findTfBuilderForTf :: "u64 \<Rightarrow> tfb_state \<Rightarrow> (no_tfb + string) \<times> tfb_state" where
  "findTfBuilderForTf sz st =
     (let est = est_tf_size sz;
          (it, exceeded) = find_scan (heap st) (mMaxTfsInBuilding st) est False (mReadyTfBuilders st)
      in case it of
           None \<Rightarrow>
             (Inl (if mReadyTfBuilders st = [] then NO_TFBUILDERS
                   else if exceeded then NUM_TF_EXCEEDED else NO_MEMORY), st)
         | Some n \<Rightarrow>
             let r = mReadyTfBuilders st ! n;
                 erased = take n (mReadyTfBuilders st) @ drop (Suc n) (mReadyTfBuilders st);
                 st1 = upd_obj r (\<lambda>o1. o1\<lparr>mEstimatedFreeMemory := mEstimatedFreeMemory o1 - est\<rparr>) st
             in (Inr (ref_id st r), st1\<lparr>mReadyTfBuilders := erased @ [r]\<rparr>))"

definition markTfBuilderWithTfId :: "string \<Rightarrow> u64 \<Rightarrow> tfb_state \<Rightarrow> bool \<times> tfb_state" where
  "markTfBuilderWithTfId i tfid st =
     (case sm_get (mGlobalInfo st) i of
        None \<Rightarrow> (False, st)
      | Some r \<Rightarrow>
          (True, upd_obj r (\<lambda>o1. o1\<lparr>mLastScheduledTf := tfid,
                                    mTfsInBuilding := mTfsInBuilding o1 + 1\<rparr>) st))"

text \<open>The first ready TfBuilder of least utilization; \<open>None\<close> stands for the initial maximum.\<close>

fun least_utilized :: "(ref \<Rightarrow> TfBuilderInfo) \<Rightarrow> ref option \<Rightarrow> ref list \<Rightarrow> ref option" where
  "least_utilized h best [] = best"
| "least_utilized h best (r # rs) =
     least_utilized h
       (case best of
          None \<Rightarrow> Some r
        | Some b \<Rightarrow> if mTotalUtilization (h r) < mTotalUtilization (h b) then Some r else Some b) rs"

definition findTfBuilderForTopoStf :: "string \<Rightarrow> u64 \<Rightarrow> tfb_state \<Rightarrow> string option \<times> tfb_state" where
  "findTfBuilderForTopoStf origin subspec st =
     (case map_of (mTopoTfBuilders st) (topo_key origin subspec) of
        Some r \<Rightarrow> (Some (ref_id st r), st)
      | None \<Rightarrow>
          (case least_utilized (heap st) None (mReadyTfBuilders st) of
             None \<Rightarrow> (None, st)
           | Some r \<Rightarrow>
               let st1 = upd_obj r (\<lambda>o1. o1\<lparr>mTotalUtilization := mTotalUtilization o1 + 1\<rparr>) st
               in (Some (ref_id st r),
                   st1\<lparr>mTopoTfBuilders := (topo_key origin subspec, r) # mTopoTfBuilders st1\<rparr>)))"

definition setMaxTfsInBuilding :: "u64 \<Rightarrow> tfb_state \<Rightarrow> tfb_state" where
  "setMaxTfsInBuilding n st =
     (let v = std_clamp n 1 512
      in if mMaxTfsInBuilding st \<noteq> v then st\<lparr>mMaxTfsInBuilding := v\<rparr> else st)"

text \<open>
  One pass of \<open>HousekeepingThread\<close> has two critical sections: the stale ids are collected
  under the lock, the lock is released, and then each id is erased under the lock again.
\<close>

definition sTfBuilderDiscardTimeout :: int where
  "sTfBuilderDiscardTimeout = 5 * 1000000000"

definition housekeeping_collect :: "int \<Rightarrow> tfb_state \<Rightarrow> string list" where
  "housekeeping_collect now st =
     map (\<lambda>e. ref_id st (snd e))
       (filter (\<lambda>e. sTfBuilderDiscardTimeout \<le> \<bar>now - mUpdateLocalTime (heap st (snd e))\<bar>)
         (mGlobalInfo st))"

definition housekeeping_erase :: "string \<Rightarrow> tfb_state \<Rightarrow> tfb_state" where
  "housekeeping_erase i st =
     removeReadyTfBuilder i (st\<lparr>mGlobalInfo := sm_del i (mGlobalInfo st)\<rparr>)"

definition HousekeepingThread_pass :: "u64 \<Rightarrow> int \<Rightarrow> tfb_state \<Rightarrow> tfb_state" where
  "HousekeepingThread_pass max_param now st =
     (let st1 = setMaxTfsInBuilding max_param st
      in fold housekeeping_erase (housekeeping_collect now st1) st1)"

end
