(* ===== verification/Sched_TfBuilderInfo_Props.thy ===== *)
theory Sched_TfBuilderInfo_Props
  imports Sched_TfBuilderInfo
begin

text \<open>
  Correctness of the TfBuilder database: the consistency invariant of its three containers
  and the store, the choice of a TfBuilder, the memory estimate, and the topological
  assignments.
\<close>

section \<open>The consistency invariant\<close>

definition tfb_inv :: "tfb_state \<Rightarrow> bool" where
  "tfb_inv st \<longleftrightarrow>
     sm_wf (mGlobalInfo st) \<and>
     (\<forall>(i, r) \<in> set (mGlobalInfo st). r < next_ref st \<and> ref_id st r = i) \<and>
     distinct (mReadyTfBuilders st) \<and>
     set (mReadyTfBuilders st) \<subseteq> snd ` set (mGlobalInfo st) \<and>
     snd ` set (mTopoTfBuilders st) \<subseteq> set (mReadyTfBuilders st) \<and>
     distinct (map fst (mTopoTfBuilders st))"

lemma tfb_inv_init:
  "tfb_inv \<lparr>tfbRunning = b, mMaxTfsInBuilding = m, heap = h, next_ref = n,
     mGlobalInfo = [], mReadyTfBuilders = [], mTopoTfBuilders = []\<rparr>"
  by (simp add: tfb_inv_def)

lemma set_erase_first: "set (erase_first p xs) \<subseteq> set xs"
  by (induction xs) auto

lemma distinct_erase_first: "distinct xs \<Longrightarrow> distinct (erase_first p xs)"
  using set_erase_first by (induction xs) fastforce+

lemma erase_first_none: "\<forall>x \<in> set xs. \<not> p x \<Longrightarrow> erase_first p xs = xs"
  by (induction xs) auto

lemma erase_first_filter:
  assumes "distinct xs" and "\<And>x y. x \<in> set xs \<Longrightarrow> y \<in> set xs \<Longrightarrow> p x \<Longrightarrow> p y \<Longrightarrow> x = y"
  shows "erase_first p xs = filter (\<lambda>x. \<not> p x) xs"
  using assms
proof (induction xs)
  case Nil
  then show ?case by simp
next
  case (Cons x xs)
  show ?case
  proof (cases "p x")
    case True
    then have "\<forall>y \<in> set xs. \<not> p y" using Cons.prems by auto
    then show ?thesis using True by (simp add: filter_id_conv)
  next
    case False
    then show ?thesis using Cons by simp
  qed
qed

text \<open>With the invariant, an id names at most one object of the ready list.\<close>

lemma ready_global:
  assumes "tfb_inv st" and "r \<in> set (mReadyTfBuilders st)"
  shows "(ref_id st r, r) \<in> set (mGlobalInfo st)"
  using assms by (fastforce simp: tfb_inv_def)

lemma global_ref_id:
  assumes "tfb_inv st" and "sm_get (mGlobalInfo st) i = Some r"
  shows "ref_id st r = i" and "r < next_ref st"
  using assms smap.get_entries [of "mGlobalInfo st" i r] by (auto simp: tfb_inv_def)

lemma ready_id_inj:
  assumes inv: "tfb_inv st" and "r \<in> set (mReadyTfBuilders st)" "r' \<in> set (mReadyTfBuilders st)"
    and "ref_id st r = ref_id st r'"
  shows "r = r'"
proof -
  have wf: "sm_wf (mGlobalInfo st)" using inv by (simp add: tfb_inv_def)
  have "sm_get (mGlobalInfo st) (ref_id st r) = Some r"
    using ready_global [OF inv assms(2)] by (rule iffD2 [OF sm_get_in [OF wf]])
  moreover have "sm_get (mGlobalInfo st) (ref_id st r') = Some r'"
    using ready_global [OF inv assms(3)] by (rule iffD2 [OF sm_get_in [OF wf]])
  ultimately show ?thesis using assms(4) by (metis option.inject)
qed

lemma removeReady_filter:
  assumes "tfb_inv st"
  shows "mReadyTfBuilders (removeReadyTfBuilder i st) =
    filter (\<lambda>r. ref_id st r \<noteq> i) (mReadyTfBuilders st)"
proof -
  have "erase_first (\<lambda>r. ref_id st r = i) (mReadyTfBuilders st) =
      filter (\<lambda>r. \<not> ref_id st r = i) (mReadyTfBuilders st)"
  proof (rule erase_first_filter)
    show "distinct (mReadyTfBuilders st)" using assms by (simp add: tfb_inv_def)
    show "x = y" if "x \<in> set (mReadyTfBuilders st)" "y \<in> set (mReadyTfBuilders st)"
        "ref_id st x = i" "ref_id st y = i" for x y
      using ready_id_inj [OF assms that(1,2)] that(3,4) by simp
  qed
  then show ?thesis by (simp add: removeReadyTfBuilder_def)
qed

lemma removeReady_frame [frame]:
  "heap (removeReadyTfBuilder i st) = heap st"
  "next_ref (removeReadyTfBuilder i st) = next_ref st"
  "mGlobalInfo (removeReadyTfBuilder i st) = mGlobalInfo st"
  "mMaxTfsInBuilding (removeReadyTfBuilder i st) = mMaxTfsInBuilding st"
  by (simp_all add: removeReadyTfBuilder_def)

lemma removeReady_topo:
  "mTopoTfBuilders (removeReadyTfBuilder i st) =
    filter (\<lambda>e. ref_id st (snd e) \<noteq> i) (mTopoTfBuilders st)"
  by (simp add: removeReadyTfBuilder_def)

lemma removeReady_inv:
  assumes inv: "tfb_inv st"
  shows "tfb_inv (removeReadyTfBuilder i st)"
  using assms removeReady_filter [OF inv, of i]
  by (auto simp: tfb_inv_def frame removeReady_topo distinct_map_filter image_subset_iff)

text \<open>Erasing an id from the global table and from the other two keeps them consistent.\<close>

lemma erase_inv:
  assumes inv: "tfb_inv st"
  shows "tfb_inv ((removeReadyTfBuilder i st)\<lparr>mGlobalInfo := sm_del i (mGlobalInfo st)\<rparr>)"
proof -
  have wf: "sm_wf (mGlobalInfo st)" using inv by (simp add: tfb_inv_def)
  have sub: "r \<in> snd ` set (sm_del i (mGlobalInfo st))"
    if "r \<in> set (mReadyTfBuilders st)" "ref_id st r \<noteq> i" for r
  proof -
    have "(ref_id st r, r) \<in> set (sm_del i (mGlobalInfo st))"
      using ready_global [OF inv that(1)] that(2) by (simp add: sm_del_def)
    then show ?thesis by (rule image_eqI [rotated]) simp
  qed
  have old: "\<forall>(j, r) \<in> set (sm_del i (mGlobalInfo st)). r < next_ref st \<and> ref_id st r = j"
    using inv by (auto simp: tfb_inv_def sm_del_def)
  have "set (mReadyTfBuilders (removeReadyTfBuilder i st)) \<subseteq> snd ` set (sm_del i (mGlobalInfo st))"
    using sub by (auto simp: removeReady_filter [OF inv])
  then show ?thesis
    using removeReady_inv [OF inv, of i] wf old
    unfolding tfb_inv_def by (simp add: frame)
qed

lemma housekeeping_erase_eq:
  "housekeeping_erase i st = (removeReadyTfBuilder i st)\<lparr>mGlobalInfo := sm_del i (mGlobalInfo st)\<rparr>"
  by (simp add: housekeeping_erase_def removeReadyTfBuilder_def)

lemma housekeeping_erase_inv: "tfb_inv st \<Longrightarrow> tfb_inv (housekeeping_erase i st)"
  by (simp add: housekeeping_erase_eq erase_inv)

text \<open>An update in place that keeps the id of the object keeps the invariant.\<close>

lemma upd_obj_inv:
  assumes "tfb_inv st" and "tb_id (f (heap st r)) = tb_id (heap st r)"
  shows "tfb_inv (upd_obj r f st)"
proof -
  have "\<And>r'. ref_id (upd_obj r f st) r' = ref_id st r'"
    using assms(2) by (simp add: upd_obj_def)
  then show ?thesis
    using assms(1) unfolding tfb_inv_def by (simp add: upd_obj_def)
qed

lemma upd_obj_frame [frame]:
  "mReadyTfBuilders (upd_obj r f st) = mReadyTfBuilders st"
  "mGlobalInfo (upd_obj r f st) = mGlobalInfo st"
  "mTopoTfBuilders (upd_obj r f st) = mTopoTfBuilders st"
  "next_ref (upd_obj r f st) = next_ref st"
  "mMaxTfsInBuilding (upd_obj r f st) = mMaxTfsInBuilding st"
  by (simp_all add: upd_obj_def)

lemma update_estimate_id:
  "tb_id i = process_id (tbu_info upd) \<Longrightarrow> tb_id (update_estimate upd i) = tb_id i"
  by (auto simp: update_estimate_def tb_id_def)

lemma join_inv:
  assumes inv: "tfb_inv st" and fresh: "sm_get (mGlobalInfo st) i = None"
    and i: "i = process_id (tbu_info upd)"
  shows "tfb_inv (addReadyTfBuilder (next_ref st)
      (st\<lparr>heap := (heap st)(next_ref st := new_TfBuilderInfo now upd),
          next_ref := Suc (next_ref st), mGlobalInfo := sm_put i (next_ref st) (mGlobalInfo st)\<rparr>))"
    (is "tfb_inv ?s")
proof -
  have wf: "sm_wf (mGlobalInfo st)" using inv by (simp add: tfb_inv_def)
  have lt: "\<And>j r. (j, r) \<in> set (mGlobalInfo st) \<Longrightarrow> r < next_ref st \<and> ref_id st r = j"
    using inv by (auto simp: tfb_inv_def)
  have nin: "\<And>v. (i, v) \<notin> set (mGlobalInfo st)"
    using fresh smap.get_entries [OF wf, of i] by auto
  have put: "\<And>j r. (j, r) \<in> set (sm_put i (next_ref st) (mGlobalInfo st)) \<longleftrightarrow>
      (j = i \<and> r = next_ref st) \<or> (j, r) \<in> set (mGlobalInfo st)"
    using smap.in_entries_put [OF wf] nin by auto
  have entries: "\<And>j r. (j, r) \<in> set (mGlobalInfo ?s) \<longleftrightarrow>
      (j = i \<and> r = next_ref st) \<or> (j, r) \<in> set (mGlobalInfo st)"
    using put by (simp add: addReadyTfBuilder_def)
  have ready: "\<And>r. r \<in> set (mReadyTfBuilders st) \<Longrightarrow> r < next_ref st"
    using ready_global [OF inv] lt by blast
  have "r < next_ref ?s \<and> ref_id ?s r = j" if "(j, r) \<in> set (mGlobalInfo ?s)" for j r
  proof (cases "(j, r) \<in> set (mGlobalInfo st)")
    case True
    then show ?thesis using lt [OF True] by (simp add: addReadyTfBuilder_def)
  next
    case False
    then have "j = i \<and> r = next_ref st" using that entries by blast
    then show ?thesis
      using i by (simp add: addReadyTfBuilder_def new_TfBuilderInfo_def tb_id_def)
  qed
  then have "\<forall>(j, r) \<in> set (mGlobalInfo ?s). r < next_ref ?s \<and> ref_id ?s r = j"
    by blast
  moreover have "set (mReadyTfBuilders ?s) \<subseteq> snd ` set (mGlobalInfo ?s)"
  proof
    fix r
    assume "r \<in> set (mReadyTfBuilders ?s)"
    then have "r = next_ref st \<or> r \<in> set (mReadyTfBuilders st)"
      by (auto simp: addReadyTfBuilder_def)
    then have "\<exists>j. (j, r) \<in> set (mGlobalInfo ?s)"
      using entries ready_global [OF inv, of r] by blast
    then show "r \<in> snd ` set (mGlobalInfo ?s)" by (metis image_eqI snd_conv)
  qed
  moreover have "distinct (mReadyTfBuilders ?s)"
    using inv ready by (auto simp: tfb_inv_def addReadyTfBuilder_def)
  ultimately show ?thesis
    using inv wf by (auto simp: tfb_inv_def addReadyTfBuilder_def)
qed

lemma updateTfBuilderInfo_inv:
  assumes inv: "tfb_inv st"
  shows "tfb_inv (updateTfBuilderInfo now upd st)"
proof (cases "process_state (tbu_info upd) = PROC_NOT_RUNNING")
  case True
  then show ?thesis
    using inv erase_inv [OF inv]
    by (auto simp: updateTfBuilderInfo_def Let_def frame split: option.splits)
next
  case False
  show ?thesis
  proof (cases "sm_get (mGlobalInfo st) (process_id (tbu_info upd))")
    case None
    then show ?thesis
      using False join_inv [OF inv None refl] by (simp add: updateTfBuilderInfo_def Let_def)
  next
    case (Some r)
    have "ref_id st r = process_id (tbu_info upd)"
      using global_ref_id [OF inv Some] by simp
    then show ?thesis
      using False Some
      by (auto simp: updateTfBuilderInfo_def Let_def tb_id_def update_estimate_def intro!: upd_obj_inv inv)
  qed
qed

section \<open>The choice of a TfBuilder\<close>

text \<open>A TfBuilder may take a time frame if it is below the limit and has the memory.\<close>

definition eligible :: "(ref \<Rightarrow> TfBuilderInfo) \<Rightarrow> u64 \<Rightarrow> u64 \<Rightarrow> ref \<Rightarrow> bool" where
  "eligible h mx est r \<longleftrightarrow> mTfsInBuilding (h r) < mx \<and> est \<le> mEstimatedFreeMemory (h r)"

lemma find_scan_Some:
  "fst (find_scan h mx est ex rs) = Some n \<longleftrightarrow>
     n < length rs \<and> eligible h mx est (rs ! n) \<and> (\<forall>j < n. \<not> eligible h mx est (rs ! j))"
proof (induction rs arbitrary: ex n)
  case Nil
  then show ?case by simp
next
  case (Cons r rs)
  show ?case
  proof (cases "eligible h mx est r")
    case True
    then show ?thesis
      by (cases n) (auto simp: eligible_def split: prod.splits)
  next
    case False
    have "fst (find_scan h mx est ex (r # rs)) = map_option Suc (fst (find_scan h mx est
        (ex \<or> mx \<le> mTfsInBuilding (h r)) rs))"
      using False by (auto simp: eligible_def split: prod.splits)
    then show ?thesis
      using Cons.IH False by (cases n) (auto simp: All_less_Suc2)
  qed
qed

lemma find_scan_None:
  "fst (find_scan h mx est ex rs) = None \<longleftrightarrow> (\<forall>r \<in> set rs. \<not> eligible h mx est r)"
proof (induction rs arbitrary: ex)
  case Nil
  then show ?case by simp
next
  case (Cons r rs)
  then show ?case by (auto simp: eligible_def split: prod.splits)
      (metis fst_conv)+
qed

lemma find_inv:
  assumes inv: "tfb_inv st"
  shows "tfb_inv (snd (findTfBuilderForTf sz st))"
proof (cases "fst (find_scan (heap st) (mMaxTfsInBuilding st) (est_tf_size sz) False (mReadyTfBuilders st))")
  case None
  then show ?thesis
    using inv by (auto simp: findTfBuilderForTf_def Let_def split: prod.splits)
next
  case (Some n)
  let ?rs = "mReadyTfBuilders st"
  have n: "n < length ?rs" using Some by (simp add: find_scan_Some)
  have split: "?rs = take n ?rs @ ?rs ! n # drop (Suc n) ?rs"
    using n by (rule id_take_nth_drop)
  let ?st1 = "upd_obj (?rs ! n) (\<lambda>o1. o1\<lparr>mEstimatedFreeMemory := mEstimatedFreeMemory o1 - est_tf_size sz\<rparr>) st"
  let ?new = "(take n ?rs @ drop (Suc n) ?rs) @ [?rs ! n]"
  have inv1: "tfb_inv ?st1" using inv by (rule upd_obj_inv) (simp add: tb_id_def)
  have perm: "mset ?new = mset ?rs"
  proof -
    have "mset ?rs = mset (take n ?rs @ ?rs ! n # drop (Suc n) ?rs)"
      by (rule arg_cong [OF split])
    also have "\<dots> = mset ?new" by (simp del: append_take_drop_id)
    finally show ?thesis by (rule sym)
  qed
  have "distinct ?new"
    using inv unfolding mset_eq_imp_distinct_iff [OF perm] by (simp add: tfb_inv_def)
  then have "tfb_inv (?st1\<lparr>mReadyTfBuilders := ?new\<rparr>)"
    using inv1 mset_eq_setD [OF perm] unfolding tfb_inv_def by (simp add: frame)
  then show ?thesis
    using Some by (auto simp: findTfBuilderForTf_def Let_def split: prod.splits)
qed

lemma mark_inv:
  assumes "tfb_inv st"
  shows "tfb_inv (snd (markTfBuilderWithTfId i tfid st))"
  using assms by (auto simp: markTfBuilderWithTfId_def tb_id_def intro!: upd_obj_inv split: option.splits)

lemma least_utilized_in:
  "least_utilized h b rs = Some r \<Longrightarrow> Some r = b \<or> r \<in> set rs"
proof (induction rs arbitrary: b)
  case Nil
  then show ?case by simp
next
  case (Cons x rs)
  then show ?case by (fastforce split: option.splits if_splits)
qed

lemma least_utilized_Some: "least_utilized h (Some b) rs \<noteq> None"
  by (induction rs arbitrary: b) auto

lemma least_utilized_least:
  "least_utilized h b rs = Some r \<Longrightarrow>
     (\<forall>x \<in> set rs. mTotalUtilization (h r) \<le> mTotalUtilization (h x)) \<and>
     (\<forall>b'. b = Some b' \<longrightarrow> mTotalUtilization (h r) \<le> mTotalUtilization (h b'))"
proof (induction rs arbitrary: b)
  case Nil
  then show ?case by simp
next
  case (Cons x rs)
  show ?case
    using Cons.IH [OF Cons.prems [simplified]] by (cases b) (auto split: if_splits)
qed

lemma topo_find_inv:
  assumes inv: "tfb_inv st"
  shows "tfb_inv (snd (findTfBuilderForTopoStf origin subspec st))"
proof (cases "map_of (mTopoTfBuilders st) (topo_key origin subspec)")
  case Some
  then show ?thesis using inv by (simp add: findTfBuilderForTopoStf_def)
next
  case None
  show ?thesis
  proof (cases "least_utilized (heap st) None (mReadyTfBuilders st)")
    case None
    then show ?thesis
      using inv \<open>map_of _ _ = None\<close> by (simp add: findTfBuilderForTopoStf_def)
  next
    case (Some r)
    let ?st1 = "upd_obj r (\<lambda>o1. o1\<lparr>mTotalUtilization := mTotalUtilization o1 + 1\<rparr>) st"
    have "r \<in> set (mReadyTfBuilders st)"
      using least_utilized_in [OF Some] by simp
    moreover have "topo_key origin subspec \<notin> fst ` set (mTopoTfBuilders st)"
      using None by (simp add: map_of_eq_None_iff)
    moreover have "tfb_inv ?st1"
      using inv by (rule upd_obj_inv) (simp add: tb_id_def)
    ultimately show ?thesis
      using Some None unfolding tfb_inv_def
      by (simp add: findTfBuilderForTopoStf_def Let_def frame)
  qed
qed

lemma setMax_inv: "tfb_inv st \<Longrightarrow> tfb_inv (setMaxTfsInBuilding n st)"
  by (simp add: setMaxTfsInBuilding_def Let_def tfb_inv_def)

lemma fold_erase_inv: "tfb_inv st \<Longrightarrow> tfb_inv (fold housekeeping_erase is st)"
  by (induction "is" arbitrary: st) (auto simp: housekeeping_erase_inv)

section \<open>Runs of the database\<close>

text \<open>
  Every critical section of the class is one step; the erase of a stale id is a step of its
  own, since the housekeeping thread releases the lock before it (any id may be stale by then).
\<close>

inductive tfb_step :: "tfb_state \<Rightarrow> tfb_state \<Rightarrow> bool" where
  update: "tfb_step st (updateTfBuilderInfo now upd st)"
| find: "tfb_step st (snd (findTfBuilderForTf sz st))"
| mark: "tfb_step st (snd (markTfBuilderWithTfId i tfid st))"
| topo: "tfb_step st (snd (findTfBuilderForTopoStf origin subspec st))"
| remove: "tfb_step st (removeReadyTfBuilder i st)"
| limit: "tfb_step st (setMaxTfsInBuilding n st)"
| erase: "tfb_step st (housekeeping_erase i st)"
| stop: "tfb_step st (tfb_stop st)"

definition tfb_initial :: "tfb_state \<Rightarrow> bool" where
  "tfb_initial st \<longleftrightarrow> mGlobalInfo st = [] \<and> mReadyTfBuilders st = [] \<and> mTopoTfBuilders st = []"

inductive tfb_reach :: "tfb_state \<Rightarrow> bool" where
  init: "tfb_initial st \<Longrightarrow> tfb_reach (tfb_start st)"
| step: "tfb_reach st \<Longrightarrow> tfb_step st st' \<Longrightarrow> tfb_reach st'"

inductive_cases tfb_stepE: "tfb_step st st'"

lemma tfb_step_inv:
  assumes "tfb_step st st'" and "tfb_inv st"
  shows "tfb_inv st'"
  using assms
proof (induction rule: tfb_step.induct)
  case (stop st)
  then show ?case by (simp add: tfb_stop_def tfb_inv_def)
qed (simp_all add: updateTfBuilderInfo_inv find_inv mark_inv topo_find_inv removeReady_inv
    setMax_inv housekeeping_erase_inv)

lemma tfb_reach_inv: "tfb_reach st \<Longrightarrow> tfb_inv st"
proof (induction rule: tfb_reach.induct)
  case (init st)
  then show ?case by (simp add: tfb_initial_def tfb_start_def tfb_inv_def)
next
  case (step st st')
  then show ?case by (simp add: tfb_step_inv)
qed

section \<open>Facts the properties share\<close>

lemma find_cases:
  obtains (none) e where "findTfBuilderForTf sz st = (Inl e, st)"
      and "\<forall>r \<in> set (mReadyTfBuilders st). \<not> eligible (heap st) (mMaxTfsInBuilding st) (est_tf_size sz) r"
  | (found) n where "n < length (mReadyTfBuilders st)"
      and "eligible (heap st) (mMaxTfsInBuilding st) (est_tf_size sz) (mReadyTfBuilders st ! n)"
      and "\<forall>j < n. \<not> eligible (heap st) (mMaxTfsInBuilding st) (est_tf_size sz) (mReadyTfBuilders st ! j)"
      and "findTfBuilderForTf sz st =
        (Inr (ref_id st (mReadyTfBuilders st ! n)),
         (upd_obj (mReadyTfBuilders st ! n)
           (\<lambda>o1. o1\<lparr>mEstimatedFreeMemory := mEstimatedFreeMemory o1 - est_tf_size sz\<rparr>) st)
         \<lparr>mReadyTfBuilders := take n (mReadyTfBuilders st) @ drop (Suc n) (mReadyTfBuilders st)
            @ [mReadyTfBuilders st ! n]\<rparr>)"
proof (cases "fst (find_scan (heap st) (mMaxTfsInBuilding st) (est_tf_size sz) False (mReadyTfBuilders st))")
  case None
  have "\<exists>e. findTfBuilderForTf sz st = (Inl e, st)"
    using None by (auto simp: findTfBuilderForTf_def Let_def split: prod.splits)
  then show ?thesis using none None by (auto simp: find_scan_None)
next
  case (Some n)
  obtain e where "find_scan (heap st) (mMaxTfsInBuilding st) (est_tf_size sz) False
      (mReadyTfBuilders st) = (Some n, e)"
    using Some by (metis prod.collapse)
  then show ?thesis
    using Some [unfolded find_scan_Some] by (intro found [of n]) (simp_all add: findTfBuilderForTf_def Let_def)
qed

lemma update_known:
  assumes "sm_get (mGlobalInfo st) (process_id (tbu_info upd)) = Some r"
    and "process_state (tbu_info upd) \<noteq> PROC_NOT_RUNNING"
  shows "updateTfBuilderInfo now upd st =
    upd_obj r (\<lambda>o1. update_estimate upd
      (o1\<lparr>mUpdateLocalTime := now, mReportedFreeMemory := free_memory upd,
          mTfsInBuilding := scast (num_tfs_in_building upd)\<rparr>)) st"
  using assms by (simp add: updateTfBuilderInfo_def Let_def)

lemma est_tf_size_nat:
  assumes "unat sz * 110 < 2 ^ 64"
  shows "unat (est_tf_size sz) = unat sz * 110 div 100"
proof -
  have "unat (sz * 110) = unat sz * 110"
    using assms by (subst unat_mult_small) simp_all
  then show ?thesis
    by (simp add: est_tf_size_def sTfSizeOverestimatePercent_def unat_div)
qed

text \<open>A TfBuilder that is known but no longer ready stays out of the ready list on updates.\<close>

lemma update_not_ready:
  assumes inv: "tfb_inv st" and known: "sm_has (mGlobalInfo st) i"
    and out: "i \<notin> ref_id st ` set (mReadyTfBuilders st)"
    and run: "process_state (tbu_info upd) \<noteq> PROC_NOT_RUNNING"
  shows "sm_has (mGlobalInfo (updateTfBuilderInfo now upd st)) i"
    and "i \<notin> ref_id (updateTfBuilderInfo now upd st) ` set (mReadyTfBuilders (updateTfBuilderInfo now upd st))"
proof -
  let ?j = "process_id (tbu_info upd)"
  show "sm_has (mGlobalInfo (updateTfBuilderInfo now upd st)) i"
    using known run by (auto simp: updateTfBuilderInfo_def Let_def frame addReadyTfBuilder_def split: option.splits)
  show "i \<notin> ref_id (updateTfBuilderInfo now upd st) ` set (mReadyTfBuilders (updateTfBuilderInfo now upd st))"
  proof (cases "sm_get (mGlobalInfo st) ?j")
    case None
    have "i \<noteq> ?j" using None known by (auto simp: sm_has_get)
    moreover have "\<forall>r \<in> set (mReadyTfBuilders st). r \<noteq> next_ref st"
      using ready_global [OF inv] inv by (fastforce simp: tfb_inv_def)
    ultimately show ?thesis
      using None run out
      by (auto simp: updateTfBuilderInfo_def Let_def addReadyTfBuilder_def new_TfBuilderInfo_def tb_id_def)
  next
    case (Some r)
    have "ref_id st r = ?j" using global_ref_id [OF inv Some] by simp
    then have "\<And>x. ref_id (updateTfBuilderInfo now upd st) x = ref_id st x"
      using run by (auto simp: update_known [OF Some] upd_obj_def tb_id_def update_estimate_def)
    then show ?thesis
      using run out by (simp add: update_known [OF Some] frame)
  qed
qed

lemma updates_not_ready:
  assumes "tfb_inv st" and "sm_has (mGlobalInfo st) i"
    and "i \<notin> ref_id st ` set (mReadyTfBuilders st)"
    and "\<forall>(t, u) \<in> set ups. process_state (tbu_info u) \<noteq> PROC_NOT_RUNNING"
  shows "i \<notin> ref_id (fold (\<lambda>(t, u). updateTfBuilderInfo t u) ups st) `
    set (mReadyTfBuilders (fold (\<lambda>(t, u). updateTfBuilderInfo t u) ups st))"
  using assms
proof (induction ups arbitrary: st)
  case Nil
  then show ?case by simp
next
  case (Cons x ups)
  obtain t u where x: "x = (t, u)" by (cases x)
  have run: "process_state (tbu_info u) \<noteq> PROC_NOT_RUNNING" using Cons.prems(4) x by simp
  show ?case
    using Cons.IH [of "updateTfBuilderInfo t u st"] Cons.prems x
      updateTfBuilderInfo_inv [OF Cons.prems(1)] update_not_ready [OF Cons.prems(1-3) run]
    by simp
qed

text \<open>Equal keys have equal hashes, but the hash of a key does not depend on its sub-specification.\<close>

lemma topo_eq_key: "topo_eq (topo_key o1 s1) (topo_key o2 s2) \<longleftrightarrow> topo_key o1 s1 = topo_key o2 s2"
  by (auto simp: topo_eq_def topo_key_def min_def)

lemma topo_eq_hash: "topo_eq k k' \<Longrightarrow> topo_hash hu hs h k = topo_hash hu hs h k'"
  by (simp add: topo_eq_def topo_hash_def)

lemma topo_hash_ignores_subspec:
  "topo_hash hu hs h (topo_key orig s1) = topo_hash hu hs h (topo_key orig s2)"
  by (simp add: topo_hash_def topo_key_def)

section \<open>Closed instances\<close>

definition ex_update :: "string \<Rightarrow> u64 \<Rightarrow> u64 \<Rightarrow> TfBuilderUpdateMessage" where
  "ex_update i built free =
     \<lparr>tbu_info = \<lparr>bi_type = ProcTfBuilder, process_id = i, last_update_t = 0, process_state = PROC_RUNNING\<rparr>,
      last_built_tf_id = built, free_memory = free, num_buffered_tfs = 0, num_tfs_in_building = 0\<rparr>"

definition ex_tfb0 :: tfb_state where
  "ex_tfb0 = \<lparr>tfbRunning = False, mMaxTfsInBuilding = 16,
     heap = (\<lambda>_. new_TfBuilderInfo 0 (ex_update [] 0 0)), next_ref = 0,
     mGlobalInfo = [], mReadyTfBuilders = [], mTopoTfBuilders = []\<rparr>"

text \<open>Two TfBuilders have joined, the second with more memory.\<close>

definition ex_tfb2 :: tfb_state where
  "ex_tfb2 = updateTfBuilderInfo 0 (ex_update ''b'' 0 9000)
     (updateTfBuilderInfo 0 (ex_update ''a'' 0 1000) (tfb_start ex_tfb0))"

lemma ex_tfb2_reach: "tfb_reach ex_tfb2"
  unfolding ex_tfb2_def
  by (intro tfb_reach.step [OF _ tfb_step.update] tfb_reach.init)
    (simp add: tfb_initial_def ex_tfb0_def)

lemma ex_tfb2_fields:
  "mReadyTfBuilders ex_tfb2 = [0, 1]" "mGlobalInfo ex_tfb2 = [(''a'', 0), (''b'', 1)]"
  "mMaxTfsInBuilding ex_tfb2 = 16" "mTopoTfBuilders ex_tfb2 = []"
  "heap ex_tfb2 0 = new_TfBuilderInfo 0 (ex_update ''a'' 0 1000)"
  "heap ex_tfb2 (Suc 0) = new_TfBuilderInfo 0 (ex_update ''b'' 0 9000)"
  by (simp_all add: ex_tfb2_def ex_tfb0_def tfb_start_def updateTfBuilderInfo_def ex_update_def
      addReadyTfBuilder_def less_char_def sm_get_def Let_def)

section \<open>Properties\<close>

text \<open>
  C5. In every reachable state the three tables of the database agree: no TfBuilder is twice
  in the ready list, every ready TfBuilder is the one the global table knows under its id, and
  every topological assignment points to a ready TfBuilder. Updates, searches, removals, the
  housekeeping thread (in its separate critical sections) and \<open>stop()\<close> may interleave in any
  order.
\<close>

theorem tfb_tables_agree:
  assumes "tfb_reach st"
  shows "distinct (map (ref_id st) (mReadyTfBuilders st)) \<and>
    (\<forall>r \<in> set (mReadyTfBuilders st). sm_get (mGlobalInfo st) (ref_id st r) = Some r) \<and>
    (\<forall>(k, r) \<in> set (mTopoTfBuilders st). r \<in> set (mReadyTfBuilders st))"
proof -
  have inv: "tfb_inv st" using assms by (rule tfb_reach_inv)
  have wf: "sm_wf (mGlobalInfo st)" using inv by (simp add: tfb_inv_def)
  have "inj_on (ref_id st) (set (mReadyTfBuilders st))"
    using ready_id_inj [OF inv] by (auto intro: inj_onI)
  then have "distinct (map (ref_id st) (mReadyTfBuilders st))"
    using inv by (simp add: tfb_inv_def distinct_map)
  moreover have "\<forall>r \<in> set (mReadyTfBuilders st). sm_get (mGlobalInfo st) (ref_id st r) = Some r"
    using ready_global [OF inv] sm_get_in [OF wf] by blast
  moreover have "\<forall>(k, r) \<in> set (mTopoTfBuilders st). r \<in> set (mReadyTfBuilders st)"
  proof clarify
    fix k r
    assume "(k, r) \<in> set (mTopoTfBuilders st)"
    then have "r \<in> snd ` set (mTopoTfBuilders st)" by (rule image_eqI [rotated]) simp
    then show "r \<in> set (mReadyTfBuilders st)" using inv unfolding tfb_inv_def by blast
  qed
  ultimately show ?thesis by blast
qed

theorem tfb_tables_agree_witness:
  "mReadyTfBuilders ex_tfb2 = [0, 1] \<and> distinct (map (ref_id ex_tfb2) [0, 1]) \<and>
   sm_get (mGlobalInfo ex_tfb2) (ref_id ex_tfb2 1) = Some 1"
  using tfb_tables_agree [OF ex_tfb2_reach] by (simp add: ex_tfb2_fields)

text \<open>
  The choice of a TfBuilder: when \<open>findTfBuilderForTf\<close> answers an id, it is that of the
  first TfBuilder in the ready list which is below the limit of time frames in building and
  has the estimated memory. It is moved to the end of the list (round robin), the others keep
  their order, and its memory estimate is lowered by exactly the estimated size, without
  wrapping below zero. No other object changes.
\<close>

theorem find_tfbuilder_choice:
  assumes "findTfBuilderForTf sz st = (Inr i, st')"
  shows "\<exists>n < length (mReadyTfBuilders st).
    let r = mReadyTfBuilders st ! n; est = est_tf_size sz in
      i = ref_id st r \<and>
      eligible (heap st) (mMaxTfsInBuilding st) est r \<and>
      (\<forall>j < n. \<not> eligible (heap st) (mMaxTfsInBuilding st) est (mReadyTfBuilders st ! j)) \<and>
      mReadyTfBuilders st' = take n (mReadyTfBuilders st) @ drop (Suc n) (mReadyTfBuilders st) @ [r] \<and>
      unat (mEstimatedFreeMemory (heap st' r)) = unat (mEstimatedFreeMemory (heap st r)) - unat est \<and>
      unat est \<le> unat (mEstimatedFreeMemory (heap st r)) \<and>
      (\<forall>x. x \<noteq> r \<longrightarrow> heap st' x = heap st x)"
proof (cases rule: find_cases [of sz st])
  case (none e)
  then show ?thesis using assms by simp
next
  case (found n)
  let ?r = "mReadyTfBuilders st ! n"
  have le: "est_tf_size sz \<le> mEstimatedFreeMemory (heap st ?r)"
    using found(2) by (simp add: eligible_def)
  have st': "i = ref_id st ?r"
      "mReadyTfBuilders st' = take n (mReadyTfBuilders st) @ drop (Suc n) (mReadyTfBuilders st) @ [?r]"
      "heap st' ?r = heap st ?r\<lparr>mEstimatedFreeMemory := mEstimatedFreeMemory (heap st ?r) - est_tf_size sz\<rparr>"
      "\<forall>x. x \<noteq> ?r \<longrightarrow> heap st' x = heap st x"
    using assms by (auto simp: found(4) upd_obj_def)
  have exact: "unat (mEstimatedFreeMemory (heap st' ?r)) =
      unat (mEstimatedFreeMemory (heap st ?r)) - unat (est_tf_size sz)"
    by (simp add: st'(3) unat_minus_le [OF le])
  show ?thesis
    unfolding Let_def
    by (intro exI [of _ n] conjI; fact found st' exact le [unfolded word_le_nat_alt])
qed

lemma ex_find: "findTfBuilderForTf 2000 ex_tfb2 =
    (Inr ''b'', snd (findTfBuilderForTf 2000 ex_tfb2))"
  by (simp add: findTfBuilderForTf_def ex_tfb2_fields est_tf_size_def sTfSizeOverestimatePercent_def
      new_TfBuilderInfo_def ex_update_def tb_id_def Let_def)

theorem find_tfbuilder_choice_witness:
  "\<exists>n < length [0, 1 :: nat]. ''b'' = ref_id ex_tfb2 ([0, 1] ! n) \<and>
    unat (est_tf_size 2000) \<le> unat (mEstimatedFreeMemory (heap ex_tfb2 ([0, 1] ! n)))"
  using find_tfbuilder_choice [OF ex_find] unfolding ex_tfb2_fields(1) Let_def
  by (elim exE conjE) (intro exI conjI; assumption)

text \<open>
  The search is complete: it refuses a time frame exactly when no TfBuilder of the ready
  list may take it, and a refusal leaves the database unchanged.
\<close>

theorem find_tfbuilder_complete:
  "((\<exists>e. findTfBuilderForTf sz st = (Inl e, st)) \<longleftrightarrow>
      (\<forall>r \<in> set (mReadyTfBuilders st).
         \<not> eligible (heap st) (mMaxTfsInBuilding st) (est_tf_size sz) r)) \<and>
   ((\<exists>i st'. findTfBuilderForTf sz st = (Inr i, st')) \<longleftrightarrow>
      (\<exists>r \<in> set (mReadyTfBuilders st).
         eligible (heap st) (mMaxTfsInBuilding st) (est_tf_size sz) r))"
proof (cases rule: find_cases [of sz st])
  case (none e)
  then show ?thesis by simp
next
  case (found n)
  then have "mReadyTfBuilders st ! n \<in> set (mReadyTfBuilders st)" by simp
  then show ?thesis using found(2) by (auto simp: found(4))
qed

theorem find_tfbuilder_complete_witness:
  "(\<exists>e. findTfBuilderForTf 20000 ex_tfb2 = (Inl e, ex_tfb2)) \<and>
   (\<exists>i st'. findTfBuilderForTf 2000 ex_tfb2 = (Inr i, st'))"
  using find_tfbuilder_complete [of 20000 ex_tfb2] find_tfbuilder_complete [of 2000 ex_tfb2]
  by (simp add: ex_tfb2_fields eligible_def new_TfBuilderInfo_def ex_update_def est_tf_size_def
      sTfSizeOverestimatePercent_def)

text \<open>
  The size estimate: as long as \<open>110 * size\<close> fits into 64 bits, the estimate is the size
  plus 10 per cent (rounded down) and never less than the size itself.
\<close>

theorem est_tf_size_exact:
  assumes "unat sz * 110 < 2 ^ 64"
  shows "unat (est_tf_size sz) = unat sz + unat sz div 10 \<and> sz \<le> est_tf_size sz"
proof -
  have "unat sz * 110 div 100 = unat sz + unat sz div 10" by simp
  then show ?thesis using est_tf_size_nat [OF assms] by (simp add: word_le_nat_alt)
qed

theorem est_tf_size_exact_witness: "unat (est_tf_size 1005) = 1105 \<and> (1005 :: u64) \<le> est_tf_size 1005"
  using est_tf_size_exact [of 1005] by simp

text \<open>
  What an update of a known TfBuilder does to its memory estimate: it becomes at most the
  reported free memory, unless the TfBuilder reports a time frame newer than the last one the
  scheduler has recorded for it; then the estimate is left as it was.
\<close>

theorem update_memory_estimate:
  assumes "sm_get (mGlobalInfo st) (process_id (tbu_info upd)) = Some r"
    and "process_state (tbu_info upd) \<noteq> PROC_NOT_RUNNING"
  shows "mReportedFreeMemory (heap (updateTfBuilderInfo now upd st) r) = free_memory upd \<and>
    (last_built_tf_id upd \<le> mLastScheduledTf (heap st r) \<longrightarrow>
       mEstimatedFreeMemory (heap (updateTfBuilderInfo now upd st) r) \<le> free_memory upd) \<and>
    (mLastScheduledTf (heap st r) < last_built_tf_id upd \<longrightarrow>
       mEstimatedFreeMemory (heap (updateTfBuilderInfo now upd st) r) = mEstimatedFreeMemory (heap st r))"
  by (auto simp: update_known [OF assms] upd_obj_def update_estimate_def last_scheduled_tf_id_def)

theorem update_memory_estimate_witness:
  "mEstimatedFreeMemory (heap (updateTfBuilderInfo 7 (ex_update ''a'' 5 10) ex_tfb2) 0) = 1000 \<and>
   mReportedFreeMemory (heap (updateTfBuilderInfo 7 (ex_update ''a'' 5 10) ex_tfb2) 0) = 10"
proof -
  have "sm_get (mGlobalInfo ex_tfb2) (process_id (tbu_info (ex_update ''a'' 5 10))) = Some 0"
    by (simp add: ex_tfb2_fields ex_update_def sm_get_def)
  then show ?thesis
    using update_memory_estimate [of ex_tfb2 "ex_update ''a'' 5 10" 0 7]
    by (simp add: ex_tfb2_fields new_TfBuilderInfo_def ex_update_def)
qed

text \<open>
  A TfBuilder that was taken off the ready list after a failed request stays unscheduled:
  no sequence of status updates brings it back while the global table still knows it.
\<close>

theorem removed_stays_unscheduled:
  assumes "tfb_reach st" and "sm_has (mGlobalInfo st) i"
    and "\<forall>(t, u) \<in> set ups. process_state (tbu_info u) \<noteq> PROC_NOT_RUNNING"
    and "st' = fold (\<lambda>(t, u). updateTfBuilderInfo t u) ups (removeReadyTfBuilder i st)"
  shows "fst (findTfBuilderForTf sz st') \<noteq> Inr i"
proof -
  have inv: "tfb_inv st" using assms(1) by (rule tfb_reach_inv)
  have out: "i \<notin> ref_id (removeReadyTfBuilder i st) ` set (mReadyTfBuilders (removeReadyTfBuilder i st))"
    by (auto simp: removeReady_filter [OF inv] frame)
  have st': "i \<notin> ref_id st' ` set (mReadyTfBuilders st')"
    using updates_not_ready [OF removeReady_inv [OF inv] _ out assms(3)] assms(2,4)
    by (simp add: frame)
  show ?thesis
    using st' by (cases rule: find_cases [of sz st']) auto
qed

theorem removed_stays_unscheduled_witness:
  "fst (findTfBuilderForTf 500 (updateTfBuilderInfo 9 (ex_update ''a'' 0 1000)
     (removeReadyTfBuilder ''a'' ex_tfb2))) \<noteq> Inr ''a''"
  using removed_stays_unscheduled [OF ex_tfb2_reach, of "''a''" "[(9, ex_update ''a'' 0 1000)]" _ 500]
  by (simp add: ex_tfb2_fields ex_update_def sm_has_def)

text \<open>
  Topological distribution: a data source is assigned to a ready TfBuilder of least
  utilization, and the assignment sticks, so that all later STFs of the source go to the same
  TfBuilder without further changes.
\<close>

theorem topo_assignment:
  assumes "findTfBuilderForTopoStf orig subspec st = (Some i, st')"
  shows "findTfBuilderForTopoStf orig subspec st' = (Some i, st') \<and>
    (map_of (mTopoTfBuilders st) (topo_key orig subspec) = None \<longrightarrow>
      (\<exists>r \<in> set (mReadyTfBuilders st). i = ref_id st r \<and>
        (\<forall>x \<in> set (mReadyTfBuilders st). mTotalUtilization (heap st r) \<le> mTotalUtilization (heap st x)) \<and>
        mTotalUtilization (heap st' r) = Suc (mTotalUtilization (heap st r))))"
proof (cases "map_of (mTopoTfBuilders st) (topo_key orig subspec)")
  case (Some r)
  then show ?thesis using assms by (auto simp: findTfBuilderForTopoStf_def)
next
  case None
  then obtain r where r: "least_utilized (heap st) None (mReadyTfBuilders st) = Some r"
    using assms by (auto simp: findTfBuilderForTopoStf_def split: option.splits)
  then show ?thesis
    using assms None least_utilized_in [OF r] least_utilized_least [OF r]
    by (auto simp: findTfBuilderForTopoStf_def Let_def upd_obj_def tb_id_def)
qed

lemma ex_topo: "findTfBuilderForTopoStf ''ITS'' 4 ex_tfb2 =
    (Some ''a'', snd (findTfBuilderForTopoStf ''ITS'' 4 ex_tfb2))"
  by (simp add: findTfBuilderForTopoStf_def ex_tfb2_fields new_TfBuilderInfo_def ex_update_def
      tb_id_def Let_def)

theorem topo_assignment_witness:
  "findTfBuilderForTopoStf ''ITS'' 4 (snd (findTfBuilderForTopoStf ''ITS'' 4 ex_tfb2)) =
     (Some ''a'', snd (findTfBuilderForTopoStf ''ITS'' 4 ex_tfb2))"
  using topo_assignment [OF ex_topo] by simp

end
