(* ===== verification/Sched_ConnManager.thy ===== *)
theory Sched_ConnManager
  imports DD_Discovery
begin

text \<open>
  \<open>TfScheduler/TfSchedulerConnManager.{h,cxx}\<close> and the client collections it owns
  (\<open>common/discovery/StfSenderRpcClient.h\<close>, \<open>TfBuilderRpcClient.h\<close>).

  gRPC, Consul and the remote processes are not part of the sources. They are the parameter
  \<open>rpc_env\<close> of the operations: what each call answers, \<open>None\<close> standing for a gRPC error.
  An operation returns its answer, the new state, and the list of the remote calls it has
  made, in order. A C++ undefined behaviour or an uncaught exception is the value \<open>Inl\<close>.
\<close>

section \<open>The environment and the calls made to it\<close>

record rpc_env =
  tfb_config :: "string \<Rightarrow> string option"
  channel_alive :: "string \<Rightarrow> bool"
  stfs_ids :: "string list option"
  stfs_config :: "string \<Rightarrow> string option"
  stfs_ready :: "string \<Rightarrow> bool"
  stfs_connect :: "string \<Rightarrow> string \<Rightarrow> string \<Rightarrow> ConnStatus option"
  stfs_disconnect :: "string \<Rightarrow> string \<Rightarrow> string \<Rightarrow> u32 option"
  stfs_connect_ucx :: "string \<Rightarrow> string \<Rightarrow> IpPort \<Rightarrow> (ConnStatus \<times> IpPort) option"
  stfs_disconnect_ucx :: "string \<Rightarrow> string \<Rightarrow> IpPort \<Rightarrow> u32 option"
  stfs_data :: "string \<Rightarrow> u64 \<Rightarrow> StfDataStatus option"
  stfs_terminate :: "string \<Rightarrow> bool"
  tfb_terminate :: "string \<Rightarrow> bool"

datatype rpc_call =
    ConnectTfBuilder string string string
  | DisconnectTfBuilder string string string
  | ConnectTfBuilderUCX string string IpPort
  | DisconnectTfBuilderUCX string string IpPort
  | StfDataRequest string u64
  | TerminateStfSender string
  | TerminateTfBuilder string

datatype fault = NullDereference | MapKeyMissing | IteratorPastEnd | OutOfRange

section \<open>State\<close>

datatype StfSenderState = STF_SENDER_STATE_OK | STF_SENDER_STATE_INITIALIZING
  | STF_SENDER_STATE_INCOMPLETE

text \<open>
  A connected TfBuilder client: its discovered endpoint. The map entry is \<open>None\<close> where the
  C++ holds a null \<open>mClient\<close>. A future of a drop request: its id, and whether it is ready.
\<close>

record tfb_client =
  tfbc_endpoint :: string
  tfbc_running :: bool

record drop_future =
  df_stf_id :: u64
  df_ready :: bool

record conn_state =
  mStfSenderIdList :: "string list"
  mStfSenderState :: StfSenderState
  cmRunning :: bool
  mStfSenderRpcClients :: "(string, string) smap"
  mClientsCreated :: bool
  mTfBuilderRpcClients :: "(string, tfb_client option) smap"
  mStfDropFutures :: "drop_future list"

section \<open>The client collections\<close>

definition tfbc_alive :: "rpc_env \<Rightarrow> tfb_client \<Rightarrow> bool" where
  "tfbc_alive env c \<longleftrightarrow> tfbc_running c \<and> channel_alive env (tfbc_endpoint c)"

text \<open>\<open>TfBuilderRpcClientCtx::start\<close> on a new client.\<close>

definition tfbc_start :: "rpc_env \<Rightarrow> string \<Rightarrow> bool \<times> tfb_client" where
  "tfbc_start env i =
     (case tfb_config env i of
        None \<Rightarrow> (False, \<lparr>tfbc_endpoint = [], tfbc_running = False\<rparr>)
      | Some ep \<Rightarrow> (channel_alive env ep, \<lparr>tfbc_endpoint = ep, tfbc_running = True\<rparr>))"

text \<open>
  \<open>remove\<close> dereferences the client it erases; a null one is only in the map after a
  \<open>NullDereference\<close>, which ends the process.
\<close>

definition tfbc_remove :: "string \<Rightarrow> (string, tfb_client option) smap \<Rightarrow> bool \<times> (string, tfb_client option) smap"
  where
  "tfbc_remove i m = (if sm_has m i then (True, sm_del i m) else (False, m))"

definition tfbc_add ::
    "rpc_env \<Rightarrow> string \<Rightarrow> (string, tfb_client option) smap \<Rightarrow> bool \<times> (string, tfb_client option) smap" where
  "tfbc_add env i m =
     (let m1 = snd (tfbc_remove i m);
          (ok, c) = tfbc_start env i;
          m2 = sm_put i (Some c) m1
      in (ok, if ok then m2 else sm_del i m2))"

text \<open>
  \<open>add_if_new\<close> ends with \<open>mClients[pId].mClient->is_alive()\<close>: where the entry has just been
  erased, \<open>operator[]\<close> inserts one with a null client.
\<close>

definition add_if_new ::
    "rpc_env \<Rightarrow> string \<Rightarrow> (string, tfb_client option) smap \<Rightarrow>
     (fault + bool) \<times> (string, tfb_client option) smap" where
  "add_if_new env i m =
     (let m1 = (if \<not> sm_has m i then
                  (let (ok, c) = tfbc_start env i; m2 = sm_put i (Some c) m
                   in if ok then m2 else sm_del i m2)
                else m)
      in case sm_get m1 i of
           None \<Rightarrow> (Inl NullDereference, sm_put i None m1)
         | Some None \<Rightarrow> (Inl NullDereference, m1)
         | Some (Some c) \<Rightarrow> (Inr (tfbc_alive env c), m1))"

definition tfbc_get :: "string \<Rightarrow> (string, tfb_client option) smap \<Rightarrow> tfb_client option" where
  "tfbc_get i m = (case sm_get m i of None \<Rightarrow> None | Some c \<Rightarrow> c)"

text \<open>\<open>StfSenderRpcClientCollection::start\<close>: connect what is missing, then check every client.\<close>

fun stfs_connect_missing :: "rpc_env \<Rightarrow> string list \<Rightarrow> (string, string) smap \<Rightarrow> (string, string) smap" where
  "stfs_connect_missing env [] m = m"
| "stfs_connect_missing env (i # is) m =
     (if sm_has m i then stfs_connect_missing env is m
      else case stfs_config env i of
             None \<Rightarrow> stfs_connect_missing env is m
           | Some ep \<Rightarrow>
               (if ep = [] then stfs_connect_missing env is m
                else stfs_connect_missing env is (sm_put i ep m)))"

definition stfs_start :: "rpc_env \<Rightarrow> string \<Rightarrow> conn_state \<Rightarrow> bool \<times> conn_state" where
  "stfs_start env partition_id st =
     (if partition_id = [] then (False, st)
      else case stfs_ids env of
             None \<Rightarrow> (False, st)
           | Some ids \<Rightarrow>
               let m = stfs_connect_missing env ids (mStfSenderRpcClients st);
                   st1 = st\<lparr>mStfSenderRpcClients := m\<rparr>;
                   ready = list_all (\<lambda>e. stfs_ready env (fst e)) m
               in if length m < length ids then (False, st1)
                  else (ready, st1\<lparr>mClientsCreated := ready\<rparr>))"

definition stfs_stop :: "conn_state \<Rightarrow> conn_state" where
  "stfs_stop st = st\<lparr>mStfSenderRpcClients := [], mClientsCreated := False\<rparr>"

definition checkStfSenderRpcConn :: "rpc_env \<Rightarrow> string \<Rightarrow> conn_state \<Rightarrow> bool" where
  "checkStfSenderRpcConn env i st \<longleftrightarrow>
     (if mClientsCreated st then
        (case sm_get (mStfSenderRpcClients st) i of
           None \<Rightarrow> False
         | Some ep \<Rightarrow> channel_alive env ep)
      else False)"

section \<open>TfSchedulerConnManager\<close>

definition cm_start :: "rpc_env \<Rightarrow> string \<Rightarrow> conn_state \<Rightarrow> bool \<times> conn_state" where
  "cm_start env partition_id st =
     (let (ok, st1) = stfs_start env partition_id st
      in if \<not> ok then (False, st1) else (True, st1\<lparr>cmRunning := True\<rparr>))"

definition cm_stop :: "conn_state \<Rightarrow> conn_state" where
  "cm_stop st = stfs_stop (st\<lparr>cmRunning := False\<rparr>)"

definition checkStfSenders :: "rpc_env \<Rightarrow> conn_state \<Rightarrow> nat" where
  "checkStfSenders env st =
     length (filter (\<lambda>i. checkStfSenderRpcConn env i st) (mStfSenderIdList st))"

definition stfSendersReady :: "conn_state \<Rightarrow> bool" where
  "stfSendersReady st \<longleftrightarrow> length (mStfSenderRpcClients st) = length (mStfSenderIdList st)"

definition deleteTfBuilderRpcClient :: "string \<Rightarrow> conn_state \<Rightarrow> conn_state" where
  "deleteTfBuilderRpcClient i st =
     st\<lparr>mTfBuilderRpcClients := snd (tfbc_remove i (mTfBuilderRpcClients st))\<rparr>"

text \<open>\<open>disconnectTfBuilder\<close>: one request per connected socket; the last error is reported.\<close>

fun disconnect_loop ::
    "rpc_env \<Rightarrow> string \<Rightarrow> (string, string) smap \<Rightarrow> TfBuilderSocket list \<Rightarrow> u32 \<Rightarrow> rpc_call list \<Rightarrow>
     u32 \<times> rpc_call list" where
  "disconnect_loop env tfb clients [] res calls = (res, calls)"
| "disconnect_loop env tfb clients (s # ss) res calls =
     (if sock_peer_id s = [] then disconnect_loop env tfb clients ss res calls
      else if \<not> sm_has clients (sock_peer_id s) then disconnect_loop env tfb clients ss res calls
      else
        let calls1 = calls @ [DisconnectTfBuilder (sock_peer_id s) tfb (sock_endpoint s)]
        in case stfs_disconnect env (sock_peer_id s) tfb (sock_endpoint s) of
             None \<Rightarrow> disconnect_loop env tfb clients ss 5 calls1
           | Some r \<Rightarrow>
               (if r \<noteq> 0 then disconnect_loop env tfb clients ss 7 calls1
                else disconnect_loop env tfb clients ss res calls1))"

definition disconnectTfBuilder ::
    "rpc_env \<Rightarrow> TfBuilderConfigStatus \<Rightarrow> conn_state \<Rightarrow> u32 \<times> conn_state \<times> rpc_call list" where
  "disconnectTfBuilder env status st =
     (let tfb = process_id (tbc_info status);
          st1 = deleteTfBuilderRpcClient tfb st;
          (res, calls) = disconnect_loop env tfb (mStfSenderRpcClients st1)
            (map snd (sockets_map status)) 0 []
      in (res, st1, calls))"

record TfBuilderConnectionResponse =
  tcr_status :: ConnStatus
  connection_map :: "(u32, string) smap"

text \<open>
  The connection loop of \<open>connectTfBuilder\<close>, over the StfSender clients in the order of
  their ids; \<open>map().at(idx)\<close> of a missing index ends the process.
\<close>

fun connect_loop ::
    "rpc_env \<Rightarrow> string \<Rightarrow> (u32, TfBuilderSocket) smap \<Rightarrow> u32 \<Rightarrow> string list \<Rightarrow>
     TfBuilderConnectionResponse \<Rightarrow> rpc_call list \<Rightarrow>
     (fault + bool \<times> TfBuilderConnectionResponse) \<times> rpc_call list" where
  "connect_loop env tfb socks idx [] resp calls = (Inr (True, resp), calls)"
| "connect_loop env tfb socks idx (i # is) resp calls =
     (case sm_get socks idx of
        None \<Rightarrow> (Inl MapKeyMissing, calls)
      | Some s \<Rightarrow>
          let calls1 = calls @ [ConnectTfBuilder i tfb (sock_endpoint s)]
          in case stfs_connect env i tfb (sock_endpoint s) of
               None \<Rightarrow> (Inr (False, resp\<lparr>tcr_status := ERROR_GRPC_STF_SENDER\<rparr>), calls1)
             | Some r \<Rightarrow>
                 (if r \<noteq> CONN_OK then (Inr (False, resp\<lparr>tcr_status := r\<rparr>), calls1)
                  else connect_loop env tfb socks (idx + 1) is
                         (resp\<lparr>connection_map := sm_put idx i (connection_map resp)\<rparr>) calls1))"

definition connectTfBuilder ::
    "rpc_env \<Rightarrow> TfBuilderConfigStatus \<Rightarrow> conn_state \<Rightarrow>
     (fault + TfBuilderConnectionResponse) \<times> conn_state \<times> rpc_call list" where
  "connectTfBuilder env status st =
     (let resp = (\<lambda>e. \<lparr>tcr_status = e, connection_map = []\<rparr>);
          tfb = process_id (tbc_info status)
      in if \<not> sockets_enabled status then (Inr (resp ERROR_TRANSPORT_NOT_ENABLED), st, [])
         else if length (sockets_map status) \<noteq> length (mStfSenderIdList st) then
           (Inr (resp ERROR_SOCKET_COUNT), st, [])
         else if \<not> stfSendersReady st then (Inr (resp ERROR_STF_SENDERS_NOT_READY), st, [])
         else
           (case add_if_new env tfb (mTfBuilderRpcClients st) of
              (Inl f, m) \<Rightarrow> (Inl f, st\<lparr>mTfBuilderRpcClients := m\<rparr>, [])
            | (Inr False, m) \<Rightarrow>
                (Inr (resp ERROR_GRPC_TF_BUILDER), st\<lparr>mTfBuilderRpcClients := m\<rparr>, [])
            | (Inr True, m) \<Rightarrow>
                let st1 = st\<lparr>mTfBuilderRpcClients := m\<rparr>
                in case connect_loop env tfb (sockets_map status) 0
                          (map fst (mStfSenderRpcClients st1)) (resp CONN_OK) [] of
                     (Inl f, calls) \<Rightarrow> (Inl f, st1, calls)
                   | (Inr (True, r), calls) \<Rightarrow> (Inr r, st1, calls)
                   | (Inr (False, r), calls) \<Rightarrow>
                       (let (_, st2, calls2) = disconnectTfBuilder env status st1
                        in (Inr r, st2, calls @ calls2))))"

section \<open>UCX transport\<close>

fun disconnect_ucx_loop ::
    "rpc_env \<Rightarrow> string \<Rightarrow> IpPort \<Rightarrow> string list \<Rightarrow> u32 \<Rightarrow> rpc_call list \<Rightarrow> u32 \<times> rpc_call list" where
  "disconnect_ucx_loop env tfb ep [] res calls = (res, calls)"
| "disconnect_ucx_loop env tfb ep (i # is) res calls =
     (let calls1 = calls @ [DisconnectTfBuilderUCX i tfb ep]
      in case stfs_disconnect_ucx env i tfb ep of
           None \<Rightarrow> disconnect_ucx_loop env tfb ep is 5 calls1
         | Some r \<Rightarrow>
             (if r \<noteq> 0 then disconnect_ucx_loop env tfb ep is 7 calls1
              else disconnect_ucx_loop env tfb ep is res calls1))"

definition disconnectTfBuilderUCX ::
    "rpc_env \<Rightarrow> TfBuilderConfigStatus \<Rightarrow> conn_state \<Rightarrow> u32 \<times> conn_state \<times> rpc_call list" where
  "disconnectTfBuilderUCX env status st =
     (let tfb = process_id (tbc_info status);
          st1 = deleteTfBuilderRpcClient tfb st;
          (res, calls) = disconnect_ucx_loop env tfb (ucx_listen_ep status)
            (map fst (mStfSenderRpcClients st1)) 0 []
      in (res, st1, calls))"

record TfBuilderUCXConnectionResponse =
  ucr_status :: ConnStatus
  ucx_connection_map :: "(string, IpPort) smap"

text \<open>\<open>insert\<close> keeps an entry that is already present.\<close>

fun connect_ucx_loop ::
    "rpc_env \<Rightarrow> string \<Rightarrow> IpPort \<Rightarrow> string list \<Rightarrow> TfBuilderUCXConnectionResponse \<Rightarrow> rpc_call list \<Rightarrow>
     (bool \<times> TfBuilderUCXConnectionResponse) \<times> rpc_call list" where
  "connect_ucx_loop env tfb ep [] resp calls = ((True, resp), calls)"
| "connect_ucx_loop env tfb ep (i # is) resp calls =
     (let calls1 = calls @ [ConnectTfBuilderUCX i tfb ep]
      in case stfs_connect_ucx env i tfb ep of
           None \<Rightarrow> ((False, resp\<lparr>ucr_status := ERROR_GRPC_STF_SENDER\<rparr>), calls1)
         | Some (r, stfs_ep) \<Rightarrow>
             (if r \<noteq> CONN_OK then ((False, resp\<lparr>ucr_status := r\<rparr>), calls1)
              else
                let cm = ucx_connection_map resp
                in connect_ucx_loop env tfb ep is
                     (resp\<lparr>ucx_connection_map := (if sm_has cm i then cm else sm_put i stfs_ep cm)\<rparr>)
                     calls1))"

definition connectTfBuilderUCX ::
    "rpc_env \<Rightarrow> TfBuilderConfigStatus \<Rightarrow> conn_state \<Rightarrow>
     (fault + TfBuilderUCXConnectionResponse) \<times> conn_state \<times> rpc_call list" where
  "connectTfBuilderUCX env status st =
     (let resp = (\<lambda>e. \<lparr>ucr_status = e, ucx_connection_map = []\<rparr>);
          tfb = process_id (tbc_info status)
      in if \<not> ucx_enabled status then (Inr (resp ERROR_TRANSPORT_NOT_ENABLED), st, [])
         else if \<not> stfSendersReady st then (Inr (resp ERROR_STF_SENDERS_NOT_READY), st, [])
         else
           (case add_if_new env tfb (mTfBuilderRpcClients st) of
              (Inl f, m) \<Rightarrow> (Inl f, st\<lparr>mTfBuilderRpcClients := m\<rparr>, [])
            | (Inr False, m) \<Rightarrow>
                (Inr (resp ERROR_GRPC_TF_BUILDER), st\<lparr>mTfBuilderRpcClients := m\<rparr>, [])
            | (Inr True, m) \<Rightarrow>
                let st1 = st\<lparr>mTfBuilderRpcClients := m\<rparr>;
                    ((ok, r), calls) = connect_ucx_loop env tfb (ucx_listen_ep status)
                      (map fst (mStfSenderRpcClients st1)) (resp CONN_OK) []
                in if ok then (Inr r, st1, calls)
                   else
                     let (_, st2, calls2) = disconnectTfBuilderUCX env status st1
                     in (Inr r, st2, calls @ calls2)))"

section \<open>Removal, termination and drop requests\<close>

text \<open>A null client in the collection is dereferenced by the termination loop.\<close>

definition requestTfBuildersTerminate ::
    "rpc_env \<Rightarrow> conn_state \<Rightarrow> (fault + bool) \<times> conn_state \<times> rpc_call list" where
  "requestTfBuildersTerminate env st =
     (if list_ex (\<lambda>e. snd e = None) (mTfBuilderRpcClients st) then (Inl NullDereference, st, [])
      else
        let ids = map fst (mTfBuilderRpcClients st);
            failed = filter (\<lambda>i. \<not> tfb_terminate env i) ids;
            st1 = fold deleteTfBuilderRpcClient failed st
        in (Inr (mTfBuilderRpcClients st1 = []), st1, map TerminateTfBuilder ids))"

definition requestStfSendersTerminate ::
    "rpc_env \<Rightarrow> conn_state \<Rightarrow> bool \<times> conn_state \<times> rpc_call list" where
  "requestStfSendersTerminate env st =
     (let ids = map fst (mStfSenderRpcClients st);
          failed = filter (\<lambda>i. \<not> stfs_terminate env i) ids;
          st1 = fold deleteTfBuilderRpcClient failed st
      in (mTfBuilderRpcClients st1 = [], st1, map TerminateStfSender ids))"

definition removeTfBuilder :: "string \<Rightarrow> conn_state \<Rightarrow> conn_state \<times> rpc_call list" where
  "removeTfBuilder i st =
     (let st1 = deleteTfBuilderRpcClient i st
      in (st1, map (\<lambda>s. DisconnectTfBuilder s i []) (map fst (mStfSenderRpcClients st1))))"

text \<open>
  The drop requests run in \<open>std::async\<close> tasks; \<open>launched\<close> is whether the task could be
  started. The calls are those of the task, whenever it runs.
\<close>

definition dropAllStfsAsync :: "bool \<Rightarrow> u64 \<Rightarrow> conn_state \<Rightarrow> conn_state \<times> rpc_call list" where
  "dropAllStfsAsync launched sid st =
     (let calls = map (\<lambda>i. StfDataRequest i sid) (map fst (mStfSenderRpcClients st))
      in (if launched then
            st\<lparr>mStfDropFutures := mStfDropFutures st @ [\<lparr>df_stf_id = sid, df_ready = False\<rparr>]\<rparr>
          else st, calls))"

definition dropSingleStfsAsync ::
    "bool \<Rightarrow> u64 \<Rightarrow> string \<Rightarrow> conn_state \<Rightarrow> conn_state \<times> (fault + rpc_call list)" where
  "dropSingleStfsAsync launched sid i st =
     (let res = (if sm_has (mStfSenderRpcClients st) i then Inr [StfDataRequest i sid] else Inl OutOfRange)
      in (if launched then
            st\<lparr>mStfDropFutures := mStfDropFutures st @ [\<lparr>df_stf_id = sid, df_ready = False\<rparr>]\<rparr>
          else st, res))"

text \<open>
  One pass of \<open>DropWaitThread\<close> over the list of futures. After \<open>erase\<close> the iterator is
  already at the next element (or at \<open>end()\<close>) when the loop increments it.
\<close>

fun drop_wait_scan :: "drop_future list \<Rightarrow> fault + u64 list \<times> drop_future list" where
  "drop_wait_scan [] = Inr ([], [])"
| "drop_wait_scan (f # fs) =
     (if df_ready f then
        (case fs of
           [] \<Rightarrow> Inl IteratorPastEnd
         | g # gs \<Rightarrow>
             (case drop_wait_scan gs of
                Inl e \<Rightarrow> Inl e
              | Inr (got, rest) \<Rightarrow> Inr (df_stf_id f # got, g # rest)))
      else
        (case drop_wait_scan fs of
           Inl e \<Rightarrow> Inl e
         | Inr (got, rest) \<Rightarrow> Inr (got, f # rest)))"

definition StfSenderMonitoringThread_pass :: "rpc_env \<Rightarrow> conn_state \<Rightarrow> conn_state" where
  "StfSenderMonitoringThread_pass env st =
     st\<lparr>mStfSenderState :=
         (if checkStfSenders env st < length (mStfSenderIdList st)
          then STF_SENDER_STATE_INCOMPLETE else STF_SENDER_STATE_OK)\<rparr>"

end
