(* ===== verification/Sched_ConnManager_Props.thy ===== *)
theory Sched_ConnManager_Props
  imports Sched_ConnManager
begin

text \<open>
  Correctness of the connection manager: what a successful connection of a TfBuilder has
  done, what a failed one leaves behind, the termination requests, and the collection of the
  drop futures.
\<close>

section \<open>The connection loop\<close>

lemma unat_of_nat_u32: "k < 2 ^ 32 \<Longrightarrow> unat (of_nat k :: u32) = k"
  by (simp add: unat_of_nat)

lemma u32_eq_of_nat: "k < 2 ^ 32 \<Longrightarrow> (x :: u32) = of_nat k \<longleftrightarrow> unat x = k"
  by (auto simp: word_unat_eq_iff unat_of_nat)

text \<open>What a loop that ends without an error has done, from index \<open>k\<close> on.\<close>

definition connected_all ::
    "rpc_env \<Rightarrow> string \<Rightarrow> (u32, TfBuilderSocket) smap \<Rightarrow> nat \<Rightarrow> string list \<Rightarrow> bool" where
  "connected_all env tfb socks k is \<longleftrightarrow>
     (\<forall>j < length is. \<exists>s. sm_get socks (of_nat (k + j)) = Some s \<and>
        stfs_connect env (is ! j) tfb (sock_endpoint s) = Some CONN_OK)"

definition connect_calls ::
    "string \<Rightarrow> (u32, TfBuilderSocket) smap \<Rightarrow> nat \<Rightarrow> string list \<Rightarrow> rpc_call list" where
  "connect_calls tfb socks k is =
     map (\<lambda>j. ConnectTfBuilder (is ! j) tfb (sock_endpoint (the (sm_get socks (of_nat (k + j))))))
       [0..<length is]"

lemma connected_all_Cons:
  "connected_all env tfb socks k (i # is) \<longleftrightarrow>
     (\<exists>s. sm_get socks (of_nat k) = Some s \<and> stfs_connect env i tfb (sock_endpoint s) = Some CONN_OK) \<and>
     connected_all env tfb socks (Suc k) is"
  by (simp add: connected_all_def All_less_Suc2 add_ac)

lemma connect_calls_Cons:
  "connect_calls tfb socks k (i # is) =
     ConnectTfBuilder i tfb (sock_endpoint (the (sm_get socks (of_nat k)))) #
     connect_calls tfb socks (Suc k) is"
  unfolding connect_calls_def by (simp add: upt_conv_Cons map_Suc_upt [symmetric] add_ac del: upt_Suc)

lemma connect_loop_ok:
  assumes "connect_loop env tfb socks (of_nat k) is resp calls = (Inr (True, r), calls')"
    and "k + length is < 2 ^ 32"
  shows "calls' = calls @ connect_calls tfb socks k is \<and> connected_all env tfb socks k is \<and>
    (\<forall>x. sm_get (connection_map r) x =
      (if k \<le> unat x \<and> unat x < k + length is then Some (is ! (unat x - k))
       else sm_get (connection_map resp) x)) \<and>
    tcr_status r = tcr_status resp"
  using assms
proof (induction "is" arbitrary: k resp calls)
  case Nil
  then show ?case by (auto simp: connected_all_def connect_calls_def)
next
  case (Cons i "is")
  obtain s where s: "sm_get socks (of_nat k) = Some s"
      "stfs_connect env i tfb (sock_endpoint s) = Some CONN_OK"
    using Cons.prems(1) by (auto simp: Let_def split: option.splits if_splits)
  let ?resp = "resp\<lparr>connection_map := sm_put (of_nat k) i (connection_map resp)\<rparr>"
  let ?calls = "calls @ [ConnectTfBuilder i tfb (sock_endpoint s)]"
  have rec: "connect_loop env tfb socks (of_nat (Suc k)) is ?resp ?calls = (Inr (True, r), calls')"
    using Cons.prems(1) s by (simp add: add.commute)
  have k: "k < 2 ^ 32" using Cons.prems(2) by simp
  note IH = Cons.IH [OF rec]
  have "sm_get (connection_map r) x =
      (if k \<le> unat x \<and> unat x < k + length (i # is) then Some ((i # is) ! (unat x - k))
       else sm_get (connection_map resp) x)" for x
    using IH Cons.prems(2) u32_eq_of_nat [OF k, of x] by (auto simp: nth_Cons')
  then show ?case
    using IH Cons.prems(2) s by (simp add: connected_all_Cons connect_calls_Cons)
qed

lemma connect_loop_fail_status:
  "connect_loop env tfb socks k is resp calls = (Inr (False, r), calls') \<Longrightarrow> tcr_status r \<noteq> CONN_OK"
  by (induction env tfb socks k "is" resp calls rule: connect_loop.induct)
    (auto simp: Let_def split: option.splits if_splits)

lemma connect_loop_status:
  "connect_loop env tfb socks k is resp calls = (Inr (True, r), calls') \<Longrightarrow> tcr_status r = tcr_status resp"
  by (induction env tfb socks k "is" resp calls rule: connect_loop.induct)
    (auto simp: Let_def split: option.splits if_splits)

lemma connect_loop_calls:
  "connect_loop env tfb socks k is resp calls = (res, calls') \<Longrightarrow>
     \<exists>cs. calls' = calls @ cs \<and> (\<forall>c \<in> set cs. \<exists>i e. i \<in> set is \<and> c = ConnectTfBuilder i tfb e)"
proof (induction env tfb socks k "is" resp calls rule: connect_loop.induct)
  case 1
  then show ?case by simp
next
  case (2 env tfb socks idx i "is" resp calls)
  show ?case
  proof (cases "\<exists>s. sm_get socks idx = Some s \<and> stfs_connect env i tfb (sock_endpoint s) = Some CONN_OK")
    case False
    then show ?thesis using "2.prems" by (auto simp: Let_def split: option.splits if_splits)
  next
    case True
    then obtain s where s: "sm_get socks idx = Some s"
        "stfs_connect env i tfb (sock_endpoint s) = Some CONN_OK" by blast
    obtain cs where "calls' = (calls @ [ConnectTfBuilder i tfb (sock_endpoint s)]) @ cs"
        "\<forall>c \<in> set cs. \<exists>i e. i \<in> set is \<and> c = ConnectTfBuilder i tfb e"
      using "2.IH" [OF s(1) refl s(2)] "2.prems" s by auto
    then show ?thesis by (intro exI [of _ "ConnectTfBuilder i tfb (sock_endpoint s) # cs"]) auto
  qed
qed

lemma disconnect_loop_no_peers:
  "\<forall>s \<in> set ss. sock_peer_id s = [] \<Longrightarrow> disconnect_loop env tfb cl ss res calls = (res, calls)"
  by (induction ss) auto

lemma delete_frame [frame]:
  "mStfSenderRpcClients (deleteTfBuilderRpcClient i st) = mStfSenderRpcClients st"
  "mStfSenderIdList (deleteTfBuilderRpcClient i st) = mStfSenderIdList st"
  by (simp_all add: deleteTfBuilderRpcClient_def)

lemma delete_absent:
  "\<not> sm_has (mTfBuilderRpcClients (deleteTfBuilderRpcClient i st)) i"
  by (auto simp: deleteTfBuilderRpcClient_def tfbc_remove_def)

lemma delete_client_map:
  "mTfBuilderRpcClients (deleteTfBuilderRpcClient i st) = sm_del i (mTfBuilderRpcClients st)"
  by (auto simp: deleteTfBuilderRpcClient_def tfbc_remove_def sm_del_absent)

lemma fold_delete_frame [frame]:
  "mStfSenderRpcClients (fold deleteTfBuilderRpcClient is st) = mStfSenderRpcClients st"
  by (induction "is" arbitrary: st) (simp_all add: frame)

lemma fold_delete_map:
  "mTfBuilderRpcClients (fold deleteTfBuilderRpcClient is st) =
     filter (\<lambda>e. fst e \<notin> set is) (mTfBuilderRpcClients st)"
  by (induction "is" arbitrary: st) (auto simp: delete_client_map sm_del_def conj_commute intro!: filter_cong)

lemma add_if_new_alive:
  "add_if_new env i m = (Inr True, m') \<Longrightarrow> \<exists>c. sm_get m' i = Some (Some c) \<and> tfbc_alive env c"
  by (auto simp: add_if_new_def Let_def split: if_splits option.splits prod.splits)

lemma sm_del_put_same: "sm_del k (sm_put k v m) = sm_del k m"
  by (induction m) (auto simp: sm_del_def)

lemma sm_del_twice: "sm_del k (sm_del k m) = sm_del k m"
  by (simp add: sm_del_def)

lemma add_if_new_del: "add_if_new env i m = (r, m') \<Longrightarrow> sm_del i m' = sm_del i m"
  by (auto simp: add_if_new_def Let_def sm_del_put_same sm_del_twice
      split: if_splits option.splits prod.splits)

lemma add_if_new_undiscoverable:
  assumes "\<not> sm_has m i" and "tfb_config env i = None"
  shows "fst (add_if_new env i m) = Inl NullDereference"
  using assms by (simp add: add_if_new_def tfbc_start_def Let_def)

lemma connect_past_guards:
  assumes "connectTfBuilder env status st = (Inr r, st', calls)" and "tcr_status r = CONN_OK \<or> calls \<noteq> []"
  obtains m where "sockets_enabled status" and "stfSendersReady st"
    and "length (sockets_map status) = length (mStfSenderIdList st)"
    and "add_if_new env (process_id (tbc_info status)) (mTfBuilderRpcClients st) = (Inr True, m)"
  using assms by (auto simp: connectTfBuilder_def Let_def split: if_splits prod.splits sum.splits bool.splits)

lemma connect_unfold:
  assumes "sockets_enabled status" and "stfSendersReady st"
    and "length (sockets_map status) = length (mStfSenderIdList st)"
    and "add_if_new env (process_id (tbc_info status)) (mTfBuilderRpcClients st) = (Inr True, m)"
  shows "connectTfBuilder env status st =
    (let st1 = st\<lparr>mTfBuilderRpcClients := m\<rparr>; tfb = process_id (tbc_info status)
     in case connect_loop env tfb (sockets_map status) 0 (map fst (mStfSenderRpcClients st))
               \<lparr>tcr_status = CONN_OK, connection_map = []\<rparr> [] of
          (Inl f, calls) \<Rightarrow> (Inl f, st1, calls)
        | (Inr (True, r), calls) \<Rightarrow> (Inr r, st1, calls)
        | (Inr (False, r), calls) \<Rightarrow>
            (let (_, st2, calls2) = disconnectTfBuilder env status st1 in (Inr r, st2, calls @ calls2)))"
  using assms by (simp add: connectTfBuilder_def Let_def)

section \<open>Collecting the drop futures\<close>

lemma trailing_Cons:
  "length (takeWhile df_ready (rev (f # fs))) =
     (if list_all df_ready fs then length fs + (if df_ready f then 1 else 0)
      else length (takeWhile df_ready (rev fs)))"
  by (auto simp: takeWhile_append list_all_iff takeWhile_eq_all_conv)

section \<open>Properties\<close>

text \<open>
  C7. A successful \<open>connectTfBuilder\<close> has asked every StfSender exactly once, in the order of
  their ids, to connect to the TfBuilder's socket of that index, each one has accepted, and the
  connection map of the answer maps every socket index to the StfSender connected there and holds
  nothing else. The TfBuilder's client is present and alive.
\<close>

theorem connect_ok:
  assumes "connectTfBuilder env status st = (Inr r, st', calls)"
    and "tcr_status r = CONN_OK" and "length (mStfSenderIdList st) < 2 ^ 32"
  shows "calls = connect_calls (process_id (tbc_info status)) (sockets_map status) 0
             (map fst (mStfSenderRpcClients st))
     \<and> connected_all env (process_id (tbc_info status)) (sockets_map status) 0
             (map fst (mStfSenderRpcClients st))
     \<and> (\<forall>x. sm_get (connection_map r) x =
             (if unat x < length (mStfSenderRpcClients st)
              then Some (fst (mStfSenderRpcClients st ! unat x)) else None))
     \<and> length (mStfSenderRpcClients st) = length (sockets_map status)
     \<and> mStfSenderRpcClients st' = mStfSenderRpcClients st
     \<and> (\<exists>c. sm_get (mTfBuilderRpcClients st') (process_id (tbc_info status)) = Some (Some c) \<and>
             tfbc_alive env c)"
proof -
  let ?tfb = "process_id (tbc_info status)" and ?ids = "map fst (mStfSenderRpcClients st)"
  let ?resp = "\<lparr>tcr_status = CONN_OK, connection_map = []\<rparr>"
  obtain m where m: "sockets_enabled status" "stfSendersReady st"
      "length (sockets_map status) = length (mStfSenderIdList st)"
      "add_if_new env ?tfb (mTfBuilderRpcClients st) = (Inr True, m)"
    using connect_past_guards [OF assms(1)] assms(2) by blast
  obtain res calls1 where loop: "connect_loop env ?tfb (sockets_map status) 0 ?ids ?resp [] = (res, calls1)"
    by (cases "connect_loop env ?tfb (sockets_map status) 0 ?ids ?resp []")
  have res: "res = Inr (True, r)" "calls1 = calls" "st' = st\<lparr>mTfBuilderRpcClients := m\<rparr>"
    using assms(1,2) loop connect_loop_fail_status [of env ?tfb "sockets_map status" 0 ?ids ?resp "[]"]
    unfolding connect_unfold [OF m]
    by (auto simp: Let_def split: sum.splits prod.splits bool.splits)
  have small: "0 + length ?ids < 2 ^ 32"
    using assms(3) m(2) by (simp add: stfSendersReady_def)
  have loop0: "connect_loop env ?tfb (sockets_map status) (of_nat 0) ?ids ?resp [] = (Inr (True, r), calls)"
    using loop res by simp
  note ok = connect_loop_ok [OF loop0 small]
  show ?thesis
    using ok res add_if_new_alive [OF m(4)] m(2,3) by (simp add: stfSendersReady_def)
qed

text \<open>An environment for the witnesses: every process is found, alive and says yes, except that
  StfSender \<open>''b''\<close> refuses where \<open>b_ok\<close> is false.\<close>

definition sample_env :: "bool \<Rightarrow> rpc_env" where
  "sample_env b_ok = \<lparr>tfb_config = (\<lambda>i. if i = ''ghost'' then None else Some ''ep''),
     channel_alive = (\<lambda>_. True), stfs_ids = Some [''a'', ''b''], stfs_config = (\<lambda>_. Some ''ep''),
     stfs_ready = (\<lambda>_. True),
     stfs_connect = (\<lambda>i _ _. Some (if i = ''a'' \<or> b_ok then CONN_OK else ERROR_STF_SENDER_CONNECTING)),
     stfs_disconnect = (\<lambda>_ _ _. Some 0),
     stfs_connect_ucx = (\<lambda>i _ e. Some (if i = ''a'' \<or> b_ok then CONN_OK else ERROR_STF_SENDER_CONNECTING, e)),
     stfs_disconnect_ucx = (\<lambda>_ _ _. Some 0), stfs_data = (\<lambda>_ _. Some DATA_OK),
     stfs_terminate = (\<lambda>_. True), tfb_terminate = (\<lambda>_. True)\<rparr>"

definition sample_conn :: conn_state where
  "sample_conn = \<lparr>mStfSenderIdList = [''a'', ''b''], mStfSenderState = STF_SENDER_STATE_OK,
     cmRunning = True, mStfSenderRpcClients = [(''a'', ''ep''), (''b'', ''ep'')], mClientsCreated = True,
     mTfBuilderRpcClients = [], mStfDropFutures = []\<rparr>"

definition sample_tfb :: "string \<Rightarrow> TfBuilderConfigStatus" where
  "sample_tfb i = \<lparr>tbc_info = \<lparr>bi_type = ProcTfBuilder, process_id = i, last_update_t = 0,
       process_state = PROC_RUNNING\<rparr>,
     sockets_map = [(0, \<lparr>sock_idx = 0, sock_endpoint = ''e0'', sock_peer_id = []\<rparr>),
                    (1, \<lparr>sock_idx = 1, sock_endpoint = ''e1'', sock_peer_id = []\<rparr>)],
     sockets_enabled = True, ucx_enabled = True, ucx_listen_ep = \<lparr>ip = ''1.2.3.4'', port = 5\<rparr>\<rparr>"

lemmas sample_defs = sample_env_def sample_conn_def sample_tfb_def connectTfBuilder_def
  add_if_new_def tfbc_start_def tfbc_alive_def stfSendersReady_def sm_has_def sm_get_def Let_def

theorem connect_ok_witness:
  "\<exists>r st' calls. connectTfBuilder (sample_env True) (sample_tfb ''t'') sample_conn = (Inr r, st', calls) \<and>
     sm_get (connection_map r) 1 = Some ''b''"
proof -
  obtain r st' calls where
    run: "connectTfBuilder (sample_env True) (sample_tfb ''t'') sample_conn = (Inr r, st', calls)"
    and ok: "tcr_status r = CONN_OK"
    by (simp add: sample_defs)
  have "length (mStfSenderIdList sample_conn) < 2 ^ 32"
    by (simp add: sample_conn_def)
  from connect_ok [OF run ok this] have "sm_get (connection_map r) 1 = Some ''b''"
    by (simp add: sample_conn_def)
  then show ?thesis using run by blast
qed

text \<open>
  C8. When \<open>connectTfBuilder\<close> has contacted StfSenders and fails, the TfBuilder's client is
  removed and the StfSenders are kept; but the rollback works from the \<open>peer_id\<close> of the sockets, so
  for a TfBuilder that has not filled them in (it does so only after a success) no StfSender
  is asked to disconnect: the ones already connected stay connected.
\<close>

theorem failed_connect_rollback:
  assumes "connectTfBuilder env status st = (Inr r, st', calls)"
    and "tcr_status r \<noteq> CONN_OK" and "calls \<noteq> []"
    and "\<forall>s \<in> set (map snd (sockets_map status)). sock_peer_id s = []"
  shows "mTfBuilderRpcClients st' = sm_del (process_id (tbc_info status)) (mTfBuilderRpcClients st)
     \<and> \<not> sm_has (mTfBuilderRpcClients st') (process_id (tbc_info status))
     \<and> mStfSenderRpcClients st' = mStfSenderRpcClients st
     \<and> (\<forall>c \<in> set calls. \<exists>i e. c = ConnectTfBuilder i (process_id (tbc_info status)) e)"
proof -
  let ?tfb = "process_id (tbc_info status)" and ?ids = "map fst (mStfSenderRpcClients st)"
  let ?resp = "\<lparr>tcr_status = CONN_OK, connection_map = []\<rparr>"
  obtain m where m: "sockets_enabled status" "stfSendersReady st"
      "length (sockets_map status) = length (mStfSenderIdList st)"
      "add_if_new env ?tfb (mTfBuilderRpcClients st) = (Inr True, m)"
    using connect_past_guards [OF assms(1)] assms(3) by blast
  obtain res calls1 where loop: "connect_loop env ?tfb (sockets_map status) 0 ?ids ?resp [] = (res, calls1)"
    by (cases "connect_loop env ?tfb (sockets_map status) 0 ?ids ?resp []")
  have st': "st' = deleteTfBuilderRpcClient ?tfb (st\<lparr>mTfBuilderRpcClients := m\<rparr>)" and calls: "calls = calls1"
    using assms(1,2) loop connect_loop_status [of env ?tfb "sockets_map status" 0 ?ids ?resp "[]"]
    unfolding connect_unfold [OF m]
    by (auto simp: Let_def disconnectTfBuilder_def disconnect_loop_no_peers [OF assms(4)]
        split: sum.splits prod.splits bool.splits)
  show ?thesis
    using connect_loop_calls [OF loop] delete_absent [of ?tfb] add_if_new_del [OF m(4)]
    by (auto simp: st' calls frame delete_client_map)
qed

theorem failed_connect_rollback_witness:
  "\<exists>r st' calls. connectTfBuilder (sample_env False) (sample_tfb ''t'') sample_conn = (Inr r, st', calls) \<and>
     calls = [ConnectTfBuilder ''a'' ''t'' ''e0'', ConnectTfBuilder ''b'' ''t'' ''e1''] \<and>
     \<not> sm_has (mTfBuilderRpcClients st') ''t''"
proof -
  obtain r st' calls where
    run: "connectTfBuilder (sample_env False) (sample_tfb ''t'') sample_conn = (Inr r, st', calls)"
    and bad: "tcr_status r \<noteq> CONN_OK"
    and calls: "calls = [ConnectTfBuilder ''a'' ''t'' ''e0'', ConnectTfBuilder ''b'' ''t'' ''e1'']"
    by (simp add: sample_defs disconnectTfBuilder_def deleteTfBuilderRpcClient_def)
  have ne: "calls \<noteq> []" and np: "\<forall>s \<in> set (map snd (sockets_map (sample_tfb ''t''))). sock_peer_id s = []"
    and t: "process_id (tbc_info (sample_tfb ''t'')) = ''t''"
    by (simp_all add: calls sample_tfb_def)
  show ?thesis
    using failed_connect_rollback [OF run bad ne np] run calls unfolding t by blast
qed

lemma connect_ucx_calls:
  "connect_ucx_loop env tfb ep is resp calls = ((ok, r), calls') \<Longrightarrow>
     \<exists>k \<le> length is. calls' = calls @ map (\<lambda>i. ConnectTfBuilderUCX i tfb ep) (take k is) \<and>
       (ok \<longrightarrow> k = length is)"
proof (induction env tfb ep "is" resp calls rule: connect_ucx_loop.induct)
  case 1
  then show ?case by simp
next
  case (2 env tfb ep i "is" resp calls)
  show ?case
  proof (cases "\<exists>e. stfs_connect_ucx env i tfb ep = Some (CONN_OK, e)")
    case False
    then show ?thesis using "2.prems"
      by (intro exI [of _ 1]) (auto simp: Let_def split: option.splits if_splits)
  next
    case True
    then obtain e where e: "stfs_connect_ucx env i tfb ep = Some (CONN_OK, e)" by blast
    obtain k where "k \<le> length is" "ok \<longrightarrow> k = length is"
      "calls' = (calls @ [ConnectTfBuilderUCX i tfb ep]) @
         map (\<lambda>i. ConnectTfBuilderUCX i tfb ep) (take k is)"
      using "2.IH" [OF refl e refl _ refl] "2.prems" e by (auto simp: Let_def)
    then show ?thesis by (intro exI [of _ "Suc k"]) auto
  qed
qed

lemma disconnect_ucx_calls:
  "snd (disconnect_ucx_loop env tfb ep is res calls) =
     calls @ map (\<lambda>i. DisconnectTfBuilderUCX i tfb ep) is"
  by (induction env tfb ep "is" res calls rule: disconnect_ucx_loop.induct)
    (auto simp: Let_def split: option.splits)

lemma connect_ucx_status:
  "connect_ucx_loop env tfb ep is resp calls = ((ok, r), calls') \<Longrightarrow>
     if ok then ucr_status r = ucr_status resp else ucr_status r \<noteq> CONN_OK"
proof (induction "is" arbitrary: resp calls)
  case Nil
  then show ?case by auto
next
  case (Cons i "is")
  show ?case
  proof (cases "\<exists>e. stfs_connect_ucx env i tfb ep = Some (CONN_OK, e)")
    case True
    then obtain e where "stfs_connect_ucx env i tfb ep = Some (CONN_OK, e)" by blast
    then show ?thesis using Cons.prems Cons.IH by (fastforce simp: Let_def)
  next
    case False
    then show ?thesis using Cons.prems by (auto simp: Let_def split: option.splits if_splits)
  qed
qed

text \<open>
  Over UCX the rollback is complete: when \<open>connectTfBuilderUCX\<close> fails after contacting
  StfSenders, the calls made are connection requests to the first StfSenders in id order, followed by
  a disconnection request to every StfSender; the TfBuilder's client is removed.
\<close>

theorem failed_ucx_connect_rollback:
  assumes "connectTfBuilderUCX env status st = (Inr r, st', calls)"
    and "ucr_status r \<noteq> CONN_OK" and "calls \<noteq> []"
  shows "\<exists>k \<le> length (mStfSenderRpcClients st).
      calls = map (\<lambda>i. ConnectTfBuilderUCX i (process_id (tbc_info status)) (ucx_listen_ep status))
                (take k (map fst (mStfSenderRpcClients st)))
            @ map (\<lambda>i. DisconnectTfBuilderUCX i (process_id (tbc_info status)) (ucx_listen_ep status))
                (map fst (mStfSenderRpcClients st))
    \<and> mTfBuilderRpcClients st' = sm_del (process_id (tbc_info status)) (mTfBuilderRpcClients st)"
proof -
  let ?tfb = "process_id (tbc_info status)" and ?ids = "map fst (mStfSenderRpcClients st)"
  let ?ep = "ucx_listen_ep status"
  let ?resp = "\<lparr>ucr_status = CONN_OK, ucx_connection_map = []\<rparr>"
  obtain m where m: "add_if_new env ?tfb (mTfBuilderRpcClients st) = (Inr True, m)"
      "ucx_enabled status" "stfSendersReady st"
    using assms(1,3) by (auto simp: connectTfBuilderUCX_def Let_def split: if_splits prod.splits sum.splits bool.splits)
  obtain ok r1 calls1 where loop: "connect_ucx_loop env ?tfb ?ep ?ids ?resp [] = ((ok, r1), calls1)"
    by (metis surj_pair)
  have "\<not> ok"
    using assms(1,2) loop m connect_ucx_status [OF loop]
    by (auto simp: connectTfBuilderUCX_def Let_def)
  then have st': "st' = deleteTfBuilderRpcClient ?tfb (st\<lparr>mTfBuilderRpcClients := m\<rparr>)"
    and calls: "calls = calls1 @ map (\<lambda>i. DisconnectTfBuilderUCX i ?tfb ?ep) ?ids"
    using assms(1) loop m disconnect_ucx_calls [of env ?tfb ?ep ?ids 0 "[]"]
    by (auto simp: connectTfBuilderUCX_def disconnectTfBuilderUCX_def Let_def frame split: prod.splits)
  show ?thesis
    using connect_ucx_calls [OF loop] add_if_new_del [OF m(1)]
    by (auto simp: st' calls delete_client_map)
qed

theorem failed_ucx_connect_rollback_witness:
  "\<exists>r st' calls. connectTfBuilderUCX (sample_env False) (sample_tfb ''t'') sample_conn = (Inr r, st', calls) \<and>
     mTfBuilderRpcClients st' = [] \<and> DisconnectTfBuilderUCX ''a'' ''t'' \<lparr>ip = ''1.2.3.4'', port = 5\<rparr> \<in> set calls"
proof -
  obtain r st' calls where
    run: "connectTfBuilderUCX (sample_env False) (sample_tfb ''t'') sample_conn = (Inr r, st', calls)"
    and bad: "ucr_status r \<noteq> CONN_OK" and ne: "calls \<noteq> []"
    by (simp add: sample_defs connectTfBuilderUCX_def disconnectTfBuilderUCX_def deleteTfBuilderRpcClient_def)
  show ?thesis
    using failed_ucx_connect_rollback [OF run bad ne] run
    by (auto simp: sample_conn_def sample_tfb_def sm_del_def)
qed

text \<open>
  Connecting a TfBuilder that is not yet known and whose configuration cannot be found in the
  discovery service dereferences a null client, over either transport, instead of answering
  \<open>ERROR_GRPC_TF_BUILDER\<close>. No StfSender has been contacted by then.
\<close>

theorem undiscoverable_tfbuilder:
  assumes "stfSendersReady st"
    and "length (sockets_map status) = length (mStfSenderIdList st)"
    and "\<not> sm_has (mTfBuilderRpcClients st) (process_id (tbc_info status))"
    and "tfb_config env (process_id (tbc_info status)) = None"
  shows "(sockets_enabled status \<longrightarrow> (\<exists>st'. connectTfBuilder env status st = (Inl NullDereference, st', [])))
    \<and> (ucx_enabled status \<longrightarrow> (\<exists>st'. connectTfBuilderUCX env status st = (Inl NullDereference, st', [])))"
proof -
  obtain m where "add_if_new env (process_id (tbc_info status)) (mTfBuilderRpcClients st) = (Inl NullDereference, m)"
    using add_if_new_undiscoverable [OF assms(3,4)] by (metis prod.collapse)
  then show ?thesis
    using assms(1,2) by (simp add: connectTfBuilder_def connectTfBuilderUCX_def Let_def)
qed

theorem undiscoverable_tfbuilder_witness:
  "fst (connectTfBuilder (sample_env True) (sample_tfb ''ghost'') sample_conn) = Inl NullDereference"
proof -
  have en: "sockets_enabled (sample_tfb ''ghost'')" by (simp add: sample_tfb_def)
  have "stfSendersReady sample_conn"
    "length (sockets_map (sample_tfb ''ghost'')) = length (mStfSenderIdList sample_conn)"
    "\<not> sm_has (mTfBuilderRpcClients sample_conn) (process_id (tbc_info (sample_tfb ''ghost'')))"
    "tfb_config (sample_env True) (process_id (tbc_info (sample_tfb ''ghost''))) = None"
    by (simp_all add: sample_defs)
  from undiscoverable_tfbuilder [OF this] en show ?thesis by auto
qed

text \<open>
  \<open>requestStfSendersTerminate\<close> asks every StfSender to terminate but never removes one: it
  removes the TfBuilder clients whose id is that of a StfSender that did not answer, and
  reports success exactly when no other TfBuilder client is left.
\<close>

theorem stf_senders_terminate:
  "case requestStfSendersTerminate env st of (done, st', calls) \<Rightarrow>
     mStfSenderRpcClients st' = mStfSenderRpcClients st
   \<and> calls = map TerminateStfSender (map fst (mStfSenderRpcClients st))
   \<and> mTfBuilderRpcClients st' = filter (\<lambda>e. \<not> (sm_has (mStfSenderRpcClients st) (fst e) \<and>
         \<not> stfs_terminate env (fst e))) (mTfBuilderRpcClients st)
   \<and> (done \<longleftrightarrow> (\<forall>i. sm_has (mTfBuilderRpcClients st) i \<longrightarrow>
         sm_has (mStfSenderRpcClients st) i \<and> \<not> stfs_terminate env i))"
  by (auto simp: requestStfSendersTerminate_def Let_def frame fold_delete_map filter_empty_conv sm_has_in
      image_iff split_beta intro!: filter_cong)

theorem stf_senders_terminate_witness:
  "\<not> fst (requestStfSendersTerminate (sample_env True)
     (sample_conn\<lparr>mTfBuilderRpcClients := [(''t'', None)]\<rparr>))"
  using stf_senders_terminate [of "sample_conn\<lparr>mTfBuilderRpcClients := [(''t'', None)]\<rparr>" "sample_env True"]
  by (auto simp: sample_env_def sm_has_def sample_conn_def split: prod.splits)

lemma trailing_all: "list_all df_ready fs \<Longrightarrow> length (takeWhile df_ready (rev fs)) = length fs"
  by (metis length_rev list_all_iff set_rev takeWhile_eq_all_conv)

text \<open>
  One pass of \<open>DropWaitThread\<close> over the futures runs its iterator past the end exactly
  when the number of ready futures at the tail of the list is odd. Otherwise every future that
  is not ready stays, in order, and every ready one is either collected, once, or stays.
\<close>

theorem drop_wait_pass:
  "case drop_wait_scan fs of
     Inl e \<Rightarrow> e = IteratorPastEnd \<and> odd (length (takeWhile df_ready (rev fs)))
   | Inr (got, rest) \<Rightarrow> even (length (takeWhile df_ready (rev fs))) \<and>
       filter (\<lambda>f. \<not> df_ready f) rest = filter (\<lambda>f. \<not> df_ready f) fs \<and>
       mset got + mset (map df_stf_id (filter df_ready rest)) = mset (map df_stf_id (filter df_ready fs))"
proof (induction fs rule: drop_wait_scan.induct)
  case 1
  then show ?case by simp
next
  case (2 f fs)
  show ?case
  proof (cases "df_ready f")
    case False
    then have "length (takeWhile df_ready (rev (f # fs))) = length (takeWhile df_ready (rev fs))"
      by (auto simp del: rev.simps simp: trailing_Cons takeWhile_eq_all_conv list_all_iff)
        (metis length_rev set_rev takeWhile_eq_all_conv)
    then show ?thesis using "2.IH"(2) [OF False] False
      by (auto simp del: rev.simps split: sum.splits prod.splits)
  next
    case True
    show ?thesis
    proof (cases fs)
      case Nil
      then show ?thesis using True by simp
    next
      case (Cons g gs)
      have "odd (length (takeWhile df_ready (rev (f # g # gs)))) =
            odd (length (takeWhile df_ready (rev gs)))"
        using True trailing_all [of gs] by (auto simp del: rev.simps simp: trailing_Cons)
      then show ?thesis using "2.IH"(1) [OF True Cons] True
        by (auto simp del: rev.simps simp: Cons split: sum.splits prod.splits)
    qed
  qed
qed

end
