(* ===== verification/Sched_StfInfo.thy ===== *)
theory Sched_StfInfo
  imports DD_Queue DD_Utilities Sched_TfBuilderInfo Sched_ConnManager
begin

text \<open>
  \<open>TfScheduler/TfSchedulerStfInfo.{h,cxx}\<close>: the collection of the announcements of the
  StfSenders into time frames, the release of complete and stale time frames to the scheduling
  thread, and their distribution or disposal.

  Everything under \<open>mGlobalStfInfoLock\<close> is one atomic function. A thread's loop body is a
  function too, with the time of its clock reading as an argument; a configuration value read
  from Consul and the answer of a TfBuilder are arguments as well. The release build is
  modelled (\<open>assert\<close> compiled out); what the assertions claim is proved or refuted in
  \<open>Sched_StfInfo_Props\<close>. Times are nanoseconds. The notification of the condition variable
  \<open>mMemWatermarkCondition\<close> only changes when the watermark pass runs, which is left open.
\<close>

section \<open>State\<close>

record StfInfo =
  siUpdateLocalTime :: int
  mStfInfo :: StfSenderStfInfo
  siIsScheduled :: bool

definition new_StfInfo :: "int \<Rightarrow> StfSenderStfInfo \<Rightarrow> StfInfo" where
  "new_StfInfo t i = \<lparr>siUpdateLocalTime = t, mStfInfo = i, siIsScheduled = False\<rparr>"

abbreviation si_process_id :: "StfInfo \<Rightarrow> string" where
  "si_process_id i \<equiv> process_id (ssi_info (mStfInfo i))"

abbreviation si_stf_id :: "StfInfo \<Rightarrow> u64" where
  "si_stf_id i \<equiv> stf_id (mStfInfo i)"

abbreviation si_stf_size :: "StfInfo \<Rightarrow> u64" where
  "si_stf_size i \<equiv> stf_size (mStfInfo i)"

record TopoStfInfo =
  tsStfInfo :: StfSenderStfInfo
  tsDataOrigin :: string
  tsSubSpec :: u64
  tsIsScheduled :: bool

text \<open>\<open>std::copy_n\<close> of three characters of the origin.\<close>

definition new_TopoStfInfo :: "StfSenderStfInfo \<Rightarrow> string \<Rightarrow> u64 \<Rightarrow> TopoStfInfo" where
  "new_TopoStfInfo i origin subspec =
     \<lparr>tsStfInfo = i, tsDataOrigin = take 3 origin, tsSubSpec = subspec, tsIsScheduled = False\<rparr>"

record 'b stf_state =
  stfRunning :: bool
  mDropQueue :: "(u64 \<times> string) cqueue"
  mStfInfoMap :: "(u64, StfInfo list) smap"
  mStfSenderInfoMap :: "(string, StfSenderInfo) smap"
  mRunNumber :: u64
  mLastStfId :: u64
  mMaxCompletedTfId :: u64
  mNotScheduledTfsCount :: u64
  mStaleTfCount :: u64
  mDroppedStfs :: "'b event_recorder"
  mBuiltTfs :: "'b event_recorder"
  mCompleteStfsInfoQueue :: "StfInfo list cqueue"
  mTopoStfInfoQueue :: "TopoStfInfo cqueue"

text \<open>The constructor; \<open>b0\<close> is the default-constructed bit set.\<close>

definition stf_init :: "'b bitset_ops \<Rightarrow> 'b \<Rightarrow> 'b stf_state" where
  "stf_init B b0 =
     \<lparr>stfRunning = False, mDropQueue = cq_init, mStfInfoMap = [], mStfSenderInfoMap = [],
      mRunNumber = 0, mLastStfId = 0, mMaxCompletedTfId = 0, mNotScheduledTfsCount = 0,
      mStaleTfCount = 0,
      mDroppedStfs = er_new B b0 (24 * 3600 * 88), mBuiltTfs = er_new B b0 (24 * 3600 * 88),
      mCompleteStfsInfoQueue = cq_init, mTopoStfInfoQueue = cq_init\<rparr>"

section \<open>Start, stop, and the elementary updates\<close>

definition stf_start :: "'b stf_state \<Rightarrow> 'b stf_state" where
  "stf_start st = st\<lparr>mStfInfoMap := [], stfRunning := True\<rparr>"

definition stf_stop :: "'b stf_state \<Rightarrow> 'b stf_state" where
  "stf_stop st = st\<lparr>stfRunning := False,
     mDropQueue := cq_stop (mDropQueue st),
     mCompleteStfsInfoQueue := cq_stop (mCompleteStfsInfoQueue st),
     mTopoStfInfoQueue := cq_stop (mTopoStfInfoQueue st),
     mStfInfoMap := []\<rparr>"

definition stf_reset :: "'b bitset_ops \<Rightarrow> 'b stf_state \<Rightarrow> 'b stf_state" where
  "stf_reset B st = st\<lparr>mLastStfId := 0, mMaxCompletedTfId := 0, mNotScheduledTfsCount := 0,
     mStaleTfCount := 0, mDroppedStfs := er_reset B (mDroppedStfs st),
     mBuiltTfs := er_reset B (mBuiltTfs st), mStfInfoMap := []\<rparr>"

definition requestDropAllLocked :: "'b bitset_ops \<Rightarrow> u64 \<Rightarrow> 'b stf_state \<Rightarrow> 'b stf_state" where
  "requestDropAllLocked B sid st =
     st\<lparr>mDroppedStfs := record_event B sid (mDroppedStfs st),
        mStfInfoMap := sm_del sid (mStfInfoMap st),
        mDropQueue := snd (cq_push eFIFO (sid, []) (mDropQueue st)),
        mNotScheduledTfsCount := mNotScheduledTfsCount st + 1\<rparr>"

text \<open>It takes the lock itself, and only logs where the id has been dropped before.\<close>

definition requestDropAllFromSchedule :: "'b bitset_ops \<Rightarrow> u64 \<Rightarrow> 'b stf_state \<Rightarrow> 'b stf_state" where
  "requestDropAllFromSchedule B sid st =
     st\<lparr>mDroppedStfs := record_event B sid (mDroppedStfs st),
        mStfInfoMap := sm_del sid (mStfInfoMap st),
        mDropQueue := snd (cq_push eFIFO (sid, []) (mDropQueue st)),
        mNotScheduledTfsCount := mNotScheduledTfsCount st + 1\<rparr>"

definition requestDropTopoStf :: "u64 \<Rightarrow> string \<Rightarrow> 'b stf_state \<Rightarrow> 'b stf_state" where
  "requestDropTopoStf sid stfs st =
     st\<lparr>mDropQueue := snd (cq_push eFIFO (sid, stfs) (mDropQueue st)),
        mNotScheduledTfsCount := mNotScheduledTfsCount st + 1\<rparr>"

text \<open>
  A time frame is handed to the scheduling thread: the node is extracted from the map, the id
  is marked as built (the three places that do so have the same statements).
\<close>

definition complete_tf :: "'b bitset_ops \<Rightarrow> u64 \<Rightarrow> 'b stf_state \<Rightarrow> 'b stf_state" where
  "complete_tf B sid st =
     st\<lparr>mStfInfoMap := sm_del sid (mStfInfoMap st),
        mMaxCompletedTfId := max (mMaxCompletedTfId st) sid,
        mBuiltTfs := record_event B sid (mBuiltTfs st),
        mCompleteStfsInfoQueue :=
          snd (cq_push eFIFO (sm_at [] (mStfInfoMap st) sid) (mCompleteStfsInfoQueue st))\<rparr>"

section \<open>addStfInfo\<close>

text \<open>
  \<open>while (mStfInfoMap.begin()->first < lStfId)\<close>. The map holds \<open>lStfId\<close> while the loop
  runs, so it is never empty there (\<open>flush_below_keeps\<close>).
\<close>

function flush_below :: "'b bitset_ops \<Rightarrow> u64 \<Rightarrow> 'b stf_state \<Rightarrow> 'b stf_state" where
  "flush_below B sid st =
     (case mStfInfoMap st of
        [] \<Rightarrow> st
      | e # m \<Rightarrow> (if fst e < sid then flush_below B sid (complete_tf B (fst e) st) else st))"
  by pat_completeness auto
termination
  by (relation "measure (\<lambda>(B, sid, st). length (mStfInfoMap st))")
    (auto simp: complete_tf_def sm_del_def less_Suc_eq_le)

declare flush_below.simps [simp del]

definition sStfDiscardTimeout :: nat where
  "sStfDiscardTimeout = 5"

definition lMaxDelayTf :: u64 where
  "lMaxDelayTf = of_nat sStfDiscardTimeout * 88"

definition min_accept :: "'b stf_state \<Rightarrow> u64" where
  "min_accept st = (if mLastStfId st < lMaxDelayTf then 0 else mLastStfId st - lMaxDelayTf)"

definition addTopologyStfInfo :: "StfSenderStfInfo \<Rightarrow> 'b stf_state \<Rightarrow> StfInfoStatus \<times> 'b stf_state" where
  "addTopologyStfInfo i st =
     (let src = stf_source_info i ! 0
      in if \<not> stfRunning st then (SI_DROP_NOT_RUNNING, st)
         else (SI_OK, st\<lparr>mTopoStfInfoQueue := snd (cq_push eFIFO
                 (new_TopoStfInfo i (data_origin src) (data_subspec src)) (mTopoStfInfoQueue st))\<rparr>))"

text \<open>The insertion of an accepted announcement, with the release of what it completes.\<close>

definition store_stf_info ::
    "'b bitset_ops \<Rightarrow> u32 \<Rightarrow> int \<Rightarrow> StfSenderStfInfo \<Rightarrow> 'b stf_state \<Rightarrow> 'b stf_state" where
  "store_stf_info B n now i st =
     (let sid = stf_id i;
          v = sm_at [] (mStfInfoMap st) sid @ [new_StfInfo now i];
          st1 = st\<lparr>mLastStfId := max (mLastStfId st) sid,
                   mStfInfoMap := sm_put sid v (mStfInfoMap st)\<rparr>
      in if length v = unat n then complete_tf B sid (flush_below B sid st1) else st1)"

definition addStfInfo ::
    "'b bitset_ops \<Rightarrow> u32 \<Rightarrow> StfSenderState \<Rightarrow> int \<Rightarrow> StfSenderStfInfo \<Rightarrow> 'b stf_state \<Rightarrow>
     StfInfoStatus \<times> 'b stf_state" where
  "addStfInfo B n stfs_state now i st =
     (let sid = stf_id i;
          used = buffer_used (stfs_info i);
          total = buffer_size (stfs_info i);
          discarded = (if \<not> stfRunning st then SI_DROP_NOT_RUNNING else SI_DROP_SCHED_DISCARDED)
      in if stf_source i = SRC_TOPOLOGICAL then addTopologyStfInfo i st
         else
           let st1 = st\<lparr>mStfSenderInfoMap :=
                 sm_put (process_id (ssi_info i)) (stfs_info i) (mStfSenderInfoMap st)\<rparr>;
               st2 = (if mRunNumber st1 < run_number i
                      then (stf_reset B st1)\<lparr>mRunNumber := run_number i\<rparr> else st1)
           in if run_number i < mRunNumber st2 then (discarded, st2)
              else if GetEvent B (mDroppedStfs st2) sid then (discarded, st2)
              else if GetEvent B (mBuiltTfs st2) sid then (discarded, st2)
              else if \<not> stfRunning st2 then
                (SI_DROP_NOT_RUNNING, requestDropAllLocked B sid st2)
              else if stfs_state \<noteq> STF_SENDER_STATE_OK then
                (SI_DROP_STFS_INCOMPLETE, requestDropAllLocked B sid st2)
              else if total * 97 div 100 < used then
                (SI_DROP_STFS_BUFFER_FULL, requestDropAllLocked B sid st2)
              else if sid < min_accept st2 \<and> \<not> sm_has (mStfInfoMap st2) sid then
                (SI_DROP_SCHED_DISCARDED, requestDropAllLocked B sid st2)
              else (SI_OK, store_stf_info B n now i st2))"

section \<open>The stale and the watermark passes\<close>

text \<open>The ids of the stale time frames at the head of the map; the first fresh one ends the scan.\<close>

fun stale_scan :: "int \<Rightarrow> u64 \<Rightarrow> (u64, StfInfo list) smap \<Rightarrow> u64 list" where
  "stale_scan now timeout_ms [] = []"
| "stale_scan now timeout_ms ((sid, v) # m) =
     (if v = [] then sid # stale_scan now timeout_ms m
      else if int (unat timeout_ms) * 1000000 < \<bar>siUpdateLocalTime (last v) - now\<bar>
      then sid # stale_scan now timeout_ms m
      else [])"

definition StaleCleanupThread_pass :: "'b bitset_ops \<Rightarrow> u64 \<Rightarrow> int \<Rightarrow> 'b stf_state \<Rightarrow> 'b stf_state" where
  "StaleCleanupThread_pass B timeout_param now st =
     (let timeout_ms = std_clamp timeout_param 250 60000;
          ids = stale_scan now timeout_ms (mStfInfoMap st);
          st1 = fold (complete_tf B) ids st
      in st1\<lparr>mStaleTfCount := mStaleTfCount st1 + of_nat (length ids)\<rparr>)"

text \<open>
  The utilization of a buffer, a double: a quotient, or what the division by a size of zero
  gives. Rounding of the quotient is not modelled.
\<close>

datatype util = Fin real | PosInf | NaN

definition buf_util :: "StfSenderInfo \<Rightarrow> util" where
  "buf_util s =
     (if buffer_size s = 0 then (if buffer_used s = 0 then NaN else PosInf)
      else Fin (real (unat (buffer_used s)) / real (unat (buffer_size s))))"

fun util_gt :: "util \<Rightarrow> util \<Rightarrow> bool" where
  "util_gt (Fin a) (Fin b) \<longleftrightarrow> b < a"
| "util_gt PosInf (Fin b) \<longleftrightarrow> True"
| "util_gt _ _ \<longleftrightarrow> False"

fun fullest_sender :: "util \<Rightarrow> string \<Rightarrow> (string, StfSenderInfo) smap \<Rightarrow> util \<times> string" where
  "fullest_sender mx who [] = (mx, who)"
| "fullest_sender mx who ((i, s) # m) =
     (if util_gt (buf_util s) mx then fullest_sender (buf_util s) i m else fullest_sender mx who m)"

fun watermark_collect ::
    "int \<Rightarrow> u64 \<Rightarrow> string \<Rightarrow> u64 \<Rightarrow> (u64, StfInfo list) smap \<Rightarrow> u64 list" where
  "watermark_collect now max_id who sz [] = []"
| "watermark_collect now max_id who sz ((sid, v) # m) =
     (if 2 ^ 30 < sz then []
      else if max_id < sid then []
      else if v \<noteq> [] \<and> now - siUpdateLocalTime (v ! 0) < 1000000000 then []
      else case find (\<lambda>i. si_process_id i = who) v of
             None \<Rightarrow> watermark_collect now max_id who sz m
           | Some i \<Rightarrow> sid # watermark_collect now max_id who (sz + si_stf_size i) m)"

definition HighWatermarkThread_pass :: "'b bitset_ops \<Rightarrow> int \<Rightarrow> 'b stf_state \<Rightarrow> 'b stf_state" where
  "HighWatermarkThread_pass B now st =
     (let (mx, who) = fullest_sender (Fin 0) [] (mStfSenderInfoMap st);
          st1 = st\<lparr>mStfSenderInfoMap := []\<rparr>
      in if who = [] \<or> \<not> util_gt mx (Fin (90 / 100)) then st1
         else fold (requestDropAllLocked B)
                (watermark_collect now (mMaxCompletedTfId st) who 0 (mStfInfoMap st)) st1)"

section \<open>The scheduling threads\<close>

text \<open>What the scheduling threads work on: this class and the two it holds references to.\<close>

record 'b sched_state =
  ss_stf :: "'b stf_state"
  ss_tfb :: tfb_state
  ss_conn :: conn_state

text \<open>The answer of a TfBuilder to \<open>BuildTfRequest\<close>; \<open>None\<close> is a gRPC error.\<close>

type_synonym build_env = "string \<Rightarrow> TfBuildingInformation \<Rightarrow> TfBuildingStatus option"

definition tf_request :: "StfInfo list \<Rightarrow> TfBuildingInformation" where
  "tf_request v =
     \<lparr>tf_id = si_stf_id (v ! 0),
      tf_size = foldl (\<lambda>s i. s + si_stf_size i) 0 v,
      stf_size_map = foldl (\<lambda>m i. sm_put (si_process_id i) (si_stf_size i) m) [] v,
      tf_source = SRC_DEFAULT\<rparr>"

definition drop_scheduled :: "'b bitset_ops \<Rightarrow> u64 \<Rightarrow> 'b sched_state \<Rightarrow> 'b sched_state" where
  "drop_scheduled B tf ss = ss\<lparr>ss_stf := requestDropAllFromSchedule B tf (ss_stf ss)\<rparr>"

text \<open>
  The body of the \<open>SchedulingThread\<close> loop for one popped time frame. It answers the request
  sent to a TfBuilder, if any, and the other remote calls made.
\<close>

definition schedule_tf ::
    "'b bitset_ops \<Rightarrow> u32 \<Rightarrow> bool \<Rightarrow> build_env \<Rightarrow> StfInfo list \<Rightarrow> 'b sched_state \<Rightarrow>
     (string \<times> TfBuildingInformation) option \<times> rpc_call list \<times> 'b sched_state" where
  "schedule_tf B n build_incomplete build v ss =
     (let req = tf_request v; tf = tf_id req
      in if length v \<noteq> unat n \<and> \<not> build_incomplete then (None, [], drop_scheduled B tf ss)
         else
           (case findTfBuilderForTf (tf_size req) (ss_tfb ss) of
              (Inl _, tfb1) \<Rightarrow> (None, [], drop_scheduled B tf (ss\<lparr>ss_tfb := tfb1\<rparr>))
            | (Inr i, tfb1) \<Rightarrow>
                let ss1 = ss\<lparr>ss_tfb := tfb1\<rparr>
                in (case tfbc_get i (mTfBuilderRpcClients (ss_conn ss1)) of
                      None \<Rightarrow>
                        (None, [], (drop_scheduled B tf ss1)\<lparr>ss_tfb := removeReadyTfBuilder i tfb1\<rparr>)
                    | Some _ \<Rightarrow>
                        (case build i req of
                           Some BTF_OK \<Rightarrow>
                             (Some (i, req), [], ss1\<lparr>ss_tfb := snd (markTfBuilderWithTfId i tf tfb1)\<rparr>)
                         | Some BTF_ERROR_NOMEM \<Rightarrow> (Some (i, req), [], drop_scheduled B tf ss1)
                         | Some BTF_ERROR_NOT_RUNNING \<Rightarrow> (Some (i, req), [], drop_scheduled B tf ss1)
                         | Some BTF_OTHER \<Rightarrow> (Some (i, req), [], ss1)
                         | None \<Rightarrow>
                             let (conn1, calls) = removeTfBuilder i (ss_conn ss1)
                             in (Some (i, req), calls,
                                 (drop_scheduled B tf ss1)\<lparr>ss_conn := conn1,
                                    ss_tfb := removeReadyTfBuilder i tfb1\<rparr>)))))"

definition SchedulingThread_step ::
    "'b bitset_ops \<Rightarrow> u32 \<Rightarrow> bool \<Rightarrow> build_env \<Rightarrow> 'b sched_state \<Rightarrow>
     (string \<times> TfBuildingInformation) option \<times> rpc_call list \<times> 'b sched_state" where
  "SchedulingThread_step B n build_incomplete build ss =
     (case cq_pop (mCompleteStfsInfoQueue (ss_stf ss)) of
        (Popped v, q) \<Rightarrow>
          schedule_tf B n build_incomplete build v
            (ss\<lparr>ss_stf := (ss_stf ss)\<lparr>mCompleteStfsInfoQueue := q\<rparr>\<rparr>)
      | (_, _) \<Rightarrow> (None, [], ss))"

definition topo_request :: "TopoStfInfo \<Rightarrow> TfBuildingInformation" where
  "topo_request t =
     \<lparr>tf_id = stf_id (tsStfInfo t), tf_size = stf_size (tsStfInfo t),
      stf_size_map = [(process_id (ssi_info (tsStfInfo t)), stf_size (tsStfInfo t))],
      tf_source = SRC_TOPOLOGICAL\<rparr>"

definition drop_topo :: "TopoStfInfo \<Rightarrow> 'b sched_state \<Rightarrow> 'b sched_state" where
  "drop_topo t ss =
     ss\<lparr>ss_stf := requestDropTopoStf (stf_id (tsStfInfo t)) (process_id (ssi_info (tsStfInfo t))) (ss_stf ss)\<rparr>"

definition schedule_topo ::
    "build_env \<Rightarrow> TopoStfInfo \<Rightarrow> 'b sched_state \<Rightarrow>
     (string \<times> TfBuildingInformation) option \<times> rpc_call list \<times> 'b sched_state" where
  "schedule_topo build t ss =
     (let req = topo_request t
      in case findTfBuilderForTopoStf (take 3 (tsDataOrigin t)) (tsSubSpec t) (ss_tfb ss) of
           (None, tfb1) \<Rightarrow> (None, [], drop_topo t (ss\<lparr>ss_tfb := tfb1\<rparr>))
         | (Some i, tfb1) \<Rightarrow>
             let ss1 = ss\<lparr>ss_tfb := tfb1\<rparr>
             in (case tfbc_get i (mTfBuilderRpcClients (ss_conn ss1)) of
                   None \<Rightarrow> (None, [], (drop_topo t ss1)\<lparr>ss_tfb := removeReadyTfBuilder i tfb1\<rparr>)
                 | Some _ \<Rightarrow>
                     (case build i req of
                        Some BTF_OK \<Rightarrow> (Some (i, req), [], ss1)
                      | Some BTF_ERROR_NOMEM \<Rightarrow> (Some (i, req), [], drop_topo t ss1)
                      | Some BTF_ERROR_NOT_RUNNING \<Rightarrow> (Some (i, req), [], drop_topo t ss1)
                      | Some BTF_OTHER \<Rightarrow> (Some (i, req), [], ss1)
                      | None \<Rightarrow>
                          let (conn1, calls) = removeTfBuilder i (ss_conn ss1)
                          in (Some (i, req), calls,
                              (drop_topo t ss1)\<lparr>ss_conn := conn1,
                                 ss_tfb := removeReadyTfBuilder i tfb1\<rparr>))))"

definition TopoSchedulingThread_step ::
    "build_env \<Rightarrow> 'b sched_state \<Rightarrow>
     (string \<times> TfBuildingInformation) option \<times> rpc_call list \<times> 'b sched_state" where
  "TopoSchedulingThread_step build ss =
     (case cq_pop (mTopoStfInfoQueue (ss_stf ss)) of
        (Popped t, q) \<Rightarrow>
          schedule_topo build t (ss\<lparr>ss_stf := (ss_stf ss)\<lparr>mTopoStfInfoQueue := q\<rparr>\<rparr>)
      | (_, _) \<Rightarrow> (None, [], ss))"

text \<open>One element of the drop queue: an empty StfSender id drops the STFs of all of them.\<close>

definition DropThread_step :: "bool \<Rightarrow> 'b sched_state \<Rightarrow> (fault + rpc_call list) \<times> 'b sched_state" where
  "DropThread_step launched ss =
     (case cq_pop (mDropQueue (ss_stf ss)) of
        (Popped (sid, stfs), q) \<Rightarrow>
          let ss1 = ss\<lparr>ss_stf := (ss_stf ss)\<lparr>mDropQueue := q\<rparr>\<rparr>
          in if stfs = [] then
               (let (conn1, calls) = dropAllStfsAsync launched sid (ss_conn ss1)
                in (Inr calls, ss1\<lparr>ss_conn := conn1\<rparr>))
             else
               (let (conn1, res) = dropSingleStfsAsync launched sid stfs (ss_conn ss1)
                in (res, ss1\<lparr>ss_conn := conn1\<rparr>))
      | (_, _) \<Rightarrow> (Inr [], ss))"

end
