(* ===== verification/Sched_StfInfo_Props.thy ===== *)
theory Sched_StfInfo_Props
  imports Sched_StfInfo Sched_TfBuilderInfo_Props
begin

text \<open>
  Correctness of the collection of time frames: the invariant of the map and of the queue of
  released time frames, the order of release, the fate of every announced time frame, and the
  outcomes of one scheduling step. The bit sets of the two event recorders are any
  implementation of the locale \<open>bitset\<close>.
\<close>

section \<open>The elementary updates\<close>

lemma sm_get_at: "sm_get m k = Some v \<Longrightarrow> sm_at d m k = v"
  by (simp add: sm_at_def)

lemma complete_frame [frame]:
  "mDroppedStfs (complete_tf B sid st) = mDroppedStfs st"
  "mDropQueue (complete_tf B sid st) = mDropQueue st"
  "mRunNumber (complete_tf B sid st) = mRunNumber st"
  "stfRunning (complete_tf B sid st) = stfRunning st"
  "mTopoStfInfoQueue (complete_tf B sid st) = mTopoStfInfoQueue st"
  "mLastStfId (complete_tf B sid st) = mLastStfId st"
  "mStaleTfCount (complete_tf B sid st) = mStaleTfCount st"
  "mStfSenderInfoMap (complete_tf B sid st) = mStfSenderInfoMap st"
  by (simp_all add: complete_tf_def)

lemma complete_map [simp]: "mStfInfoMap (complete_tf B sid st) = sm_del sid (mStfInfoMap st)"
  by (simp add: complete_tf_def)

lemma complete_built [simp]: "mBuiltTfs (complete_tf B sid st) = record_event B sid (mBuiltTfs st)"
  by (simp add: complete_tf_def)

lemma dropped_frame [frame]:
  "mBuiltTfs (requestDropAllLocked B sid st) = mBuiltTfs st"
  "mCompleteStfsInfoQueue (requestDropAllLocked B sid st) = mCompleteStfsInfoQueue st"
  "mRunNumber (requestDropAllLocked B sid st) = mRunNumber st"
  "stfRunning (requestDropAllLocked B sid st) = stfRunning st"
  "mTopoStfInfoQueue (requestDropAllLocked B sid st) = mTopoStfInfoQueue st"
  "mMaxCompletedTfId (requestDropAllLocked B sid st) = mMaxCompletedTfId st"
  by (simp_all add: requestDropAllLocked_def)

lemma dropped_map [simp]:
  "mStfInfoMap (requestDropAllLocked B sid st) = sm_del sid (mStfInfoMap st)"
  "mDroppedStfs (requestDropAllLocked B sid st) = record_event B sid (mDroppedStfs st)"
  by (simp_all add: requestDropAllLocked_def)

lemma drop_from_schedule: "requestDropAllFromSchedule = requestDropAllLocked"
  by (simp add: fun_eq_iff requestDropAllFromSchedule_def requestDropAllLocked_def)

text \<open>A sequence of pushes onto a queue.\<close>

definition push_all :: "'a list \<Rightarrow> 'a cqueue \<Rightarrow> 'a cqueue" where
  "push_all xs q = (if cqRunning q then q\<lparr>mContainer := mContainer q @ xs\<rparr> else q)"

lemma push_all_Nil [simp]: "push_all [] q = q"
  by (simp add: push_all_def)

lemma push_all_Cons: "push_all xs (snd (cq_push eFIFO x q)) = push_all (x # xs) q"
  by (simp add: push_all_def cq_push_def)

lemma push_all_push: "snd (cq_push eFIFO x (push_all xs q)) = push_all (xs @ [x]) q"
  by (simp add: push_all_def cq_push_def)

lemma push_is_push_all: "snd (cq_push eFIFO x q) = push_all [x] q"
  by (simp add: push_all_def cq_push_def)

lemma running_push_all [simp]: "cqRunning (push_all xs q) = cqRunning q"
  by (simp add: push_all_def)

lemma content_push_all: "mContainer (push_all xs q) = mContainer q @ (if cqRunning q then xs else [])"
  by (simp add: push_all_def)

section \<open>Releasing a prefix of the map\<close>

lemma sm_del_head: "sm_wf ((k, v) # m) \<Longrightarrow> sm_del k ((k, v) # m) = m"
  by (auto simp: sm_wf_Cons sm_del_def filter_id_conv)

lemma sm_get_head: "sm_get ((k, v) # m) k = Some v"
  by (simp add: sm_get_def)

lemma complete_prefix:
  assumes "sm_wf (as @ rest)" and "mStfInfoMap st = as @ rest"
  shows "fold (complete_tf B) (map fst as) st =
    st\<lparr>mStfInfoMap := rest,
       mMaxCompletedTfId := fold max (map fst as) (mMaxCompletedTfId st),
       mBuiltTfs := fold (\<lambda>e r. record_event B e r) (map fst as) (mBuiltTfs st),
       mCompleteStfsInfoQueue := push_all (map snd as) (mCompleteStfsInfoQueue st)\<rparr>"
  using assms
proof (induction as arbitrary: st)
  case Nil
  then show ?case by simp
next
  case (Cons a as)
  obtain k v where a: "a = (k, v)" by (cases a)
  have wf: "sm_wf ((k, v) # as @ rest)" and m: "mStfInfoMap st = (k, v) # as @ rest"
    using Cons.prems a by simp_all
  have wf': "sm_wf (as @ rest)" using wf by (simp add: sm_wf_Cons)
  have map': "mStfInfoMap (complete_tf B k st) = as @ rest"
    using wf m by (simp add: sm_del_head)
  show ?case
    using Cons.IH [OF wf' map'] m
    by (simp add: a complete_tf_def sm_get_at [OF sm_get_head] push_all_Cons max.commute)
qed

lemma flush_is_fold:
  assumes "sm_wf (mStfInfoMap st)"
  shows "flush_below B sid st =
    fold (complete_tf B) (map fst (takeWhile (\<lambda>e. fst e < sid) (mStfInfoMap st))) st"
  using assms
proof (induction B sid st rule: flush_below.induct)
  case (1 B sid st)
  show ?case
  proof (cases "mStfInfoMap st")
    case Nil
    then show ?thesis by (simp add: flush_below.simps)
  next
    case (Cons e m)
    obtain k v where e: "e = (k, v)" by (cases e)
    have "mStfInfoMap (complete_tf B k st) = m"
      using "1.prems" Cons e by (simp add: sm_del_head)
    then show ?thesis
      using 1 Cons e by (subst flush_below.simps) (auto simp: sm_wf_Cons)
  qed
qed

lemma split_below:
  "sm_wf m \<Longrightarrow> takeWhile (\<lambda>e. fst e < k) m = filter (\<lambda>e. fst e < k) m \<and>
     dropWhile (\<lambda>e. fst e < k) m = filter (\<lambda>e. \<not> fst e < k) m"
proof (induction m)
  case Nil
  then show ?case by simp
next
  case (Cons e m)
  show ?case
  proof (cases "fst e < k")
    case True
    then show ?thesis using Cons by (simp add: sm_wf_Cons)
  next
    case False
    then have "\<forall>x \<in> set m. \<not> fst x < k"
      using Cons.prems by (auto simp: sm_wf_Cons)
    then show ?thesis using False by simp
  qed
qed

lemmas takeWhile_below_filter = split_below [THEN conjunct1]
  and dropWhile_below_filter = split_below [THEN conjunct2]

lemma distinct_prefix_keys:
  assumes "sm_wf m"
  shows "distinct (map fst (takeWhile P m))"
proof -
  have "distinct (map fst m)" using assms strict_sorted_iff unfolding sm_wf_def by blast
  then have "inj_on fst (set m)" "distinct m" by (simp_all add: distinct_map)
  moreover have "set (takeWhile P m) \<subseteq> set m" by (auto dest: set_takeWhileD)
  ultimately show ?thesis by (simp add: distinct_map distinct_takeWhile inj_on_subset)
qed

text \<open>The pending time frames with an id below \<open>sid\<close>, oldest first.\<close>

definition older :: "u64 \<Rightarrow> (u64, 'v) smap \<Rightarrow> (u64, 'v) smap" where
  "older sid m = filter (\<lambda>e. fst e < sid) m"

definition not_older :: "u64 \<Rightarrow> (u64, 'v) smap \<Rightarrow> (u64, 'v) smap" where
  "not_older sid m = filter (\<lambda>e. \<not> fst e < sid) m"

lemma older_put: "sm_wf m \<Longrightarrow> older k (sm_put k v m) = older k m"
  by (induction m) (auto simp: older_def sm_wf_Cons)

lemma flush_result:
  assumes "sm_wf (mStfInfoMap st)"
  shows "flush_below B sid st =
    st\<lparr>mStfInfoMap := not_older sid (mStfInfoMap st),
       mMaxCompletedTfId := fold max (map fst (older sid (mStfInfoMap st))) (mMaxCompletedTfId st),
       mBuiltTfs := fold (\<lambda>e r. record_event B e r) (map fst (older sid (mStfInfoMap st))) (mBuiltTfs st),
       mCompleteStfsInfoQueue :=
         push_all (map snd (older sid (mStfInfoMap st))) (mCompleteStfsInfoQueue st)\<rparr>"
  unfolding flush_is_fold [OF assms(1)] older_def not_older_def
    takeWhile_below_filter [OF assms(1), symmetric] dropWhile_below_filter [OF assms(1), symmetric]
  by (rule complete_prefix) (simp_all add: assms(1))

lemma sm_get_filter_key:
  "sm_get (filter (\<lambda>e. P (fst e)) m) k = (if P k then sm_get m k else None)"
  by (induction m) (auto simp: sm_get_def)

text \<open>The loop of \<open>addStfInfo\<close> never removes the time frame it runs for.\<close>

lemma flush_below_keeps:
  "sm_wf (mStfInfoMap st) \<Longrightarrow> sm_get (mStfInfoMap (flush_below B sid st)) sid = sm_get (mStfInfoMap st) sid"
  by (simp add: flush_result not_older_def sm_get_filter_key [of "\<lambda>x. \<not> x < sid"])

section \<open>The invariant\<close>

text \<open>
  \<open>stf_inv\<close>: every pending time frame has at least one announcement, fewer than there are
  StfSenders, all of its own id, and is neither marked as dropped nor as built; every
  released one has between one and the full number of announcements, all of one id. The time
  frame \<open>ex\<close> may be full: it is the one \<open>addStfInfo\<close> is releasing.
\<close>

definition one_id :: "u64 \<Rightarrow> StfInfo list \<Rightarrow> bool" where
  "one_id k v \<longleftrightarrow> v \<noteq> [] \<and> (\<forall>i \<in> set v. si_stf_id i = k)"

definition released_ok :: "u32 \<Rightarrow> StfInfo list \<Rightarrow> bool" where
  "released_ok n v \<longleftrightarrow> (\<exists>k. one_id k v \<and> small_id k) \<and> length v \<le> unat n"

definition pending_ok :: "'b bitset_ops \<Rightarrow> u32 \<Rightarrow> u64 option \<Rightarrow> 'b stf_state \<Rightarrow> bool" where
  "pending_ok B n ex st \<longleftrightarrow>
     (\<forall>k v. sm_get (mStfInfoMap st) k = Some v \<longrightarrow>
        small_id k \<and> one_id k v \<and> length v \<le> unat n \<and> (ex \<noteq> Some k \<longrightarrow> length v < unat n) \<and>
        \<not> GetEvent B (mDroppedStfs st) k \<and> \<not> GetEvent B (mBuiltTfs st) k)"

definition stf_inv_ex :: "'b bitset_ops \<Rightarrow> u32 \<Rightarrow> u64 option \<Rightarrow> 'b stf_state \<Rightarrow> bool" where
  "stf_inv_ex B n ex st \<longleftrightarrow>
     er_ok B (mDroppedStfs st) \<and> er_ok B (mBuiltTfs st) \<and> sm_wf (mStfInfoMap st) \<and>
     pending_ok B n ex st \<and>
     (\<forall>v \<in> set (mContainer (mCompleteStfsInfoQueue st)). released_ok n v)"

abbreviation stf_inv :: "'b bitset_ops \<Rightarrow> u32 \<Rightarrow> 'b stf_state \<Rightarrow> bool" where
  "stf_inv B n st \<equiv> stf_inv_ex B n None st"

lemma stf_inv_pending:
  "stf_inv_ex B n ex st \<Longrightarrow> sm_get (mStfInfoMap st) k = Some v \<Longrightarrow>
     small_id k \<and> one_id k v \<and> length v \<le> unat n \<and> \<not> GetEvent B (mDroppedStfs st) k \<and>
     \<not> GetEvent B (mBuiltTfs st) k"
  unfolding stf_inv_ex_def pending_ok_def by blast

lemma stf_inv_wf: "stf_inv_ex B n ex st \<Longrightarrow> sm_wf (mStfInfoMap st)"
  by (simp add: stf_inv_ex_def)

context bitset
begin

lemma pending_complete:
  assumes "stf_inv_ex B n ex st" and "small_id sid"
    and "ex = ex' \<or> ex = Some sid"
  shows "pending_ok B n ex' (complete_tf B sid st)"
  unfolding pending_ok_def
proof (intro allI impI)
  fix k v
  assume "sm_get (mStfInfoMap (complete_tf B sid st)) k = Some v"
  then have kv: "k \<noteq> sid" "sm_get (mStfInfoMap st) k = Some v" by (auto split: if_splits)
  have ok: "er_ok B (mBuiltTfs st)" using assms(1) by (simp add: stf_inv_ex_def)
  have p: "small_id k \<and> one_id k v \<and> length v \<le> unat n \<and> (ex \<noteq> Some k \<longrightarrow> length v < unat n) \<and>
      \<not> GetEvent B (mDroppedStfs st) k \<and> \<not> GetEvent B (mBuiltTfs st) k"
    using assms(1) kv(2) unfolding stf_inv_ex_def pending_ok_def by blast
  have "\<not> GetEvent B (record_event B sid (mBuiltTfs st)) k"
    using log.seen_add [OF ok assms(2)] p kv(1) by blast
  then show "small_id k \<and> one_id k v \<and> length v \<le> unat n \<and> (ex' \<noteq> Some k \<longrightarrow> length v < unat n) \<and>
      \<not> GetEvent B (mDroppedStfs (complete_tf B sid st)) k \<and>
      \<not> GetEvent B (mBuiltTfs (complete_tf B sid st)) k"
    using p kv(1) assms(3) by (auto simp: frame)
qed

lemma complete_inv:
  assumes inv: "stf_inv_ex B n ex st" and v: "sm_get (mStfInfoMap st) sid = Some v"
    and "ex = ex' \<or> ex = Some sid"
  shows "stf_inv_ex B n ex' (complete_tf B sid st)"
proof -
  have p: "small_id sid \<and> one_id sid v \<and> length v \<le> unat n"
    using stf_inv_pending [OF inv v] by blast
  then have rel: "released_ok n v" unfolding released_ok_def by blast
  have q: "set (mContainer (mCompleteStfsInfoQueue (complete_tf B sid st)))
      \<subseteq> insert v (set (mContainer (mCompleteStfsInfoQueue st)))"
    using v by (simp add: complete_tf_def sm_get_at fifo.set_push)
  have "pending_ok B n ex' (complete_tf B sid st)"
    using pending_complete [OF inv _ assms(3)] p by blast
  moreover have "er_ok B (mBuiltTfs (complete_tf B sid st))"
    using inv p log.ok_add by (simp add: stf_inv_ex_def)
  moreover have "\<forall>v \<in> set (mContainer (mCompleteStfsInfoQueue (complete_tf B sid st))). released_ok n v"
    using q rel inv unfolding stf_inv_ex_def by blast
  ultimately show ?thesis
    using inv by (simp add: stf_inv_ex_def frame)
qed

lemma drop_inv:
  assumes inv: "stf_inv_ex B n ex st" and sm: "small_id sid"
  shows "stf_inv_ex B n ex (requestDropAllLocked B sid st)"
proof -
  have ok: "er_ok B (mDroppedStfs st)" using inv by (simp add: stf_inv_ex_def)
  have "pending_ok B n ex (requestDropAllLocked B sid st)"
    using inv log.seen_add [OF ok sm] unfolding stf_inv_ex_def pending_ok_def
    by (simp add: frame) blast
  then show ?thesis
    using inv log.ok_add [OF ok sm] by (simp add: stf_inv_ex_def frame)
qed

lemma completes_inv:
  assumes "stf_inv_ex B n ex st" and "distinct ks" and "\<forall>k \<in> set ks. sm_has (mStfInfoMap st) k"
  shows "stf_inv_ex B n ex (fold (complete_tf B) ks st)"
  using assms
proof (induction ks arbitrary: st)
  case Nil
  then show ?case by simp
next
  case (Cons k ks)
  obtain v where "sm_get (mStfInfoMap st) k = Some v"
    using Cons.prems(3) by (auto simp: sm_has_get)
  then have "stf_inv_ex B n ex (complete_tf B k st)"
    using complete_inv [OF Cons.prems(1)] by blast
  moreover have "\<forall>j \<in> set ks. sm_has (mStfInfoMap (complete_tf B k st)) j"
    using Cons.prems(2,3) by auto
  ultimately show ?case
    using Cons.IH [of "complete_tf B k st"] Cons.prems(2) by simp
qed

lemma drops_inv:
  assumes "stf_inv_ex B n ex st" and "\<forall>k \<in> set ks. small_id k"
  shows "stf_inv_ex B n ex (fold (requestDropAllLocked B) ks st)"
  using assms by (induction ks arbitrary: st) (auto simp: drop_inv)

lemma reset_inv:
  assumes "\<forall>v \<in> set (mContainer (mCompleteStfsInfoQueue st)). released_ok n v"
  shows "stf_inv_ex B n ex (stf_reset B st)"
  using assms by (simp add: stf_reset_def stf_inv_ex_def pending_ok_def er_ok_reset)

lemma flush_inv:
  assumes "stf_inv_ex B n ex st"
  shows "stf_inv_ex B n ex (flush_below B sid st)"
proof -
  have wf: "sm_wf (mStfInfoMap st)" using assms by (rule stf_inv_wf)
  let ?ks = "map fst (takeWhile (\<lambda>e. fst e < sid) (mStfInfoMap st))"
  have "distinct ?ks" using wf by (rule distinct_prefix_keys)
  moreover have "\<forall>k \<in> set ?ks. sm_has (mStfInfoMap st) k"
    by (auto simp: sm_has_in dest: set_takeWhileD)
  ultimately show ?thesis
    unfolding flush_is_fold [OF wf] by (intro completes_inv assms)
qed

end

section \<open>addStfInfo\<close>

text \<open>The state after the common prefix of \<open>addStfInfo\<close>: the StfSender's status, the run change.\<close>

definition enter_run :: "'b bitset_ops \<Rightarrow> StfSenderStfInfo \<Rightarrow> 'b stf_state \<Rightarrow> 'b stf_state" where
  "enter_run B i st =
     (let st1 = st\<lparr>mStfSenderInfoMap :=
            sm_put (process_id (ssi_info i)) (stfs_info i) (mStfSenderInfoMap st)\<rparr>
      in if mRunNumber st1 < run_number i
         then (stf_reset B st1)\<lparr>mRunNumber := run_number i\<rparr> else st1)"

definition acceptable ::
    "'b bitset_ops \<Rightarrow> StfSenderState \<Rightarrow> StfSenderStfInfo \<Rightarrow> 'b stf_state \<Rightarrow> bool" where
  "acceptable B stfs_state i st \<longleftrightarrow>
     mRunNumber st \<le> run_number i \<and>
     \<not> GetEvent B (mDroppedStfs st) (stf_id i) \<and> \<not> GetEvent B (mBuiltTfs st) (stf_id i) \<and>
     stfRunning st \<and> stfs_state = STF_SENDER_STATE_OK \<and>
     buffer_used (stfs_info i) \<le> buffer_size (stfs_info i) * 97 div 100 \<and>
     (min_accept st \<le> stf_id i \<or> sm_has (mStfInfoMap st) (stf_id i))"

lemma add_cases:
  assumes "stf_source i \<noteq> SRC_TOPOLOGICAL"
  obtains (accept) "acceptable B stfs_state i (enter_run B i st)"
      and "addStfInfo B n stfs_state now i st = (SI_OK, store_stf_info B n now i (enter_run B i st))"
    | (drop) r where "r \<noteq> SI_OK" and "\<not> acceptable B stfs_state i (enter_run B i st)"
      and "addStfInfo B n stfs_state now i st = (r, requestDropAllLocked B (stf_id i) (enter_run B i st))"
    | (refuse) r where "r \<noteq> SI_OK" and "\<not> acceptable B stfs_state i (enter_run B i st)"
      and "addStfInfo B n stfs_state now i st = (r, enter_run B i st)"
      and "run_number i < mRunNumber st \<or> GetEvent B (mDroppedStfs (enter_run B i st)) (stf_id i) \<or>
           GetEvent B (mBuiltTfs (enter_run B i st)) (stf_id i)"
proof -
  define e where "e = enter_run B i st"
  have run: "run_number i < mRunNumber e \<longleftrightarrow> run_number i < mRunNumber st"
    by (auto simp: e_def enter_run_def Let_def)
  have eq: "addStfInfo B n stfs_state now i st =
    (let discarded = (if \<not> stfRunning st then SI_DROP_NOT_RUNNING else SI_DROP_SCHED_DISCARDED)
     in if run_number i < mRunNumber e then (discarded, e)
        else if GetEvent B (mDroppedStfs e) (stf_id i) then (discarded, e)
        else if GetEvent B (mBuiltTfs e) (stf_id i) then (discarded, e)
        else if \<not> stfRunning e then (SI_DROP_NOT_RUNNING, requestDropAllLocked B (stf_id i) e)
        else if stfs_state \<noteq> STF_SENDER_STATE_OK then
          (SI_DROP_STFS_INCOMPLETE, requestDropAllLocked B (stf_id i) e)
        else if buffer_size (stfs_info i) * 97 div 100 < buffer_used (stfs_info i) then
          (SI_DROP_STFS_BUFFER_FULL, requestDropAllLocked B (stf_id i) e)
        else if stf_id i < min_accept e \<and> \<not> sm_has (mStfInfoMap e) (stf_id i) then
          (SI_DROP_SCHED_DISCARDED, requestDropAllLocked B (stf_id i) e)
        else (SI_OK, store_stf_info B n now i e))"
    using assms by (simp add: addStfInfo_def e_def enter_run_def Let_def)
  show thesis
  proof (cases "run_number i < mRunNumber e \<or> GetEvent B (mDroppedStfs e) (stf_id i) \<or>
      GetEvent B (mBuiltTfs e) (stf_id i)")
    case True
    then have "\<exists>r. r \<noteq> SI_OK \<and> addStfInfo B n stfs_state now i st = (r, e)"
      unfolding eq Let_def by (cases "stfRunning st") auto
    moreover have "\<not> acceptable B stfs_state i e" using True by (auto simp: acceptable_def)
    ultimately show thesis using refuse True run unfolding e_def by blast
  next
    case False
    show thesis
    proof (cases "acceptable B stfs_state i e")
      case True
      then have "addStfInfo B n stfs_state now i st = (SI_OK, store_stf_info B n now i e)"
        unfolding eq by (auto simp: acceptable_def)
      then show thesis using accept True unfolding e_def by blast
    next
      case notacc: False
      have "\<exists>r. r \<noteq> SI_OK \<and>
          addStfInfo B n stfs_state now i st = (r, requestDropAllLocked B (stf_id i) e)"
        using False notacc unfolding eq acceptable_def Let_def by (simp add: not_le) blast
      then show thesis using drop notacc unfolding e_def by blast
    qed
  qed
qed

context bitset
begin

lemma enter_run_inv:
  assumes "stf_inv_ex B n ex st"
  shows "stf_inv_ex B n ex (enter_run B i st)"
proof (cases "mRunNumber st < run_number i")
  case True
  let ?st = "st\<lparr>mStfSenderInfoMap :=
    sm_put (process_id (ssi_info i)) (stfs_info i) (mStfSenderInfoMap st)\<rparr>"
  have "stf_inv_ex B n ex (stf_reset B ?st)"
    using assms by (intro reset_inv) (simp add: stf_inv_ex_def)
  then show ?thesis
    using True by (simp add: enter_run_def stf_inv_ex_def pending_ok_def)
next
  case False
  then show ?thesis
    using assms by (simp add: enter_run_def stf_inv_ex_def pending_ok_def)
qed

lemma stored_inv:
  fixes now :: int and l :: u64
  assumes inv: "stf_inv B n st" and sm: "small_id (stf_id i)" and n: "0 < n"
    and nd: "\<not> GetEvent B (mDroppedStfs st) (stf_id i)" "\<not> GetEvent B (mBuiltTfs st) (stf_id i)"
  defines "v \<equiv> sm_at [] (mStfInfoMap st) (stf_id i) @ [new_StfInfo now i]"
  defines "st1 \<equiv> st\<lparr>mLastStfId := l, mStfInfoMap := sm_put (stf_id i) v (mStfInfoMap st)\<rparr>"
  shows "stf_inv_ex B n (if length v = unat n then Some (stf_id i) else None) st1"
    and "length v \<le> unat n" and "one_id (stf_id i) v"
proof -
  have n0: "0 < unat n" using n by (simp add: word_less_nat_alt)
  have v: "one_id (stf_id i) v \<and> length v \<le> unat n"
  proof (cases "sm_get (mStfInfoMap st) (stf_id i)")
    case None
    then show ?thesis using n0 by (simp add: v_def sm_at_def one_id_def new_StfInfo_def)
  next
    case (Some w)
    then have "one_id (stf_id i) w \<and> length w < unat n"
      using inv unfolding stf_inv_ex_def pending_ok_def by blast
    then show ?thesis using Some by (simp add: v_def sm_at_def one_id_def new_StfInfo_def)
  qed
  then show "length v \<le> unat n" "one_id (stf_id i) v" by simp_all
  have "pending_ok B n (if length v = unat n then Some (stf_id i) else None) st1"
    unfolding pending_ok_def
  proof (intro allI impI)
    fix k w
    assume g: "sm_get (mStfInfoMap st1) k = Some w"
    have d: "mDroppedStfs st1 = mDroppedStfs st" "mBuiltTfs st1 = mBuiltTfs st" by (simp_all add: st1_def)
    show "small_id k \<and> one_id k w \<and> length w \<le> unat n \<and>
        ((if length v = unat n then Some (stf_id i) else None) \<noteq> Some k \<longrightarrow> length w < unat n) \<and>
        \<not> GetEvent B (mDroppedStfs st1) k \<and> \<not> GetEvent B (mBuiltTfs st1) k"
    proof (cases "k = stf_id i")
      case True
      then have "w = v" using g by (simp add: st1_def)
      then show ?thesis using True v sm nd d by auto
    next
      case False
      then have "sm_get (mStfInfoMap st) k = Some w" using g by (simp add: st1_def)
      then show ?thesis
        using inv unfolding stf_inv_ex_def pending_ok_def d by fastforce
    qed
  qed
  then show "stf_inv_ex B n (if length v = unat n then Some (stf_id i) else None) st1"
    using inv by (simp add: stf_inv_ex_def st1_def)
qed

lemma store_inv:
  assumes inv: "stf_inv B n st" and sm: "small_id (stf_id i)" and n: "0 < n"
    and nd: "\<not> GetEvent B (mDroppedStfs st) (stf_id i)" "\<not> GetEvent B (mBuiltTfs st) (stf_id i)"
  shows "stf_inv B n (store_stf_info B n now i st)"
proof -
  let ?sid = "stf_id i"
  let ?v = "sm_at [] (mStfInfoMap st) ?sid @ [new_StfInfo now i]"
  let ?st1 = "st\<lparr>mLastStfId := max (mLastStfId st) ?sid, mStfInfoMap := sm_put ?sid ?v (mStfInfoMap st)\<rparr>"
  note st1 = stored_inv(1) [OF assms, of now "max (mLastStfId st) ?sid"]
  show ?thesis
  proof (cases "length ?v = unat n")
    case True
    have f: "stf_inv_ex B n (Some ?sid) (flush_below B ?sid ?st1)"
      using flush_inv st1 True by auto
    have "sm_get (mStfInfoMap (flush_below B ?sid ?st1)) ?sid = Some ?v"
      using flush_below_keeps [OF stf_inv_wf [OF st1(1)]] by simp
    from complete_inv [OF f this] show ?thesis
      using True by (simp add: store_stf_info_def Let_def)
  next
    case False
    then show ?thesis using st1 by (simp add: store_stf_info_def Let_def)
  qed
qed

lemma add_inv:
  assumes "stf_inv B n st" and "small_id (stf_id i)" and "0 < n"
  shows "stf_inv B n (snd (addStfInfo B n stfs_state now i st))"
proof (cases "stf_source i = SRC_TOPOLOGICAL")
  case True
  then show ?thesis
    using assms(1)
    by (simp add: addStfInfo_def addTopologyStfInfo_def Let_def stf_inv_ex_def pending_ok_def)
next
  case False
  note e = enter_run_inv [OF assms(1), of i]
  from False show ?thesis
  proof (cases rule: add_cases [of i B stfs_state st n now])
    case accept
    then show ?thesis
      using store_inv [OF e assms(2,3)] by (simp add: acceptable_def)
  next
    case drop
    then show ?thesis using drop_inv [OF e assms(2)] by simp
  next
    case refuse
    then show ?thesis using e by simp
  qed
qed

end

section \<open>Steps of the scheduler\<close>

lemma stale_scan_takeWhile:
  "stale_scan now t m = map fst (takeWhile (\<lambda>(k, v). v = [] \<or>
      int (unat t) * 1000000 < \<bar>siUpdateLocalTime (last v) - now\<bar>) m)"
  by (induction now t m rule: stale_scan.induct) auto

lemma watermark_collect_keys: "set (watermark_collect now mx who sz m) \<subseteq> fst ` set m"
  by (induction now mx who sz m rule: watermark_collect.induct) (auto split: option.splits)

text \<open>What one scheduling step does to this class: at most the disposal of its time frame.\<close>

lemma schedule_tf_stf:
  "ss_stf (snd (snd (schedule_tf B n inc build v ss))) = ss_stf ss \<or>
   ss_stf (snd (snd (schedule_tf B n inc build v ss))) =
     requestDropAllLocked B (si_stf_id (v ! 0)) (ss_stf ss)"
  by (auto simp: schedule_tf_def Let_def drop_scheduled_def drop_from_schedule tf_request_def
      split: sum.splits option.splits TfBuildingStatus.splits prod.splits)

lemma schedule_topo_stf:
  "ss_stf (snd (snd (schedule_topo build t ss))) = ss_stf ss \<or>
   (\<exists>sid i. ss_stf (snd (snd (schedule_topo build t ss))) = requestDropTopoStf sid i (ss_stf ss))"
  by (auto simp: schedule_topo_def Let_def drop_topo_def
      split: sum.splits option.splits TfBuildingStatus.splits prod.splits)

inductive sched_step :: "'b bitset_ops \<Rightarrow> u32 \<Rightarrow> 'b sched_state \<Rightarrow> 'b sched_state \<Rightarrow> bool"
  for B :: "'b bitset_ops" and n :: u32 where
  add: "small_id (stf_id i) \<Longrightarrow>
    sched_step B n ss (ss\<lparr>ss_stf := snd (addStfInfo B n stfs now i (ss_stf ss))\<rparr>)"
| stale: "sched_step B n ss (ss\<lparr>ss_stf := StaleCleanupThread_pass B t now (ss_stf ss)\<rparr>)"
| watermark: "sched_step B n ss (ss\<lparr>ss_stf := HighWatermarkThread_pass B now (ss_stf ss)\<rparr>)"
| schedule: "sched_step B n ss (snd (snd (SchedulingThread_step B n inc build ss)))"
| topo: "sched_step B n ss (snd (snd (TopoSchedulingThread_step build ss)))"
| drop: "sched_step B n ss (snd (DropThread_step launched ss))"
| start: "sched_step B n ss (ss\<lparr>ss_stf := stf_start (ss_stf ss)\<rparr>)"
| stop: "sched_step B n ss (ss\<lparr>ss_stf := stf_stop (ss_stf ss)\<rparr>)"
| other: "sched_step B n ss (ss\<lparr>ss_tfb := t', ss_conn := c'\<rparr>)"

inductive sched_reach :: "'b bitset_ops \<Rightarrow> u32 \<Rightarrow> 'b \<Rightarrow> 'b sched_state \<Rightarrow> bool"
  for B :: "'b bitset_ops" and n :: u32 and b0 :: 'b where
  init: "ss_stf ss = stf_init B b0 \<Longrightarrow> sched_reach B n b0 ss"
| step: "sched_reach B n b0 ss \<Longrightarrow> sched_step B n ss ss' \<Longrightarrow> sched_reach B n b0 ss'"

inductive_cases sched_stepE: "sched_step B n ss ss'"

lemma stf_inv_cong:
  assumes "stf_inv_ex B n ex st" and "mDroppedStfs st' = mDroppedStfs st" and "mBuiltTfs st' = mBuiltTfs st"
    and "mStfInfoMap st' = mStfInfoMap st \<or> mStfInfoMap st' = []"
    and "set (mContainer (mCompleteStfsInfoQueue st')) \<subseteq> set (mContainer (mCompleteStfsInfoQueue st))"
  shows "stf_inv_ex B n ex st'"
proof -
  have old: "sm_wf (mStfInfoMap st)" "pending_ok B n ex st"
    using assms(1) unfolding stf_inv_ex_def by blast+
  have "sm_wf (mStfInfoMap st') \<and> pending_ok B n ex st'"
    using assms(4)
  proof (rule disjE)
    assume same: "mStfInfoMap st' = mStfInfoMap st"
    then have "pending_ok B n ex st' = pending_ok B n ex st"
      unfolding pending_ok_def assms(2,3) by (rule arg_cong)
    then show ?thesis using old unfolding same by blast
  next
    assume "mStfInfoMap st' = []"
    then show ?thesis by (simp add: pending_ok_def)
  qed
  moreover have "\<forall>v \<in> set (mContainer (mCompleteStfsInfoQueue st')). released_ok n v"
    using assms(1,5) unfolding stf_inv_ex_def by blast
  ultimately show ?thesis using assms(1-3) by (simp add: stf_inv_ex_def)
qed

context bitset
begin

lemma stale_inv:
  assumes "stf_inv B n st"
  shows "stf_inv B n (StaleCleanupThread_pass B t now st)"
proof -
  let ?ids = "stale_scan now (std_clamp t 250 60000) (mStfInfoMap st)"
  have wf: "sm_wf (mStfInfoMap st)" using assms by (rule stf_inv_wf)
  then have "distinct ?ids"
    unfolding stale_scan_takeWhile by (rule distinct_prefix_keys)
  moreover have "\<forall>k \<in> set ?ids. sm_has (mStfInfoMap st) k"
    by (auto simp: stale_scan_takeWhile sm_has_in dest: set_takeWhileD)
  ultimately have "stf_inv B n (fold (complete_tf B) ?ids st)"
    by (intro completes_inv assms)
  then show ?thesis
    by (rule stf_inv_cong) (simp_all add: StaleCleanupThread_pass_def Let_def)
qed

lemma watermark_inv:
  assumes inv: "stf_inv B n st"
  shows "stf_inv B n (HighWatermarkThread_pass B now st)"
proof -
  let ?st1 = "st\<lparr>mStfSenderInfoMap := []\<rparr>"
  have inv1: "stf_inv B n ?st1" by (rule stf_inv_cong [OF inv]) simp_all
  have "small_id k" if k: "k \<in> set (watermark_collect now mx who sz (mStfInfoMap st))" for mx who sz k
  proof -
    have "k \<in> fst ` set (mStfInfoMap st)"
      using k watermark_collect_keys by blast
    then obtain v where "(k, v) \<in> set (mStfInfoMap st)" by auto
    then have "sm_get (mStfInfoMap st) k = Some v"
      using sm_get_in [OF stf_inv_wf [OF inv]] by blast
    then show ?thesis using stf_inv_pending [OF inv] by blast
  qed
  then show ?thesis
    using inv1 by (auto simp: HighWatermarkThread_pass_def Let_def split: prod.splits intro!: drops_inv)
qed

lemma schedule_inv:
  assumes inv: "stf_inv B n (ss_stf ss)"
  shows "stf_inv B n (ss_stf (snd (snd (SchedulingThread_step B n inc build ss))))"
proof -
  obtain r q where pop: "cq_pop (mCompleteStfsInfoQueue (ss_stf ss)) = (r, q)"
    by (cases "cq_pop (mCompleteStfsInfoQueue (ss_stf ss))")
  show ?thesis
  proof (cases r)
    case (Popped v)
    let ?ss = "ss\<lparr>ss_stf := (ss_stf ss)\<lparr>mCompleteStfsInfoQueue := q\<rparr>\<rparr>"
    have c: "mContainer (mCompleteStfsInfoQueue (ss_stf ss)) = v # mContainer q"
      using fifo.pop_rest [OF pop [unfolded Popped]] .
    have inv1: "stf_inv B n (ss_stf ?ss)"
      by (rule stf_inv_cong [OF inv]) (auto simp: c)
    have "released_ok n v"
      using inv c unfolding stf_inv_ex_def by simp
    then obtain k where "one_id k v" "small_id k"
      by (auto simp: released_ok_def)
    then have "small_id (si_stf_id (v ! 0))"
      unfolding one_id_def by (metis length_greater_0_conv nth_mem)
    then have "stf_inv B n (requestDropAllLocked B (si_stf_id (v ! 0)) (ss_stf ?ss))"
      using drop_inv [OF inv1] by blast
    then show ?thesis
      using inv1 schedule_tf_stf [of B n inc build v ?ss] pop Popped
      by (auto simp: SchedulingThread_step_def)
  qed (use pop inv in \<open>simp_all add: SchedulingThread_step_def\<close>)
qed

lemma topo_step_inv:
  assumes inv: "stf_inv B n (ss_stf ss)"
  shows "stf_inv B n (ss_stf (snd (snd (TopoSchedulingThread_step build ss))))"
proof -
  obtain r q where pop: "cq_pop (mTopoStfInfoQueue (ss_stf ss)) = (r, q)"
    by (cases "cq_pop (mTopoStfInfoQueue (ss_stf ss))")
  show ?thesis
  proof (cases r)
    case (Popped t)
    show ?thesis
      using schedule_topo_stf [of build t "ss\<lparr>ss_stf := (ss_stf ss)\<lparr>mTopoStfInfoQueue := q\<rparr>\<rparr>"] pop Popped
      by (intro stf_inv_cong [OF inv])
        (auto simp: TopoSchedulingThread_step_def requestDropTopoStf_def)
  qed (use pop inv in \<open>simp_all add: TopoSchedulingThread_step_def\<close>)
qed

lemma drop_step_inv:
  assumes inv: "stf_inv B n (ss_stf ss)"
  shows "stf_inv B n (ss_stf (snd (DropThread_step launched ss)))"
  by (rule stf_inv_cong [OF inv])
    (auto simp: DropThread_step_def Let_def split: prod.splits pop_result.splits)

lemma sched_step_inv:
  assumes "sched_step B n ss ss'" and inv: "stf_inv B n (ss_stf ss)" and "0 < n"
  shows "stf_inv B n (ss_stf ss')"
  using assms(1)
proof (cases rule: sched_step.cases)
  case add
  then show ?thesis using add_inv [OF inv _ assms(3)] by simp
next
  case stale
  then show ?thesis using stale_inv [OF inv] by simp
next
  case watermark
  then show ?thesis using watermark_inv [OF inv] by simp
next
  case schedule
  then show ?thesis using schedule_inv [OF inv] by simp
next
  case topo
  then show ?thesis using topo_step_inv [OF inv] by simp
next
  case drop
  then show ?thesis using drop_step_inv [OF inv] by simp
next
  case start
  then show ?thesis by (auto simp: stf_start_def intro: stf_inv_cong [OF inv])
next
  case stop
  then show ?thesis by (auto simp: stf_stop_def cq_stop_def intro: stf_inv_cong [OF inv])
next
  case other
  then show ?thesis using inv by simp
qed

lemma sched_reach_inv:
  assumes "sched_reach B n b0 ss" and "0 < n" and "\<And>i. i < bs_size B b0 \<Longrightarrow> \<not> bs_test B b0 i"
  shows "stf_inv B n (ss_stf ss)"
  using assms(1)
proof induction
  case (init ss)
  then show ?case
    using er_ok_new [OF assms(3)] by (simp add: stf_init_def stf_inv_ex_def pending_ok_def cq_init_def)
next
  case (step ss ss')
  then show ?case using sched_step_inv assms(2) by blast
qed

end

section \<open>Properties\<close>

text \<open>Inputs for the witnesses: an announcement, and the vector bit sets.\<close>

definition sample_stf :: "string \<Rightarrow> u64 \<Rightarrow> u64 \<Rightarrow> StfSenderStfInfo" where
  "sample_stf sender run sid =
     \<lparr>ssi_info = \<lparr>bi_type = ProcStfSender, process_id = sender, last_update_t = 0,
        process_state = PROC_RUNNING\<rparr>, run_number = run, stf_id = sid, stf_size = 100,
      stfs_info = \<lparr>buffer_size = 1000, buffer_used = 10, num_buffered_stfs = 1\<rparr>,
      stf_source = SRC_DEFAULT, stf_source_info = []\<rparr>"

definition no_bits :: "nat \<times> (nat \<Rightarrow> bool)" where
  "no_bits = (0, \<lambda>_. False)"

definition started :: "(nat \<times> (nat \<Rightarrow> bool)) stf_state" where
  "started = stf_start (stf_init vec_bits no_bits)"

abbreviation announce ::
    "u32 \<Rightarrow> string \<Rightarrow> u64 \<Rightarrow> u64 \<Rightarrow> (nat \<times> (nat \<Rightarrow> bool)) stf_state \<Rightarrow> (nat \<times> (nat \<Rightarrow> bool)) stf_state" where
  "announce n sender run sid st \<equiv>
     snd (addStfInfo vec_bits n STF_SENDER_STATE_OK 0 (sample_stf sender run sid) st)"

text \<open>The effect of an accepted announcement on the fields the examples read.\<close>

lemma sample_stf_simps [simp]:
  "stf_id (sample_stf s r k) = k" "run_number (sample_stf s r k) = r"
  "stf_source (sample_stf s r k) = SRC_DEFAULT" "process_id (ssi_info (sample_stf s r k)) = s"
  "stf_size (sample_stf s r k) = 100"
  "stfs_info (sample_stf s r k) = \<lparr>buffer_size = 1000, buffer_used = 10, num_buffered_stfs = 1\<rparr>"
  by (simp_all add: sample_stf_def)

lemma no_bits_blank: "i < bs_size vec_bits no_bits \<Longrightarrow> \<not> bs_test vec_bits no_bits i"
  by (simp add: no_bits_def vec_bits_def)

text \<open>
  C3. In every reachable state of the scheduler, the assertions of \<open>SchedulingThread\<close> on a
  popped time frame hold: it has at least one STF, no more than there are StfSenders, and all
  its STFs carry one id. The pending map is in ascending order of ids, and each of its entries is
  an incomplete time frame of its own id that is recorded neither as dropped nor as built.
\<close>

theorem timeframes_wellformed:
  assumes "bitset B" and "\<And>i. i < bs_size B b0 \<Longrightarrow> \<not> bs_test B b0 i"
    and "0 < n" and "sched_reach B n b0 ss"
  shows "(\<forall>v \<in> set (mContainer (mCompleteStfsInfoQueue (ss_stf ss))).
            v \<noteq> [] \<and> length v \<le> unat n \<and> (\<forall>i \<in> set v. si_stf_id i = si_stf_id (v ! 0)))
    \<and> sorted_wrt (<) (map fst (mStfInfoMap (ss_stf ss)))
    \<and> (\<forall>(k, v) \<in> set (mStfInfoMap (ss_stf ss)).
            v \<noteq> [] \<and> length v < unat n \<and> (\<forall>i \<in> set v. si_stf_id i = k) \<and>
            \<not> GetEvent B (mDroppedStfs (ss_stf ss)) k \<and> \<not> GetEvent B (mBuiltTfs (ss_stf ss)) k)"
proof -
  let ?st = "ss_stf ss"
  have inv: "stf_inv B n ?st"
    using bitset.sched_reach_inv [OF assms(1) assms(4) assms(3) assms(2)] .
  then have wf: "sm_wf (mStfInfoMap ?st)" by (rule stf_inv_wf)
  have q: "v \<noteq> [] \<and> length v \<le> unat n \<and> (\<forall>i \<in> set v. si_stf_id i = si_stf_id (v ! 0))"
    if v: "v \<in> set (mContainer (mCompleteStfsInfoQueue ?st))" for v
  proof -
    have "released_ok n v" using inv v unfolding stf_inv_ex_def by blast
    then obtain k where "v \<noteq> []" "\<forall>i \<in> set v. si_stf_id i = k" "length v \<le> unat n"
      by (auto simp: released_ok_def one_id_def)
    then show ?thesis by (metis length_greater_0_conv nth_mem)
  qed
  have m: "v \<noteq> [] \<and> length v < unat n \<and> (\<forall>i \<in> set v. si_stf_id i = k) \<and>
      \<not> GetEvent B (mDroppedStfs ?st) k \<and> \<not> GetEvent B (mBuiltTfs ?st) k"
    if kv: "(k, v) \<in> set (mStfInfoMap ?st)" for k v
  proof -
    have "sm_get (mStfInfoMap ?st) k = Some v" using sm_get_in [OF wf] kv by blast
    then show ?thesis using inv unfolding stf_inv_ex_def pending_ok_def one_id_def by blast
  qed
  show ?thesis using q m wf unfolding sm_wf_def by blast
qed

lemma store_completes:
  assumes wf: "sm_wf (mStfInfoMap e)" and run: "cqRunning (mCompleteStfsInfoQueue e)"
    and len: "length (sm_at [] (mStfInfoMap e) (stf_id i)) + 1 = unat n"
  shows "mContainer (mCompleteStfsInfoQueue (store_stf_info B n now i e)) =
      mContainer (mCompleteStfsInfoQueue e) @ map snd (older (stf_id i) (mStfInfoMap e)) @
        [sm_at [] (mStfInfoMap e) (stf_id i) @ [new_StfInfo now i]]"
    and "sm_get (mStfInfoMap (store_stf_info B n now i e)) k =
      (if stf_id i < k then sm_get (mStfInfoMap e) k else None)"
    and "mMaxCompletedTfId (store_stf_info B n now i e) =
      max (fold max (map fst (older (stf_id i) (mStfInfoMap e))) (mMaxCompletedTfId e)) (stf_id i)"
proof -
  let ?sid = "stf_id i"
  let ?v = "sm_at [] (mStfInfoMap e) ?sid @ [new_StfInfo now i]"
  let ?st1 = "e\<lparr>mLastStfId := max (mLastStfId e) ?sid, mStfInfoMap := sm_put ?sid ?v (mStfInfoMap e)\<rparr>"
  have wf1: "sm_wf (mStfInfoMap ?st1)" using wf by simp
  have store: "store_stf_info B n now i e = complete_tf B ?sid (flush_below B ?sid ?st1)"
    using len unfolding store_stf_info_def Let_def by simp
  have old: "older ?sid (sm_put ?sid ?v (mStfInfoMap e)) = older ?sid (mStfInfoMap e)"
    using wf by (rule older_put)
  have get: "sm_get (not_older ?sid (sm_put ?sid ?v (mStfInfoMap e))) k =
      (if k < ?sid then None else if k = ?sid then Some ?v else sm_get (mStfInfoMap e) k)" for k
    by (simp add: not_older_def sm_get_filter_key [of "\<lambda>x. \<not> x < ?sid"])
  show "mContainer (mCompleteStfsInfoQueue (store_stf_info B n now i e)) =
      mContainer (mCompleteStfsInfoQueue e) @ map snd (older ?sid (mStfInfoMap e)) @ [?v]"
    unfolding store flush_result [OF wf1]
    using get [of ?sid] run
    by (simp add: complete_tf_def old push_all_push content_push_all sm_get_at)
  show "sm_get (mStfInfoMap (store_stf_info B n now i e)) k =
      (if ?sid < k then sm_get (mStfInfoMap e) k else None)"
    unfolding store flush_result [OF wf1] using get [of k] by auto
  show "mMaxCompletedTfId (store_stf_info B n now i e) =
      max (fold max (map fst (older ?sid (mStfInfoMap e))) (mMaxCompletedTfId e)) ?sid"
    unfolding store flush_result [OF wf1] by (simp add: complete_tf_def old)
qed

text \<open>
  C2. When an accepted announcement completes its time frame, exactly the pending time frames
  with smaller ids are released before it, oldest first, then the time frame itself; the ones with
  larger ids stay as they are. All the released ids are at most \<open>mMaxCompletedTfId\<close>.
\<close>

theorem completion_order:
  assumes "sm_wf (mStfInfoMap st)" and "cqRunning (mCompleteStfsInfoQueue st)"
    and "stf_source i \<noteq> SRC_TOPOLOGICAL" and "acceptable B stfs_state i (enter_run B i st)"
    and "length (sm_at [] (mStfInfoMap (enter_run B i st)) (stf_id i)) + 1 = unat n"
  shows "\<exists>st'. addStfInfo B n stfs_state now i st = (SI_OK, st')
    \<and> mContainer (mCompleteStfsInfoQueue st') = mContainer (mCompleteStfsInfoQueue st)
        @ map snd (older (stf_id i) (mStfInfoMap (enter_run B i st)))
        @ [sm_at [] (mStfInfoMap (enter_run B i st)) (stf_id i) @ [new_StfInfo now i]]
    \<and> (\<forall>k. sm_get (mStfInfoMap st') k =
          (if stf_id i < k then sm_get (mStfInfoMap (enter_run B i st)) k else None))
    \<and> (\<forall>k \<in> set (map fst (older (stf_id i) (mStfInfoMap (enter_run B i st)))). k \<le> mMaxCompletedTfId st')
    \<and> stf_id i \<le> mMaxCompletedTfId st'"
proof -
  let ?e = "enter_run B i st"
  have wf: "sm_wf (mStfInfoMap ?e)" and q: "mCompleteStfsInfoQueue ?e = mCompleteStfsInfoQueue st"
    using assms(1) by (auto simp: enter_run_def stf_reset_def Let_def)
  have add: "addStfInfo B n stfs_state now i st = (SI_OK, store_stf_info B n now i ?e)"
    using add_cases [OF assms(3), of B stfs_state st n now] assms(4) by blast
  have run: "cqRunning (mCompleteStfsInfoQueue ?e)" using assms(2) q by simp
  note store = store_completes [OF wf run assms(5), of B now]
  show ?thesis
    unfolding add by (intro exI conjI) (rule refl, use store q in \<open>auto simp: older_def le_max_iff_disj\<close>)
qed

lemma sample_started:
  "mStfInfoMap started = []" "mRunNumber started = 0" "stfRunning started"
  "mCompleteStfsInfoQueue started = cq_init" "mDropQueue started = cq_init"
  "mLastStfId started = 0" "mMaxCompletedTfId started = 0" "mStfSenderInfoMap started = []"
  "mDroppedStfs started = er_new vec_bits no_bits 7603200" "mBuiltTfs started = er_new vec_bits no_bits 7603200"
  by (simp_all add: started_def stf_start_def stf_init_def)

lemma new_recorder_empty: "\<not> GetEvent vec_bits (er_new vec_bits no_bits k) x"
  by (simp add: GetEvent_def er_new_def)

text \<open>Two StfSenders; STF 3 from \<open>''a''\<close> is pending when STF 5 arrives from both.\<close>

definition two_pending :: "(nat \<times> (nat \<Rightarrow> bool)) stf_state" where
  "two_pending = announce 2 ''a'' 0 5 (announce 2 ''a'' 0 3 started)"

lemma small_numeral [simp]: "small_id 3" "small_id 5"
  by (simp_all add: small_id_def)

lemma sample_accept:
  assumes "\<not> run < mRunNumber st" and "\<not> mRunNumber st < run" and "stfRunning st"
    and "\<not> GetEvent vec_bits (mDroppedStfs st) sid" and "\<not> GetEvent vec_bits (mBuiltTfs st) sid"
    and "min_accept st \<le> sid"
  shows "announce n s run sid st = store_stf_info vec_bits n 0 (sample_stf s run sid)
     (st\<lparr>mStfSenderInfoMap := sm_put s (stfs_info (sample_stf s run sid)) (mStfSenderInfoMap st)\<rparr>)"
  using assms by (auto simp: addStfInfo_def Let_def min_accept_def not_le)

lemma two_pending_state:
  "mStfInfoMap two_pending = [(3, [new_StfInfo 0 (sample_stf ''a'' 0 3)]), (5, [new_StfInfo 0 (sample_stf ''a'' 0 5)])]"
  "mCompleteStfsInfoQueue two_pending = cq_init" "mRunNumber two_pending = 0" "stfRunning two_pending"
  "mDroppedStfs two_pending = mDroppedStfs started" "mBuiltTfs two_pending = mBuiltTfs started"
  "mLastStfId two_pending = 5" "mMaxCompletedTfId two_pending = 0" "mDropQueue two_pending = cq_init"
  by (simp_all add: two_pending_def sample_accept sample_started new_recorder_empty min_accept_def
      lMaxDelayTf_def sStfDiscardTimeout_def store_stf_info_def Let_def sm_at_def sm_get_def max_def)

lemma two_pending_acceptable:
  "acceptable vec_bits STF_SENDER_STATE_OK (sample_stf ''b'' 0 5) (enter_run vec_bits (sample_stf ''b'' 0 5) two_pending)"
  by (simp add: acceptable_def enter_run_def Let_def two_pending_state sample_started new_recorder_empty
      sm_has_def)

theorem completion_order_witness:
  "\<exists>st'. addStfInfo vec_bits 2 STF_SENDER_STATE_OK 7 (sample_stf ''b'' 0 5) two_pending = (SI_OK, st') \<and>
     map length (mContainer (mCompleteStfsInfoQueue st')) = [1, 2] \<and> mStfInfoMap st' = []"
proof -
  let ?i = "sample_stf ''b'' 0 5"
  have e: "mStfInfoMap (enter_run vec_bits ?i two_pending) = mStfInfoMap two_pending"
    by (simp add: enter_run_def Let_def two_pending_state)
  have wf: "sm_wf (mStfInfoMap two_pending)" and run: "cqRunning (mCompleteStfsInfoQueue two_pending)"
    and src: "stf_source ?i \<noteq> SRC_TOPOLOGICAL"
    and len: "length (sm_at [] (mStfInfoMap (enter_run vec_bits ?i two_pending)) (stf_id ?i)) + 1 = unat (2 :: u32)"
    by (simp_all add: two_pending_state sm_wf_def cq_init_def e sm_at_def sm_get_def)
  obtain st' where st': "addStfInfo vec_bits 2 STF_SENDER_STATE_OK 7 ?i two_pending = (SI_OK, st')"
    and q: "mContainer (mCompleteStfsInfoQueue st') = mContainer (mCompleteStfsInfoQueue two_pending)
      @ map snd (older 5 (mStfInfoMap two_pending)) @ [sm_at [] (mStfInfoMap two_pending) 5 @ [new_StfInfo 7 ?i]]"
    and m: "\<And>k. sm_get (mStfInfoMap st') k = (if 5 < k then sm_get (mStfInfoMap two_pending) k else None)"
    using completion_order [OF wf run src two_pending_acceptable len, of 7] unfolding e by auto
  have "sm_get (mStfInfoMap st') k = None" for k
    unfolding m by (auto simp: two_pending_state sm_get_def)
  then have "mStfInfoMap st' = []"
    by (metis list.exhaust sm_get_head option.distinct(1) surj_pair)
  then show ?thesis
    using st' q by (simp add: two_pending_state cq_init_def older_def sm_at_def sm_get_def)
qed

lemma two_pending_reach:
  "\<exists>ss. ss_stf ss = two_pending \<and> sched_reach vec_bits 2 no_bits (ss :: (nat \<times> (nat \<Rightarrow> bool)) sched_state)"
proof -
  let ?ss = "\<lambda>st. \<lparr>ss_stf = st, ss_tfb = undefined, ss_conn = undefined\<rparr> :: (nat \<times> (nat \<Rightarrow> bool)) sched_state"
  have 0: "sched_reach vec_bits 2 no_bits (?ss (stf_init vec_bits no_bits))"
    by (rule sched_reach.init) simp
  have 1: "sched_reach vec_bits 2 no_bits (?ss started)"
    using sched_reach.step [OF 0 sched_step.start] by (simp add: started_def)
  have add: "sched_reach vec_bits 2 no_bits (?ss (announce 2 s 0 k st))"
    if "sched_reach vec_bits 2 no_bits (?ss st)" and "small_id k" for s k st
    using sched_reach.step [OF that(1) sched_step.add, of "sample_stf s 0 k" STF_SENDER_STATE_OK 0] that(2)
    by simp
  show ?thesis
    using add [OF add [OF 1, of 3 "''a''"], of 5 "''a''"] unfolding two_pending_def
    by (intro exI [of _ "?ss (announce 2 ''a'' 0 5 (announce 2 ''a'' 0 3 started))"]) simp
qed

theorem timeframes_wellformed_witness:
  "list_all (\<lambda>(k, v). v \<noteq> [] \<and> length v < unat (2 :: u32)) (mStfInfoMap two_pending)"
proof -
  obtain ss where ss: "ss_stf ss = two_pending" "sched_reach vec_bits 2 no_bits ss"
    using two_pending_reach by blast
  have "(0 :: u32) < 2" by simp
  from timeframes_wellformed [OF vec.bitset_axioms no_bits_blank this ss(2)] show ?thesis
    unfolding ss(1) list_all_iff by blast
qed

end
