(* ===== verification/Sched_StfInfo_Fate.thy ===== *)
theory Sched_StfInfo_Fate
  imports Sched_StfInfo_Props Sched_ConnManager_Props
begin

text \<open>
  What becomes of an announced time frame: it stays pending, is released, or is dropped; once
  released or dropped it is refused, where the event recorder can represent its id; and the
  outcomes of the scheduling, stale and watermark passes.
\<close>

lemma enter_same_run:
  "\<not> mRunNumber st < run_number i \<Longrightarrow> enter_run B i st = st\<lparr>mStfSenderInfoMap :=
     sm_put (process_id (ssi_info i)) (stfs_info i) (mStfSenderInfoMap st)\<rparr>"
  by (simp add: enter_run_def)

lemma store_incomplete:
  "length (sm_at [] (mStfInfoMap e) (stf_id i)) + 1 \<noteq> unat n \<Longrightarrow>
   store_stf_info B n now i e = e\<lparr>mLastStfId := max (mLastStfId e) (stf_id i),
     mStfInfoMap := sm_put (stf_id i) (sm_at [] (mStfInfoMap e) (stf_id i) @ [new_StfInfo now i]) (mStfInfoMap e)\<rparr>"
  by (simp add: store_stf_info_def Let_def)

text \<open>
  C1. Within a run no announced time frame is lost: after any announcement, every time frame that
  was pending is still pending, possibly with more STFs, or has been released to the scheduling thread
  with all its STFs, or a request to drop it is in the drop queue. An STF answered with
  OK is itself in the pending map or in a released time frame.
\<close>

theorem announced_tf_fate:
  assumes "sm_wf (mStfInfoMap st)"
    and "cqRunning (mCompleteStfsInfoQueue st)" and "cqRunning (mDropQueue st)"
    and "stf_source i \<noteq> SRC_TOPOLOGICAL" and "\<not> mRunNumber st < run_number i"
    and "addStfInfo B n stfs_state now i st = (r, st')"
  shows "(\<forall>k v. sm_get (mStfInfoMap st) k = Some v \<longrightarrow>
      (\<exists>w. sm_get (mStfInfoMap st') k = Some (v @ w)) \<or>
      (\<exists>w xs. mContainer (mCompleteStfsInfoQueue st') = mContainer (mCompleteStfsInfoQueue st) @ xs \<and>
          v @ w \<in> set xs) \<or>
      mContainer (mDropQueue st') = mContainer (mDropQueue st) @ [(k, [])])
    \<and> (r = SI_OK \<longrightarrow> (\<exists>v. new_StfInfo now i \<in> set v \<and>
          (sm_get (mStfInfoMap st') (stf_id i) = Some v \<or>
           v \<in> set (mContainer (mCompleteStfsInfoQueue st')))))"
  using assms(4)
proof (cases rule: add_cases [of i B stfs_state st n now])
  case accept
  let ?e = "enter_run B i st"
  have e: "mStfInfoMap ?e = mStfInfoMap st" "mCompleteStfsInfoQueue ?e = mCompleteStfsInfoQueue st"
    using enter_same_run [OF assms(5), of B] by simp_all
  have st': "r = SI_OK" "st' = store_stf_info B n now i ?e" using accept assms(6) by simp_all
  show ?thesis
  proof (cases "length (sm_at [] (mStfInfoMap ?e) (stf_id i)) + 1 = unat n")
    case True
    have wf: "sm_wf (mStfInfoMap ?e)" and run: "cqRunning (mCompleteStfsInfoQueue ?e)"
      using assms(1,2) e by simp_all
    note s = store_completes [OF wf run True, of B now, folded st'(2), unfolded e]
    let ?xs = "map snd (older (stf_id i) (mStfInfoMap st)) @ [sm_at [] (mStfInfoMap st) (stf_id i) @ [new_StfInfo now i]]"
    have "(\<exists>w. sm_get (mStfInfoMap st') k = Some (v @ w)) \<or> (\<exists>w. v @ w \<in> set ?xs)"
      if kv: "sm_get (mStfInfoMap st) k = Some v" for k v
    proof (cases k "stf_id i" rule: linorder_cases)
      case less
      then have "v \<in> snd ` set (older (stf_id i) (mStfInfoMap st))"
        using kv sm_get_in [OF assms(1)] by (force simp: older_def)
      then show ?thesis by (intro disjI2 exI [of _ "[]"]) simp
    next
      case equal
      then show ?thesis
        using kv by (intro disjI2 exI [of _ "[new_StfInfo now i]"]) (simp add: sm_get_at)
    next
      case greater
      then show ?thesis using s(2) kv by (intro disjI1 exI [of _ "[]"]) simp
    qed
    then show ?thesis using s(1)
      by (intro conjI) (blast, intro impI exI [of _ "sm_at [] (mStfInfoMap st) (stf_id i) @ [new_StfInfo now i]"], simp)
  next
    case False
    then have "sm_get (mStfInfoMap st') k = (if k = stf_id i then
        Some (sm_at [] (mStfInfoMap st) (stf_id i) @ [new_StfInfo now i]) else sm_get (mStfInfoMap st) k)" for k
      using store_incomplete [OF False, of B now] e st' by simp
    then show ?thesis
      by (intro conjI impI exI [of _ "sm_at [] (mStfInfoMap st) (stf_id i) @ [new_StfInfo now i]"])
        (auto simp: sm_at_def)
  qed
next
  case (drop r')
  have st': "st' = requestDropAllLocked B (stf_id i) (enter_run B i st)" and r: "r \<noteq> SI_OK"
    using drop assms(6) by simp_all
  have m: "sm_get (mStfInfoMap st') k = (if k = stf_id i then None else sm_get (mStfInfoMap st) k)" for k
    by (simp add: st' enter_same_run [OF assms(5)])
  have "mContainer (mDropQueue st') = mContainer (mDropQueue st) @ [(stf_id i, [])]"
    using assms(3) by (simp add: st' enter_same_run [OF assms(5)] requestDropAllLocked_def cq_push_def)
  then show ?thesis using m r by auto
next
  case refuse
  then have "mStfInfoMap st' = mStfInfoMap st" and "r \<noteq> SI_OK"
    using assms(6) enter_same_run [OF assms(5), of B] by auto
  then show ?thesis by auto
qed

theorem announced_tf_fate_witness:
  "\<exists>r st'. addStfInfo vec_bits 2 STF_SENDER_STATE_OK 0 (sample_stf ''b'' 0 3) two_pending = (r, st') \<and>
     ((\<exists>w. sm_get (mStfInfoMap st') 5 = Some ([new_StfInfo 0 (sample_stf ''a'' 0 5)] @ w)) \<or>
      (\<exists>w xs. mContainer (mCompleteStfsInfoQueue st') = [] @ xs \<and>
          [new_StfInfo 0 (sample_stf ''a'' 0 5)] @ w \<in> set xs) \<or>
      mContainer (mDropQueue st') = [] @ [(5, [])])"
proof -
  let ?i = "sample_stf ''b'' 0 3"
  obtain r st' where run: "addStfInfo vec_bits 2 STF_SENDER_STATE_OK 0 ?i two_pending = (r, st')"
    by (cases "addStfInfo vec_bits 2 STF_SENDER_STATE_OK 0 ?i two_pending")
  have hyps: "sm_wf (mStfInfoMap two_pending)" "cqRunning (mCompleteStfsInfoQueue two_pending)"
    "cqRunning (mDropQueue two_pending)" "stf_source ?i \<noteq> SRC_TOPOLOGICAL"
    "\<not> mRunNumber two_pending < run_number ?i"
    by (simp_all add: two_pending_state sm_wf_def cq_init_def)
  have q: "mContainer (mCompleteStfsInfoQueue two_pending) = []" "mContainer (mDropQueue two_pending) = []"
    by (simp_all add: two_pending_state cq_init_def)
  have five: "sm_get (mStfInfoMap two_pending) 5 = Some [new_StfInfo 0 (sample_stf ''a'' 0 5)]"
    by (simp add: two_pending_state sm_get_def)
  show ?thesis
    using announced_tf_fate [OF hyps run, THEN conjunct1, rule_format, OF five] run
    unfolding q by blast
qed

section \<open>What is recorded stays refused\<close>

definition recorded :: "'b bitset_ops \<Rightarrow> 'b stf_state \<Rightarrow> u64 \<Rightarrow> bool" where
  "recorded B st k \<longleftrightarrow> GetEvent B (mDroppedStfs st) k \<or> GetEvent B (mBuiltTfs st) k"

definition recorders_ok :: "'b bitset_ops \<Rightarrow> 'b stf_state \<Rightarrow> bool" where
  "recorders_ok B st \<longleftrightarrow> er_ok B (mDroppedStfs st) \<and> er_ok B (mBuiltTfs st)"

lemma recorders_cong:
  "mDroppedStfs st' = mDroppedStfs st \<Longrightarrow> mBuiltTfs st' = mBuiltTfs st \<Longrightarrow>
     recorders_ok B st' = recorders_ok B st \<and> recorded B st' = recorded B st"
  by (simp add: recorders_ok_def recorded_def fun_eq_iff)

text \<open>An update that only adds small ids to the recorders.\<close>

definition grows :: "'b bitset_ops \<Rightarrow> 'b stf_state \<Rightarrow> 'b stf_state \<Rightarrow> bool" where
  "grows B st st' \<longleftrightarrow> mRunNumber st' = mRunNumber st \<and>
     (recorders_ok B st \<longrightarrow> recorders_ok B st' \<and> (\<forall>k. recorded B st k \<longrightarrow> recorded B st' k))"

context bitset
begin

lemma grows_refl: "grows B st st"
  by (simp add: grows_def)

lemma grows_trans: "grows B st st1 \<Longrightarrow> grows B st1 st2 \<Longrightarrow> grows B st st2"
  by (auto simp: grows_def)

lemma grows_run: "grows B st st' \<Longrightarrow> mRunNumber st' = mRunNumber st"
  by (simp add: grows_def)

lemma grows_or_later:
  assumes "grows B a b \<or> mRunNumber a < mRunNumber b" and "grows B b c \<or> mRunNumber b < mRunNumber c"
  shows "grows B a c \<or> mRunNumber a < mRunNumber c"
  using assms
proof (elim disjE)
  assume "mRunNumber a < mRunNumber b" "mRunNumber b < mRunNumber c"
  then show ?thesis using order.strict_trans by blast
qed (auto dest: grows_run grows_trans)

lemma grows_same:
  "mDroppedStfs st' = mDroppedStfs st \<Longrightarrow> mBuiltTfs st' = mBuiltTfs st \<Longrightarrow>
     mRunNumber st' = mRunNumber st \<Longrightarrow> grows B st st'"
  by (simp add: grows_def recorders_ok_def recorded_def)

lemma grows_complete: "small_id k \<Longrightarrow> grows B st (complete_tf B k st)"
  by (auto simp: grows_def recorders_ok_def recorded_def frame log.ok_add log.seen_keep)

lemma grows_drop: "small_id k \<Longrightarrow> grows B st (requestDropAllLocked B k st)"
  by (auto simp: grows_def recorders_ok_def recorded_def frame log.ok_add log.seen_keep)

lemma grows_completes: "\<forall>k \<in> set ks. small_id k \<Longrightarrow> grows B st (fold (complete_tf B) ks st)"
  by (induction ks arbitrary: st) (auto intro: grows_refl grows_trans [OF grows_complete])

lemma grows_drops: "\<forall>k \<in> set ks. small_id k \<Longrightarrow> grows B st (fold (requestDropAllLocked B) ks st)"
  by (induction ks arbitrary: st) (auto intro: grows_refl grows_trans [OF grows_drop])

lemma pending_small:
  assumes "stf_inv B n st" and "k \<in> fst ` set (mStfInfoMap st)"
  shows "small_id k"
proof -
  obtain v where "(k, v) \<in> set (mStfInfoMap st)" using assms(2) by auto
  then have "sm_get (mStfInfoMap st) k = Some v" using sm_get_in [OF stf_inv_wf [OF assms(1)]] by blast
  then show ?thesis using stf_inv_pending [OF assms(1)] by blast
qed

lemma grows_store:
  assumes inv: "stf_inv B n e" and sm: "small_id (stf_id i)"
  shows "grows B e (store_stf_info B n now i e)"
proof -
  let ?sid = "stf_id i"
  let ?v = "sm_at [] (mStfInfoMap e) ?sid @ [new_StfInfo now i]"
  let ?st1 = "e\<lparr>mLastStfId := max (mLastStfId e) ?sid, mStfInfoMap := sm_put ?sid ?v (mStfInfoMap e)\<rparr>"
  have 1: "grows B e ?st1" by (rule grows_same) simp_all
  have wf: "sm_wf (mStfInfoMap ?st1)" using stf_inv_wf [OF inv] by simp
  have "small_id k" if "k \<in> set (map fst (takeWhile (\<lambda>e. fst e < ?sid) (mStfInfoMap ?st1)))" for k
  proof -
    have "k \<in> insert ?sid (fst ` set (mStfInfoMap e))"
      using that set_sm_put_keys [of ?sid ?v "mStfInfoMap e"] by (auto dest!: set_takeWhileD)
    then show ?thesis using sm pending_small [OF inv] by blast
  qed
  then have "grows B ?st1 (flush_below B ?sid ?st1)"
    unfolding flush_is_fold [OF wf] by (intro grows_completes) blast
  then have "grows B e (complete_tf B ?sid (flush_below B ?sid ?st1))"
    using grows_trans [OF 1] grows_trans grows_complete [OF sm] by blast
  then show ?thesis using 1 by (simp add: store_stf_info_def Let_def)
qed

lemma grows_add:
  assumes inv: "stf_inv B n st" and sm: "small_id (stf_id i)"
  shows "grows B st (snd (addStfInfo B n stfs now i st)) \<or>
    mRunNumber st < mRunNumber (snd (addStfInfo B n stfs now i st))"
proof (cases "stf_source i = SRC_TOPOLOGICAL")
  case True
  then show ?thesis
    by (simp add: addStfInfo_def addTopologyStfInfo_def Let_def grows_same)
next
  case False
  let ?e = "enter_run B i st"
  have "grows B ?e (snd (addStfInfo B n stfs now i st))"
    using False
  proof (cases rule: add_cases [of i B stfs st n now])
    case accept
    then show ?thesis using grows_store [OF enter_run_inv [OF inv] sm] by simp
  next
    case drop
    then show ?thesis using grows_drop [OF sm] by simp
  next
    case refuse
    then show ?thesis using grows_refl by simp
  qed
  moreover have "grows B st ?e \<or> mRunNumber st < mRunNumber ?e"
    by (auto simp: enter_run_def Let_def intro: grows_same)
  ultimately show ?thesis using grows_or_later [of st ?e] by blast
qed

lemma grows_step:
  assumes "sched_step B n ss ss'" and inv: "stf_inv B n (ss_stf ss)"
  shows "grows B (ss_stf ss) (ss_stf ss') \<or> mRunNumber (ss_stf ss) < mRunNumber (ss_stf ss')"
  using assms(1)
proof (cases rule: sched_step.cases)
  case add
  then show ?thesis using grows_add [OF inv] by simp
next
  case (stale t now)
  let ?ids = "stale_scan now (std_clamp t 250 60000) (mStfInfoMap (ss_stf ss))"
  have "set ?ids \<subseteq> fst ` set (mStfInfoMap (ss_stf ss))"
    by (auto simp: stale_scan_takeWhile dest: set_takeWhileD)
  then have "grows B (ss_stf ss) (fold (complete_tf B) ?ids (ss_stf ss))"
    using pending_small [OF inv] by (intro grows_completes) blast
  then have "grows B (ss_stf ss) (ss_stf ss')"
    by (rule grows_trans) (simp add: stale StaleCleanupThread_pass_def Let_def grows_same)
  then show ?thesis ..
next
  case (watermark now)
  let ?st1 = "(ss_stf ss)\<lparr>mStfSenderInfoMap := []\<rparr>"
  have 1: "grows B (ss_stf ss) ?st1" by (rule grows_same) simp_all
  have "grows B ?st1 (fold (requestDropAllLocked B)
      (watermark_collect now mx who sz (mStfInfoMap (ss_stf ss))) ?st1)" for mx who sz
    by (intro grows_drops ballI pending_small [OF inv] subsetD [OF watermark_collect_keys])
  then have 2: "grows B (ss_stf ss) (fold (requestDropAllLocked B)
      (watermark_collect now mx who sz (mStfInfoMap (ss_stf ss))) ?st1)" for mx who sz
    by (rule grows_trans [OF 1])
  obtain mx who where f: "fullest_sender (Fin 0) [] (mStfSenderInfoMap (ss_stf ss)) = (mx, who)"
    by (cases "fullest_sender (Fin 0) [] (mStfSenderInfoMap (ss_stf ss))")
  have "grows B (ss_stf ss) (ss_stf ss')"
    using 1 2 by (simp add: watermark HighWatermarkThread_pass_def Let_def f)
  then show ?thesis ..
next
  case (schedule inc build)
  obtain r q where pop: "cq_pop (mCompleteStfsInfoQueue (ss_stf ss)) = (r, q)"
    by (cases "cq_pop (mCompleteStfsInfoQueue (ss_stf ss))")
  let ?st1 = "(ss_stf ss)\<lparr>mCompleteStfsInfoQueue := q\<rparr>"
  have 1: "grows B (ss_stf ss) ?st1" by (rule grows_same) simp_all
  have "grows B (ss_stf ss) (ss_stf ss')"
  proof (cases r)
    case (Popped v)
    have "released_ok n v"
      using fifo.pop_rest [OF pop [unfolded Popped]] inv unfolding stf_inv_ex_def by simp
    then have "small_id (si_stf_id (v ! 0))"
      unfolding released_ok_def one_id_def by (metis length_greater_0_conv nth_mem)
    then have "grows B (ss_stf ss) (requestDropAllLocked B (si_stf_id (v ! 0)) ?st1)"
      using grows_trans [OF 1 grows_drop] by blast
    then show ?thesis
      using 1 schedule_tf_stf [of B n inc build v "ss\<lparr>ss_stf := ?st1\<rparr>"] pop Popped
      by (auto simp: schedule SchedulingThread_step_def)
  qed (use pop in \<open>simp_all add: schedule SchedulingThread_step_def grows_refl\<close>)
  then show ?thesis ..
next
  case (topo build)
  obtain r q where pop: "cq_pop (mTopoStfInfoQueue (ss_stf ss)) = (r, q)"
    by (cases "cq_pop (mTopoStfInfoQueue (ss_stf ss))")
  have "grows B (ss_stf ss) (ss_stf ss')"
  proof (cases r)
    case (Popped t)
    show ?thesis
      using schedule_topo_stf [of build t "ss\<lparr>ss_stf := (ss_stf ss)\<lparr>mTopoStfInfoQueue := q\<rparr>\<rparr>"] pop Popped
      by (intro grows_same) (auto simp: topo TopoSchedulingThread_step_def requestDropTopoStf_def)
  qed (use pop in \<open>simp_all add: topo TopoSchedulingThread_step_def grows_refl\<close>)
  then show ?thesis ..
next
  case (drop launched)
  have "grows B (ss_stf ss) (ss_stf ss')"
    by (rule grows_same)
      (auto simp: drop DropThread_step_def Let_def split: prod.splits pop_result.splits)
  then show ?thesis ..
next
  case start
  then show ?thesis by (simp add: stf_start_def grows_same)
next
  case stop
  then show ?thesis by (simp add: stf_stop_def grows_same)
next
  case other
  then show ?thesis by (simp add: grows_refl)
qed

lemma grows_steps:
  assumes "(sched_step B n)\<^sup>*\<^sup>* ss ss'" and "stf_inv B n (ss_stf ss)" and "0 < n"
  shows "stf_inv B n (ss_stf ss') \<and>
    (grows B (ss_stf ss) (ss_stf ss') \<or> mRunNumber (ss_stf ss) < mRunNumber (ss_stf ss'))"
  using assms(1)
proof induction
  case base
  then show ?case using assms(2) grows_refl by blast
next
  case (step s1 s2)
  have "stf_inv B n (ss_stf s2)" using sched_step_inv [OF step.hyps(2) _ assms(3)] step.IH by blast
  moreover have "grows B (ss_stf s1) (ss_stf s2) \<or> mRunNumber (ss_stf s1) < mRunNumber (ss_stf s2)"
    using grows_step [OF step.hyps(2)] step.IH by blast
  ultimately show ?case
    using step.IH grows_or_later by blast
qed

end

text \<open>
  A time frame that is recorded as dropped or as built stays refused for the rest of
  its run: after any sequence of steps of the scheduler that does not enter a new run, an announcement of
  that id is not accepted, whatever StfSender it comes from.
\<close>

theorem handled_stays_refused:
  assumes "bitset B" and "\<And>i. i < bs_size B b0 \<Longrightarrow> \<not> bs_test B b0 i"
    and "0 < n" and "sched_reach B n b0 ss"
    and "recorded B (ss_stf ss) (stf_id i)"
    and "(sched_step B n)\<^sup>*\<^sup>* ss ss'"
    and "mRunNumber (ss_stf ss') = mRunNumber (ss_stf ss)" and "run_number i \<le> mRunNumber (ss_stf ss)"
    and "stf_source i \<noteq> SRC_TOPOLOGICAL"
  shows "fst (addStfInfo B n stfs_state now i (ss_stf ss')) \<noteq> SI_OK"
proof -
  have inv: "stf_inv B n (ss_stf ss)"
    using bitset.sched_reach_inv [OF assms(1) assms(4) assms(3) assms(2)] .
  then have ok: "recorders_ok B (ss_stf ss)"
    unfolding stf_inv_ex_def recorders_ok_def by blast
  have "grows B (ss_stf ss) (ss_stf ss')"
    using bitset.grows_steps [OF assms(1) assms(6) inv assms(3)] assms(7) by auto
  then have "recorded B (ss_stf ss') (stf_id i)"
    using ok assms(5) by (simp add: grows_def)
  moreover have "enter_run B i (ss_stf ss') = (ss_stf ss')\<lparr>mStfSenderInfoMap :=
     sm_put (process_id (ssi_info i)) (stfs_info i) (mStfSenderInfoMap (ss_stf ss'))\<rparr>"
    using assms(7,8) by (intro enter_same_run) (simp add: not_less)
  ultimately have "\<not> acceptable B stfs_state i (enter_run B i (ss_stf ss'))"
    by (auto simp: acceptable_def recorded_def)
  with assms(9) show ?thesis
    by (metis add_cases fst_conv)
qed

definition with_stf :: "'b stf_state \<Rightarrow> 'b sched_state" where
  "with_stf st = \<lparr>ss_stf = st, ss_tfb = undefined, ss_conn = undefined\<rparr>"

lemma ss_stf_with [simp]: "ss_stf (with_stf st) = st"
  by (simp add: with_stf_def)

lemma with_stf_upd [simp]: "(with_stf st)\<lparr>ss_stf := st'\<rparr> = with_stf st'"
  by (simp add: with_stf_def)

lemma reach_started: "sched_reach vec_bits 2 no_bits (with_stf started)"
proof -
  have "sched_reach vec_bits 2 no_bits (with_stf (stf_init vec_bits no_bits))"
    by (rule sched_reach.init) simp
  from sched_reach.step [OF this sched_step.start] show ?thesis
    by (simp add: started_def)
qed

lemma reach_add:
  assumes "sched_reach vec_bits 2 no_bits (with_stf st)" and "small_id k"
  shows "sched_reach vec_bits 2 no_bits
    (with_stf (snd (addStfInfo vec_bits 2 stfs now (sample_stf s run k) st)))"
  using sched_reach.step [OF assms(1) sched_step.add [of "sample_stf s run k" vec_bits 2 _ stfs now]] assms(2)
  by simp

lemma reach_stale:
  assumes "sched_reach vec_bits 2 no_bits (with_stf st)"
  shows "sched_reach vec_bits 2 no_bits (with_stf (StaleCleanupThread_pass vec_bits t now st))"
  using sched_reach.step [OF assms sched_step.stale [of vec_bits 2 _ t now]] by simp

lemma new_recorder_first: "mFirstEvent (er_new B b k) = - 1"
  by (simp add: er_new_def)

lemma blank_recorder_ok: "er_ok vec_bits (er_new vec_bits no_bits k)"
  by (rule vec.er_ok_new) (rule no_bits_blank)

theorem handled_stays_refused_witness:
  "fst (addStfInfo vec_bits 2 STF_SENDER_STATE_OK 9 (sample_stf ''b'' 0 3)
     (snd (addStfInfo vec_bits 2 STF_SENDER_STATE_INCOMPLETE 0 (sample_stf ''a'' 0 3) started))) \<noteq> SI_OK"
proof -
  let ?st = "snd (addStfInfo vec_bits 2 STF_SENDER_STATE_INCOMPLETE 0 (sample_stf ''a'' 0 3) started)"
  have st: "mDroppedStfs ?st = record_event vec_bits 3 (er_new vec_bits no_bits 7603200)" "mRunNumber ?st = 0"
    by (simp_all add: addStfInfo_def Let_def sample_started new_recorder_empty frame)
  have reach: "sched_reach vec_bits 2 no_bits (with_stf ?st)"
    by (intro reach_add reach_started small_numeral)
  have "GetEvent vec_bits (record_event vec_bits 3 (er_new vec_bits no_bits 7603200)) 3"
    by (simp add: vec.GetEvent_record [OF blank_recorder_ok] new_recorder_first)
  then have rec: "recorded vec_bits (ss_stf (with_stf ?st)) (stf_id (sample_stf ''b'' 0 3))"
    by (simp add: recorded_def st)
  have two: "(0 :: u32) < 2" by simp
  have "mRunNumber (ss_stf (with_stf ?st)) = mRunNumber (ss_stf (with_stf ?st))"
    "run_number (sample_stf ''b'' 0 3) \<le> mRunNumber (ss_stf (with_stf ?st))"
    "stf_source (sample_stf ''b'' 0 3) \<noteq> SRC_TOPOLOGICAL"
    by (simp_all add: st)
  from handled_stays_refused [OF vec.bitset_axioms no_bits_blank two reach rec rtranclp.rtrancl_refl this]
  show ?thesis by simp
qed

section \<open>Time frames the recorders cannot represent\<close>

definition late1 :: "(nat \<times> (nat \<Rightarrow> bool)) stf_state" where
  "late1 = announce 2 ''b'' 0 5 (announce 2 ''a'' 0 5 started)"

definition late2 :: "(nat \<times> (nat \<Rightarrow> bool)) stf_state" where
  "late2 = announce 2 ''a'' 0 3 late1"

definition late3 :: "(nat \<times> (nat \<Rightarrow> bool)) stf_state" where
  "late3 = announce 2 ''b'' 0 3 (StaleCleanupThread_pass vec_bits 1000 2000000000 late2)"

abbreviation built5 :: "(nat \<times> (nat \<Rightarrow> bool)) event_recorder" where
  "built5 \<equiv> record_event vec_bits 5 (er_new vec_bits no_bits 7603200)"

lemma built5_first: "mFirstEvent built5 = 5"
  by (simp add: SetEvent_def er_new_def Let_def)

lemma built5_3: "\<not> GetEvent vec_bits built5 3" "record_event vec_bits 3 built5 = built5"
  by (simp_all add: GetEvent_def built5_first vec.SetEvent_below_first)

lemmas sample_eval = sample_accept sample_started new_recorder_empty min_accept_def
  lMaxDelayTf_def sStfDiscardTimeout_def store_stf_info_def Let_def sm_at_def sm_get_def max_def

lemma late1_state:
  "mStfInfoMap late1 = []" "mRunNumber late1 = 0" "stfRunning late1" "mLastStfId late1 = 5"
  "mMaxCompletedTfId late1 = 5" "mDroppedStfs late1 = mDroppedStfs started" "mBuiltTfs late1 = built5"
  "mCompleteStfsInfoQueue late1 = push_all [[new_StfInfo 0 (sample_stf ''a'' 0 5),
     new_StfInfo 0 (sample_stf ''b'' 0 5)]] cq_init"
  by (simp_all add: late1_def sample_eval flush_below.simps complete_tf_def sm_del_def push_is_push_all)

lemma late2_state:
  "mStfInfoMap late2 = [(3, [new_StfInfo 0 (sample_stf ''a'' 0 3)])]" "mRunNumber late2 = 0" "stfRunning late2"
  "mLastStfId late2 = 5" "mMaxCompletedTfId late2 = 5" "mDroppedStfs late2 = mDroppedStfs started"
  "mBuiltTfs late2 = built5" "mCompleteStfsInfoQueue late2 = mCompleteStfsInfoQueue late1"
  by (simp_all add: late2_def sample_eval late1_state built5_3)

lemma late3_state:
  "mStfInfoMap late3 = [(3, [new_StfInfo 0 (sample_stf ''b'' 0 3)])]" "mRunNumber late3 = 0" "stfRunning late3"
  "mCompleteStfsInfoQueue late3 =
     push_all [[new_StfInfo 0 (sample_stf ''a'' 0 3)]] (mCompleteStfsInfoQueue late1)"
  by (simp_all add: late3_def sample_eval late2_state built5_3 StaleCleanupThread_pass_def std_clamp_def
      new_StfInfo_def complete_tf_def sm_del_def push_is_push_all)

text \<open>
  A limit of the recorders, which start at the first id ever recorded and cannot hold a smaller
  one: in a reachable state a time frame with an id below the largest completed one is pending, so
  that the assertion of \<open>StaleCleanupThread\<close> (the id to release exceeds \<open>mMaxCompletedTfId\<close>)
  does not hold; and time frame 3 is released twice, each time with the STF of one of the
  two StfSenders.
\<close>

theorem early_id_released_twice:
  "(\<exists>ss. sched_reach vec_bits 2 no_bits ss \<and>
      (\<exists>k \<in> set (stale_scan 2000000000 1000 (mStfInfoMap (ss_stf ss))). \<not> mMaxCompletedTfId (ss_stf ss) < k)) \<and>
   (\<exists>ss. sched_reach vec_bits 2 no_bits ss \<and>
      map (map (\<lambda>i. (si_process_id i, si_stf_id i))) (mContainer (mCompleteStfsInfoQueue (ss_stf ss))) =
        [[(''a'', 5), (''b'', 5)], [(''a'', 3)], [(''b'', 3)]])"
proof -
  have r2: "sched_reach vec_bits 2 no_bits (with_stf late2)"
    unfolding late2_def late1_def by (intro reach_add reach_started small_numeral)
  have r3: "sched_reach vec_bits 2 no_bits (with_stf (StaleCleanupThread_pass vec_bits 1000 2000000000 late3))"
    unfolding late3_def by (intro reach_stale reach_add r2 small_numeral)
  have "\<exists>k \<in> set (stale_scan 2000000000 1000 (mStfInfoMap late2)). \<not> mMaxCompletedTfId late2 < k"
    by (simp add: late2_state new_StfInfo_def)
  moreover have "map (map (\<lambda>i. (si_process_id i, si_stf_id i))) (mContainer (mCompleteStfsInfoQueue
      (StaleCleanupThread_pass vec_bits 1000 2000000000 late3))) =
        [[(''a'', 5), (''b'', 5)], [(''a'', 3)], [(''b'', 3)]]"
    by (simp add: StaleCleanupThread_pass_def late3_state late1_state Let_def std_clamp_def new_StfInfo_def
        complete_tf_def push_is_push_all content_push_all cq_init_def sm_at_def sm_get_def)
  ultimately show ?thesis
    using r2 r3 by (intro conjI) (rule exI [of _ "with_stf late2"], simp,
      rule exI [of _ "with_stf (StaleCleanupThread_pass vec_bits 1000 2000000000 late3)"], simp)
qed

section \<open>The outcome of one scheduling step\<close>



lemma drop_scheduled_frame [frame]:
  "ss_tfb (drop_scheduled B tf ss) = ss_tfb ss" "ss_conn (drop_scheduled B tf ss) = ss_conn ss"
  by (simp_all add: drop_scheduled_def)

lemma tf_id_request [simp]: "tf_id (tf_request v) = si_stf_id (v ! 0)"
  by (simp add: tf_request_def)









text \<open>
  The building request describes the time frame: its id is that of the STFs, its size the sum
  of the STF sizes in 64 bits, and, where no StfSender occurs twice, its size map holds
  exactly the StfSenders of the STFs with their sizes.
\<close>

theorem request_describes_tf:
  assumes "v \<noteq> []" and "\<forall>i \<in> set v. si_stf_id i = k"
    and "distinct (map (\<lambda>i. process_id (ssi_info (mStfInfo i))) v)"
  shows "tf_id (tf_request v) = k
    \<and> tf_size (tf_request v) = sum_list (map (\<lambda>i. stf_size (mStfInfo i)) v)
    \<and> (\<forall>s z. sm_get (stf_size_map (tf_request v)) s = Some z \<longleftrightarrow>
          (\<exists>i \<in> set v. s = process_id (ssi_info (mStfInfo i)) \<and> z = stf_size (mStfInfo i)))"
proof -
  have size: "foldl (\<lambda>s i. s + si_stf_size i) z w = z + sum_list (map (\<lambda>i. si_stf_size i) w)"
    for z :: u64 and w by (induction w arbitrary: z) (simp_all add: add.assoc)
  have map': "sm_get (foldl (\<lambda>m i. sm_put (si_process_id i) (si_stf_size i) m) m w) s = Some z \<longleftrightarrow>
      (\<exists>i \<in> set w. s = si_process_id i \<and> z = si_stf_size i) \<or>
      (s \<notin> set (map (\<lambda>i. si_process_id i) w) \<and> sm_get m s = Some z)"
    if "distinct (map (\<lambda>i. si_process_id i) w)" for w m s z
    using that
  proof (induction w arbitrary: m)
    case Nil
    then show ?case by simp
  next
    case (Cons a w)
    then show ?case by (simp add: Cons.IH) (auto simp: image_iff)
  qed
  have "si_stf_id (v ! 0) = k" using assms(1,2) by simp
  then show ?thesis
    using map' [OF assms(3), of "[]"] by (simp add: tf_request_def size)
qed

theorem request_describes_tf_witness:
  "sm_get (stf_size_map (tf_request [new_StfInfo 0 (sample_stf ''a'' 0 3), new_StfInfo 0 (sample_stf ''b'' 0 3)])) ''b''
     = Some 100"
proof -
  let ?v = "[new_StfInfo 0 (sample_stf ''a'' 0 3), new_StfInfo 0 (sample_stf ''b'' 0 3)]"
  have "?v \<noteq> []" "\<forall>i \<in> set ?v. si_stf_id i = 3"
    "distinct (map (\<lambda>i. process_id (ssi_info (mStfInfo i))) ?v)"
    by (simp_all add: new_StfInfo_def)
  from request_describes_tf [OF this] show ?thesis
    by (simp add: new_StfInfo_def)
qed

section \<open>The watermark pass\<close>

lemma util_gt_trans: "util_gt b' b \<Longrightarrow> \<not> util_gt z b \<Longrightarrow> \<not> util_gt z b'"
  by (cases z; cases b; cases b') auto

lemma fullest_keeps: "\<not> util_gt z mx \<Longrightarrow> \<not> util_gt z (fst (fullest_sender mx who m))"
proof (induction mx who m rule: fullest_sender.induct)
  case 1
  then show ?case by simp
next
  case (2 mx who i s m)
  then show ?case using util_gt_trans [of "buf_util s" mx z] by (cases "util_gt (buf_util s) mx") simp_all
qed

lemma fullest_max: "(i, s) \<in> set m \<Longrightarrow> \<not> util_gt (buf_util s) (fst (fullest_sender mx who m))"
proof (induction mx who m rule: fullest_sender.induct)
  case 1
  then show ?case by simp
next
  case (2 mx who j t m)
  show ?case
  proof (cases "(i, s) \<in> set m")
    case True
    then show ?thesis using "2.IH" by simp
  next
    case False
    then have "s = t" using "2.prems" by simp
    moreover have "\<not> util_gt (buf_util t) (buf_util t)" by (cases "buf_util t") auto
    ultimately show ?thesis by (simp add: fullest_keeps)
  qed
qed

lemma fullest_member:
  "fullest_sender mx who m = (mx', who') \<Longrightarrow>
     (mx', who') = (mx, who) \<or> (\<exists>s. (who', s) \<in> set m \<and> mx' = buf_util s)"
  by (induction mx who m rule: fullest_sender.induct) (auto split: if_splits)

text \<open>What a time frame would free on one StfSender.\<close>

definition freed :: "string \<Rightarrow> StfInfo list \<Rightarrow> u64" where
  "freed who v = (case find (\<lambda>i. si_process_id i = who) v of None \<Rightarrow> 0 | Some i \<Rightarrow> si_stf_size i)"

lemma watermark_collect_each:
  assumes "k \<in> set (watermark_collect now mx who sz m)"
  shows "\<exists>v. (k, v) \<in> set m \<and> k \<le> mx \<and> (\<exists>i \<in> set v. si_process_id i = who) \<and>
    1000000000 \<le> now - siUpdateLocalTime (v ! 0)"
  using assms
proof (induction now mx who sz m rule: watermark_collect.induct)
  case 1
  then show ?case by simp
next
  case (2 now mx who sz sid v m)
  show ?case
  proof (cases "find (\<lambda>i. si_process_id i = who) v")
    case None
    then show ?thesis using 2 by (auto split: if_splits)
  next
    case (Some i)
    then have i: "i \<in> set v" "si_process_id i = who" "v \<noteq> []"
      by (auto simp: find_Some_iff)
    show ?thesis using 2 Some i by (auto split: if_splits)
  qed
qed

lemma watermark_collect_ascending:
  "sm_wf m \<Longrightarrow> sorted_wrt (<) (watermark_collect now mx who sz m)"
proof (induction now mx who sz m rule: watermark_collect.induct)
  case 1
  then show ?case by simp
next
  case (2 now mx who sz sid v m)
  have "sid < k" if "k \<in> set (watermark_collect now mx who z m)" for z k
    using subsetD [OF watermark_collect_keys that] "2.prems" by (auto simp: sm_wf_Cons)
  then show ?case using 2 by (auto simp: sm_wf_Cons split: option.splits)
qed

text \<open>Every id but the first is only taken while the ones before free at most \<open>2^30\<close> bytes.\<close>

lemma watermark_collect_budget:
  assumes "sm_wf m" and "watermark_collect now mx who sz m = ks @ [k]"
  shows "sz + sum_list (map (\<lambda>k. freed who (sm_at [] m k)) ks) \<le> 2 ^ 30"
  using assms
proof (induction now mx who sz m arbitrary: ks rule: watermark_collect.induct)
  case 1
  then show ?case by simp
next
  case (2 now mx who sz sid v m)
  have wf: "sm_wf m" and above: "\<forall>x \<in> set m. sid < fst x"
    using "2.prems"(1) by (auto simp: sm_wf_Cons)
  have go: "\<not> 2 ^ 30 < sz" "\<not> mx < sid" "\<not> (v \<noteq> [] \<and> now - siUpdateLocalTime (v ! 0) < 1000000000)"
    using "2.prems"(2) by (auto split: if_splits)
  have at: "sm_at [] ((sid, v) # m) k = (if k = sid then v else sm_at [] m k)" for k
    by (simp add: sm_at_def sm_get_def)
  show ?case
  proof (cases "find (\<lambda>i. si_process_id i = who) v")
    case None
    have rec: "watermark_collect now mx who sz m = ks @ [k]"
      using "2.prems"(2) go None by (simp only: watermark_collect.simps if_False option.case)
    then have "\<forall>k \<in> set ks. k \<noteq> sid"
      using watermark_collect_keys [of now mx who sz m] above by auto
    then show ?thesis
      using "2.IH"(1) [OF go None wf rec] by (simp add: at cong: map_cong)
  next
    case (Some i)
    have rec: "sid # watermark_collect now mx who (sz + si_stf_size i) m = ks @ [k]"
      using "2.prems"(2) go Some by (simp only: watermark_collect.simps if_False option.case)
    show ?thesis
    proof (cases ks)
      case Nil
      then show ?thesis using go by (simp add: not_less)
    next
      case (Cons a ks')
      then have a: "a = sid" and rec': "watermark_collect now mx who (sz + si_stf_size i) m = ks' @ [k]"
        using rec by simp_all
      then have "\<forall>k \<in> set ks'. k \<noteq> sid"
        using watermark_collect_keys [of now mx who "sz + si_stf_size i" m] above by auto
      then show ?thesis
        using "2.IH"(2) [OF go Some wf rec'] Some
        by (simp add: Cons a at freed_def add.assoc cong: map_cong)
    qed
  qed
qed

lemma drops_result:
  assumes "cqRunning (mDropQueue st)"
  shows "mContainer (mDropQueue (fold (requestDropAllLocked B) ks st)) =
      mContainer (mDropQueue st) @ map (\<lambda>k. (k, [])) ks \<and>
    mStfInfoMap (fold (requestDropAllLocked B) ks st) =
      filter (\<lambda>e. fst e \<notin> set ks) (mStfInfoMap st)"
  using assms
proof (induction ks arbitrary: st)
  case Nil
  then show ?case by simp
next
  case (Cons k ks)
  have "cqRunning (mDropQueue (requestDropAllLocked B k st))"
    using Cons.prems by (simp add: requestDropAllLocked_def cq_push_def)
  from Cons.IH [OF this] show ?case
    using Cons.prems by (auto simp: requestDropAllLocked_def cq_push_def sm_del_def intro!: filter_cong)
qed

text \<open>
  The watermark pass drops nothing unless the fullest StfSender uses more than 90 per cent of
  its buffer. Then it drops, oldest first, only pending time frames that have an STF of that StfSender, were
  first announced at least a second ago and are not above the largest completed id; without the last one
  they free at most \<open>2^30\<close> bytes there. It removes exactly these from the map, requests
  the drop of each once, and forgets the reported buffer states.
\<close>

theorem watermark_pass:
  assumes "sm_wf (mStfInfoMap st)" and "cqRunning (mDropQueue st)"
  shows "\<exists>ks.
      mStfSenderInfoMap (HighWatermarkThread_pass B now st) = []
    \<and> mContainer (mDropQueue (HighWatermarkThread_pass B now st)) =
        mContainer (mDropQueue st) @ map (\<lambda>k. (k, [])) ks
    \<and> mStfInfoMap (HighWatermarkThread_pass B now st) = filter (\<lambda>e. fst e \<notin> set ks) (mStfInfoMap st)
    \<and> sorted_wrt (<) ks
    \<and> (ks = [] \<or> (\<exists>who s. (who, s) \<in> set (mStfSenderInfoMap st) \<and> util_gt (buf_util s) (Fin (9 / 10)) \<and>
        (\<forall>(i, s') \<in> set (mStfSenderInfoMap st). \<not> util_gt (buf_util s') (buf_util s)) \<and>
        sum_list (map (\<lambda>k. freed who (sm_at [] (mStfInfoMap st) k)) (butlast ks)) \<le> 2 ^ 30 \<and>
        (\<forall>k \<in> set ks. \<exists>v. sm_get (mStfInfoMap st) k = Some v \<and> k \<le> mMaxCompletedTfId st \<and>
           (\<exists>i \<in> set v. process_id (ssi_info (mStfInfo i)) = who) \<and>
           1000000000 \<le> now - siUpdateLocalTime (v ! 0))))"
proof -
  let ?st1 = "st\<lparr>mStfSenderInfoMap := []\<rparr>"
  obtain mx who where f: "fullest_sender (Fin 0) [] (mStfSenderInfoMap st) = (mx, who)"
    by (cases "fullest_sender (Fin 0) [] (mStfSenderInfoMap st)")
  show ?thesis
  proof (cases "who = [] \<or> \<not> util_gt mx (Fin (90 / 100))")
    case True
    then have "HighWatermarkThread_pass B now st = ?st1"
      by (simp add: HighWatermarkThread_pass_def Let_def f)
    then show ?thesis by (intro exI [of _ "[]"]) simp
  next
    case False
    define ks where "ks = watermark_collect now (mMaxCompletedTfId st) who 0 (mStfInfoMap st)"
    have pass: "HighWatermarkThread_pass B now st = fold (requestDropAllLocked B) ks ?st1"
      using False by (simp add: HighWatermarkThread_pass_def Let_def f ks_def)
    have info: "mStfSenderInfoMap (fold (requestDropAllLocked B) ks st2) = mStfSenderInfoMap st2"
      for ks and st2 :: "'a stf_state"
      by (induction ks arbitrary: st2) (simp_all add: requestDropAllLocked_def)
    obtain s where s: "(who, s) \<in> set (mStfSenderInfoMap st)" "mx = buf_util s"
      using fullest_member [OF f] False by auto
    have mxs: "\<forall>(i, s') \<in> set (mStfSenderInfoMap st). \<not> util_gt (buf_util s') (buf_util s)"
      using fullest_max [of _ _ "mStfSenderInfoMap st" "Fin 0" "[]"] f s(2) by auto
    have budget: "sum_list (map (\<lambda>k. freed who (sm_at [] (mStfInfoMap st) k)) (butlast ks)) \<le> 2 ^ 30"
    proof (cases ks rule: rev_cases)
      case (snoc ks' k)
      then show ?thesis
        using watermark_collect_budget [OF assms(1), of now "mMaxCompletedTfId st" who 0 ks' k]
        by (simp add: ks_def)
    qed simp
    have each: "\<exists>v. sm_get (mStfInfoMap st) k = Some v \<and> k \<le> mMaxCompletedTfId st \<and>
        (\<exists>i \<in> set v. process_id (ssi_info (mStfInfo i)) = who) \<and>
        1000000000 \<le> now - siUpdateLocalTime (v ! 0)" if "k \<in> set ks" for k
      using watermark_collect_each [OF that [unfolded ks_def]] sm_get_in [OF assms(1)] by blast
    have asc: "sorted_wrt (<) ks"
      unfolding ks_def by (rule watermark_collect_ascending [OF assms(1)])
    have gt: "util_gt (buf_util s) (Fin (9 / 10))"
      using False s(2) by simp
    show ?thesis
    proof (intro exI [of _ ks] conjI)
      show "ks = [] \<or> (\<exists>who s. (who, s) \<in> set (mStfSenderInfoMap st) \<and> util_gt (buf_util s) (Fin (9 / 10)) \<and>
        (\<forall>(i, s') \<in> set (mStfSenderInfoMap st). \<not> util_gt (buf_util s') (buf_util s)) \<and>
        sum_list (map (\<lambda>k. freed who (sm_at [] (mStfInfoMap st) k)) (butlast ks)) \<le> 2 ^ 30 \<and>
        (\<forall>k \<in> set ks. \<exists>v. sm_get (mStfInfoMap st) k = Some v \<and> k \<le> mMaxCompletedTfId st \<and>
           (\<exists>i \<in> set v. process_id (ssi_info (mStfInfo i)) = who) \<and>
           1000000000 \<le> now - siUpdateLocalTime (v ! 0)))"
        using s(1) gt mxs budget each by blast
    qed (use drops_result [of ?st1 B ks] assms(2) asc info [of ks ?st1] in \<open>simp_all add: pass\<close>)
  qed
qed

theorem watermark_pass_witness:
  "\<exists>ks. mContainer (mDropQueue (HighWatermarkThread_pass vec_bits 2000000000 (late2\<lparr>mStfSenderInfoMap :=
      [(''a'', \<lparr>buffer_size = 1000, buffer_used = 950, num_buffered_stfs = 1\<rparr>)]\<rparr>))) = map (\<lambda>k. (k, [])) ks \<and>
    sorted_wrt (<) ks"
proof -
  let ?st = "late2\<lparr>mStfSenderInfoMap :=
    [(''a'', \<lparr>buffer_size = 1000, buffer_used = 950, num_buffered_stfs = 1\<rparr>)]\<rparr>"
  have dq: "mDropQueue late2 = cq_init"
    by (simp add: late2_def late1_def sample_eval flush_below.simps complete_tf_def sm_del_def built5_3)
  have "sm_wf (mStfInfoMap ?st)" "cqRunning (mDropQueue ?st)"
    by (simp_all add: late2_state sm_wf_def dq cq_init_def)
  note watermark_pass [OF this, of vec_bits 2000000000]
  moreover have "mContainer (mDropQueue ?st) = []" by (simp add: dq cq_init_def)
  ultimately show ?thesis by (metis append_Nil)
qed

end
