(* ===== verification/Sched_Instance.thy ===== *)
theory Sched_Instance
  imports Sched_StfInfo
begin

text \<open>
  \<open>TfScheduler/TfSchedulerInstanceRpc.{h,cxx}\<close>, \<open>TfSchedulerInstance.{h,cxx}\<close> and the
  \<open>ConditionalRun\<close> loop of \<open>TfSchedulerDevice.cxx\<close>: the state machine of a partition, the
  gRPC methods of the scheduler, and its start and stop.

  \<open>mPartitionState\<close> is a plain field that the RPC threads, the monitor thread and the starting
  thread read and write without a lock. \<open>updatePartitionState\<close> is therefore given in its two
  parts, the test and the write, and \<open>part_step\<close> interleaves the parts of the threads. The info
  messages of the answers and the heartbeat counters are not modelled.
\<close>

section \<open>State\<close>

record 'b inst_state =
  irRunning :: bool
  mPartitionState :: PartitionState
  persistedState :: PartitionState
  inst_sched :: "'b sched_state"

definition final_state :: "PartitionState \<Rightarrow> bool" where
  "final_state s \<longleftrightarrow> s = PARTITION_TERMINATED \<or> s = PARTITION_ERROR"

definition accepting_updates :: "'b inst_state \<Rightarrow> bool" where
  "accepting_updates st \<longleftrightarrow>
     \<not> (mPartitionState st = PARTITION_TERMINATING \<or> mPartitionState st = PARTITION_TERMINATED \<or>
        mPartitionState st = PARTITION_ERROR)"

text \<open>The test of \<open>updatePartitionState\<close>: the value to write, if any.\<close>

definition update_test :: "PartitionState \<Rightarrow> 'b inst_state \<Rightarrow> PartitionState option" where
  "update_test new st =
     (if mPartitionState st = PARTITION_TERMINATED \<or> mPartitionState st = PARTITION_ERROR then None
      else if new \<noteq> mPartitionState st then Some new else None)"

definition update_write :: "PartitionState \<Rightarrow> 'b inst_state \<Rightarrow> 'b inst_state" where
  "update_write new st = st\<lparr>mPartitionState := new, persistedState := new\<rparr>"

definition updatePartitionState :: "PartitionState \<Rightarrow> 'b inst_state \<Rightarrow> 'b inst_state" where
  "updatePartitionState new st =
     (case update_test new st of None \<Rightarrow> st | Some s \<Rightarrow> update_write s st)"

abbreviation inst_conn :: "'b inst_state \<Rightarrow> conn_state" where
  "inst_conn st \<equiv> ss_conn (inst_sched st)"

definition set_conn :: "conn_state \<Rightarrow> 'b inst_state \<Rightarrow> 'b inst_state" where
  "set_conn c st = st\<lparr>inst_sched := (inst_sched st)\<lparr>ss_conn := c\<rparr>\<rparr>"

section \<open>Start and stop\<close>

text \<open>
  The loop that waits for the StfSenders: one element of the list per attempt, what the
  environment answers to it and the time elapsed after it (ns). \<open>None\<close>: still waiting.
\<close>

definition sStartTimeout :: int where
  "sStartTimeout = 5 * 60 * 1000000000"

fun start_loop :: "string \<Rightarrow> (rpc_env \<times> int) list \<Rightarrow> 'b inst_state \<Rightarrow> (bool \<times> 'b inst_state) option" where
  "start_loop partition_id [] st = (if \<not> accepting_updates st then Some (True, st) else None)"
| "start_loop partition_id ((env, elapsed) # rest) st =
     (if \<not> accepting_updates st then Some (True, st)
      else
        let (ok, c) = cm_start env partition_id (inst_conn st); st1 = set_conn c st
        in if ok then Some (True, st1)
           else if sStartTimeout < elapsed then Some (False, updatePartitionState PARTITION_ERROR st1)
           else start_loop partition_id rest st1)"

definition inst_start ::
    "string \<Rightarrow> (rpc_env \<times> int) list \<Rightarrow> 'b inst_state \<Rightarrow> (bool \<times> 'b inst_state) option" where
  "inst_start partition_id attempts st =
     (let ss = inst_sched st;
          st1 = st\<lparr>irRunning := True,
             inst_sched := ss\<lparr>ss_tfb := tfb_start (ss_tfb ss), ss_stf := stf_start (ss_stf ss)\<rparr>\<rparr>
      in start_loop partition_id attempts st1)"

definition inst_stop :: "'b inst_state \<Rightarrow> 'b inst_state" where
  "inst_stop st =
     (let ss = inst_sched st
      in st\<lparr>irRunning := False,
            inst_sched := ss\<lparr>ss_conn := cm_stop (ss_conn ss), ss_stf := stf_stop (ss_stf ss),
              ss_tfb := tfb_stop (ss_tfb ss)\<rparr>\<rparr>)"

section \<open>The monitor thread\<close>

definition monitor_target :: "StfSenderState \<Rightarrow> PartitionState" where
  "monitor_target s =
     (case s of
        STF_SENDER_STATE_OK \<Rightarrow> PARTITION_CONFIGURED
      | STF_SENDER_STATE_INITIALIZING \<Rightarrow> PARTITION_CONFIGURING
      | STF_SENDER_STATE_INCOMPLETE \<Rightarrow> PARTITION_ERROR)"

text \<open>The branch taken in teardown: whether the thread leaves its loop.\<close>

definition monitor_teardown :: "rpc_env \<Rightarrow> 'b inst_state \<Rightarrow> fault + bool \<times> rpc_call list \<times> 'b inst_state" where
  "monitor_teardown env st =
     (case requestTfBuildersTerminate env (inst_conn st) of
        (Inl f, _, _) \<Rightarrow> Inl f
      | (Inr _, c1, calls1) \<Rightarrow>
          let (done, c2, calls2) = requestStfSendersTerminate env c1;
              st1 = set_conn c2 st
          in if done then
               Inr (True, calls1 @ calls2,
                 if mPartitionState st1 = PARTITION_TERMINATING
                 then updatePartitionState PARTITION_TERMINATED st1 else st1)
             else Inr (False, calls1 @ calls2, st1))"

text \<open>One whole iteration of \<open>PartitionMonitorThread\<close>.\<close>

definition PartitionMonitorThread_pass ::
    "rpc_env \<Rightarrow> 'b inst_state \<Rightarrow> fault + bool \<times> rpc_call list \<times> 'b inst_state" where
  "PartitionMonitorThread_pass env st =
     (if mPartitionState st = PARTITION_TERMINATING \<or> mPartitionState st = PARTITION_ERROR
      then monitor_teardown env st
      else Inr (False, [],
        updatePartitionState (monitor_target (mStfSenderState (inst_conn st))) st))"

section \<open>The gRPC methods\<close>

definition GetPartitionState :: "'b inst_state \<Rightarrow> PartitionState" where
  "GetPartitionState st =
     (if \<not> accepting_updates st then mPartitionState st
      else (case mStfSenderState (inst_conn st) of
              STF_SENDER_STATE_OK \<Rightarrow> PARTITION_CONFIGURED
            | STF_SENDER_STATE_INITIALIZING \<Rightarrow> PARTITION_CONFIGURING
            | STF_SENDER_STATE_INCOMPLETE \<Rightarrow> PARTITION_ERROR))"

definition TerminatePartition :: "'b inst_state \<Rightarrow> PartitionState \<times> 'b inst_state" where
  "TerminatePartition st =
     (let st1 = (if accepting_updates st then updatePartitionState PARTITION_TERMINATING st else st)
      in (mPartitionState st1, st1))"

text \<open>\<open>None\<close> is the gRPC status CANCELLED; the number is a 32-bit field of the message.\<close>

definition NumStfSendersInPartitionRequest :: "'b inst_state \<Rightarrow> u32 option" where
  "NumStfSendersInPartitionRequest st =
     (if \<not> accepting_updates st then None
      else Some (of_nat (length (mStfSenderIdList (inst_conn st)))))"

definition TfBuilderConnectionRequest ::
    "rpc_env \<Rightarrow> TfBuilderConfigStatus \<Rightarrow> 'b inst_state \<Rightarrow>
     (fault + TfBuilderConnectionResponse) \<times> rpc_call list \<times> 'b inst_state" where
  "TfBuilderConnectionRequest env status st =
     (if \<not> accepting_updates st then
        (Inr \<lparr>tcr_status = ERROR_PARTITION_TERMINATING, connection_map = []\<rparr>, [], st)
      else
        let (r, c, calls) = connectTfBuilder env status (inst_conn st)
        in (r, calls, set_conn c st))"

definition TfBuilderDisconnectionRequest ::
    "rpc_env \<Rightarrow> TfBuilderConfigStatus \<Rightarrow> 'b inst_state \<Rightarrow> u32 \<times> rpc_call list \<times> 'b inst_state" where
  "TfBuilderDisconnectionRequest env status st =
     (let (r, c, calls) = disconnectTfBuilder env status (inst_conn st)
      in (r, calls, set_conn c st))"

definition TfBuilderUCXConnectionRequest ::
    "rpc_env \<Rightarrow> TfBuilderConfigStatus \<Rightarrow> 'b inst_state \<Rightarrow>
     (fault + TfBuilderUCXConnectionResponse) \<times> rpc_call list \<times> 'b inst_state" where
  "TfBuilderUCXConnectionRequest env status st =
     (if \<not> accepting_updates st then
        (Inr \<lparr>ucr_status = ERROR_PARTITION_TERMINATING, ucx_connection_map = []\<rparr>, [], st)
      else
        let (r, c, calls) = connectTfBuilderUCX env status (inst_conn st)
        in (r, calls, set_conn c st))"

definition TfBuilderUCXDisconnectionRequest ::
    "rpc_env \<Rightarrow> TfBuilderConfigStatus \<Rightarrow> 'b inst_state \<Rightarrow> u32 \<times> rpc_call list \<times> 'b inst_state" where
  "TfBuilderUCXDisconnectionRequest env status st =
     (let (r, c, calls) = disconnectTfBuilderUCX env status (inst_conn st)
      in (r, calls, set_conn c st))"

definition TfBuilderUpdate :: "int \<Rightarrow> TfBuilderUpdateMessage \<Rightarrow> 'b inst_state \<Rightarrow> 'b inst_state" where
  "TfBuilderUpdate now upd st =
     (if \<not> accepting_updates st then st
      else st\<lparr>inst_sched := (inst_sched st)\<lparr>ss_tfb :=
             updateTfBuilderInfo now upd (ss_tfb (inst_sched st))\<rparr>\<rparr>)"

definition StfSenderStfUpdate ::
    "'b bitset_ops \<Rightarrow> u32 \<Rightarrow> int \<Rightarrow> StfSenderStfInfo \<Rightarrow> 'b inst_state \<Rightarrow> StfInfoStatus \<times> 'b inst_state" where
  "StfSenderStfUpdate B n now i st =
     (if \<not> accepting_updates st then (SI_DROP_NOT_RUNNING, st)
      else
        let (r, s) = addStfInfo B n (mStfSenderState (inst_conn st)) now i (ss_stf (inst_sched st))
        in (r, st\<lparr>inst_sched := (inst_sched st)\<lparr>ss_stf := s\<rparr>\<rparr>))"

section \<open>The instance and the device loop\<close>

definition isTerminated :: "'b inst_state \<Rightarrow> bool" where
  "isTerminated st \<longleftrightarrow> mPartitionState st = PARTITION_TERMINATED"

definition isError :: "'b inst_state \<Rightarrow> bool" where
  "isError st \<longleftrightarrow> mPartitionState st = PARTITION_ERROR"

text \<open>
  \<open>ConditionalRun\<close>: \<open>create\<close> is the result of building and starting an instance for a new
  partition request, if there is one. The answer is whether the device keeps running.
\<close>

definition ConditionalRun ::
    "(bool \<times> 'b inst_state) option \<Rightarrow> 'b inst_state option \<Rightarrow> bool \<times> 'b inst_state option" where
  "ConditionalRun create inst =
     (let (started_ok, inst1) =
            (case inst of
               Some _ \<Rightarrow> (True, inst)
             | None \<Rightarrow> (case create of None \<Rightarrow> (True, None) | Some (ok, i) \<Rightarrow> (ok, Some i)))
      in if \<not> started_ok then (False, inst1)
         else (case inst1 of
                 None \<Rightarrow> (True, inst1)
               | Some i \<Rightarrow> (\<not> (isTerminated i \<or> isError i), inst1)))"

section \<open>Interleaving of the threads\<close>

text \<open>
  The position of the monitor thread within an iteration, and of a thread inside
  \<open>TerminatePartition\<close>: after the reads that decide, before the write.
\<close>

datatype monitor_pc = MonSleep | MonTeardown | MonCheck | MonWrite PartitionState | MonExited

datatype terminate_pc = TermIdle | TermAccepted | TermWrite | TermRead | TermAnswered PartitionState

record 'b part_conf =
  pc_inst :: "'b inst_state"
  pc_mon :: monitor_pc
  pc_term :: terminate_pc

inductive part_step :: "'b part_conf \<Rightarrow> 'b part_conf \<Rightarrow> bool" where
  mon_test: "pc_mon c = MonSleep \<Longrightarrow>
    part_step c (c\<lparr>pc_mon := (if mPartitionState (pc_inst c) = PARTITION_TERMINATING \<or>
      mPartitionState (pc_inst c) = PARTITION_ERROR then MonTeardown else MonCheck)\<rparr>)"
| mon_teardown: "pc_mon c = MonTeardown \<Longrightarrow>
    monitor_teardown env (pc_inst c) = Inr (exits, calls, i) \<Longrightarrow>
    part_step c (c\<lparr>pc_inst := i, pc_mon := (if exits then MonExited else MonSleep)\<rparr>)"
| mon_check: "pc_mon c = MonCheck \<Longrightarrow>
    part_step c (c\<lparr>pc_mon :=
      (case update_test (monitor_target (mStfSenderState (inst_conn (pc_inst c)))) (pc_inst c) of
         None \<Rightarrow> MonSleep | Some s \<Rightarrow> MonWrite s)\<rparr>)"
| mon_write: "pc_mon c = MonWrite s \<Longrightarrow>
    part_step c (c\<lparr>pc_inst := update_write s (pc_inst c), pc_mon := MonSleep\<rparr>)"
| term_accept: "pc_term c = TermIdle \<Longrightarrow>
    part_step c (c\<lparr>pc_term := (if accepting_updates (pc_inst c) then TermAccepted
      else TermRead)\<rparr>)"
| term_test: "pc_term c = TermAccepted \<Longrightarrow>
    part_step c (c\<lparr>pc_term := (case update_test PARTITION_TERMINATING (pc_inst c) of
      None \<Rightarrow> TermRead | Some _ \<Rightarrow> TermWrite)\<rparr>)"
| term_write: "pc_term c = TermWrite \<Longrightarrow>
    part_step c (c\<lparr>pc_inst := update_write PARTITION_TERMINATING (pc_inst c),
      pc_term := TermRead\<rparr>)"
| term_answer: "pc_term c = TermRead \<Longrightarrow>
    part_step c (c\<lparr>pc_term := TermAnswered (mPartitionState (pc_inst c))\<rparr>)"
| senders: "part_step c (c\<lparr>pc_inst := set_conn ((inst_conn (pc_inst c))\<lparr>mStfSenderState := s\<rparr>) (pc_inst c)\<rparr>)"

end
