(* ===== verification/Sched_Instance_Props.thy ===== *)
theory Sched_Instance_Props
  imports Sched_Instance Sched_StfInfo_Fate
begin

text \<open>
  Correctness of the partition state machine: its transitions when updates do not interleave,
  the loss of a termination request when they do, the teardown, the start, and the refusal of
  requests by a terminating partition.
\<close>

section \<open>Whole operations\<close>

lemma update_write_simps [simp]:
  "mPartitionState (update_write s st) = s" "persistedState (update_write s st) = s"
  "inst_sched (update_write s st) = inst_sched st"
  by (simp_all add: update_write_def)

lemma update_frame [frame]: "inst_sched (updatePartitionState s st) = inst_sched st"
  by (simp add: updatePartitionState_def update_test_def split: option.splits)

lemma update_state:
  "mPartitionState (updatePartitionState s st) = (if final_state (mPartitionState st) then mPartitionState st else s)"
  by (auto simp: updatePartitionState_def update_test_def final_state_def)


lemma set_conn_simps [simp]:
  "mPartitionState (set_conn c st) = mPartitionState st" "persistedState (set_conn c st) = persistedState st"
  "inst_conn (set_conn c st) = c"
  by (simp_all add: set_conn_def)

lemma accepting_state:
  "accepting_updates st \<longleftrightarrow> mPartitionState st \<noteq> PARTITION_TERMINATING \<and> \<not> final_state (mPartitionState st)"
  by (auto simp: accepting_updates_def final_state_def)

text \<open>The transitions the state machine may make.\<close>

definition legal :: "PartitionState \<Rightarrow> PartitionState \<Rightarrow> bool" where
  "legal s s' \<longleftrightarrow> s = s' \<or>
     (\<not> final_state s \<and> s \<noteq> PARTITION_TERMINATING \<and>
        s' \<in> {PARTITION_CONFIGURING, PARTITION_CONFIGURED, PARTITION_ERROR, PARTITION_TERMINATING}) \<or>
     (s = PARTITION_TERMINATING \<and> s' = PARTITION_TERMINATED)"

lemma legal_refl [simp]: "legal s s"
  by (simp add: legal_def)



lemma teardown_state:
  assumes "monitor_teardown env st = Inr (exits, calls, st')"
  shows "mPartitionState st' = (if exits \<and> mPartitionState st = PARTITION_TERMINATING
      then PARTITION_TERMINATED else mPartitionState st)"
    and "persistedState st = mPartitionState st \<Longrightarrow> persistedState st' = mPartitionState st'"
  using assms
  by (auto simp: monitor_teardown_def Let_def updatePartitionState_def update_test_def
      split: sum.splits prod.splits if_splits)


section \<open>Properties\<close>

definition sample_inst :: "PartitionState \<Rightarrow> (nat \<times> (nat \<Rightarrow> bool)) inst_state" where
  "sample_inst s = \<lparr>irRunning = True, mPartitionState = s, persistedState = s,
     inst_sched = \<lparr>ss_stf = started, ss_tfb = ex_tfb2, ss_conn = sample_conn\<rparr>\<rparr>"



text \<open>
  The updates of the threads can overlap, and then a termination request is lost: there is an
  interleaving in which \<open>TerminatePartition\<close> answers TERMINATING to a configuring partition whose StfSenders are
  all reachable, and the monitor thread, having read the state before, moves the partition
  to CONFIGURED and keeps running.
\<close>

theorem terminate_request_lost:
  "\<exists>c' :: (nat \<times> (nat \<Rightarrow> bool)) part_conf.
     part_step\<^sup>*\<^sup>* \<lparr>pc_inst = sample_inst PARTITION_CONFIGURING, pc_mon = MonSleep, pc_term = TermIdle\<rparr> c' \<and>
     pc_term c' = TermAnswered PARTITION_TERMINATING \<and>
     mPartitionState (pc_inst c') = PARTITION_CONFIGURED \<and> pc_mon c' = MonSleep"
proof -
  let ?i = "sample_inst PARTITION_CONFIGURING"
  let ?c = "\<lambda>i m t. \<lparr>pc_inst = i, pc_mon = m, pc_term = t\<rparr> :: (nat \<times> (nat \<Rightarrow> bool)) part_conf"
  have st: "mPartitionState ?i = PARTITION_CONFIGURING" "mStfSenderState (inst_conn ?i) = STF_SENDER_STATE_OK"
    by (simp_all add: sample_inst_def sample_conn_def)
  have "part_step (?c ?i MonSleep TermIdle) (?c ?i MonCheck TermIdle)"
    using part_step.mon_test [of "?c ?i MonSleep TermIdle"] st by simp
  moreover have "part_step (?c ?i MonCheck TermIdle) (?c ?i (MonWrite PARTITION_CONFIGURED) TermIdle)"
    using part_step.mon_check [of "?c ?i MonCheck TermIdle"] st by (simp add: update_test_def monitor_target_def)
  moreover have "part_step (?c ?i (MonWrite PARTITION_CONFIGURED) TermIdle)
      (?c ?i (MonWrite PARTITION_CONFIGURED) TermAccepted)"
    using part_step.term_accept [of "?c ?i (MonWrite PARTITION_CONFIGURED) TermIdle"] st
    by (simp add: accepting_updates_def)
  moreover have "part_step (?c ?i (MonWrite PARTITION_CONFIGURED) TermAccepted)
      (?c ?i (MonWrite PARTITION_CONFIGURED) TermWrite)"
    using part_step.term_test [of "?c ?i (MonWrite PARTITION_CONFIGURED) TermAccepted"] st
    by (simp add: update_test_def)
  moreover have "part_step (?c ?i (MonWrite PARTITION_CONFIGURED) TermWrite)
      (?c (update_write PARTITION_TERMINATING ?i) (MonWrite PARTITION_CONFIGURED) TermRead)"
    using part_step.term_write [of "?c ?i (MonWrite PARTITION_CONFIGURED) TermWrite"] by simp
  moreover have "part_step (?c (update_write PARTITION_TERMINATING ?i) (MonWrite PARTITION_CONFIGURED) TermRead)
      (?c (update_write PARTITION_TERMINATING ?i) (MonWrite PARTITION_CONFIGURED) (TermAnswered PARTITION_TERMINATING))"
    using part_step.term_answer [of "?c (update_write PARTITION_TERMINATING ?i) (MonWrite PARTITION_CONFIGURED) TermRead"]
    by simp
  moreover have "part_step
      (?c (update_write PARTITION_TERMINATING ?i) (MonWrite PARTITION_CONFIGURED) (TermAnswered PARTITION_TERMINATING))
      (?c (update_write PARTITION_CONFIGURED (update_write PARTITION_TERMINATING ?i)) MonSleep
        (TermAnswered PARTITION_TERMINATING))"
    using part_step.mon_write [of "?c (update_write PARTITION_TERMINATING ?i) (MonWrite PARTITION_CONFIGURED)
      (TermAnswered PARTITION_TERMINATING)"] by simp
  ultimately have "part_step\<^sup>*\<^sup>* (?c ?i MonSleep TermIdle)
      (?c (update_write PARTITION_CONFIGURED (update_write PARTITION_TERMINATING ?i)) MonSleep
        (TermAnswered PARTITION_TERMINATING))"
    by (meson converse_rtranclp_into_rtranclp rtranclp.rtrancl_refl)
  then show ?thesis
    by (intro exI [of _ "?c (update_write PARTITION_CONFIGURED (update_write PARTITION_TERMINATING ?i)) MonSleep
        (TermAnswered PARTITION_TERMINATING)"]) simp
qed

text \<open>
  One teardown iteration asks every TfBuilder and every StfSender once to terminate, keeps every
  StfSender client, and drops the clients of the TfBuilders that did not answer. A terminating
  partition becomes terminated exactly when no TfBuilder client is left; otherwise its state is
  unchanged and the thread stays in its loop.
\<close>

theorem teardown_iteration:
  assumes "mPartitionState st = PARTITION_TERMINATING"
    and "PartitionMonitorThread_pass env st = Inr (exits, calls, st')"
  shows "calls = map TerminateTfBuilder (map fst (mTfBuilderRpcClients (inst_conn st))) @
        map TerminateStfSender (map fst (mStfSenderRpcClients (inst_conn st)))
    \<and> mStfSenderRpcClients (inst_conn st') = mStfSenderRpcClients (inst_conn st)
    \<and> (exits \<longleftrightarrow> mTfBuilderRpcClients (inst_conn st') = [])
    \<and> mPartitionState st' = (if exits then PARTITION_TERMINATED else PARTITION_TERMINATING)
    \<and> (\<forall>i. sm_has (mTfBuilderRpcClients (inst_conn st')) i \<longrightarrow>
          sm_has (mTfBuilderRpcClients (inst_conn st)) i \<and> tfb_terminate env i)"
proof -
  let ?c = "inst_conn st"
  have m: "monitor_teardown env st = Inr (exits, calls, st')"
    using assms by (simp add: PartitionMonitorThread_pass_def)
  obtain ok c1 calls1 where r1: "requestTfBuildersTerminate env ?c = (Inr ok, c1, calls1)"
    using m by (cases "requestTfBuildersTerminate env ?c") (auto simp: monitor_teardown_def split: sum.splits)
  obtain fin c2 calls2 where r2: "requestStfSendersTerminate env c1 = (fin, c2, calls2)"
    by (cases "requestStfSendersTerminate env c1")
  have st': "exits = fin" "calls = calls1 @ calls2" "inst_conn st' = c2"
    using m r1 r2 by (auto simp: monitor_teardown_def Let_def frame split: if_splits)
  have "mTfBuilderRpcClients c1 = filter (\<lambda>e. tfb_terminate env (fst e)) (mTfBuilderRpcClients ?c)"
    using r1 by (auto simp: requestTfBuildersTerminate_def Let_def fold_delete_map image_iff
        split: if_splits intro!: filter_cong)
  then have kept: "\<And>i. sm_has (mTfBuilderRpcClients c1) i \<Longrightarrow>
      sm_has (mTfBuilderRpcClients ?c) i \<and> tfb_terminate env i"
    by (auto simp: sm_has_in)
  have c1: "mStfSenderRpcClients c1 = mStfSenderRpcClients ?c"
    "calls1 = map TerminateTfBuilder (map fst (mTfBuilderRpcClients ?c))"
    using r1 by (auto simp: requestTfBuildersTerminate_def Let_def frame split: if_splits)
  have c2: "mStfSenderRpcClients c2 = mStfSenderRpcClients c1"
    "calls2 = map TerminateStfSender (map fst (mStfSenderRpcClients c1))"
    "fin \<longleftrightarrow> mTfBuilderRpcClients c2 = []"
    "\<And>i. sm_has (mTfBuilderRpcClients c2) i \<Longrightarrow> sm_has (mTfBuilderRpcClients c1) i"
    using r2 by (auto simp: requestStfSendersTerminate_def Let_def frame fold_delete_map sm_has_in)
  show ?thesis
    using st' c1 c2 kept teardown_state(1) [OF m] assms(1) by auto
qed

theorem teardown_iteration_witness:
  "\<exists>calls st'. PartitionMonitorThread_pass (sample_env True) (sample_inst PARTITION_TERMINATING) =
      Inr (True, calls, st') \<and> calls = [TerminateStfSender ''a'', TerminateStfSender ''b''] \<and>
      mPartitionState st' = PARTITION_TERMINATED"
proof -
  have "\<exists>r. PartitionMonitorThread_pass (sample_env True) (sample_inst PARTITION_TERMINATING) = Inr (True, r)"
    by (simp add: PartitionMonitorThread_pass_def monitor_teardown_def sample_inst_def sample_conn_def
        sample_env_def requestTfBuildersTerminate_def requestStfSendersTerminate_def Let_def set_conn_def)
  then obtain calls st' where run:
    "PartitionMonitorThread_pass (sample_env True) (sample_inst PARTITION_TERMINATING) = Inr (True, calls, st')"
    by (metis prod.collapse)
  have t: "mPartitionState (sample_inst PARTITION_TERMINATING) = PARTITION_TERMINATING"
    by (simp add: sample_inst_def)
  show ?thesis
    using teardown_iteration [OF t run] run
    by (intro exI [of _ calls] exI [of _ st']) (auto simp: sample_inst_def sample_conn_def)
qed

text \<open>
  A partition that is terminating, terminated or in error refuses new work: a connection request
  of a TfBuilder over either transport is answered with the terminating error and makes no remote call,
  an announcement of an STF is answered with a drop, the number of StfSenders is not given out, and
  none of these, nor a TfBuilder update, changes the scheduler. \<open>GetPartitionState\<close> then reports the
  true state.
\<close>

theorem terminating_refuses:
  assumes "\<not> accepting_updates st"
  shows "TfBuilderConnectionRequest env status st =
        (Inr \<lparr>tcr_status = ERROR_PARTITION_TERMINATING, connection_map = []\<rparr>, [], st)
    \<and> TfBuilderUCXConnectionRequest env status st =
        (Inr \<lparr>ucr_status = ERROR_PARTITION_TERMINATING, ucx_connection_map = []\<rparr>, [], st)
    \<and> StfSenderStfUpdate B n now i st = (SI_DROP_NOT_RUNNING, st)
    \<and> TfBuilderUpdate now upd st = st
    \<and> NumStfSendersInPartitionRequest st = None
    \<and> GetPartitionState st = mPartitionState st
    \<and> TerminatePartition st = (mPartitionState st, st)
    \<and> start_loop pid attempts st = Some (True, st)"
  using assms
  by (cases attempts)
    (auto simp: TfBuilderConnectionRequest_def TfBuilderUCXConnectionRequest_def StfSenderStfUpdate_def
      TfBuilderUpdate_def NumStfSendersInPartitionRequest_def GetPartitionState_def TerminatePartition_def)

theorem terminating_refuses_witness:
  "StfSenderStfUpdate vec_bits 2 0 (sample_stf ''a'' 0 3) (sample_inst PARTITION_ERROR) =
     (SI_DROP_NOT_RUNNING, sample_inst PARTITION_ERROR)"
proof -
  have "\<not> accepting_updates (sample_inst PARTITION_ERROR)"
    by (simp add: accepting_updates_def sample_inst_def)
  from terminating_refuses [OF this] show ?thesis by blast
qed

lemma cm_start_ok:
  assumes "cm_start env pid st = (True, st')"
  shows "\<exists>ids. stfs_ids env = Some ids \<and> length ids \<le> length (mStfSenderRpcClients st') \<and>
    (\<forall>e \<in> set (mStfSenderRpcClients st'). stfs_ready env (fst e)) \<and> cmRunning st' \<and> mClientsCreated st'"
  using assms
  by (auto simp: cm_start_def stfs_start_def Let_def list_all_iff split: if_splits option.splits prod.splits)

text \<open>
  Starting the scheduler returns success only when either the partition does not accept
  updates any more, or the last attempt has found every StfSender of the partition, each is ready
  and the connection threads run. It fails only after more than five minutes, and then a
  partition that was accepting is in error.
\<close>

theorem start_outcome:
  assumes "start_loop pid attempts st = Some (ok, st')"
  shows "if ok then
      \<not> accepting_updates st' \<or>
      (\<exists>(env, t) \<in> set attempts. \<exists>ids. stfs_ids env = Some ids \<and>
         length ids \<le> length (mStfSenderRpcClients (inst_conn st')) \<and>
         (\<forall>e \<in> set (mStfSenderRpcClients (inst_conn st')). stfs_ready env (fst e)) \<and>
         cmRunning (inst_conn st'))
    else mPartitionState st' = PARTITION_ERROR \<and> (\<exists>(env, t) \<in> set attempts. sStartTimeout < t)"
  using assms
proof (induction pid attempts st rule: start_loop.induct)
  case (1 pid st)
  then show ?case by (auto split: if_splits)
next
  case (2 pid env elapsed rest st)
  obtain b c where c: "cm_start env pid (inst_conn st) = (b, c)" by (cases "cm_start env pid (inst_conn st)")
  consider "\<not> accepting_updates st" | "accepting_updates st" "b"
    | "accepting_updates st" "\<not> b" "sStartTimeout < elapsed"
    | "accepting_updates st" "\<not> b" "\<not> sStartTimeout < elapsed" by blast
  then show ?case
  proof cases
    case 1
    then show ?thesis using "2.prems" by simp
  next
    case b: 2
    then have "ok" "st' = set_conn c st" using "2.prems" c by simp_all
    then show ?thesis using cm_start_ok [of env pid "inst_conn st" c] c b by auto
  next
    case t: 3
    then have "\<not> ok" "st' = updatePartitionState PARTITION_ERROR (set_conn c st)" using "2.prems" c by simp_all
    moreover have "\<not> final_state (mPartitionState st)" using t(1) by (simp add: accepting_state)
    ultimately show ?thesis using t by (simp add: update_state)
  next
    case 4
    then have "start_loop pid rest (set_conn c st) = Some (ok, st')" using "2.prems" c by simp
    then show ?thesis using "2.IH" [OF _ c [symmetric] refl refl] 4 by (auto split: if_splits)
  qed
qed

theorem start_outcome_witness:
  "\<exists>ok st'. start_loop ''p'' [(sample_env True, 0)] (sample_inst PARTITION_CONFIGURING) = Some (ok, st') \<and>
     cmRunning (inst_conn st')"
proof -
  have "\<exists>st'. start_loop ''p'' [(sample_env True, 0)] (sample_inst PARTITION_CONFIGURING) = Some (True, st') \<and>
      accepting_updates st'"
    by (simp add: accepting_updates_def sample_inst_def sample_conn_def sample_env_def cm_start_def
        stfs_start_def set_conn_def sm_has_def Let_def)
  then obtain st' where run: "start_loop ''p'' [(sample_env True, 0)] (sample_inst PARTITION_CONFIGURING) = Some (True, st')"
    and acc: "accepting_updates st'" by blast
  then show ?thesis using start_outcome [OF run] by auto
qed

end
