(* ===== verification/Stfs_Output.thy ===== *)
theory Stfs_Output
  imports DD_Queue DD_SubTimeFrame DD_Discovery
begin

text \<open>
  The output of the StfSender: \<open>StfSender/StfSenderOutput.{h,cxx}\<close>, its FairMQ back end
  \<open>StfSenderOutputFairMQ.{h,cxx}\<close>, the queues of its UCX back end \<open>StfSenderOutputUCX.{h,cxx}\<close> and
  the methods of \<open>StfSenderRpc.cxx\<close>.

  The frames a StfSender holds are in the triage map until the scheduler decides, then in the
  drop queue or in the queue of an output. Each function is the code between two releases of
  a lock; a thread that carries a frame between two of them keeps it in a field of its own
  (\<open>ssInHand\<close>, \<open>ssAnnounced\<close>, \<open>ssCounting\<close>). The answers of the scheduler, FairMQ and UCX are
  arguments.
\<close>

section \<open>State\<close>

record sender_counters =
  bufferedSize :: u64
  bufferedCnt :: u32
  inSendingSize :: u64
  inSendingCnt :: u32
  totalSentSize :: u64
  totalSentCnt :: u32
  totalMissing :: u32

definition counters_zero :: sender_counters where
  "counters_zero = \<lparr>bufferedSize = 0, bufferedCnt = 0, inSendingSize = 0, inSendingCnt = 0,
     totalSentSize = 0, totalSentCnt = 0, totalMissing = 0\<rparr>"

datatype ConnectStatus = ConnOK | ConnEXISTS | ConnERR

datatype output_backend = NoOutput | OutputFairMQ | OutputUCX

text \<open>An output channel: \<open>ocThread\<close> says that the sending thread is still in its loop.\<close>

record OutputChannelObjects =
  mTfBuilderEndpoint :: string
  mStfQueue :: "frame_t cqueue"
  ocThread :: bool

record StfSenderOutput =
  ssMapped :: "(u64, frame_t) smap"
  ssDropQueue :: "frame_t cqueue"
  ssCounters :: sender_counters
  ssLastStfId :: u64
  ssBufferSize :: u64
  ssBackend :: output_backend
  ssOutputMap :: "(string, OutputChannelObjects) smap"
  ssClosing :: "OutputChannelObjects list"
  ssUCXRunning :: bool
  ssUCXMap :: "(string, bool) smap"
  ssSendRequestQueue :: "(frame_t \<times> string) cqueue"
  ssSocketMap :: "(string, string) smap"
  ssInHand :: "(frame_t \<times> sender_counters) option"
  ssAnnounced :: "u64 option"
  ssCounting :: "u64 list"
  ssTerminateRequested :: bool

definition clamp_buffer_size :: "u64 \<Rightarrow> u64 \<Rightarrow> u64" where
  "clamp_buffer_size cur mb =
     (let opt = push_bit 20 mb
      in if opt \<noteq> cur then std_clamp opt (push_bit 30 8) (push_bit 30 64) else cur)"

definition select_backend :: "string \<Rightarrow> output_backend" where
  "select_backend t =
     (if t = ''fmq'' \<or> t = ''FMQ'' \<or> t = ''fairmq'' \<or> t = ''FAIRMQ'' then OutputFairMQ else OutputUCX)"

definition output_start :: "u64 \<Rightarrow> string \<Rightarrow> StfSenderOutput" where
  "output_start mb transport =
     \<lparr>ssMapped = [], ssDropQueue = cq_init, ssCounters = counters_zero, ssLastStfId = 0,
      ssBufferSize = clamp_buffer_size (push_bit 30 32) mb, ssBackend = select_backend transport,
      ssOutputMap = [], ssClosing = [], ssUCXRunning = (select_backend transport = OutputUCX),
      ssUCXMap = [], ssSendRequestQueue = cq_init, ssSocketMap = [], ssInHand = None,
      ssAnnounced = None, ssCounting = [], ssTerminateRequested = False\<rparr>"

section \<open>Counters\<close>

definition frame_size :: "frame_t \<Rightarrow> u64" where
  "frame_size f = fst (getDataSize f)"

definition count_buffered :: "u64 \<Rightarrow> u64 \<Rightarrow> u64 \<Rightarrow> sender_counters \<Rightarrow> sender_counters" where
  "count_buffered sid lastid sz c =
     c\<lparr>totalMissing := totalMissing c + ucast (sid - lastid - 1),
       bufferedSize := bufferedSize c + sz, bufferedCnt := bufferedCnt c + 1\<rparr>"

definition count_dropped :: "u64 \<Rightarrow> sender_counters \<Rightarrow> sender_counters" where
  "count_dropped sz c = c\<lparr>bufferedSize := bufferedSize c - sz, bufferedCnt := bufferedCnt c - 1\<rparr>"

definition count_in_sending :: "u64 \<Rightarrow> sender_counters \<Rightarrow> sender_counters" where
  "count_in_sending sz c =
     c\<lparr>inSendingSize := inSendingSize c + sz, inSendingCnt := inSendingCnt c + 1\<rparr>"

definition count_sent :: "u64 \<Rightarrow> sender_counters \<Rightarrow> sender_counters" where
  "count_sent sz c =
     c\<lparr>bufferedSize := bufferedSize c - sz, bufferedCnt := bufferedCnt c - 1,
       inSendingSize := inSendingSize c - sz, inSendingCnt := inSendingCnt c - 1,
       totalSentSize := totalSentSize c + sz, totalSentCnt := totalSentCnt c + 1\<rparr>"

definition resetCounters :: "StfSenderOutput \<Rightarrow> sender_counters \<times> StfSenderOutput" where
  "resetCounters s = (ssCounters s, s\<lparr>ssCounters := counters_zero, ssLastStfId := 0\<rparr>)"

section \<open>Scheduler thread\<close>

text \<open>A push to the drop queue; the frame is destroyed when the queue has been stopped.\<close>

definition push_drop :: "frame_t \<Rightarrow> StfSenderOutput \<Rightarrow> StfSenderOutput" where
  "push_drop f s = s\<lparr>ssDropQueue := snd (cq_push eFIFO f (ssDropQueue s))\<rparr>"

definition sched_dequeue :: "frame_t \<Rightarrow> StfSenderOutput \<Rightarrow> StfSenderOutput" where
  "sched_dequeue f0 s =
     (let (sz, f) = getDataSize f0; sid = hId (stfHeader f0);
          c = count_buffered sid (ssLastStfId s) sz (ssCounters s)
      in s\<lparr>ssCounters := c, ssLastStfId := sid, ssInHand := Some (f, c)\<rparr>)"

text \<open>The announcement of a frame: \<open>None\<close> when the frame cannot be announced.\<close>

definition stf_announcement :: "BasicInfo \<Rightarrow> u64 \<Rightarrow> u64 \<Rightarrow> sender_counters \<Rightarrow> frame_t \<Rightarrow>
    StfSenderStfInfo option" where
  "stf_announcement info run bufsize c f =
     (let m = \<lparr>ssi_info = info, run_number = run, stf_id = hId (stfHeader f), stf_size = frame_size f,
            stfs_info = \<lparr>buffer_size = bufsize, buffer_used = bufferedSize c,
              num_buffered_stfs = bufferedCnt c\<rparr>,
            stf_source = SRC_IGNORE, stf_source_info = []\<rparr>
      in case hOrigin (stfHeader f) of
           eReadout \<Rightarrow> Some (m\<lparr>stf_source := SRC_DEFAULT\<rparr>)
         | eReadoutTopology \<Rightarrow>
             (case getEquipmentIdentifiers f of
                [e] \<Rightarrow> Some (m\<lparr>stf_source := SRC_TOPOLOGICAL, stf_source_info :=
                  [\<lparr>data_origin = mDataOrigin e, data_subspec = ucast (mSubSpecification e)\<rparr>]\<rparr>)
              | _ \<Rightarrow> None)
         | OriginNull \<Rightarrow> Some (m\<lparr>stf_source := SRC_EMPTY\<rparr>)
         | OriginInvalid \<Rightarrow> None)"

text \<open>Triage: the frame in hand is dropped, or put in the map before it is announced. The
  message sent is the second component.\<close>

definition sched_triage :: "bool \<Rightarrow> BasicInfo \<Rightarrow> u64 \<Rightarrow> StfSenderOutput \<Rightarrow>
    StfSenderStfInfo option \<times> StfSenderOutput" where
  "sched_triage ready info run s =
     (case ssInHand s of
        None \<Rightarrow> (None, s)
      | Some (f, c) \<Rightarrow>
          let s1 = s\<lparr>ssInHand := None\<rparr>
          in if \<not> ready then (None, push_drop f s1)
             else
               (case stf_announcement info run (ssBufferSize s) c f of
                  None \<Rightarrow> (None, push_drop f s1)
                | Some m \<Rightarrow>
                    let sid = hId (stfHeader f)
                    in if sm_has (ssMapped s) sid then (None, push_drop f s1)
                       else (Some m, s1\<lparr>ssMapped := sm_put sid f (ssMapped s), ssAnnounced := Some sid\<rparr>)))"

definition sched_response :: "bool \<Rightarrow> StfInfoStatus \<Rightarrow> StfSenderOutput \<Rightarrow> StfSenderOutput" where
  "sched_response ok status s =
     (case ssAnnounced s of
        None \<Rightarrow> s
      | Some sid \<Rightarrow>
          let s1 = s\<lparr>ssAnnounced := None\<rparr>
          in if \<not> ok \<or> status \<noteq> SI_OK then
               (case sm_get (ssMapped s) sid of
                  None \<Rightarrow> s1
                | Some f \<Rightarrow> push_drop f (s1\<lparr>ssMapped := sm_del sid (ssMapped s)\<rparr>))
             else s1)"

section \<open>Requests\<close>

definition fmq_send :: "string \<Rightarrow> frame_t \<Rightarrow> StfSenderOutput \<Rightarrow> bool \<times> StfSenderOutput" where
  "fmq_send tfb f s =
     (case sm_get (ssOutputMap s) tfb of
        None \<Rightarrow> (False, s)
      | Some oc \<Rightarrow> (True, s\<lparr>ssOutputMap :=
          sm_put tfb (oc\<lparr>mStfQueue := snd (cq_push eFIFO f (mStfQueue oc))\<rparr>) (ssOutputMap s)\<rparr>))"

definition ucx_send :: "string \<Rightarrow> frame_t \<Rightarrow> StfSenderOutput \<Rightarrow> bool \<times> StfSenderOutput" where
  "ucx_send tfb f s =
     (True, s\<lparr>ssSendRequestQueue := snd (cq_push eFIFO (f, tfb) (ssSendRequestQueue s))\<rparr>)"

definition backend_send :: "string \<Rightarrow> frame_t \<Rightarrow> StfSenderOutput \<Rightarrow> bool \<times> StfSenderOutput" where
  "backend_send tfb f s =
     (case ssBackend s of
        OutputUCX \<Rightarrow> ucx_send tfb f s
      | OutputFairMQ \<Rightarrow> fmq_send tfb f s
      | NoOutput \<Rightarrow> (False, s))"

definition sendStfToTfBuilder :: "u64 \<Rightarrow> string \<Rightarrow> StfSenderOutput \<Rightarrow> StfDataStatus \<times> StfSenderOutput" where
  "sendStfToTfBuilder sid tfb s =
     (case sm_get (ssMapped s) sid of
        None \<Rightarrow> (if tfb \<noteq> ''-1'' then DATA_DROPPED_UNKNOWN else DATA_DROPPED_SCHEDULER, s)
      | Some f0 \<Rightarrow>
          if tfb = ''-1'' then
            (DATA_DROPPED_SCHEDULER, push_drop f0 (s\<lparr>ssMapped := sm_del sid (ssMapped s)\<rparr>))
          else
            let (sz, f) = getDataSize f0;
                (ok, s1) = backend_send tfb f (s\<lparr>ssMapped := sm_del sid (ssMapped s)\<rparr>)
            in if \<not> ok then (TF_BUILDER_UNKNOWN, push_drop f s1)
               else (DATA_OK, s1\<lparr>ssCounting := ssCounting s1 @ [sz]\<rparr>))"

text \<open>The end of \<open>sendStfToTfBuilder\<close>: the frame has been handed to the output and is counted.\<close>

definition send_counted :: "nat \<Rightarrow> StfSenderOutput \<Rightarrow> StfSenderOutput" where
  "send_counted i s =
     (if i < length (ssCounting s) then
        s\<lparr>ssCounting := take i (ssCounting s) @ drop (i + 1) (ssCounting s),
          ssCounters := count_in_sending (ssCounting s ! i) (ssCounters s)\<rparr>
      else s)"

text \<open>\<open>connected\<close>: what \<open>Validate\<close> and \<open>ConnectEndpoint\<close> answer.\<close>

definition fmq_connect :: "bool \<Rightarrow> string \<Rightarrow> string \<Rightarrow> StfSenderOutput \<Rightarrow> ConnectStatus \<times> StfSenderOutput" where
  "fmq_connect connected tfb ep s =
     (if sm_has (ssOutputMap s) tfb then (ConnEXISTS, s)
      else if \<not> connected then (ConnERR, s)
      else (ConnOK, s\<lparr>ssOutputMap :=
             sm_put tfb \<lparr>mTfBuilderEndpoint = ep, mStfQueue = cq_init, ocThread = True\<rparr> (ssOutputMap s),
           ssSocketMap := sm_put tfb ep (ssSocketMap s)\<rparr>))"

definition fmq_disconnect :: "string \<Rightarrow> string \<Rightarrow> StfSenderOutput \<Rightarrow> bool \<times> StfSenderOutput" where
  "fmq_disconnect tfb ep s =
     (case sm_get (ssOutputMap s) tfb of
        None \<Rightarrow> (False, s)
      | Some oc \<Rightarrow>
          if ep \<noteq> [] \<and> ep \<noteq> mTfBuilderEndpoint oc then (False, s)
          else (True, s\<lparr>ssOutputMap := sm_del tfb (ssOutputMap s),
                 ssClosing := ssClosing s @ [oc\<lparr>mStfQueue := cq_stop (mStfQueue oc)\<rparr>],
                 ssSocketMap := sm_del tfb (ssSocketMap s)\<rparr>))"

definition fmq_stop :: "StfSenderOutput \<Rightarrow> StfSenderOutput" where
  "fmq_stop s =
     s\<lparr>ssOutputMap := [],
       ssClosing := ssClosing s @
         map (\<lambda>e. (snd e)\<lparr>mStfQueue := cq_stop (mStfQueue (snd e))\<rparr>) (ssOutputMap s)\<rparr>"

text \<open>The UCX connections, with their error flag.\<close>

definition ucx_connect :: "bool \<Rightarrow> string \<Rightarrow> StfSenderOutput \<Rightarrow> ConnectStatus \<times> StfSenderOutput" where
  "ucx_connect connected tfb s =
     (if \<not> ssUCXRunning s then (ConnERR, s)
      else if sm_has (ssUCXMap s) tfb then (ConnEXISTS, s)
      else if \<not> connected then (ConnERR, s)
      else (ConnOK, s\<lparr>ssUCXMap := sm_put tfb False (ssUCXMap s)\<rparr>))"

definition ucx_disconnect :: "string \<Rightarrow> StfSenderOutput \<Rightarrow> bool \<times> StfSenderOutput" where
  "ucx_disconnect tfb s =
     (if \<not> sm_has (ssUCXMap s) tfb then (True, s)
      else (True, s\<lparr>ssUCXMap := sm_del tfb (ssUCXMap s)\<rparr>))"

definition handle_client_ep_error :: "string \<Rightarrow> StfSenderOutput \<Rightarrow> StfSenderOutput" where
  "handle_client_ep_error tfb s = snd (ucx_disconnect tfb s)"

definition output_connect :: "bool \<Rightarrow> string \<Rightarrow> string \<Rightarrow> StfSenderOutput \<Rightarrow> ConnectStatus \<times> StfSenderOutput" where
  "output_connect connected tfb ep s =
     (if ssBackend s \<noteq> OutputFairMQ then (ConnERR, s) else fmq_connect connected tfb ep s)"

definition output_disconnect :: "string \<Rightarrow> string \<Rightarrow> StfSenderOutput \<Rightarrow> bool \<times> StfSenderOutput" where
  "output_disconnect tfb ep s =
     (if ssBackend s \<noteq> OutputFairMQ then (False, s) else fmq_disconnect tfb ep s)"

definition output_connect_ucx :: "bool \<Rightarrow> string \<Rightarrow> StfSenderOutput \<Rightarrow> ConnectStatus \<times> StfSenderOutput" where
  "output_connect_ucx connected tfb s =
     (if ssBackend s \<noteq> OutputUCX then (ConnERR, s) else ucx_connect connected tfb s)"

definition output_disconnect_ucx :: "string \<Rightarrow> StfSenderOutput \<Rightarrow> bool \<times> StfSenderOutput" where
  "output_disconnect_ucx tfb s =
     (if ssBackend s \<noteq> OutputUCX then (False, s) else ucx_disconnect tfb s)"

fun connect_response :: "ConnectStatus \<Rightarrow> ConnStatus" where
  "connect_response ConnOK = CONN_OK"
| "connect_response ConnERR = ERROR_STF_SENDER_CONNECTING"
| "connect_response ConnEXISTS = ERROR_STF_SENDER_EXISTS"

definition ConnectTfBuilderRequest :: "bool \<Rightarrow> string \<Rightarrow> string \<Rightarrow> StfSenderOutput \<Rightarrow> ConnStatus \<times> StfSenderOutput" where
  "ConnectTfBuilderRequest connected tfb ep s =
     (if ssTerminateRequested s then (ERROR_PARTITION_TERMINATING, s)
      else let (st, s1) = output_connect connected tfb ep s in (connect_response st, s1))"

definition DisconnectTfBuilderRequest :: "string \<Rightarrow> string \<Rightarrow> StfSenderOutput \<Rightarrow> int \<times> StfSenderOutput" where
  "DisconnectTfBuilderRequest tfb ep s =
     (let (ok, s1) = output_disconnect tfb ep s in (if \<not> ok then -1 else 0, s1))"

definition ConnectTfBuilderUCXRequest :: "bool \<Rightarrow> string \<Rightarrow> StfSenderOutput \<Rightarrow> ConnStatus \<times> StfSenderOutput" where
  "ConnectTfBuilderUCXRequest connected tfb s =
     (if ssTerminateRequested s then (ERROR_PARTITION_TERMINATING, s)
      else let (st, s1) = output_connect_ucx connected tfb s in (connect_response st, s1))"

definition DisconnectTfBuilderUCXRequest :: "string \<Rightarrow> StfSenderOutput \<Rightarrow> int \<times> StfSenderOutput" where
  "DisconnectTfBuilderUCXRequest tfb s =
     (let (ok, s1) = output_disconnect_ucx tfb s in (if \<not> ok then -1 else 0, s1))"

definition StfDataRequest :: "u64 \<Rightarrow> string \<Rightarrow> StfSenderOutput \<Rightarrow> StfDataStatus \<times> StfSenderOutput" where
  "StfDataRequest sid tfb s = sendStfToTfBuilder sid tfb s"

definition ss_TerminatePartition :: "StfSenderOutput \<Rightarrow> PartitionState \<times> StfSenderOutput" where
  "ss_TerminatePartition s = (PARTITION_TERMINATING, s\<lparr>ssTerminateRequested := True\<rparr>)"

section \<open>Dropping and sending threads\<close>

definition drop_thread_step :: "StfSenderOutput \<Rightarrow> frame_t option \<times> StfSenderOutput" where
  "drop_thread_step s =
     (case cq_pop (ssDropQueue s) of
        (Popped f, q) \<Rightarrow>
          (Some f, s\<lparr>ssDropQueue := q, ssCounters := count_dropped (frame_size f) (ssCounters s)\<rparr>)
      | _ \<Rightarrow> (None, s))"

text \<open>What becomes of the frame a sending thread has popped.\<close>

datatype send_result = NothingSent | FrameSent frame_t | FramesLost "frame_t list" | SendSkipped frame_t

text \<open>One iteration of \<open>DataHandlerThread\<close> on its channel; \<open>ok\<close> is false when the serializer
  throws, which ends the thread.\<close>

definition handler_step :: "bool \<Rightarrow> OutputChannelObjects \<Rightarrow> sender_counters \<Rightarrow>
    send_result \<times> OutputChannelObjects \<times> sender_counters" where
  "handler_step ok oc c =
     (if \<not> ocThread oc then (NothingSent, oc, c)
      else case cq_pop (mStfQueue oc) of
        (Blocked, q) \<Rightarrow> (NothingSent, oc, c)
      | (Stopped, q) \<Rightarrow> (NothingSent, oc\<lparr>ocThread := False\<rparr>, c)
      | (Popped f, q) \<Rightarrow>
          if ok then (FrameSent f, oc\<lparr>mStfQueue := q\<rparr>, count_sent (frame_size f) c)
          else (FramesLost [f], oc\<lparr>mStfQueue := q, ocThread := False\<rparr>, c))"

definition fmq_thread_step :: "bool \<Rightarrow> string \<Rightarrow> StfSenderOutput \<Rightarrow> send_result \<times> StfSenderOutput" where
  "fmq_thread_step ok tfb s =
     (case sm_get (ssOutputMap s) tfb of
        None \<Rightarrow> (NothingSent, s)
      | Some oc \<Rightarrow>
          let (r, oc', c) = handler_step ok oc (ssCounters s)
          in (r, s\<lparr>ssOutputMap := sm_put tfb oc' (ssOutputMap s), ssCounters := c\<rparr>))"

text \<open>The thread of a channel that is being disconnected.\<close>

definition closing_thread_step :: "bool \<Rightarrow> nat \<Rightarrow> StfSenderOutput \<Rightarrow> send_result \<times> StfSenderOutput" where
  "closing_thread_step ok i s =
     (if i < length (ssClosing s) then
        let (r, oc', c) = handler_step ok (ssClosing s ! i) (ssCounters s)
        in (r, s\<lparr>ssClosing := (ssClosing s)[i := oc'], ssCounters := c\<rparr>)
      else (NothingSent, s))"

text \<open>The end of \<open>disconnectTfBuilder\<close>: the thread is joined and the channel destroyed with what
  its queue still holds.\<close>

definition close_joined :: "nat \<Rightarrow> StfSenderOutput \<Rightarrow> send_result \<times> StfSenderOutput" where
  "close_joined i s =
     (if i < length (ssClosing s) \<and> \<not> ocThread (ssClosing s ! i) then
        (FramesLost (mContainer (mStfQueue (ssClosing s ! i))),
         s\<lparr>ssClosing := take i (ssClosing s) @ drop (i + 1) (ssClosing s)\<rparr>)
      else (NothingSent, s))"

text \<open>One iteration of a thread of the UCX pool. A frame for a TfBuilder that is not connected,
  or whose connection has failed, goes to the delete queue without being counted.\<close>

definition ucx_thread_step :: "StfSenderOutput \<Rightarrow> send_result \<times> StfSenderOutput" where
  "ucx_thread_step s =
     (case cq_pop (ssSendRequestQueue s) of
        (Popped (f, tfb), q) \<Rightarrow>
          let s1 = s\<lparr>ssSendRequestQueue := q\<rparr>
          in (case sm_get (ssUCXMap s) tfb of
                None \<Rightarrow> (SendSkipped f, s1)
              | Some err \<Rightarrow>
                  if err then (SendSkipped f, s1)
                  else (FrameSent f, s1\<lparr>ssCounters := count_sent (frame_size f) (ssCounters s)\<rparr>))
      | _ \<Rightarrow> (NothingSent, s))"

end
