(* ===== verification/Stfs_Output_Props.thy ===== *)
theory Stfs_Output_Props
  imports Stfs_Output DD_SubTimeFrame_Props
begin

text \<open>
  Properties of the StfSender output: where every frame is, at each moment and under every
  interleaving of the threads; what the counters say about it; the answers to requests.
\<close>

section \<open>Frames and log\<close>

definition oc_frames :: "OutputChannelObjects \<Rightarrow> frame_t multiset" where
  "oc_frames oc = mset (mContainer (mStfQueue oc))"

definition sending_frames :: "StfSenderOutput \<Rightarrow> frame_t multiset" where
  "sending_frames s = (\<Sum>e\<leftarrow>ssOutputMap s. oc_frames (snd e)) + (\<Sum>oc\<leftarrow>ssClosing s. oc_frames oc)
     + mset (map fst (mContainer (ssSendRequestQueue s)))"

definition hand_frames :: "StfSenderOutput \<Rightarrow> frame_t multiset" where
  "hand_frames s = (case ssInHand s of None \<Rightarrow> {#} | Some (f, c) \<Rightarrow> {#f#})"

definition waiting_frames :: "StfSenderOutput \<Rightarrow> frame_t multiset" where
  "waiting_frames s = hand_frames s + mset (map snd (ssMapped s)) + mset (mContainer (ssDropQueue s))"

definition frames :: "StfSenderOutput \<Rightarrow> frame_t multiset" where
  "frames s = waiting_frames s + sending_frames s"

text \<open>What has happened: frames that came in, were sent, dropped, and lost without being counted;
  and what the counters fell short by at the last reset.\<close>

record output_log =
  lgIn :: "frame_t multiset"
  lgSent :: "frame_t multiset"
  lgDropped :: "frame_t multiset"
  lgLost :: "frame_t multiset"
  lgBaseSize :: u64
  lgBaseCnt :: u32
  lgSendSize :: u64
  lgSendCnt :: u32

definition log_new :: output_log where
  "log_new = \<lparr>lgIn = {#}, lgSent = {#}, lgDropped = {#}, lgLost = {#}, lgBaseSize = 0, lgBaseCnt = 0,
     lgSendSize = 0, lgSendCnt = 0\<rparr>"

definition sizes :: "frame_t multiset \<Rightarrow> u64" where
  "sizes M = (\<Sum>f\<in>#M. frame_size f)"

definition cnt :: "frame_t multiset \<Rightarrow> u32" where
  "cnt M = of_nat (size M)"

lemma sizes_simps [simp]: "sizes {#} = 0" "sizes (add_mset f M) = frame_size f + sizes M"
  "sizes (M + N) = sizes M + sizes N"
  by (simp_all add: sizes_def)

lemma cnt_simps [simp]: "cnt {#} = 0" "cnt (add_mset f M) = 1 + cnt M" "cnt (M + N) = cnt M + cnt N"
  by (simp_all add: cnt_def)

definition log_result :: "send_result \<Rightarrow> output_log \<Rightarrow> output_log" where
  "log_result r l =
     (case r of NothingSent \<Rightarrow> l
      | FrameSent f \<Rightarrow> l\<lparr>lgSent := add_mset f (lgSent l)\<rparr>
      | FramesLost fs \<Rightarrow> l\<lparr>lgLost := lgLost l + mset fs\<rparr>
      | SendSkipped f \<Rightarrow> l\<lparr>lgLost := add_mset f (lgLost l)\<rparr>)"

definition log_reset :: "StfSenderOutput \<Rightarrow> output_log \<Rightarrow> output_log" where
  "log_reset s l = l\<lparr>lgBaseSize := sizes (frames s + lgLost l), lgBaseCnt := cnt (frames s + lgLost l),
     lgSendSize := sizes (sending_frames s + lgLost l) - sum_list (ssCounting s),
     lgSendCnt := cnt (sending_frames s + lgLost l) - of_nat (length (ssCounting s))\<rparr>"

inductive out_step :: "StfSenderOutput \<times> output_log \<Rightarrow> StfSenderOutput \<times> output_log \<Rightarrow> bool" where
  step_dequeue: "ssInHand s = None \<Longrightarrow>
    out_step (s, l) (sched_dequeue f s, l\<lparr>lgIn := add_mset (snd (getDataSize f)) (lgIn l)\<rparr>)"
| step_triage: "out_step (s, l) (snd (sched_triage ready info run s), l)"
| step_response: "out_step (s, l) (sched_response ok st s, l)"
| step_request: "out_step (s, l) (snd (StfDataRequest sid tfb s), l)"
| step_counted: "out_step (s, l) (send_counted i s, l)"
| step_connect: "out_step (s, l) (snd (ConnectTfBuilderRequest okc tfb ep s), l)"
| step_disconnect: "out_step (s, l) (snd (DisconnectTfBuilderRequest tfb ep s), l)"
| step_connect_ucx: "out_step (s, l) (snd (ConnectTfBuilderUCXRequest okc tfb s), l)"
| step_disconnect_ucx: "out_step (s, l) (snd (DisconnectTfBuilderUCXRequest tfb s), l)"
| step_terminate: "out_step (s, l) (snd (ss_TerminatePartition s), l)"
| step_fmq_stop: "out_step (s, l) (fmq_stop s, l)"
| step_drop: "drop_thread_step s = (Some f, s') \<Longrightarrow>
    out_step (s, l) (s', l\<lparr>lgDropped := add_mset f (lgDropped l)\<rparr>)"
| step_fmq: "fmq_thread_step ok tfb s = (r, s') \<Longrightarrow> out_step (s, l) (s', log_result r l)"
| step_closing: "closing_thread_step ok i s = (r, s') \<Longrightarrow> out_step (s, l) (s', log_result r l)"
| step_joined: "close_joined i s = (r, s') \<Longrightarrow> out_step (s, l) (s', log_result r l)"
| step_ucx: "ucx_thread_step s = (r, s') \<Longrightarrow> out_step (s, l) (s', log_result r l)"
| step_reset: "out_step (s, l) (snd (resetCounters s), log_reset s l)"

inductive out_reach :: "StfSenderOutput \<times> output_log \<Rightarrow> bool" where
  reach_start: "out_reach (output_start mb transport, log_new)"
| reach_step: "out_reach x \<Longrightarrow> out_step x y \<Longrightarrow> out_reach y"

section \<open>Invariant\<close>

definition out_inv :: "StfSenderOutput \<Rightarrow> bool" where
  "out_inv s \<longleftrightarrow> sm_wf (ssMapped s) \<and> sm_wf (ssOutputMap s) \<and> cqRunning (ssDropQueue s) \<and>
     cqRunning (ssSendRequestQueue s) \<and> (\<forall>e\<in>set (ssOutputMap s). cqRunning (mStfQueue (snd e))) \<and>
     (\<forall>f\<in>#frames s. stfDataUpdated f)"

definition log_inv :: "StfSenderOutput \<Rightarrow> output_log \<Rightarrow> bool" where
  "log_inv s l \<longleftrightarrow>
     lgIn l = frames s + lgSent l + lgDropped l + lgLost l \<and>
     bufferedSize (ssCounters s) + lgBaseSize l = sizes (frames s + lgLost l) \<and>
     bufferedCnt (ssCounters s) + lgBaseCnt l = cnt (frames s + lgLost l) \<and>
     inSendingSize (ssCounters s) + lgSendSize l + sum_list (ssCounting s)
       = sizes (sending_frames s + lgLost l) \<and>
     inSendingCnt (ssCounters s) + lgSendCnt l + of_nat (length (ssCounting s))
       = cnt (sending_frames s + lgLost l)"

text \<open>What the operations do to the collections.\<close>

lemma mset_sm_put_new: "sm_get m k = None \<Longrightarrow> mset (map snd (sm_put k v m)) = add_mset v (mset (map snd m))"
  by (induction m) (auto simp: sm_get_def split: if_splits)

lemma mset_as_sum: "mset (map snd m) = (\<Sum>e\<leftarrow>m. {#snd e#})"
  by (induction m) simp_all

lemma mset_sm_del:
  fixes m :: "('k::linorder, frame_t) smap"
  assumes "sm_wf m" "sm_get m k = Some f"
  shows "add_mset f (mset (map snd (sm_del k m))) = mset (map snd m)"
  using sum_sm_del [OF assms(1), of "\<lambda>v. {#v#}" k] assms(2) by (simp add: mset_as_sum)

lemma put_channel:
  assumes "sm_wf m" "sm_get m k = Some oc"
  shows "(\<Sum>e\<leftarrow>sm_put k oc' m. oc_frames (snd e)) + oc_frames oc
    = (\<Sum>e\<leftarrow>m. oc_frames (snd e)) + oc_frames oc'"
  using sum_sm_put [OF assms(1), of oc_frames k oc'] assms(2) by simp

lemma put_new_channel:
  assumes "sm_wf m" "\<not> sm_has m k" "oc_frames oc = {#}"
  shows "(\<Sum>e\<leftarrow>sm_put k oc m. oc_frames (snd e)) = (\<Sum>e\<leftarrow>m. oc_frames (snd e))"
  using sum_sm_put [OF assms(1), of oc_frames k oc] assms(2,3) by (simp add: sm_has_def sm_get_def)

lemma del_channel:
  assumes "sm_wf m" "sm_get m k = Some oc"
  shows "(\<Sum>e\<leftarrow>sm_del k m. oc_frames (snd e)) + oc_frames oc = (\<Sum>e\<leftarrow>m. oc_frames (snd e))"
  using sum_sm_del [OF assms(1), of oc_frames k] assms(2) by simp

lemma oc_frames_simps [simp]:
  "oc_frames (oc\<lparr>mStfQueue := cq_stop (mStfQueue oc)\<rparr>) = oc_frames oc"
  "oc_frames (oc\<lparr>ocThread := b\<rparr>) = oc_frames oc"
  "oc_frames (oc\<lparr>mStfQueue := q\<rparr>) = mset (mContainer q)"
  by (simp_all add: oc_frames_def cq_stop_def)

lemma set_sm_put_sub: "set (sm_put k v m) \<subseteq> insert (k, v) (set m)"
  by (induction m) auto

lemma set_sm_del_sub: "set (sm_del k m) \<subseteq> set m"
  by (auto simp: sm_del_def)

lemma sm_get_set: "sm_get m k = Some v \<Longrightarrow> (k, v) \<in> set m"
  by (simp add: sm_get_def map_of_SomeD)

lemma queues_put:
  "\<forall>e\<in>set m. cqRunning (mStfQueue (snd e)) \<Longrightarrow> cqRunning (mStfQueue oc) \<Longrightarrow>
     \<forall>e\<in>set (sm_put k oc m). cqRunning (mStfQueue (snd e))"
  using set_sm_put_sub by fastforce

lemma queues_del:
  "\<forall>e\<in>set m. cqRunning (mStfQueue (snd e)) \<Longrightarrow>
     \<forall>e\<in>set (sm_del k m). cqRunning (mStfQueue (snd e))"
  using set_sm_del_sub by fastforce

section \<open>The steps\<close>

definition unmoved :: "StfSenderOutput \<Rightarrow> StfSenderOutput \<Rightarrow> bool" where
  "unmoved s t \<longleftrightarrow> frames t = frames s \<and> sending_frames t = sending_frames s \<and>
     ssCounters t = ssCounters s \<and> ssCounting t = ssCounting s \<and> out_inv t"

lemma unmoved_log: "unmoved s t \<Longrightarrow> log_inv s l \<Longrightarrow> log_inv t l"
  by (simp add: unmoved_def log_inv_def)

lemma unmoved_refl: "out_inv s \<Longrightarrow> unmoved s s"
  by (simp add: unmoved_def)

lemma push_drop_frames:
  assumes "cqRunning (ssDropQueue s)"
  shows "waiting_frames (push_drop f s) = add_mset f (waiting_frames s)"
    "sending_frames (push_drop f s) = sending_frames s"
  using assms by (simp_all add: push_drop_def waiting_frames_def hand_frames_def sending_frames_def
      cq_push_def)

lemma push_drop_inv:
  assumes "out_inv s" "stfDataUpdated f"
  shows "out_inv (push_drop f s)"
  using assms push_drop_frames [of s f]
  by (auto simp: out_inv_def frames_def push_drop_def cq_push_def)

lemma push_drop_fields [simp]:
  "ssCounters (push_drop f s) = ssCounters s" "ssCounting (push_drop f s) = ssCounting s"
  by (simp_all add: push_drop_def)

lemma triage_unmoved:
  assumes inv: "out_inv s" shows "unmoved s (snd (sched_triage ready info run s))"
proof (cases "ssInHand s")
  case None
  with inv show ?thesis by (simp add: sched_triage_def unmoved_refl)
next
  case (Some p)
  obtain f c where p: "p = (f, c)" by (cases p)
  define s1 where "s1 = s\<lparr>ssInHand := None\<rparr>"
  have w: "waiting_frames s = add_mset f (waiting_frames s1)" "sending_frames s1 = sending_frames s"
    using Some p by (simp_all add: s1_def waiting_frames_def hand_frames_def sending_frames_def)
  have up: "stfDataUpdated f" using inv w by (simp add: out_inv_def frames_def)
  have inv1: "out_inv s1" using inv w by (simp add: out_inv_def frames_def s1_def)
  have drop: "unmoved s (push_drop f s1)"
    using push_drop_frames [of s1 f] push_drop_inv [OF inv1 up] inv1 w
    by (simp add: unmoved_def frames_def out_inv_def) (simp add: s1_def)
  have put: "unmoved s (s1\<lparr>ssMapped := sm_put i f (ssMapped s), ssAnnounced := a\<rparr>)"
    if "\<not> sm_has (ssMapped s) i" for i a
  proof -
    have n: "sm_get (ssMapped s) i = None" using that by (simp add: sm_has_def sm_get_def)
    have "waiting_frames (s1\<lparr>ssMapped := sm_put i f (ssMapped s), ssAnnounced := a\<rparr>) = waiting_frames s"
      "sending_frames (s1\<lparr>ssMapped := sm_put i f (ssMapped s), ssAnnounced := a\<rparr>) = sending_frames s"
      using mset_sm_put_new [OF n] Some p
      by (simp_all add: s1_def waiting_frames_def hand_frames_def sending_frames_def)
    then show ?thesis using inv by (simp add: unmoved_def frames_def out_inv_def sm_wf_put)
        (simp add: s1_def)
  qed
  show ?thesis
    using drop put Some p by (auto simp: sched_triage_def s1_def Let_def split: option.splits)
qed

lemma unmap_drop:
  assumes inv: "out_inv s" and g: "sm_get (ssMapped s) i = Some f"
  shows "unmoved s (push_drop f (s\<lparr>ssAnnounced := a, ssMapped := sm_del i (ssMapped s)\<rparr>))"
proof -
  define s1 where "s1 = s\<lparr>ssAnnounced := a, ssMapped := sm_del i (ssMapped s)\<rparr>"
  have wf: "sm_wf (ssMapped s)" using inv by (simp add: out_inv_def)
  have w: "waiting_frames s = add_mset f (waiting_frames s1)" "sending_frames s1 = sending_frames s"
    using mset_sm_del [OF wf g]
    by (simp_all add: s1_def waiting_frames_def hand_frames_def sending_frames_def)
  have up: "stfDataUpdated f" using inv w by (simp add: out_inv_def frames_def)
  have inv1: "out_inv s1" using inv w by (simp add: out_inv_def frames_def s1_def sm_wf_del)
  show ?thesis
    unfolding s1_def [symmetric]
    using push_drop_frames [of s1 f] push_drop_inv [OF inv1 up] inv1 w
    by (simp add: unmoved_def frames_def out_inv_def) (simp add: s1_def)
qed

lemma response_unmoved:
  assumes inv: "out_inv s" shows "unmoved s (sched_response ok st s)"
proof -
  have ann: "unmoved s (s\<lparr>ssAnnounced := a\<rparr>)" for a
    using inv by (simp add: unmoved_def frames_def out_inv_def waiting_frames_def hand_frames_def
        sending_frames_def)
  show ?thesis
    using ann unmap_drop [OF inv] inv
    by (auto simp: sched_response_def unmoved_refl Let_def split: option.splits)
qed

text \<open>A frame handed to an output, not yet counted there.\<close>

definition handed :: "StfSenderOutput \<Rightarrow> frame_t \<Rightarrow> StfSenderOutput \<Rightarrow> bool" where
  "handed s f t \<longleftrightarrow> frames t = frames s \<and> sending_frames t = add_mset f (sending_frames s) \<and>
     ssCounters t = ssCounters s \<and> ssCounting t = ssCounting s @ [frame_size f] \<and> out_inv t"

lemma handed_log: "handed s f t \<Longrightarrow> log_inv s l \<Longrightarrow> log_inv t l"
  by (simp add: handed_def log_inv_def ac_simps)

lemma getDataSize_updated: "stfDataUpdated f \<Longrightarrow> getDataSize f = (frame_size f, f)"
  by (simp add: getDataSize_def frame_size_def updateStf_def)

lemma mapped_facts:
  assumes inv: "out_inv s" and g: "sm_get (ssMapped s) i = Some f"
  defines "s1 \<equiv> s\<lparr>ssMapped := sm_del i (ssMapped s)\<rparr>"
  shows "waiting_frames s = add_mset f (waiting_frames s1)" "sending_frames s1 = sending_frames s"
    "stfDataUpdated f"
proof -
  have wf: "sm_wf (ssMapped s)" using inv by (simp add: out_inv_def)
  show w: "waiting_frames s = add_mset f (waiting_frames s1)" "sending_frames s1 = sending_frames s"
    using mset_sm_del [OF wf g]
    by (simp_all add: s1_def waiting_frames_def hand_frames_def sending_frames_def)
  show "stfDataUpdated f" using inv w by (simp add: out_inv_def frames_def)
qed

lemma backend_send_cases:
  assumes inv: "out_inv s" and g: "sm_get (ssMapped s) i = Some f"
    and b: "backend_send tfb f (s\<lparr>ssMapped := sm_del i (ssMapped s)\<rparr>) = (ok, t)"
  shows "if ok then handed s f (t\<lparr>ssCounting := ssCounting t @ [frame_size f]\<rparr>)
    else t = s\<lparr>ssMapped := sm_del i (ssMapped s)\<rparr>"
proof -
  define s1 where "s1 = s\<lparr>ssMapped := sm_del i (ssMapped s)\<rparr>"
  note w = mapped_facts [OF inv g, folded s1_def]
  have inv1: "out_inv s1" using inv w by (simp add: out_inv_def frames_def s1_def sm_wf_del)
  have fld: "ssCounters s1 = ssCounters s" "ssCounting s1 = ssCounting s" by (simp_all add: s1_def)
  show ?thesis
  proof (cases "ssBackend s")
    case NoOutput
    then show ?thesis using b by (auto simp: backend_send_def)
  next
    case OutputUCX
    have r: "cqRunning (ssSendRequestQueue s1)" using inv1 by (simp add: out_inv_def)
    define u where "u = s1\<lparr>ssSendRequestQueue := snd (cq_push eFIFO (f, tfb) (ssSendRequestQueue s1))\<rparr>"
    have t: "ok" "t = u" using b OutputUCX by (simp_all add: backend_send_def ucx_send_def s1_def u_def)
    have "sending_frames u = add_mset f (sending_frames s1)" "waiting_frames u = waiting_frames s1"
      using r by (simp_all add: u_def cq_push_def sending_frames_def waiting_frames_def hand_frames_def)
    moreover have "sending_frames (u\<lparr>ssCounting := x\<rparr>) = sending_frames u"
      "waiting_frames (u\<lparr>ssCounting := x\<rparr>) = waiting_frames u" for x
      by (simp_all add: sending_frames_def waiting_frames_def hand_frames_def)
    ultimately show ?thesis
      using t w inv1 inv fld by (simp add: handed_def frames_def out_inv_def)
        (simp add: u_def cq_push_def)
  next
    case OutputFairMQ
    show ?thesis
    proof (cases "sm_get (ssOutputMap s1) tfb")
      case None
      then show ?thesis using b OutputFairMQ by (auto simp: backend_send_def fmq_send_def s1_def)
    next
      case (Some oc)
      have run: "cqRunning (mStfQueue oc)"
        using inv1 sm_get_set [OF Some] by (force simp: out_inv_def)
      define oc' where "oc' = oc\<lparr>mStfQueue := snd (cq_push eFIFO f (mStfQueue oc))\<rparr>"
      define u where "u = s1\<lparr>ssOutputMap := sm_put tfb oc' (ssOutputMap s1)\<rparr>"
      have t: "ok" "t = u"
        using b OutputFairMQ Some by (auto simp: backend_send_def fmq_send_def s1_def u_def oc'_def)
      have wf: "sm_wf (ssOutputMap s1)" using inv1 by (simp add: out_inv_def)
      have oc': "oc_frames oc' = add_mset f (oc_frames oc)" "cqRunning (mStfQueue oc')"
        using run by (simp_all add: oc'_def cq_push_def oc_frames_def)
      have "sending_frames u = add_mset f (sending_frames s1)" "waiting_frames u = waiting_frames s1"
        using put_channel [OF wf Some, of oc'] oc'
        by (simp_all add: u_def sending_frames_def waiting_frames_def hand_frames_def)
      moreover have "sending_frames (u\<lparr>ssCounting := x\<rparr>) = sending_frames u"
        "waiting_frames (u\<lparr>ssCounting := x\<rparr>) = waiting_frames u" for x
        by (simp_all add: sending_frames_def waiting_frames_def hand_frames_def)
      moreover have "\<forall>e\<in>set (sm_put tfb oc' (ssOutputMap s1)). cqRunning (mStfQueue (snd e))"
        using inv1 oc'(2) by (intro queues_put) (simp_all add: out_inv_def)
      ultimately show ?thesis
        using t w inv1 inv fld by (simp add: handed_def frames_def out_inv_def)
          (simp add: u_def sm_wf_put)
    qed
  qed
qed

lemma request_cases:
  assumes inv: "out_inv s"
  shows "unmoved s (snd (StfDataRequest sid tfb s)) \<or>
    (\<exists>f. handed s f (snd (StfDataRequest sid tfb s)))"
proof (cases "sm_get (ssMapped s) sid")
  case None
  then show ?thesis using inv by (simp add: StfDataRequest_def sendStfToTfBuilder_def unmoved_refl)
next
  case (Some f)
  have drop: "unmoved s (push_drop f (s\<lparr>ssMapped := sm_del sid (ssMapped s)\<rparr>))"
    using unmap_drop [OF inv Some, of "ssAnnounced s"] by simp
  note ds = getDataSize_updated [OF mapped_facts(3) [OF inv Some]]
  obtain ok t where b: "backend_send tfb f (s\<lparr>ssMapped := sm_del sid (ssMapped s)\<rparr>) = (ok, t)"
    by fastforce
  show ?thesis
  proof (cases "tfb = ''-1'' \<or> \<not> ok")
    case True
    then show ?thesis using drop Some ds b backend_send_cases [OF inv Some b]
      by (auto simp: StfDataRequest_def sendStfToTfBuilder_def)
  next
    case False
    then show ?thesis using Some ds b backend_send_cases [OF inv Some b]
      by (auto simp: StfDataRequest_def sendStfToTfBuilder_def)
  qed
qed

lemma counted_log:
  assumes "out_inv s" "log_inv s l"
  shows "out_inv (send_counted i s)" "log_inv (send_counted i s) l"
proof -
  have fr: "frames (send_counted i s) = frames s" "sending_frames (send_counted i s) = sending_frames s"
    by (simp_all add: send_counted_def frames_def waiting_frames_def hand_frames_def sending_frames_def)
  show "out_inv (send_counted i s)"
    using assms(1) fr(1) by (auto simp: out_inv_def send_counted_def)
  show "log_inv (send_counted i s) l"
  proof (cases "i < length (ssCounting s)")
    case True
    define ys where "ys = take i (ssCounting s) @ drop (i + 1) (ssCounting s)"
    have split: "ssCounting s = take i (ssCounting s) @ ssCounting s ! i # drop (Suc i) (ssCounting s)"
      using True by (rule id_take_nth_drop)
    have sum: "sum_list (ssCounting s) = ssCounting s ! i + sum_list ys"
      using arg_cong [OF split, of sum_list] by (simp add: ys_def add.left_commute)
    have len: "length (ssCounting s) = Suc (length ys)"
      using True by (simp add: ys_def)
    have sc: "ssCounting (send_counted i s) = ys"
      "ssCounters (send_counted i s) = count_in_sending (ssCounting s ! i) (ssCounters s)"
      using True by (simp_all add: send_counted_def ys_def)
    show ?thesis
      using assms(2) unfolding log_inv_def fr sc sum len
      by (simp add: count_in_sending_def ac_simps)
  next
    case False
    then show ?thesis using assms(2) by (simp add: send_counted_def)
  qed
qed

lemma output_map_unmoved:
  assumes inv: "out_inv s"
    and "sm_wf om" "\<forall>e\<in>set om. cqRunning (mStfQueue (snd e))"
    and "(\<Sum>e\<leftarrow>om. oc_frames (snd e)) + (\<Sum>oc\<leftarrow>cl. oc_frames oc)
      = (\<Sum>e\<leftarrow>ssOutputMap s. oc_frames (snd e)) + (\<Sum>oc\<leftarrow>ssClosing s. oc_frames oc)"
  shows "unmoved s (s\<lparr>ssOutputMap := om, ssClosing := cl, ssSocketMap := so\<rparr>)"
  using assms by (simp add: unmoved_def frames_def out_inv_def waiting_frames_def hand_frames_def
      sending_frames_def)

lemma other_fields_unmoved:
  assumes "out_inv s"
  shows "unmoved s (s\<lparr>ssUCXMap := um\<rparr>)" "unmoved s (s\<lparr>ssTerminateRequested := b\<rparr>)"
  using assms by (simp_all add: unmoved_def frames_def out_inv_def waiting_frames_def hand_frames_def
      sending_frames_def)

lemma fmq_connect_unmoved:
  assumes inv: "out_inv s" shows "unmoved s (snd (fmq_connect okc tfb ep s))"
proof (cases "sm_has (ssOutputMap s) tfb \<or> \<not> okc")
  case True
  then show ?thesis using inv by (auto simp: fmq_connect_def unmoved_refl)
next
  case False
  let ?oc = "\<lparr>mTfBuilderEndpoint = ep, mStfQueue = cq_init, ocThread = True\<rparr>"
  have e: "oc_frames ?oc = {#}" "cqRunning (mStfQueue ?oc)"
    by (simp_all add: oc_frames_def cq_init_def)
  have "unmoved s (s\<lparr>ssOutputMap := sm_put tfb ?oc (ssOutputMap s), ssClosing := ssClosing s,
      ssSocketMap := sm_put tfb ep (ssSocketMap s)\<rparr>)"
  proof (rule output_map_unmoved [OF inv])
    show "sm_wf (sm_put tfb ?oc (ssOutputMap s))" using inv by (simp add: out_inv_def sm_wf_put)
    show "\<forall>e\<in>set (sm_put tfb ?oc (ssOutputMap s)). cqRunning (mStfQueue (snd e))"
      using inv e(2) by (intro queues_put) (simp_all add: out_inv_def)
    have wf: "sm_wf (ssOutputMap s)" using inv by (simp add: out_inv_def)
    show "(\<Sum>e\<leftarrow>sm_put tfb ?oc (ssOutputMap s). oc_frames (snd e)) + (\<Sum>oc\<leftarrow>ssClosing s. oc_frames oc)
      = (\<Sum>e\<leftarrow>ssOutputMap s. oc_frames (snd e)) + (\<Sum>oc\<leftarrow>ssClosing s. oc_frames oc)"
      using put_new_channel [OF wf _ e(1)] False by simp
  qed
  then show ?thesis using False by (simp add: fmq_connect_def)
qed

lemma fmq_disconnect_unmoved:
  assumes inv: "out_inv s" shows "unmoved s (snd (fmq_disconnect tfb ep s))"
proof (cases "sm_get (ssOutputMap s) tfb")
  case None
  then show ?thesis using inv by (simp add: fmq_disconnect_def unmoved_refl)
next
  case (Some oc)
  have "unmoved s (s\<lparr>ssOutputMap := sm_del tfb (ssOutputMap s),
      ssClosing := ssClosing s @ [oc\<lparr>mStfQueue := cq_stop (mStfQueue oc)\<rparr>],
      ssSocketMap := sm_del tfb (ssSocketMap s)\<rparr>)"
  proof (rule output_map_unmoved [OF inv])
    show "sm_wf (sm_del tfb (ssOutputMap s))" using inv by (simp add: out_inv_def sm_wf_del)
    show "\<forall>e\<in>set (sm_del tfb (ssOutputMap s)). cqRunning (mStfQueue (snd e))"
      using inv by (intro queues_del) (simp add: out_inv_def)
    have wf: "sm_wf (ssOutputMap s)" using inv by (simp add: out_inv_def)
    show "(\<Sum>e\<leftarrow>sm_del tfb (ssOutputMap s). oc_frames (snd e)) +
        (\<Sum>oc\<leftarrow>ssClosing s @ [oc\<lparr>mStfQueue := cq_stop (mStfQueue oc)\<rparr>]. oc_frames oc)
      = (\<Sum>e\<leftarrow>ssOutputMap s. oc_frames (snd e)) + (\<Sum>oc\<leftarrow>ssClosing s. oc_frames oc)"
      using del_channel [OF wf Some] by (simp add: ac_simps del: oc_frames_simps(3))
  qed
  then show ?thesis using Some inv by (simp add: fmq_disconnect_def unmoved_refl)
qed

lemma fmq_stop_unmoved:
  assumes inv: "out_inv s" shows "unmoved s (fmq_stop s)"
proof -
  have stop: "oc_frames ((snd e)\<lparr>mStfQueue := cq_stop (mStfQueue (snd e))\<rparr>) = oc_frames (snd e)"
    for e :: "string \<times> OutputChannelObjects"
    by (simp add: oc_frames_def cq_stop_def)
  have "unmoved s (s\<lparr>ssOutputMap := [], ssClosing := ssClosing s @
      map (\<lambda>e. (snd e)\<lparr>mStfQueue := cq_stop (mStfQueue (snd e))\<rparr>) (ssOutputMap s),
      ssSocketMap := ssSocketMap s\<rparr>)"
    by (rule output_map_unmoved [OF inv])
      (simp_all add: sm_wf_def comp_def stop ac_simps del: oc_frames_simps)
  then show ?thesis by (simp add: fmq_stop_def)
qed

lemma rpc_unmoved:
  assumes inv: "out_inv s"
  shows "unmoved s (snd (ConnectTfBuilderRequest okc tfb ep s))"
    "unmoved s (snd (DisconnectTfBuilderRequest tfb ep s))"
    "unmoved s (snd (ConnectTfBuilderUCXRequest okc tfb s))"
    "unmoved s (snd (DisconnectTfBuilderUCXRequest tfb s))"
    "unmoved s (snd (ss_TerminatePartition s))"
  using unmoved_refl [OF inv] fmq_connect_unmoved [OF inv] fmq_disconnect_unmoved [OF inv]
    other_fields_unmoved [OF inv]
  by (auto simp: ConnectTfBuilderRequest_def DisconnectTfBuilderRequest_def
      ConnectTfBuilderUCXRequest_def DisconnectTfBuilderUCXRequest_def ss_TerminatePartition_def
      output_connect_def output_disconnect_def output_connect_ucx_def output_disconnect_ucx_def
      ucx_connect_def ucx_disconnect_def case_prod_unfold Let_def)

text \<open>A frame that leaves the outputs.\<close>

lemma handler_step_cases:
  assumes "handler_step ok oc c = (r, oc', c')"
  shows "(r = NothingSent \<and> oc_frames oc' = oc_frames oc \<and> c' = c) \<or>
    (\<exists>f. r = FrameSent f \<and> oc_frames oc = add_mset f (oc_frames oc') \<and> c' = count_sent (frame_size f) c) \<or>
    (\<exists>f. r = FramesLost [f] \<and> oc_frames oc = add_mset f (oc_frames oc') \<and> c' = c)"
    and "cqRunning (mStfQueue oc') = cqRunning (mStfQueue oc)"
  using assms
  by (auto simp: handler_step_def cq_pop_def oc_frames_def split: list.splits if_splits)

lemma leave_log:
  assumes inv: "log_inv s l" and t: "ssCounting t = ssCounting s"
    and w: "waiting_frames t = waiting_frames s"
    and r: "(r = NothingSent \<and> sending_frames t = sending_frames s \<and> ssCounters t = ssCounters s) \<or>
      (\<exists>f. r = FrameSent f \<and> sending_frames s = add_mset f (sending_frames t) \<and>
         ssCounters t = count_sent (frame_size f) (ssCounters s)) \<or>
      (\<exists>fs. r = FramesLost fs \<and> sending_frames s = mset fs + sending_frames t \<and>
         ssCounters t = ssCounters s) \<or>
      (\<exists>f. r = SendSkipped f \<and> sending_frames s = add_mset f (sending_frames t) \<and>
         ssCounters t = ssCounters s)"
  shows "log_inv t (log_result r l)"
proof -
  consider "r = NothingSent" "sending_frames t = sending_frames s" "ssCounters t = ssCounters s"
    | f where "r = FrameSent f" "sending_frames s = add_mset f (sending_frames t)"
         "ssCounters t = count_sent (frame_size f) (ssCounters s)"
    | fs where "r = FramesLost fs" "sending_frames s = mset fs + sending_frames t"
         "ssCounters t = ssCounters s"
    | f where "r = SendSkipped f" "sending_frames s = add_mset f (sending_frames t)"
         "ssCounters t = ssCounters s"
    using r by blast
  then show ?thesis
  proof cases
    case 1
    then show ?thesis using inv t w by (simp add: log_inv_def log_result_def frames_def)
  next
    case 2
    then show ?thesis using inv t w
      by (simp add: log_inv_def log_result_def frames_def count_sent_def algebra_simps)
  next
    case 3
    then show ?thesis using inv t w
      by (simp add: log_inv_def log_result_def frames_def ac_simps)
  next
    case 4
    then show ?thesis using inv t w
      by (simp add: log_inv_def log_result_def frames_def ac_simps)
  qed
qed

lemma handler_as_move:
  assumes h: "handler_step ok oc (ssCounters s) = (r, oc', c)"
    and S: "sending_frames t + oc_frames oc = sending_frames s + oc_frames oc'"
    and c: "ssCounters t = c"
  shows "(r = NothingSent \<and> sending_frames t = sending_frames s \<and> ssCounters t = ssCounters s) \<or>
      (\<exists>f. r = FrameSent f \<and> sending_frames s = add_mset f (sending_frames t) \<and>
         ssCounters t = count_sent (frame_size f) (ssCounters s)) \<or>
      (\<exists>fs. r = FramesLost fs \<and> sending_frames s = mset fs + sending_frames t \<and>
         ssCounters t = ssCounters s) \<or>
      (\<exists>f. r = SendSkipped f \<and> sending_frames s = add_mset f (sending_frames t) \<and>
         ssCounters t = ssCounters s)"
  using handler_step_cases(1) [OF h]
proof (elim disjE exE conjE)
  assume "r = NothingSent" "oc_frames oc' = oc_frames oc" "c = ssCounters s"
  with S c show ?thesis by simp
next
  fix f assume "r = FrameSent f" "oc_frames oc = add_mset f (oc_frames oc')"
    "c = count_sent (frame_size f) (ssCounters s)"
  with S c show ?thesis by simp
next
  fix f assume "r = FramesLost [f]" "oc_frames oc = add_mset f (oc_frames oc')" "c = ssCounters s"
  with S c show ?thesis by simp
qed

lemma subset_inv:
  assumes "out_inv s" "waiting_frames t = waiting_frames s" "sending_frames t \<subseteq># sending_frames s"
    and "ssMapped t = ssMapped s" "ssDropQueue t = ssDropQueue s"
    and "cqRunning (ssSendRequestQueue t)" "sm_wf (ssOutputMap t)"
    and "\<forall>e\<in>set (ssOutputMap t). cqRunning (mStfQueue (snd e))"
  shows "out_inv t"
  using assms mset_subset_eqD [OF assms(3)] by (auto simp: out_inv_def frames_def)

lemma fmq_thread_log:
  assumes inv: "out_inv s" "log_inv s l" and st: "fmq_thread_step ok tfb s = (r, t)"
  shows "out_inv t" "log_inv t (log_result r l)"
proof -
  have "out_inv t \<and> log_inv t (log_result r l)"
  proof (cases "sm_get (ssOutputMap s) tfb")
    case None
    with st inv show ?thesis by (auto simp: fmq_thread_step_def log_result_def)
  next
    case (Some oc)
    obtain oc' c where h: "handler_step ok oc (ssCounters s) = (r, oc', c)"
      and t: "t = s\<lparr>ssOutputMap := sm_put tfb oc' (ssOutputMap s), ssCounters := c\<rparr>"
      using st Some by (auto simp: fmq_thread_step_def split: prod.splits)
    have wf: "sm_wf (ssOutputMap s)" using inv by (simp add: out_inv_def)
    have S: "sending_frames t + oc_frames oc = sending_frames s + oc_frames oc'"
      using put_channel [OF wf Some, of oc'] by (simp add: t sending_frames_def ac_simps)
    have w: "waiting_frames t = waiting_frames s"
      by (simp add: t waiting_frames_def hand_frames_def)
    note mv = handler_as_move [OF h S]
    have l: "log_inv t (log_result r l)"
      by (rule leave_log [OF inv(2) _ w mv]) (simp_all add: t)
    have run: "cqRunning (mStfQueue oc)" using inv sm_get_set [OF Some] by (force simp: out_inv_def)
    have q: "\<forall>e\<in>set (sm_put tfb oc' (ssOutputMap s)). cqRunning (mStfQueue (snd e))"
      using inv handler_step_cases(2) [OF h] run by (intro queues_put) (simp_all add: out_inv_def)
    have "sending_frames t \<subseteq># sending_frames s"
      using mv by (auto simp: t)
    then have "out_inv t"
      using inv(1) w q wf by (intro subset_inv [OF inv(1) w]) (simp_all add: t out_inv_def sm_wf_put)
    with l show ?thesis by blast
  qed
  then show "out_inv t" "log_inv t (log_result r l)" by blast+
qed

lemma list_update_sum:
  assumes "i < length xs"
  shows "(\<Sum>x\<leftarrow>xs[i := y]. g x) + g (xs ! i) = (\<Sum>x\<leftarrow>xs. g x) + (g y :: frame_t multiset)"
  using assms
proof (induction xs arbitrary: i)
  case (Cons x xs)
  then show ?case by (cases i) (auto simp: ac_simps)
qed simp

lemma list_remove_sum:
  assumes "i < length xs"
  shows "(\<Sum>x\<leftarrow>take i xs @ drop (Suc i) xs. g x) + g (xs ! i) = (\<Sum>x\<leftarrow>xs. (g x :: frame_t multiset))"
  using assms
proof (induction xs arbitrary: i)
  case (Cons x xs)
  then show ?case by (cases i) (auto simp: ac_simps)
qed simp

lemma closing_thread_log:
  assumes inv: "out_inv s" "log_inv s l" and st: "closing_thread_step ok i s = (r, t)"
  shows "out_inv t" "log_inv t (log_result r l)"
proof -
  have "out_inv t \<and> log_inv t (log_result r l)"
  proof (cases "i < length (ssClosing s)")
    case False
    with st inv show ?thesis by (auto simp: closing_thread_step_def log_result_def)
  next
    case True
    obtain oc' c where h: "handler_step ok (ssClosing s ! i) (ssCounters s) = (r, oc', c)"
      and t: "t = s\<lparr>ssClosing := (ssClosing s)[i := oc'], ssCounters := c\<rparr>"
      using st True by (auto simp: closing_thread_step_def split: prod.splits)
    have S: "sending_frames t + oc_frames (ssClosing s ! i) = sending_frames s + oc_frames oc'"
      using list_update_sum [OF True, of oc_frames oc'] by (simp add: t sending_frames_def ac_simps)
    have w: "waiting_frames t = waiting_frames s"
      by (simp add: t waiting_frames_def hand_frames_def)
    note mv = handler_as_move [OF h S]
    have l: "log_inv t (log_result r l)"
      by (rule leave_log [OF inv(2) _ w mv]) (simp_all add: t)
    have "sending_frames t \<subseteq># sending_frames s"
      using mv by (auto simp: t)
    then have "out_inv t"
      using inv(1) w by (intro subset_inv [OF inv(1) w]) (simp_all add: t out_inv_def)
    with l show ?thesis by blast
  qed
  then show "out_inv t" "log_inv t (log_result r l)" by blast+
qed

lemma joined_log:
  assumes inv: "out_inv s" "log_inv s l" and st: "close_joined i s = (r, t)"
  shows "out_inv t" "log_inv t (log_result r l)"
proof -
  have "out_inv t \<and> log_inv t (log_result r l)"
  proof (cases "i < length (ssClosing s) \<and> \<not> ocThread (ssClosing s ! i)")
    case False
    then have "r = NothingSent" "t = s" using st by (auto simp: close_joined_def split: if_splits)
    with inv show ?thesis by (simp add: log_result_def)
  next
    case True
    then have r: "r = FramesLost (mContainer (mStfQueue (ssClosing s ! i)))"
      and t: "t = s\<lparr>ssClosing := take i (ssClosing s) @ drop (i + 1) (ssClosing s)\<rparr>"
      using st by (auto simp: close_joined_def)
    have S: "sending_frames s = oc_frames (ssClosing s ! i) + sending_frames t"
      using list_remove_sum [of i "ssClosing s" oc_frames] True
      by (simp add: t sending_frames_def ac_simps)
    have w: "waiting_frames t = waiting_frames s"
      by (simp add: t waiting_frames_def hand_frames_def)
    have l: "log_inv t (log_result r l)"
      by (rule leave_log [OF inv(2) _ w]) (use S in \<open>simp_all add: t r oc_frames_def\<close>)
    have "out_inv t"
      by (rule subset_inv [OF inv(1) w]) (use S inv(1) in \<open>simp_all add: t out_inv_def\<close>)
    with l show ?thesis by blast
  qed
  then show "out_inv t" "log_inv t (log_result r l)" by blast+
qed

lemma ucx_thread_log:
  assumes inv: "out_inv s" "log_inv s l" and st: "ucx_thread_step s = (r, t)"
  shows "out_inv t" "log_inv t (log_result r l)"
proof -
  have "out_inv t \<and> log_inv t (log_result r l)"
  proof (cases "mContainer (ssSendRequestQueue s)")
    case Nil
    then have "r = NothingSent" "t = s" using st inv
      by (auto simp: ucx_thread_step_def cq_pop_def split: if_splits)
    with inv show ?thesis by (simp add: log_result_def)
  next
    case (Cons x xs)
    obtain f tfb where x: "x = (f, tfb)" by (cases x)
    define q where "q = (ssSendRequestQueue s)\<lparr>mContainer := xs\<rparr>"
    have t: "\<exists>c. t = s\<lparr>ssSendRequestQueue := q, ssCounters := c\<rparr> \<and>
      (r = FrameSent f \<and> c = count_sent (frame_size f) (ssCounters s) \<or>
       r = SendSkipped f \<and> c = ssCounters s)"
      using st Cons x
      by (auto simp: ucx_thread_step_def cq_pop_def q_def Let_def split: option.splits if_splits)
    then obtain c where t: "t = s\<lparr>ssSendRequestQueue := q, ssCounters := c\<rparr>"
      and rc: "r = FrameSent f \<and> c = count_sent (frame_size f) (ssCounters s) \<or>
       r = SendSkipped f \<and> c = ssCounters s" by blast
    have S: "sending_frames s = add_mset f (sending_frames t)"
      using Cons x by (simp add: t q_def sending_frames_def)
    have w: "waiting_frames t = waiting_frames s"
      by (simp add: t waiting_frames_def hand_frames_def)
    have l: "log_inv t (log_result r l)"
      by (rule leave_log [OF inv(2) _ w]) (use S rc in \<open>auto simp: t\<close>)
    have "out_inv t"
      by (rule subset_inv [OF inv(1) w]) (use S inv(1) in \<open>simp_all add: t q_def out_inv_def\<close>)
    with l show ?thesis by blast
  qed
  then show "out_inv t" "log_inv t (log_result r l)" by blast+
qed

lemma drop_thread_log:
  assumes inv: "out_inv s" "log_inv s l" and st: "drop_thread_step s = (Some f, t)"
  shows "out_inv t" "log_inv t (l\<lparr>lgDropped := add_mset f (lgDropped l)\<rparr>)"
proof -
  obtain xs where q: "mContainer (ssDropQueue s) = f # xs"
    and t: "t = s\<lparr>ssDropQueue := (ssDropQueue s)\<lparr>mContainer := xs\<rparr>,
      ssCounters := count_dropped (frame_size f) (ssCounters s)\<rparr>"
    using st by (auto simp: drop_thread_step_def cq_pop_def split: list.splits if_splits)
  have w: "waiting_frames s = add_mset f (waiting_frames t)" "sending_frames t = sending_frames s"
    using q by (simp_all add: t waiting_frames_def hand_frames_def sending_frames_def)
  show "out_inv t" using inv(1) w by (simp add: out_inv_def frames_def) (simp add: t)
  show "log_inv t (l\<lparr>lgDropped := add_mset f (lgDropped l)\<rparr>)"
    using inv(2) w by (simp add: log_inv_def frames_def)
      (simp add: t count_dropped_def algebra_simps)
qed

lemma dequeue_log:
  assumes inv: "out_inv s" "log_inv s l" and h: "ssInHand s = None"
  shows "out_inv (sched_dequeue f s)"
    "log_inv (sched_dequeue f s) (l\<lparr>lgIn := add_mset (snd (getDataSize f)) (lgIn l)\<rparr>)"
proof -
  define g where "g = snd (getDataSize f)"
  have up: "stfDataUpdated g"
    by (auto simp: g_def getDataSize_def updateStf_def split: prod.splits)
  have sz: "fst (getDataSize f) = frame_size g"
    using getDataSize_updated [OF up] by (simp add: g_def frame_size_def getDataSize_def)
  have d: "getDataSize f = (frame_size g, g)" using sz by (simp add: g_def prod_eq_iff)
  have w: "waiting_frames (sched_dequeue f s) = add_mset g (waiting_frames s)"
    "sending_frames (sched_dequeue f s) = sending_frames s"
    using h by (simp_all add: sched_dequeue_def d Let_def waiting_frames_def hand_frames_def
        sending_frames_def)
  show "out_inv (sched_dequeue f s)"
    using inv(1) w up by (simp add: out_inv_def frames_def) (simp add: sched_dequeue_def d Let_def)
  show "log_inv (sched_dequeue f s) (l\<lparr>lgIn := add_mset (snd (getDataSize f)) (lgIn l)\<rparr>)"
    using inv(2) w by (simp add: log_inv_def frames_def g_def [symmetric])
      (simp add: sched_dequeue_def d Let_def count_buffered_def algebra_simps)
qed

lemma reset_log:
  assumes inv: "out_inv s" "log_inv s l"
  shows "out_inv (snd (resetCounters s))" "log_inv (snd (resetCounters s)) (log_reset s l)"
proof -
  have fr: "waiting_frames (snd (resetCounters s)) = waiting_frames s"
    "sending_frames (snd (resetCounters s)) = sending_frames s"
    by (simp_all add: resetCounters_def waiting_frames_def hand_frames_def sending_frames_def)
  show "out_inv (snd (resetCounters s))"
    using inv(1) fr by (simp add: out_inv_def frames_def) (simp add: resetCounters_def)
  show "log_inv (snd (resetCounters s)) (log_reset s l)"
    using inv(2) fr by (simp add: log_inv_def frames_def log_reset_def)
      (simp add: resetCounters_def counters_zero_def)
qed

lemma out_step_inv:
  assumes "out_step (s, l) (t, m)" "out_inv s" "log_inv s l"
  shows "out_inv t \<and> log_inv t m"
  using assms(1)
proof cases
  case step_triage
  then show ?thesis using triage_unmoved [OF assms(2)] unmoved_log [OF _ assms(3)]
    by (auto simp: unmoved_def)
next
  case step_response
  then show ?thesis using response_unmoved [OF assms(2)] unmoved_log [OF _ assms(3)]
    by (auto simp: unmoved_def)
next
  case (step_request sid tfb)
  then show ?thesis using request_cases [OF assms(2), of sid tfb] unmoved_log [OF _ assms(3)]
      handed_log [OF _ assms(3)] by (auto simp: unmoved_def handed_def)
next
  case (step_dequeue f)
  then show ?thesis using dequeue_log [OF assms(2,3)] by simp
qed (use rpc_unmoved [OF assms(2)] fmq_stop_unmoved [OF assms(2)] unmoved_log [OF _ assms(3)]
  counted_log [OF assms(2,3)] drop_thread_log [OF assms(2,3)] fmq_thread_log [OF assms(2,3)]
  closing_thread_log [OF assms(2,3)] joined_log [OF assms(2,3)] ucx_thread_log [OF assms(2,3)]
  reset_log [OF assms(2,3)] in \<open>auto simp: unmoved_def\<close>)

lemma out_reach_inv: "out_reach x \<Longrightarrow> out_inv (fst x) \<and> log_inv (fst x) (snd x)"
proof (induction rule: out_reach.induct)
  case (reach_start mb transport)
  have e: "frames (output_start mb transport) = {#}" "sending_frames (output_start mb transport) = {#}"
    by (simp_all add: output_start_def frames_def waiting_frames_def hand_frames_def
        sending_frames_def cq_init_def)
  then show ?case
    by (simp add: out_inv_def log_inv_def log_new_def)
      (simp add: output_start_def sm_wf_def cq_init_def counters_zero_def)
next
  case (reach_step x y)
  then show ?case using out_step_inv [of "fst x" "snd x" "fst y" "snd y"] by simp
qed

section \<open>Properties\<close>


definition ex_stf :: frame_t where
  "ex_stf = snd (addStfDataStart (''RAWDATA'', ''TPC'') 7
     \<lparr>sdHeader = Some \<lparr>dhDescription = ''RAWDATA'', dhOrigin = ''TPC'', dhSubSpecification = 7,
        splitPayloadIndex = 0, splitPayloadParts = 0, firstTForbit = 0, tfCounter = 0, runNumber = 0\<rparr>,
      sdData = [1, 2, 3]\<rparr> (SubTimeFrame_new 5 9))"

lemma ex_stf_size: "frame_size ex_stf = 3"
  by (simp add: ex_stf_def frame_size_def getDataSize_def updateStf_def update_idents_eq
      addStfDataStart_def SubTimeFrame_new_def vec_set_def push_part_def
      map_bytes_def sub_bytes_def vec_bytes_def message_bytes_def message_size_def)

lemma ex_stf_updated: "getDataSize ex_stf = (3, updateStf ex_stf)" "frame_size (updateStf ex_stf) = 3"
proof -
  show d: "getDataSize ex_stf = (3, updateStf ex_stf)"
    using ex_stf_size by (simp add: frame_size_def getDataSize_def)
  have "stfDataUpdated (updateStf ex_stf)" by (auto simp: updateStf_def split: prod.splits)
  then show "frame_size (updateStf ex_stf) = 3"
    using ex_stf_size by (simp add: frame_size_def getDataSize_def updateStf_def [of "updateStf ex_stf"])
qed

text \<open>The state after one frame has been taken, and after it has been put to the drop queue.\<close>

definition ex_taken :: StfSenderOutput where
  "ex_taken = sched_dequeue ex_stf (output_start 0 ''fmq'')"

definition ex_log :: output_log where
  "ex_log = log_new\<lparr>lgIn := {#updateStf ex_stf#}\<rparr>"

lemma ex_taken_reach: "out_reach (ex_taken, ex_log)"
proof -
  have "out_step (output_start 0 ''fmq'', log_new) (ex_taken, ex_log)"
    using step_dequeue [of "output_start 0 ''fmq''" log_new ex_stf] ex_stf_updated
    by (simp add: ex_taken_def ex_log_def log_new_def output_start_def)
  then show ?thesis by (rule reach_step [OF reach_start])
qed


text \<open>Resetting the counters while frames are held makes them wrong for good: once all frames
  are gone and none has been lost, the buffered counters are the negatives (wrapped) of the
  count and size that were held or lost at the last reset.\<close>

theorem reset_skews_counters:
  assumes "out_reach (s, l)" "frames s = {#}" "lgLost l = {#}"
  shows "bufferedCnt (ssCounters s) = - lgBaseCnt l \<and> bufferedSize (ssCounters s) = - lgBaseSize l"
proof -
  have "bufferedCnt (ssCounters s) + lgBaseCnt l = 0" "bufferedSize (ssCounters s) + lgBaseSize l = 0"
    using out_reach_inv [OF assms(1)] assms(2,3) by (simp_all add: log_inv_def)
  then show ?thesis by (simp add: eq_neg_iff_add_eq_0)
qed

text \<open>A frame that cannot be announced is in the drop queue when the run ends.\<close>

definition ex_dropping :: StfSenderOutput where
  "ex_dropping = snd (sched_triage False \<lparr>bi_type = ProcStfSender, process_id = [],
     last_update_t = 0, process_state = PROC_RUNNING\<rparr> 0 ex_taken)"

definition ex_end :: StfSenderOutput where
  "ex_end = snd (drop_thread_step (snd (resetCounters ex_dropping)))"

theorem reset_skews_counters_witness:
  "\<exists>l. out_reach (ex_end, l) \<and> frames ex_end = {#} \<and>
     bufferedCnt (ssCounters ex_end) = 0xFFFFFFFF \<and> bufferedSize (ssCounters ex_end) = - 3"
proof -
  let ?f = "updateStf ex_stf"
  have d: "getDataSize ?f = (3, ?f)"
    using ex_stf_updated getDataSize_updated [of ?f]
    by (auto simp: updateStf_def [of ex_stf] split: prod.splits)
  let ?r = "snd (resetCounters ex_dropping)"
  have q: "mContainer (ssDropQueue ?r) = [?f]" "ssOutputMap ?r = []" "ssClosing ?r = []"
    "mContainer (ssSendRequestQueue ?r) = []" "ssMapped ?r = []" "ssInHand ?r = None"
    "mContainer (ssDropQueue ex_dropping) = [?f]" "ssOutputMap ex_dropping = []"
    "ssClosing ex_dropping = []" "mContainer (ssSendRequestQueue ex_dropping) = []"
    "ssMapped ex_dropping = []" "ssInHand ex_dropping = None"
    using ex_stf_updated
    by (simp_all add: ex_dropping_def ex_taken_def sched_triage_def sched_dequeue_def push_drop_def
        cq_push_def output_start_def cq_init_def Let_def resetCounters_def)
  have fr: "frames ex_dropping = {#?f#}"
    using q by (simp add: frames_def waiting_frames_def hand_frames_def sending_frames_def)
  let ?l = "log_reset ex_dropping ex_log"
  have dr: "drop_thread_step ?r = (Some ?f, ex_end)"
    using q by (simp add: ex_end_def drop_thread_step_def cq_pop_def)
  have fe: "frames ex_end = {#}"
    using q by (simp add: ex_end_def drop_thread_step_def cq_pop_def frames_def waiting_frames_def
        hand_frames_def sending_frames_def)
  have r1: "out_reach (ex_dropping, ex_log)"
    unfolding ex_dropping_def by (rule reach_step [OF ex_taken_reach step_triage])
  have r2: "out_reach (?r, ?l)" by (rule reach_step [OF r1 step_reset])
  have r3: "out_reach (ex_end, ?l\<lparr>lgDropped := add_mset ?f (lgDropped ?l)\<rparr>)"
    by (rule reach_step [OF r2 step_drop [OF dr]])
  have "lgLost (?l\<lparr>lgDropped := add_mset ?f (lgDropped ?l)\<rparr>) = {#}"
    by (simp add: log_reset_def ex_log_def log_new_def)
  from reset_skews_counters [OF r3 fe this] r3 fe show ?thesis
    using ex_stf_updated(2)
    by (intro exI [of _ "?l\<lparr>lgDropped := add_mset ?f (lgDropped ?l)\<rparr>"])
      (simp add: log_reset_def fr ex_log_def log_new_def)
qed

text \<open>The answer to a request for a frame: without the frame, unknown, or dropped when the
  scheduler asks for the drop; with the frame, the frame leaves the triage map and the answer
  is dropped for the scheduler's drop request, unknown TfBuilder when the FairMQ output has no
  such channel (and then the frame is dropped), and OK otherwise. The UCX output answers OK for
  every TfBuilder, connected or not.\<close>

theorem request_answer:
  "fst (StfDataRequest sid tfb s) =
     (case sm_get (ssMapped s) sid of
        None \<Rightarrow> if tfb = ''-1'' then DATA_DROPPED_SCHEDULER else DATA_DROPPED_UNKNOWN
      | Some f \<Rightarrow> if tfb = ''-1'' then DATA_DROPPED_SCHEDULER
          else if ssBackend s = OutputUCX \<or> ssBackend s = OutputFairMQ \<and> sm_has (ssOutputMap s) tfb
          then DATA_OK else TF_BUILDER_UNKNOWN) \<and>
   ssMapped (snd (StfDataRequest sid tfb s))
     = (if sm_get (ssMapped s) sid = None then ssMapped s else sm_del sid (ssMapped s))"
proof (cases "sm_get (ssMapped s) sid")
  case None
  then show ?thesis by (simp add: StfDataRequest_def sendStfToTfBuilder_def)
next
  case (Some f)
  have "(sm_get (ssOutputMap s) tfb = None) = (\<not> sm_has (ssOutputMap s) tfb)"
    by (simp add: sm_get_def sm_has_def)
  with Some show ?thesis
    by (cases "ssBackend s"; cases "sm_get (ssOutputMap s) tfb")
      (simp_all add: StfDataRequest_def sendStfToTfBuilder_def backend_send_def fmq_send_def
        ucx_send_def push_drop_def case_prod_unfold Let_def)
qed

end
