(* ===== verification/Transport_Iov.thy ===== *)
theory Transport_Iov
  imports DD_SubTimeFrame
begin

text \<open>
  Serialisation of a frame for the FairMQ transport, \<open>common/SubTimeFrameVisitors.{h,cxx}\<close>: the
  headers of all messages are collected in one metadata message, the data parts are sent as they
  are. Parsing and printing the protocol buffer is the identity; the metadata message is the last
  part of the multi-part message and is given here as a component of its own.
\<close>

record ('d, 'o) IovO2HdrMeta =
  hdr_data :: "('d, 'o) DataHeader"
  num_data_parts :: u32

record ('d, 'o) IovStfHdrMeta =
  hm_stf_id :: u64
  hm_stf_size :: u64
  stf_dd_header :: StfHeader
  stf_hdr_iov :: "('d, 'o) IovO2HdrMeta list"

section \<open>Serialisation\<close>

text \<open>The messages in the order of iteration over the maps of the frame.\<close>

definition stf_messages :: "('d, 'o) SubTimeFrame \<Rightarrow> ('d, 'o) StfMessage list" where
  "stf_messages f = concat (map (\<lambda>e. concat (map snd (snd e))) (stfData f))"

definition iov_parts :: "('d, 'o) DataHeader \<Rightarrow> u32" where
  "iov_parts h = (if splitPayloadParts h > 1 then splitPayloadParts h else 1)"

fun iov_collect :: "('d, 'o) StfMessage list \<Rightarrow> ('d, 'o) IovO2HdrMeta list \<times> fmq_message list" where
  "iov_collect [] = ([], [])"
| "iov_collect (msg # v) =
     (let (hs, ds) = iov_collect v
      in ((case smHeader msg of None \<Rightarrow> hs
           | Some h \<Rightarrow> \<lparr>hdr_data = h, num_data_parts = iov_parts h\<rparr> # hs),
          smDataParts msg @ ds))"

definition iov_serialize :: "('d, 'o) SubTimeFrame \<Rightarrow>
    (('d, 'o) IovStfHdrMeta \<times> fmq_message list) \<times> ('d, 'o) SubTimeFrame" where
  "iov_serialize f0 =
     (let f = updateStf f0; (hs, ds) = iov_collect (stf_messages f)
      in ((\<lparr>hm_stf_id = hId (stfHeader f), hm_stf_size = fst (getDataSize f),
            stf_dd_header = stfHeader f, stf_hdr_iov = hs\<rparr>, ds),
          f\<lparr>stfData := [], stfHeader := Header_new (- 1)\<rparr>))"

section \<open>Deserialisation\<close>

text \<open>The loop over the headers, on the data messages not used yet. \<open>None\<close>: \<open>mData\<close> is read
  out of range. The result is the frame and the data left over.\<close>

fun iov_visit :: "('d, 'o) IovO2HdrMeta list \<Rightarrow> fmq_message list \<Rightarrow> ('d, 'o) SubTimeFrame \<Rightarrow>
    (('d, 'o) SubTimeFrame \<times> fmq_message list) option" where
  "iov_visit [] ds f = Some (f, ds)"
| "iov_visit (h # hs) [] f = None"
| "iov_visit (h # hs) (d # ds) f =
     (let hd = hdr_data h; k = unat (num_data_parts h) - 1;
          (p, f1) = addStfDataStart (dhDescription hd, dhOrigin hd) (dhSubSpecification hd)
            \<lparr>sdHeader = Some hd, sdData = d\<rparr> f
      in if length ds < k then None
         else iov_visit hs (drop k ds) (fold (addStfDataAppend (Some p)) (take k ds) f1))"

datatype deser_error = DeserFailed | DeserOutOfRange

text \<open>\<open>hdr_ok\<close>: memory for the header messages could be allocated. \<open>accept\<close> sizes the new,
  empty frame before the visit.\<close>

definition iov_deserialize :: "bool \<Rightarrow> u64 \<Rightarrow> ('d, 'o) IovStfHdrMeta \<Rightarrow> fmq_message list \<Rightarrow>
    deser_error + ('d, 'o) SubTimeFrame" where
  "iov_deserialize hdr_ok now m ds =
     (if \<not> hdr_ok then Inl DeserFailed
      else case iov_visit (stf_hdr_iov m) ds
          ((updateStf (SubTimeFrame_new now (hm_stf_id m)))\<lparr>stfHeader := stf_dd_header m\<rparr>) of
        None \<Rightarrow> Inl DeserOutOfRange
      | Some (f, rest) \<Rightarrow> Inr f)"

definition peek_tf_header :: "('d, 'o) IovStfHdrMeta \<Rightarrow> StfHeader" where
  "peek_tf_header m = stf_dd_header m"

end
