(* ===== verification/Transport_Ucx.thy ===== *)
theory Transport_Ucx
  imports Transport_Iov
begin

text \<open>
  Transfer of a frame by remote memory access: packing by \<open>StfSenderOutputUCX::visit\<close> with
  \<open>regionLookup\<close> (\<open>StfSender/StfSenderOutputUCX.{h,cxx}\<close>) and the receiving part of
  \<open>TfBuilderInputUCX::DataHandlerThread\<close> (\<open>TfBuilder/TfBuilderInputUCX.cxx\<close>).

  The data parts stay in shared memory of the sender. They are sorted by address and grouped to
  transactions (txgs), ranges of one registered region with gaps of at most \<open>mRmaGap\<close> bytes. The
  receiver reads each range and cuts the parts out. Addresses are 64-bit words; the address of a
  message is an argument, \<open>place i\<close> for the part with index \<open>i\<close>. Remote reads belong to UCX:
  \<open>rma key start len\<close> is the parameter that gives the bytes read, or \<open>None\<close> on an error.
\<close>

section \<open>Regions\<close>

record 'k UCXMemoryRegionInfo =
  rPtr :: u64
  rSize :: u64
  rkey :: 'k

definition in_region :: "'k UCXMemoryRegionInfo \<Rightarrow> u64 \<Rightarrow> u64 \<Rightarrow> bool" where
  "in_region r p n \<longleftrightarrow> rPtr r \<le> p \<and> p + n \<le> rPtr r + rSize r"

definition sorted_regions :: "'k UCXMemoryRegionInfo list \<Rightarrow> 'k UCXMemoryRegionInfo list" where
  "sorted_regions regs = sort_key (\<lambda>r. - int (unat (rSize r))) regs"

definition registerSHMRegion :: "bool \<Rightarrow> 'k option \<Rightarrow> u64 \<Rightarrow> u64 \<Rightarrow> 'k UCXMemoryRegionInfo list \<Rightarrow>
    'k UCXMemoryRegionInfo list" where
  "registerSHMRegion running key p n regs =
     (if \<not> running then regs
      else case key of None \<Rightarrow> regs | Some k \<Rightarrow> regs @ [\<lparr>rPtr = p, rSize = n, rkey = k\<rparr>])"

text \<open>The lookup in the cache of the thread, which is loaded again once when nothing matches.
  The result: the region (\<open>None\<close>: the exception is thrown), whether the cache was cleared, and
  the cache.\<close>

definition regionLookup :: "'k UCXMemoryRegionInfo list \<Rightarrow> 'k UCXMemoryRegionInfo list \<Rightarrow> u64 \<Rightarrow> u64 \<Rightarrow>
    'k UCXMemoryRegionInfo option \<times> bool \<times> 'k UCXMemoryRegionInfo list" where
  "regionLookup cache regs p n =
     (case find (\<lambda>r. in_region r p n) cache of
        Some r \<Rightarrow> (Some r, False, cache)
      | None \<Rightarrow>
          let c = sorted_regions regs in (find (\<lambda>r. in_region r p n) c, True, c))"

section \<open>Packing\<close>

record UCXData =
  udIdx :: u32
  udTxg :: u32
  udStart :: u64
  udLen :: u64

record UCXIovTxg =
  txTxg :: u32
  txRegion :: u32
  txStart :: u64
  txLen :: u64
  txDataParts :: u32

record 'k UCXRegion =
  urRegion :: u32
  urSize :: u64
  urRkey :: 'k

record 'k ucx_pack =
  stf_txg_iov :: "UCXIovTxg list"
  stf_data_iov :: "UCXData list"
  data_regions :: "'k UCXRegion list"

text \<open>The headers, and the parts with their addresses. Messages without a header are skipped.\<close>

fun ucx_headers :: "('d, 'o) StfMessage list \<Rightarrow> ('d, 'o) IovO2HdrMeta list" where
  "ucx_headers [] = []"
| "ucx_headers (msg # v) =
     (case smHeader msg of None \<Rightarrow> ucx_headers v
      | Some h \<Rightarrow> \<lparr>hdr_data = h, num_data_parts = of_nat (length (smDataParts msg))\<rparr> # ucx_headers v)"

fun ucx_payload :: "('d, 'o) StfMessage list \<Rightarrow> fmq_message list" where
  "ucx_payload [] = []"
| "ucx_payload (msg # v) = (case smHeader msg of None \<Rightarrow> [] | Some h \<Rightarrow> smDataParts msg) @ ucx_payload v"

definition ucx_parts :: "(nat \<Rightarrow> u64) \<Rightarrow> fmq_message list \<Rightarrow> UCXData list" where
  "ucx_parts place ps =
     map (\<lambda>i. \<lparr>udIdx = of_nat i, udTxg = 0, udStart = place i, udLen = of_nat (length (ps ! i))\<rparr>)
       [0..<length ps]"

text \<open>A pointer into the cache is not valid any more once the cache has been cleared.\<close>

datatype pack_error = NoRegionMatched | StaleRegionPointer

definition new_txg :: "u32 \<Rightarrow> u32 \<Rightarrow> UCXData \<Rightarrow> UCXIovTxg" where
  "new_txg i reg d = \<lparr>txTxg = i, txRegion = reg, txStart = udStart d, txLen = udLen d, txDataParts = 1\<rparr>"

definition extend_txg :: "UCXData \<Rightarrow> u64 \<Rightarrow> UCXIovTxg \<Rightarrow> UCXIovTxg" where
  "extend_txg d gap t = t\<lparr>txLen := txLen t + gap + udLen d, txDataParts := txDataParts t + 1\<rparr>"

text \<open>One part after the first: \<open>run\<close> is the running region; the current transaction and the
  current region are the last ones added.\<close>

definition pack_step :: "u64 \<Rightarrow> 'k UCXMemoryRegionInfo \<Rightarrow> 'k UCXMemoryRegionInfo \<Rightarrow> UCXData \<Rightarrow>
    'k ucx_pack \<Rightarrow> 'k ucx_pack" where
  "pack_step rmaGap run r d pk =
     (let t = last (stf_txg_iov pk); same = (rPtr r = rPtr run);
          gap = udStart d - (txStart t + txLen t)
      in if same \<and> gap \<le> rmaGap then
           pk\<lparr>stf_txg_iov := butlast (stf_txg_iov pk) @ [extend_txg d gap t],
              stf_data_iov := stf_data_iov pk @ [d\<lparr>udTxg := txTxg t\<rparr>]\<rparr>
         else
           let regs = (if same then data_regions pk
                  else data_regions pk @
                    [\<lparr>urRegion = of_nat (length (data_regions pk)), urSize = rSize r, urRkey = rkey r\<rparr>]);
               i = of_nat (length (stf_txg_iov pk))
           in pk\<lparr>data_regions := regs,
                 stf_txg_iov := stf_txg_iov pk @ [new_txg i (urRegion (last regs)) d],
                 stf_data_iov := stf_data_iov pk @ [d\<lparr>udTxg := i\<rparr>]\<rparr>)"

fun pack_loop :: "u64 \<Rightarrow> 'k UCXMemoryRegionInfo list \<Rightarrow> 'k UCXMemoryRegionInfo list \<Rightarrow>
    'k UCXMemoryRegionInfo \<Rightarrow> UCXData list \<Rightarrow> 'k ucx_pack \<Rightarrow> pack_error + 'k ucx_pack" where
  "pack_loop rmaGap cache regs run [] pk = Inr pk"
| "pack_loop rmaGap cache regs run (d # ds) pk =
     (case regionLookup cache regs (udStart d) (udLen d) of
        (None, _, _) \<Rightarrow> Inl NoRegionMatched
      | (Some r, True, _) \<Rightarrow> Inl StaleRegionPointer
      | (Some r, False, c) \<Rightarrow>
          pack_loop rmaGap c regs (if rPtr r = rPtr run then run else r) ds (pack_step rmaGap run r d pk))"

definition pack_first :: "'k UCXMemoryRegionInfo \<Rightarrow> UCXData \<Rightarrow> 'k ucx_pack" where
  "pack_first r d =
     \<lparr>stf_txg_iov = [new_txg 0 0 d], stf_data_iov = [d\<lparr>udTxg := 0\<rparr>],
      data_regions = [\<lparr>urRegion = 0, urSize = rSize r, urRkey = rkey r\<rparr>]\<rparr>"

definition ucx_pack_parts :: "u64 \<Rightarrow> 'k UCXMemoryRegionInfo list \<Rightarrow> 'k UCXMemoryRegionInfo list \<Rightarrow>
    UCXData list \<Rightarrow> pack_error + 'k ucx_pack" where
  "ucx_pack_parts rmaGap cache regs parts =
     (case sort_key udStart parts of
        [] \<Rightarrow> Inr \<lparr>stf_txg_iov = [], stf_data_iov = [], data_regions = []\<rparr>
      | d # ds \<Rightarrow>
          (case regionLookup cache regs (udStart d) (udLen d) of
             (None, _, _) \<Rightarrow> Inl NoRegionMatched
           | (Some r, _, c) \<Rightarrow> pack_loop rmaGap c regs r ds (pack_first r d)))"

definition ucx_visit :: "u64 \<Rightarrow> 'k UCXMemoryRegionInfo list \<Rightarrow> 'k UCXMemoryRegionInfo list \<Rightarrow>
    (nat \<Rightarrow> u64) \<Rightarrow> ('d, 'o) SubTimeFrame \<Rightarrow> pack_error + ('d, 'o) IovStfHdrMeta \<times> 'k ucx_pack" where
  "ucx_visit rmaGap cache regs place f0 =
     (let f = updateStf f0; v = stf_messages f;
          m = \<lparr>hm_stf_id = hId (stfHeader f), hm_stf_size = fst (getDataSize f),
            stf_dd_header = stfHeader f, stf_hdr_iov = ucx_headers v\<rparr>
      in case ucx_pack_parts rmaGap cache regs (ucx_parts place (ucx_payload v)) of
           Inl e \<Rightarrow> Inl e
         | Inr pk \<Rightarrow> Inr (m, pk))"

definition rma_gap_option :: "u64 \<Rightarrow> u64" where
  "rma_gap_option v = std_clamp v 0 (push_bit 20 16)"

section \<open>Receiving\<close>

text \<open>The remote reads, one per transaction, into the buffer of the transaction.\<close>

fun ucx_get :: "('k \<Rightarrow> u64 \<Rightarrow> u64 \<Rightarrow> fmq_message option) \<Rightarrow> 'k UCXRegion list \<Rightarrow> UCXIovTxg list \<Rightarrow>
    fmq_message list \<Rightarrow> fmq_message list option" where
  "ucx_get rma regs [] bufs = Some bufs"
| "ucx_get rma regs (t # ts) bufs =
     (case rma (urRkey (regs ! unat (txRegion t))) (txStart t) (txLen t) of
        None \<Rightarrow> None
      | Some b \<Rightarrow> ucx_get rma regs ts (bufs[unat (txTxg t) := b]))"

definition ucx_slice :: "UCXIovTxg list \<Rightarrow> fmq_message list \<Rightarrow> UCXData \<Rightarrow> fmq_message" where
  "ucx_slice txgs bufs d =
     (let off = udStart d - txStart (txgs ! unat (udTxg d))
      in take (unat (udLen d)) (drop (unat off) (bufs ! unat (udTxg d))))"

definition ucx_receive :: "('k \<Rightarrow> u64 \<Rightarrow> u64 \<Rightarrow> fmq_message option) \<Rightarrow> 'k ucx_pack \<Rightarrow>
    fmq_message list option" where
  "ucx_receive rma pk =
     (case ucx_get rma (data_regions pk) (stf_txg_iov pk) (replicate (length (stf_txg_iov pk)) []) of
        None \<Rightarrow> None
      | Some bufs \<Rightarrow> Some (map (ucx_slice (stf_txg_iov pk) bufs) (sort_key udIdx (stf_data_iov pk))))"

end
