(* ===== verification/Transport_Iov_Props.thy ===== *)
theory Transport_Iov_Props
  imports Transport_Iov DD_SubTimeFrame_Props
begin

text \<open>
  The round trip of the FairMQ transport: a frame that is serialised and deserialised has the
  same messages in the same order, and the same header.
\<close>

section \<open>Reading a message back\<close>

definition msg_key :: "('d, 'o) StfMessage \<Rightarrow> (('d, 'o) DataIdentifier \<times> u32) option" where
  "msg_key msg = map_option (\<lambda>h. ((dhDescription h, dhOrigin h), dhSubSpecification h)) (smHeader msg)"

definition parts_announced :: "('d, 'o) StfMessage \<Rightarrow> bool" where
  "parts_announced msg \<longleftrightarrow> smDataParts msg \<noteq> [] \<and>
     (\<exists>h. smHeader msg = Some h \<and> unat (iov_parts h) = length (smDataParts msg))"

text \<open>What the visit reads back: nothing of the frame but its data changes.\<close>

definition adds :: "('d, 'o) SubTimeFrame \<Rightarrow> ('d, 'o) StfMessage list \<Rightarrow> ('d, 'o) SubTimeFrame \<Rightarrow> bool" where
  "adds f v g \<longleftrightarrow> stfHeader g = stfHeader f \<and> (map_wf (stfData f) \<longrightarrow> map_wf (stfData g)) \<and>
     stfDataUpdated g = (stfDataUpdated f \<and> v = []) \<and>
     (v = [] \<longrightarrow> g = f) \<and> map_bytes (stfData g) = map_bytes (stfData f) + vec_bytes v \<and>
     (\<forall>di ss. vec_at (stfData g) di ss = vec_at (stfData f) di ss
        @ filter (\<lambda>msg. msg_key msg = Some (di, ss)) v)"

lemma adds_at: "adds f v g \<Longrightarrow> vec_at (stfData g) di ss = vec_at (stfData f) di ss
    @ filter (\<lambda>msg. msg_key msg = Some (di, ss)) v"
  unfolding adds_def by blast

lemma adds_Nil: "adds f [] f"
  by (simp add: adds_def vec_bytes_def)

lemma adds_trans: "adds f v g \<Longrightarrow> adds g w h \<Longrightarrow> adds f (v @ w) h"
  by (auto simp: adds_def)

lemma start_adds:
  "adds f [\<lparr>smHeader = Some h, smDataParts = [d]\<rparr>]
     (snd (addStfDataStart (dhDescription h, dhOrigin h) (dhSubSpecification h)
        \<lparr>sdHeader = Some h, sdData = d\<rparr> f))"
proof -
  let ?di = "(dhDescription h, dhOrigin h)" and ?ss = "dhSubSpecification h"
  have "map_bytes (vec_set ?di ?ss (vec_at (stfData f) ?di ?ss @ v) (stfData f))
      = map_bytes (stfData f) + vec_bytes v" for v
    using map_bytes_vec_set [of ?di ?ss "vec_at (stfData f) ?di ?ss @ v" "stfData f"] by simp
  then show ?thesis
    by (auto simp: adds_def addStfDataStart_def Let_def push_part_def vec_at_set map_wf_vec_set msg_key_def)
qed

lemma append_part_adds:
  fixes f :: "('d, 'o) SubTimeFrame"
  assumes "adds f0 [msg] f" and "msg_key msg = Some (di, ss)" and "smDataParts msg \<noteq> []"
  shows "adds f0 [push_part d msg] (addStfDataAppend (Some (di, ss, length (vec_at (stfData f0) di ss))) d f)"
proof -
  let ?i = "length (vec_at (stfData f0) di ss)"
  have v: "vec_at (stfData f) di ss = vec_at (stfData f0) di ss @ [msg]"
    using adds_at [OF assms(1), of di ss] assms(2) by simp
  then have nth: "vec_at (stfData f) di ss ! ?i = msg" by simp
  have k: "msg_key (push_part d msg) = Some (di, ss)"
    using assms(2) by (simp add: msg_key_def push_part_def)
  have e: "addStfDataAppend (Some (di, ss, ?i)) d f =
      f\<lparr>stfData := vec_set di ss (vec_at (stfData f0) di ss @ [push_part d msg]) (stfData f),
        stfDataUpdated := False\<rparr>"
    using assms(3) nth v by (simp add: addStfDataAppend_def parts_at_def Let_def list_update_append)
  have b: "map_bytes (vec_set di ss (vec_at (stfData f0) di ss @ [push_part d msg]) (stfData f))
      = map_bytes (stfData f0) + vec_bytes [push_part d msg]"
    using map_bytes_vec_set [of di ss "vec_at (stfData f0) di ss @ [push_part d msg]" "stfData f"] v assms(1)
    by (simp add: adds_def)
  show ?thesis
    unfolding e using assms(1,2) k b by (auto simp: adds_def vec_at_set map_wf_vec_set)
qed

lemma fold_part_adds:
  assumes "adds f0 [msg] f" and "msg_key msg = Some (di, ss)" and "smDataParts msg \<noteq> []"
  shows "adds f0 [msg\<lparr>smDataParts := smDataParts msg @ ps\<rparr>]
    (fold (addStfDataAppend (Some (di, ss, length (vec_at (stfData f0) di ss)))) ps f)"
  using assms
proof (induction ps arbitrary: f msg)
  case Nil
  then show ?case by simp
next
  case (Cons p ps)
  have "msg_key (push_part p msg) = Some (di, ss)" "smDataParts (push_part p msg) \<noteq> []"
    using Cons.prems by (simp_all add: msg_key_def push_part_def)
  from Cons.IH [OF append_part_adds [OF Cons.prems] this] show ?case
    by (simp add: push_part_def)
qed

lemma visit_message:
  assumes "parts_announced msg" "smHeader msg = Some h" "smDataParts msg = d # ps"
  shows "\<exists>f1. adds f [msg] f1 \<and>
    iov_visit (\<lparr>hdr_data = h, num_data_parts = iov_parts h\<rparr> # hs) (d # ps @ ds) f = iov_visit hs ds f1"
proof -
  let ?di = "(dhDescription h, dhOrigin h)" and ?ss = "dhSubSpecification h"
  let ?f0 = "snd (addStfDataStart ?di ?ss \<lparr>sdHeader = Some h, sdData = d\<rparr> f)"
  let ?p = "(?di, ?ss, length (vec_at (stfData f) ?di ?ss))"
  have k: "unat (iov_parts h) - 1 = length ps"
    using assms by (simp add: parts_announced_def)
  have p: "fst (addStfDataStart ?di ?ss \<lparr>sdHeader = Some h, sdData = d\<rparr> f) = ?p"
    by (simp add: addStfDataStart_def Let_def)
  have "adds f [\<lparr>smHeader = Some h, smDataParts = [d]\<rparr>\<lparr>smDataParts := [d] @ ps\<rparr>]
      (fold (addStfDataAppend (Some ?p)) ps ?f0)"
    using fold_part_adds [OF start_adds, of h d ?di ?ss f ps] by (simp add: msg_key_def)
  moreover have "\<lparr>smHeader = Some h, smDataParts = [d]\<rparr>\<lparr>smDataParts := [d] @ ps\<rparr> = msg"
    using assms by (cases msg) simp
  moreover have "iov_visit (\<lparr>hdr_data = h, num_data_parts = iov_parts h\<rparr> # hs) (d # ps @ ds) f
      = iov_visit hs ds (fold (addStfDataAppend (Some ?p)) ps ?f0)"
    using k p by (simp add: Let_def case_prod_unfold)
  ultimately show ?thesis by metis
qed

lemma visit_messages:
  assumes "list_all parts_announced v"
  shows "\<exists>g. adds f v g \<and>
    iov_visit (fst (iov_collect v)) (snd (iov_collect v) @ rest) f = Some (g, rest)"
  using assms
proof (induction v arbitrary: f)
  case Nil
  then show ?case using adds_Nil by auto
next
  case (Cons msg v)
  then obtain h d ps where m: "parts_announced msg" "smHeader msg = Some h" "smDataParts msg = d # ps"
    by (auto simp: parts_announced_def neq_Nil_conv)
  obtain hs ds where c: "iov_collect v = (hs, ds)" by fastforce
  obtain f1 where f1: "adds f [msg] f1"
    "iov_visit (\<lparr>hdr_data = h, num_data_parts = iov_parts h\<rparr> # hs) (d # ps @ ds @ rest) f
       = iov_visit hs (ds @ rest) f1"
    using visit_message [OF m] by blast
  obtain g where g: "adds f1 v g" "iov_visit hs (ds @ rest) f1 = Some (g, rest)"
    using Cons.IH [of f1] Cons.prems c by auto
  have "adds f (msg # v) g" using adds_trans [OF f1(1) g(1)] by simp
  then show ?case using f1(2) g(2) m c by auto
qed

section \<open>The messages of a frame\<close>

text \<open>A frame whose messages carry the key they are stored under, and have at least one part
  and fewer than \<open>2 ^ 32\<close>.\<close>

definition message_ok :: "('d, 'o) DataIdentifier \<Rightarrow> u32 \<Rightarrow> ('d, 'o) StfMessage \<Rightarrow> bool" where
  "message_ok di ss msg \<longleftrightarrow> msg_key msg = Some (di, ss) \<and> smDataParts msg \<noteq> [] \<and>
     length (smDataParts msg) < 2 ^ 32"

definition sendable :: "('d, 'o) SubTimeFrame \<Rightarrow> bool" where
  "sendable f \<longleftrightarrow> (\<forall>di ss. \<forall>msg\<in>set (vec_at (stfData f) di ss). message_ok di ss msg)"

lemma vec_at_in:
  assumes "map_wf m" "(di, sub) \<in> set m" "(ss, v) \<in> set sub" shows "vec_at m di ss = v"
proof -
  have "map_of m di = Some sub" using assms by (simp add: map_wf_def)
  moreover have "map_of sub ss = Some v" using assms by (auto simp: map_wf_def list_all_iff)
  ultimately show ?thesis by (simp add: vec_at_def)
qed

lemma filter_key_subs:
  assumes "distinct (map fst sub)"
    and "\<forall>(ss, v)\<in>set sub. \<forall>msg\<in>set v. msg_key msg = Some (di, ss)"
  shows "filter (\<lambda>msg. msg_key msg = Some (di', ss')) (concat (map snd sub))
    = (if di' = di then sub_at sub ss' else [])"
  using assms
proof (induction sub)
  case Nil
  then show ?case by (simp add: sub_at_def)
next
  case (Cons e sub)
  obtain ss v where e: "e = (ss, v)" by fastforce
  have v: "filter (\<lambda>msg. msg_key msg = Some (di', ss')) v = (if di' = di \<and> ss' = ss then v else [])"
    using Cons.prems(2) e by (auto simp: filter_id_conv filter_empty_conv)
  have n: "map_of sub ss = None" using Cons.prems(1) e by (simp add: map_of_eq_None_iff)
  have IH: "filter (\<lambda>msg. msg_key msg = Some (di', ss')) (concat (map snd sub))
    = (if di' = di then sub_at sub ss' else [])"
    using Cons.IH Cons.prems by simp
  show ?case using v n IH e by (auto simp: sub_at_def)
qed

lemma filter_key_idents:
  assumes "distinct (map fst m)" "list_all (\<lambda>e. distinct (map fst (snd e))) m"
    and "\<forall>(di, sub)\<in>set m. \<forall>(ss, v)\<in>set sub. \<forall>msg\<in>set v. msg_key msg = Some (di, ss)"
  shows "filter (\<lambda>msg. msg_key msg = Some (di', ss')) (concat (map (\<lambda>e. concat (map snd (snd e))) m))
    = vec_at m di' ss'"
  using assms
proof (induction m)
  case Nil
  then show ?case by simp
next
  case (Cons e m)
  obtain di sub where e: "e = (di, sub)" by fastforce
  have s: "filter (\<lambda>msg. msg_key msg = Some (di', ss')) (concat (map snd sub))
      = (if di' = di then sub_at sub ss' else [])"
    using filter_key_subs [of sub di di' ss'] Cons.prems e by auto
  have IH: "filter (\<lambda>msg. msg_key msg = Some (di', ss')) (concat (map (\<lambda>e. concat (map snd (snd e))) m))
      = vec_at m di' ss'"
    using Cons.IH Cons.prems by simp
  have "vec_at m di' ss' = []" if "di' = di"
    using Cons.prems(1) e that by (intro vec_at_absent) simp
  then show ?case using s IH e by (simp add: vec_at_Cons)
qed

lemma update_header_key:
  "dhDescription (update_header H n h) = dhDescription h" "dhOrigin (update_header H n h) = dhOrigin h"
  "dhSubSpecification (update_header H n h) = dhSubSpecification h"
  by (simp_all add: update_header_def Let_def setTfCounter_RunNumber_def setFirstOrbit_def split_counters_def)

lemma message_ok_updated: "message_ok di ss (updated_message H msg) = message_ok di ss msg"
  by (cases "smHeader msg")
    (simp_all add: message_ok_def updated_message_def msg_key_def update_header_key)

lemma sendable_updated: "accounted f \<Longrightarrow> sendable (updateStf f) = sendable f"
  by (simp add: sendable_def updateStf_data message_ok_updated)

lemma parts_announced_updated:
  assumes "message_ok di ss msg" "smHeader msg = Some (update_header H (length (smDataParts msg)) h0)"
  shows "parts_announced msg"
proof -
  let ?n = "length (smDataParts msg)"
  have n: "0 < ?n" "?n < 2 ^ 32" using assms(1) by (auto simp: message_ok_def)
  have "splitPayloadParts (update_header H ?n h0) = of_nat ?n"
    using update_header_current [OF n(1), of H h0] by (simp add: header_current_def)
  moreover have "unat (of_nat ?n :: u32) = ?n" using n(2) by (simp add: unat_of_nat)
  moreover have "(1 :: u32) < of_nat ?n \<longleftrightarrow> 1 < ?n"
    using \<open>unat (of_nat ?n :: u32) = ?n\<close> by (simp add: word_less_nat_alt)
  moreover have "1 < ?n \<or> ?n = 1" using n(1) by linarith
  ultimately have "unat (iov_parts (update_header H ?n h0)) = ?n"
    by (auto simp: iov_parts_def)
  then show ?thesis using assms by (simp add: parts_announced_def message_ok_def)
qed

lemma in_stf_messages:
  assumes "map_wf (stfData f)" "msg \<in> set (stf_messages f)"
  shows "\<exists>di ss. msg \<in> set (vec_at (stfData f) di ss)"
proof -
  obtain di sub ss v where "(di, sub) \<in> set (stfData f)" "(ss, v) \<in> set sub" "msg \<in> set v"
    using assms(2) by (auto simp: stf_messages_def)
  then have "msg \<in> set (vec_at (stfData f) di ss)" using vec_at_in [OF assms(1)] by metis
  then show ?thesis by blast
qed

lemma stf_messages_announced:
  assumes a: "accounted f" and s: "sendable f"
  shows "list_all parts_announced (stf_messages (updateStf f))"
  unfolding list_all_iff
proof
  fix msg assume m: "msg \<in> set (stf_messages (updateStf f))"
  have wf: "map_wf (stfData (updateStf f))" using updateStf_accounted [OF a] by (simp add: accounted_def)
  obtain di ss where v: "msg \<in> set (vec_at (stfData (updateStf f)) di ss)"
    using in_stf_messages [OF wf m] by blast
  have ok: "message_ok di ss msg" using sendable_updated [OF a] s v unfolding sendable_def by blast
  then obtain h where h: "smHeader msg = Some h" "smDataParts msg \<noteq> []"
    by (auto simp: message_ok_def msg_key_def)
  obtain h0 where "h = update_header (stfHeader f) (length (smDataParts msg)) h0"
    using vec_updated [OF a v h] by blast
  then show "parts_announced msg" using parts_announced_updated [OF ok] h by simp
qed

lemma stf_messages_filter:
  assumes "map_wf (stfData f)" "sendable f"
  shows "filter (\<lambda>msg. msg_key msg = Some (di, ss)) (stf_messages f) = vec_at (stfData f) di ss"
proof -
  have "\<forall>(di, sub)\<in>set (stfData f). \<forall>(ss, v)\<in>set sub. \<forall>msg\<in>set v. msg_key msg = Some (di, ss)"
  proof clarify
    fix a b sub ss v msg
    assume "((a, b), sub) \<in> set (stfData f)" "(ss, v) \<in> set sub" "msg \<in> set v"
    then have "msg \<in> set (vec_at (stfData f) (a, b) ss)" using vec_at_in [OF assms(1)] by metis
    then show "msg_key msg = Some ((a, b), ss)"
      using assms(2) unfolding sendable_def message_ok_def by blast
  qed
  then show ?thesis
    unfolding stf_messages_def using assms(1) by (intro filter_key_idents) (simp_all add: map_wf_def)
qed

lemma updateStf_header [simp]: "stfHeader (updateStf f) = stfHeader f"
  by (simp add: updateStf_def split: prod.splits)

lemma updateStf_updated [simp]: "stfDataUpdated (updateStf f)"
  by (simp add: updateStf_def split: prod.splits)

lemma updateStf_new: "updateStf (SubTimeFrame_new now i) =
    (SubTimeFrame_new now i)\<lparr>stfDataUpdated := True\<rparr>"
  by (simp add: updateStf_def SubTimeFrame_new_def)

lemma iov_roundtrip_adds:
  assumes a: "accounted f" and s: "sendable f"
    and ser: "fst (iov_serialize f) = (m, ds)"
  obtains g where "iov_deserialize True now m ds = Inr g"
    "adds ((SubTimeFrame_new now (hId (stfHeader f)))\<lparr>stfDataUpdated := True, stfHeader := stfHeader f\<rparr>)
       (stf_messages (updateStf f)) g"
proof -
  let ?v = "stf_messages (updateStf f)"
  let ?new = "(SubTimeFrame_new now (hId (stfHeader f)))\<lparr>stfDataUpdated := True, stfHeader := stfHeader f\<rparr>"
  have m: "m = \<lparr>hm_stf_id = hId (stfHeader f), hm_stf_size = fst (getDataSize (updateStf f)),
      stf_dd_header = stfHeader f, stf_hdr_iov = fst (iov_collect ?v)\<rparr>" "ds = snd (iov_collect ?v)"
    using ser by (simp_all add: iov_serialize_def Let_def case_prod_unfold)
  obtain g where g: "adds ?new ?v g" "iov_visit (fst (iov_collect ?v)) (snd (iov_collect ?v) @ []) ?new = Some (g, [])"
    using visit_messages [OF stf_messages_announced [OF a s]] by blast
  have "iov_deserialize True now m ds = Inr g"
    using g(2) m by (simp add: iov_deserialize_def updateStf_new)
  then show ?thesis using that g(1) by blast
qed

lemma map_bytes_messages: "map_bytes (stfData f) = vec_bytes (stf_messages f)"
proof -
  have s: "sub_bytes sub = vec_bytes (concat (map snd sub))" for sub :: "('a, 'b) StfSubSpecMap"
    by (induction sub) (simp_all add: sub_bytes_def vec_bytes_def)
  have "map_bytes m = vec_bytes (concat (map (\<lambda>e. concat (map snd (snd e))) m))"
    for m :: "('a, 'b) StfDataIdentMap"
    by (induction m) (simp_all add: map_bytes_def vec_bytes_def s)
  then show ?thesis by (simp add: stf_messages_def)
qed

lemma adds_empty_size:
  assumes g: "adds f v g" and f: "stfData f = []" "stfDataSize f = 0"
  shows "fst (getDataSize g) = of_nat (vec_bytes v)"
proof -
  have b: "map_bytes (stfData g) = vec_bytes v" using g f by (simp add: adds_def map_bytes_def)
  show ?thesis
  proof (cases "stfDataUpdated g")
    case True
    then have "v = []" "g = f" using g by (simp_all add: adds_def)
    then show ?thesis using f True by (simp add: getDataSize_def updateStf_def vec_bytes_def)
  next
    case False
    then show ?thesis using b by (simp add: getDataSize_def updateStf_def update_idents_eq)
  qed
qed

lemma iov_read_back:
  fixes f :: "('d, 'o) SubTimeFrame"
  assumes r: "stf_reach f" and s: "sendable f"
    and ser: "fst (iov_serialize f) = (m, ds)"
  shows "\<exists>g. iov_deserialize True now m ds = Inr g \<and> stfHeader g = stfHeader f \<and>
    peek_tf_header m = stfHeader f \<and> fst (getDataSize g) = fst (getDataSize f) \<and>
    (\<forall>di ss. vec_at (stfData g) di ss = map (updated_message (stfHeader f)) (vec_at (stfData f) di ss))"
proof -
  note a = reach_accounted [OF r]
  let ?new = "(SubTimeFrame_new now (hId (stfHeader f)) :: ('d, 'o) SubTimeFrame)\<lparr>stfDataUpdated := True, stfHeader := stfHeader f\<rparr>"
  let ?v = "stf_messages (updateStf f)"
  obtain g where d: "iov_deserialize True now m ds = Inr g" and g: "adds ?new ?v g"
    using iov_roundtrip_adds [OF a s ser] by blast
  have n: "stfData ?new = []" "stfDataSize ?new = 0" by (simp_all add: SubTimeFrame_new_def)
  have wf: "map_wf (stfData (updateStf f))" using updateStf_accounted [OF a] by (simp add: accounted_def)
  have "vec_at (stfData g) di ss = map (updated_message (stfHeader f)) (vec_at (stfData f) di ss)" for di ss
    using adds_at [OF g, of di ss] stf_messages_filter [OF wf, of di ss] sendable_updated [OF a] s n(1)
    by (simp add: updateStf_data [OF a])
  moreover have "stfHeader g = stfHeader f" using g by (simp add: adds_def)
  moreover have "peek_tf_header m = stfHeader f"
    using ser by (auto simp: iov_serialize_def peek_tf_header_def Let_def split: prod.splits)
  moreover have "fst (getDataSize g) = fst (getDataSize f)"
    using adds_empty_size [OF g n] updateStf_data [OF a] map_bytes_messages [of "updateStf f"]
    by (simp add: getDataSize_def)
  ultimately show ?thesis using d by blast
qed

section \<open>Properties\<close>

text \<open>C17. Round trip of the FairMQ transport: a frame built by any sequence of the operations on
  frames, whose messages carry the key they are stored under and have at least one part, is
  deserialised to a frame with the same header, the same size and, for every data identifier and
  sub-specification, the same messages in the same order with their updated headers. The header
  that the receiver peeks at is the one of the frame.\<close>

theorem iov_roundtrip:
  fixes f :: "('d, 'o) SubTimeFrame"
  assumes "stf_reach f" "sendable f" "fst (iov_serialize f) = (m, ds)"
  shows "\<exists>g. iov_deserialize True now m ds = Inr g \<and> stfHeader g = stfHeader f \<and>
    peek_tf_header m = stfHeader f \<and> fst (getDataSize g) = fst (getDataSize f) \<and>
    (\<forall>di ss. vec_at (stfData g) di ss = map (updated_message (stfHeader f)) (vec_at (stfData f) di ss))"
  by (rule iov_read_back [OF assms])

lemma ex_frame_sendable: "sendable ex_frame"
  by (simp add: sendable_def ex_frame_def addStfDataStart_def SubTimeFrame_new_def vec_at_set push_part_def
      message_ok_def msg_key_def ex_header_def)

theorem iov_roundtrip_witness:
  "\<exists>g. iov_deserialize True 5 (fst (fst (iov_serialize ex_frame))) (snd (fst (iov_serialize ex_frame))) = Inr g \<and>
     fst (getDataSize g) = 3 \<and> map smDataParts (vec_at (stfData g) (1, 2) 7) = [[[1, 2, 3]]]"
proof -
  have v: "map smDataParts (vec_at (stfData ex_frame) (1, 2) 7) = [[[1, 2, 3]]]"
    by (simp add: ex_frame_def addStfDataStart_def SubTimeFrame_new_def vec_at_set push_part_def)
  obtain g where g: "iov_deserialize True 5 (fst (fst (iov_serialize ex_frame)))
      (snd (fst (iov_serialize ex_frame))) = Inr g"
    "fst (getDataSize g) = fst (getDataSize ex_frame)"
    "vec_at (stfData g) (1, 2) 7 = map (updated_message (stfHeader ex_frame)) (vec_at (stfData ex_frame) (1, 2) 7)"
    using iov_roundtrip [OF ex_frame_reach ex_frame_sendable, of "fst (fst (iov_serialize ex_frame))"
        "snd (fst (iov_serialize ex_frame))" 5] by auto
  have "fst (getDataSize ex_frame) = 3"
    using updateStf_data(2) [OF reach_accounted [OF ex_frame_reach]] ex_frame_bytes by (simp add: getDataSize_def)
  then show ?thesis
    using g v by (intro exI [of _ g]) (simp add: comp_def updated_message_inv)
qed

text \<open>What is sent for a frame does not depend on the frame's data when it is empty; a received
  empty frame counts as sized.\<close>

lemma empty_frame_sized:
  assumes "stf_messages (updateStf f) = []" "fst (iov_serialize f) = (m, ds)"
  shows "\<exists>g. iov_deserialize True now m ds = Inr g \<and> stfDataUpdated g \<and> stfDataSize g = 0 \<and>
    stfData g = [] \<and> stfHeader g = stfHeader f"
proof -
  let ?new = "(SubTimeFrame_new now (hId (stfHeader f)))\<lparr>stfDataUpdated := True, stfHeader := stfHeader f\<rparr>"
  have "iov_deserialize True now m ds = Inr ?new"
    using assms by (auto simp: iov_serialize_def iov_deserialize_def Let_def updateStf_new)
  then show ?thesis by (simp add: SubTimeFrame_new_def)
qed

end
