(* ===== verification/Tfb_Rpc.thy ===== *)
theory Tfb_Rpc
  imports DD_Queue DD_Discovery Transport_Iov
begin

text \<open>
  The gRPC service of the TfBuilder, \<open>TfBuilder/TfBuilderRpc.{h,cxx}\<close>: requests of the scheduler
  to build a time frame, the thread that asks the StfSenders for their STFs, the accounting of
  the buffer, and \<open>TfBuilder/TfBuilderInputDefs.h\<close>. Each function is the code between two
  releases of a lock, or one iteration of a thread. The answers of the peers, the clock and the
  random generator are arguments. The signed counters are \<open>int\<close>: they count requests in memory.
\<close>

section \<open>State\<close>

datatype MetaType = META_ADD | META_DELETE | META_INFO

type_synonym received_data = "(string, string) IovStfHdrMeta \<times> fmq_message list"

record ReceivedStfMeta =
  mType :: MetaType
  mStfId :: u64
  mStfOrigin :: Origin
  mTimeReceived :: nat
  mRecvStfdata :: "received_data option"
  mStf :: "frame_t option"
  mRecvStfSenderId :: string

definition ReceivedStfMeta_type :: "MetaType \<Rightarrow> u64 \<Rightarrow> ReceivedStfMeta" where
  "ReceivedStfMeta_type ty sid = \<lparr>mType = ty, mStfId = sid, mStfOrigin = OriginInvalid, mTimeReceived = 0,
     mRecvStfdata = None, mStf = None, mRecvStfSenderId = []\<rparr>"

definition ReceivedStfMeta_info :: "nat \<Rightarrow> u64 \<Rightarrow> Origin \<Rightarrow> string \<Rightarrow> received_data \<Rightarrow> ReceivedStfMeta" where
  "ReceivedStfMeta_info now sid og sender d = \<lparr>mType = META_INFO, mStfId = sid, mStfOrigin = og,
     mTimeReceived = now, mRecvStfdata = Some d, mStf = None, mRecvStfSenderId = sender\<rparr>"

record StfRequests =
  rqStfSenderId :: string
  rqStfDataSize :: u64
  rqStfId :: u64

type_synonym stf_request_item = "u64 \<times> bool \<times> u64 \<times> StfRequests list"

record TfBuilderRpc =
  rpRunning :: bool
  rpTerminateRequested :: bool
  rpAcceptingTfs :: bool
  rpMaxNumReqInFlight :: int
  rpNumReqInFlight :: int
  rpStfInputQueue :: "string cqueue"
  rpReceivedDataQueue :: "ReceivedStfMeta cqueue"
  rpStfRequestQueue :: "stf_request_item cqueue"
  rpTopoStfId :: u64
  rpTopoTfIdRenameMap :: "(string, (u64, u64) smap) smap"
  rpStfsCountMap :: "(u64, u64) smap"
  rpStfReqDuration :: "(u64, (string, nat) smap) smap"
  rpTfIdSizes :: "(u64, u64) smap"
  rpBufferSize :: u64
  rpCurrentTfBufferSize :: u64
  rpLastBuiltTfId :: u64
  rpNumBufferedTfs :: u32
  rpNumTfsInBuilding :: int

definition rpc_new :: TfBuilderRpc where
  "rpc_new = \<lparr>rpRunning = False, rpTerminateRequested = False, rpAcceptingTfs = False,
     rpMaxNumReqInFlight = 64, rpNumReqInFlight = 0, rpStfInputQueue = cq_init,
     rpReceivedDataQueue = cq_init, rpStfRequestQueue = cq_init, rpTopoStfId = 1,
     rpTopoTfIdRenameMap = [], rpStfsCountMap = [], rpStfReqDuration = [], rpTfIdSizes = [],
     rpBufferSize = 0, rpCurrentTfBufferSize = 0, rpLastBuiltTfId = 0, rpNumBufferedTfs = 0,
     rpNumTfsInBuilding = 0\<rparr>"

text \<open>\<open>start\<close>: \<open>retry\<close>, \<open>sched\<close> and \<open>clients\<close> are what the scheduler and StfSender clients answer.\<close>

definition rpc_start :: "u64 \<Rightarrow> bool \<Rightarrow> bool \<Rightarrow> bool \<Rightarrow> TfBuilderRpc \<Rightarrow> bool \<times> TfBuilderRpc" where
  "rpc_start bsize retry sched clients s0 =
     (let s = s0\<lparr>rpBufferSize := bsize, rpCurrentTfBufferSize := bsize\<rparr>
      in if \<not> retry then (False, s\<lparr>rpTerminateRequested := True\<rparr>)
         else if \<not> sched then (False, s)
         else if \<not> clients then (False, s)
         else (True, s\<lparr>rpRunning := True\<rparr>))"

definition reset_run_counters :: "TfBuilderRpc \<Rightarrow> TfBuilderRpc" where
  "reset_run_counters s =
     s\<lparr>rpTfIdSizes := [], rpCurrentTfBufferSize := rpBufferSize s, rpLastBuiltTfId := 0,
       rpNumBufferedTfs := 0, rpNumTfsInBuilding := 0, rpTopoStfId := 1, rpTopoTfIdRenameMap := []\<rparr>"

section \<open>Updates for the scheduler\<close>

text \<open>\<open>freeData\<close>: free memory of the data region.\<close>

definition sendTfBuilderUpdate :: "BasicInfo \<Rightarrow> u64 \<Rightarrow> TfBuilderRpc \<Rightarrow> TfBuilderUpdateMessage" where
  "sendTfBuilderUpdate info freeData s =
     \<lparr>tbu_info = info\<lparr>process_state := (if rpAcceptingTfs s then PROC_RUNNING else PROC_NOT_RUNNING)\<rparr>,
      last_built_tf_id = rpLastBuiltTfId s, free_memory = min (rpCurrentTfBufferSize s) freeData,
      num_buffered_tfs = rpNumBufferedTfs s, num_tfs_in_building = of_int (rpNumTfsInBuilding s)\<rparr>"

definition startAcceptingTfs :: "BasicInfo \<Rightarrow> u64 \<Rightarrow> TfBuilderRpc \<Rightarrow> TfBuilderUpdateMessage \<times> TfBuilderRpc" where
  "startAcceptingTfs info freeData s0 =
     (let s = s0\<lparr>rpAcceptingTfs := True\<rparr> in (sendTfBuilderUpdate info freeData s, s))"

definition stopAcceptingTfs :: "BasicInfo \<Rightarrow> u64 \<Rightarrow> TfBuilderRpc \<Rightarrow> TfBuilderUpdateMessage \<times> TfBuilderRpc" where
  "stopAcceptingTfs info freeData s0 =
     (let s = s0\<lparr>rpAcceptingTfs := False\<rparr> in (sendTfBuilderUpdate info freeData s, s))"

definition UpdateSendingThread_pass :: "BasicInfo \<Rightarrow> u64 \<Rightarrow> TfBuilderRpc \<Rightarrow> TfBuilderUpdateMessage \<times> TfBuilderRpc" where
  "UpdateSendingThread_pass info freeData s =
     (if rpRunning s \<and> rpTerminateRequested s then stopAcceptingTfs info freeData s
      else (sendTfBuilderUpdate info freeData s, s))"

definition rpc_stop :: "BasicInfo \<Rightarrow> u64 \<Rightarrow> TfBuilderRpc \<Rightarrow> TfBuilderRpc" where
  "rpc_stop info freeData s = reset_run_counters (snd (stopAcceptingTfs info freeData (s\<lparr>rpRunning := False\<rparr>)))"

section \<open>Buffer accounting\<close>

definition recordTfBuilt :: "frame_t \<Rightarrow> TfBuilderRpc \<Rightarrow> bool \<times> TfBuilderRpc" where
  "recordTfBuilt tf s =
     (if \<not> rpRunning s then (False, s)
      else
        let sz = fst (getDataSize tf); tid = hId (stfHeader tf)
        in (True, s\<lparr>rpCurrentTfBufferSize :=
               (if sz \<le> rpCurrentTfBufferSize s then rpCurrentTfBufferSize s - sz else 0),
             rpNumTfsInBuilding := max 0 (rpNumTfsInBuilding s - 1),
             rpTfIdSizes := sm_put tid sz (rpTfIdSizes s),
             rpNumBufferedTfs := rpNumBufferedTfs s + 1,
             rpLastBuiltTfId := max (rpLastBuiltTfId s) tid,
             rpStfReqDuration := sm_del tid (rpStfReqDuration s)\<rparr>))"

definition recordTfForwarded :: "u64 \<Rightarrow> TfBuilderRpc \<Rightarrow> bool \<times> TfBuilderRpc" where
  "recordTfForwarded tid s =
     (if \<not> rpRunning s then (False, s)
      else case sm_get (rpTfIdSizes s) tid of
        None \<Rightarrow> (False, s)
      | Some sz \<Rightarrow>
          (True, s\<lparr>rpCurrentTfBufferSize := rpCurrentTfBufferSize s + sz,
             rpTfIdSizes := sm_del tid (rpTfIdSizes s),
             rpNumBufferedTfs := rpNumBufferedTfs s - 1\<rparr>))"

section \<open>Requests\<close>

definition push_meta :: "ReceivedStfMeta \<Rightarrow> TfBuilderRpc \<Rightarrow> TfBuilderRpc" where
  "push_meta m s = s\<lparr>rpReceivedDataQueue := snd (cq_push eFIFO m (rpReceivedDataQueue s))\<rparr>"

text \<open>The requests of a time frame, the largest STF last.\<close>

definition stf_requests :: "TfBuildingInformation \<Rightarrow> StfRequests list" where
  "stf_requests req =
     sort_key rqStfDataSize
       (map (\<lambda>e. \<lparr>rqStfSenderId = fst e, rqStfDataSize = snd e, rqStfId = tf_id req\<rparr>) (stf_size_map req))"

definition topo_rename :: "string \<Rightarrow> u64 \<Rightarrow> TfBuilderRpc \<Rightarrow> TfBuilderRpc" where
  "topo_rename sender tid s =
     push_meta (ReceivedStfMeta_type META_ADD (rpTopoStfId s))
       (s\<lparr>rpTopoTfIdRenameMap :=
            sm_put sender (sm_put tid (rpTopoStfId s) (sm_at [] (rpTopoTfIdRenameMap s) sender))
              (rpTopoTfIdRenameMap s),
          rpTopoStfId := rpTopoStfId s + 1\<rparr>)"

text \<open>\<open>None\<close>: a topological request without a StfSender, \<open>begin()\<close> of an empty map is read.\<close>

definition BuildTfRequest :: "TfBuildingInformation \<Rightarrow> TfBuilderRpc \<Rightarrow>
    (TfBuildingStatus \<times> TfBuilderRpc) option" where
  "BuildTfRequest req s =
     (if \<not> rpRunning s \<or> rpTerminateRequested s then Some (BTF_ERROR_NOT_RUNNING, s)
      else if tf_size req > rpCurrentTfBufferSize s then Some (BTF_ERROR_NOMEM, s)
      else
        let s1 = s\<lparr>rpNumTfsInBuilding := rpNumTfsInBuilding s + 1\<rparr>;
            topo = (tf_source req = SRC_TOPOLOGICAL); rid = (if topo then rpTopoStfId s else tf_id req);
            queue = (\<lambda>s2. s2\<lparr>rpStfRequestQueue :=
              snd (cq_push eFIFO (tf_id req, topo, rid, stf_requests req) (rpStfRequestQueue s2))\<rparr>)
        in if topo then
             (case stf_size_map req of
                [] \<Rightarrow> None
              | e # _ \<Rightarrow> Some (BTF_OK, queue (topo_rename (fst e) (tf_id req) s1)))
           else Some (BTF_OK, queue (push_meta (ReceivedStfMeta_type META_ADD (tf_id req)) s1)))"

definition tfb_TerminatePartition :: "TfBuilderRpc \<Rightarrow> PartitionState \<times> TfBuilderRpc" where
  "tfb_TerminatePartition s = (PARTITION_TERMINATING, s\<lparr>rpTerminateRequested := True\<rparr>)"

definition getNumberOfStfs :: "u64 \<Rightarrow> TfBuilderRpc \<Rightarrow> u64 option" where
  "getNumberOfStfs tid s = sm_get (rpStfsCountMap s) tid"

definition setNumberOfStfs :: "u64 \<Rightarrow> u64 option \<Rightarrow> TfBuilderRpc \<Rightarrow> TfBuilderRpc" where
  "setNumberOfStfs tid n s =
     (case n of
        None \<Rightarrow> s\<lparr>rpStfsCountMap := sm_del tid (rpStfsCountMap s)\<rparr>
      | Some k \<Rightarrow> s\<lparr>rpStfsCountMap := sm_put tid k (rpStfsCountMap s)\<rparr>)"

text \<open>An identifier that is not in the map reads as 0.\<close>

definition getIdForTopoTf :: "string \<Rightarrow> u64 \<Rightarrow> TfBuilderRpc \<Rightarrow> u64 \<times> TfBuilderRpc" where
  "getIdForTopoTf sender tid s =
     (let sub = sm_at [] (rpTopoTfIdRenameMap s) sender
      in (sm_at 0 sub tid,
          s\<lparr>rpTopoTfIdRenameMap := sm_put sender (sm_del tid sub) (rpTopoTfIdRenameMap s)\<rparr>))"

definition recordStfReceived :: "nat \<Rightarrow> string \<Rightarrow> u64 \<Rightarrow> TfBuilderRpc \<Rightarrow> nat \<times> TfBuilderRpc" where
  "recordStfReceived now sender tid s =
     (let sub = sm_at [] (rpStfReqDuration s) tid; start = sm_at 0 sub sender
      in (now - start,
          s\<lparr>rpNumReqInFlight := rpNumReqInFlight s - 1,
            rpStfReqDuration := sm_put tid (sm_put sender start sub) (rpStfReqDuration s)\<rparr>))"

section \<open>The request thread\<close>

record RequestJob =
  jbTfId :: u64
  jbIsTopo :: bool
  jbTfRenamedId :: u64
  jbReqVector :: "StfRequests list"
  jbNumExpectedStfs :: u64
  jbStfSenderIdTopo :: string

text \<open>The next time frame; \<open>None\<close> when none arrives in time. The option is clamped.\<close>

definition req_take :: "u64 \<Rightarrow> TfBuilderRpc \<Rightarrow> RequestJob option \<times> TfBuilderRpc" where
  "req_take maxOpt s =
     (case cq_try_pop (rpStfRequestQueue s) of
        (None, q) \<Rightarrow> (None, s)
      | (Some (tid, topo, rid, v), q) \<Rightarrow>
          (Some \<lparr>jbTfId = tid, jbIsTopo = topo, jbTfRenamedId = rid, jbReqVector = v,
             jbNumExpectedStfs = 0,
             jbStfSenderIdTopo = (if topo then (case v of [] \<Rightarrow> [] | r # _ \<Rightarrow> rqStfSenderId r) else [])\<rparr>,
           s\<lparr>rpStfRequestQueue := q,
             rpMaxNumReqInFlight := int (unat (std_clamp maxOpt 10 200))\<rparr>))"

text \<open>The index of the request: the branch with the weighted choice tests \<open>lIdx > 8\<close> where
  \<open>lIdx\<close> is 0, so the choice is always uniform.\<close>

definition req_index :: "u64 \<Rightarrow> StfRequests list \<Rightarrow> nat" where
  "req_index rnd v = unat (rnd mod of_nat (length v))"

text \<open>One iteration of the inner loop; the answer of the StfSender is \<open>None\<close> on a gRPC error.
  The first component is the request that was sent.\<close>

definition req_iteration :: "u64 \<Rightarrow> nat \<Rightarrow> StfDataStatus option \<Rightarrow> RequestJob \<Rightarrow> TfBuilderRpc \<Rightarrow>
    StfRequests option \<times> RequestJob \<times> TfBuilderRpc" where
  "req_iteration rnd now answer job s =
     (if \<not> rpRunning s \<or> jbReqVector job = [] then (None, job, s)
      else if rpNumReqInFlight s \<ge> rpMaxNumReqInFlight s then (None, job, s)
      else
        let v = jbReqVector job; i = req_index rnd v; r = v ! i;
            job1 = job\<lparr>jbReqVector := take i v @ drop (i + 1) v\<rparr>;
            s1 = s\<lparr>rpStfReqDuration := sm_put (jbTfId job)
              (sm_put (rqStfSenderId r) now (sm_at [] (rpStfReqDuration s) (jbTfId job)))
              (rpStfReqDuration s)\<rparr>
        in if answer = Some DATA_OK then
             (Some r, job1\<lparr>jbNumExpectedStfs := jbNumExpectedStfs job + 1\<rparr>,
              s1\<lparr>rpStfInputQueue := snd (cq_push eFIFO (rqStfSenderId r) (rpStfInputQueue s)),
                 rpNumReqInFlight := rpNumReqInFlight s + 1\<rparr>)
           else (Some r, job1, s1))"

text \<open>After the loop: the number of STFs is published, then the time frame is deleted if no
  StfSender was reached. Another thread can run in between.\<close>

definition req_publish :: "RequestJob \<Rightarrow> TfBuilderRpc \<Rightarrow> TfBuilderRpc" where
  "req_publish job s =
     setNumberOfStfs (if \<not> jbIsTopo job then jbTfId job else jbTfRenamedId job)
       (Some (jbNumExpectedStfs job)) s"

definition req_cleanup :: "RequestJob \<Rightarrow> TfBuilderRpc \<Rightarrow> TfBuilderRpc" where
  "req_cleanup job s =
     (if jbNumExpectedStfs job = 0 then
        if jbIsTopo job then
          push_meta (ReceivedStfMeta_type META_DELETE (jbTfRenamedId job))
            (s\<lparr>rpTopoTfIdRenameMap := sm_put (jbStfSenderIdTopo job)
                 (sm_del (jbTfId job) (sm_at [] (rpTopoTfIdRenameMap s) (jbStfSenderIdTopo job)))
                 (rpTopoTfIdRenameMap s)\<rparr>)
        else push_meta (ReceivedStfMeta_type META_DELETE (jbTfId job)) s
      else s)"

end
