(* ===== verification/Tfb_Input.thy ===== *)
theory Tfb_Input
  imports Tfb_Rpc Transport_Ucx
begin

text \<open>
  The input of the TfBuilder, \<open>TfBuilder/TfBuilderInput.{h,cxx}\<close>, with the receiving threads of
  \<open>TfBuilderInputFairMQ.{h,cxx}\<close> and \<open>TfBuilderInputUCX.{h,cxx}\<close>, and the forwarding thread of
  \<open>TfBuilderDevice.cxx\<close>: pacing, deserialising and merging of the STFs of a time frame.

  Each function is one iteration of a thread. \<open>None\<close> is undefined behaviour of the code: a null
  pointer or the first element of an empty vector is read.
\<close>

record TfBuilderInput =
  inRunning :: bool
  inRpc :: TfBuilderRpc
  inStfMergeMap :: "(u64, ReceivedStfMeta list) smap"
  inMaxMergedTfId :: u64
  inStfsForMerging :: "ReceivedStfMeta list cqueue"
  inOut :: "frame_t cqueue"

definition input_reset :: "TfBuilderInput \<Rightarrow> TfBuilderInput" where
  "input_reset s =
     s\<lparr>inRpc := (inRpc s)\<lparr>rpReceivedDataQueue := snd (cq_flush (rpReceivedDataQueue (inRpc s)))\<rparr>,
       inStfsForMerging := snd (cq_flush (inStfsForMerging s)), inStfMergeMap := [],
       inMaxMergedTfId := 0\<rparr>"

text \<open>\<open>start\<close> and the queue operations of \<open>stop\<close>. What the start of the transport answered
  (\<open>connected\<close>) is not looked at.\<close>

definition input_start :: "bool option \<Rightarrow> BasicInfo \<Rightarrow> u64 \<Rightarrow> TfBuilderInput \<Rightarrow> TfBuilderInput" where
  "input_start connected info freeData s =
     (let r = (inRpc s)\<lparr>rpReceivedDataQueue := cq_start (rpReceivedDataQueue (inRpc s))\<rparr>
      in s\<lparr>inRunning := True, inRpc := snd (startAcceptingTfs info freeData r), inStfMergeMap := [],
           inStfsForMerging := cq_start (inStfsForMerging s)\<rparr>)"

definition input_stop :: "BasicInfo \<Rightarrow> u64 \<Rightarrow> TfBuilderInput \<Rightarrow> TfBuilderInput" where
  "input_stop info freeData s =
     (let r = snd (stopAcceptingTfs info freeData (inRpc s))
      in s\<lparr>inRunning := False,
           inRpc := r\<lparr>rpReceivedDataQueue := cq_stop (rpReceivedDataQueue r)\<rparr>,
           inStfMergeMap := [], inStfsForMerging := cq_stop (inStfsForMerging s)\<rparr>)"

section \<open>Connecting to the StfSenders\<close>

text \<open>The answers of the scheduler to the connection request, one per attempt (\<open>None\<close>: the call
  failed). The result is \<open>None\<close> while the answers do not end the loop.\<close>

fun connection_loop :: "(ConnStatus \<times> 'c) option list \<Rightarrow> 'c option option" where
  "connection_loop [] = None"
| "connection_loop (None # as) = Some None"
| "connection_loop (Some (st, c) # as) =
     (if st = ERROR_STF_SENDERS_NOT_READY then connection_loop as
      else if st = ERROR_PARTITION_TERMINATING then Some None
      else if st \<noteq> CONN_OK then Some None
      else Some (Some c))"

text \<open>The sockets of the FairMQ input: \<open>addr i\<close> is the address of socket \<open>i\<close>, \<open>bound i\<close> says that
  it could be bound and validated. The result says whether all were.\<close>

fun bind_sockets :: "(u32 \<Rightarrow> string) \<Rightarrow> (u32 \<Rightarrow> bool) \<Rightarrow> nat \<Rightarrow> nat \<Rightarrow> (u32, TfBuilderSocket) smap \<Rightarrow>
    bool \<times> (u32, TfBuilderSocket) smap" where
  "bind_sockets addr bound i 0 m = (True, m)"
| "bind_sockets addr bound i (Suc n) m =
     (let ix = of_nat i
      in if \<not> bound ix then (False, m)
         else bind_sockets addr bound (i + 1) n
           (sm_put ix \<lparr>sock_idx = ix, sock_endpoint = addr ix,
              sock_peer_id = (case sm_get m ix of None \<Rightarrow> [] | Some k \<Rightarrow> sock_peer_id k)\<rparr> m))"

definition set_peer :: "u32 \<times> string \<Rightarrow> (u32, TfBuilderSocket) smap \<Rightarrow> (u32, TfBuilderSocket) smap" where
  "set_peer e m =
     sm_put (fst e) ((sm_at \<lparr>sock_idx = 0, sock_endpoint = [], sock_peer_id = []\<rparr> m (fst e))
       \<lparr>sock_peer_id := snd e\<rparr>) m"

definition fmq_input_start :: "u32 option \<Rightarrow> (u32 \<Rightarrow> string) \<Rightarrow> (u32 \<Rightarrow> bool) \<Rightarrow> bool \<Rightarrow>
    (ConnStatus \<times> (u32, string) smap) option list \<Rightarrow> TfBuilderConfigStatus \<Rightarrow>
    bool option \<times> (u32 \<times> string) list \<times> TfBuilderConfigStatus" where
  "fmq_input_start num addr bound written answers st0 =
     (let st = st0\<lparr>sockets_enabled := False\<rparr>
      in case num of
           None \<Rightarrow> (Some False, [], st)
         | Some n \<Rightarrow>
             if n = 0 \<or> n = - 1 then (Some False, [], st)
             else
               let (ok, m) = bind_sockets addr bound 0 (unat n) (sockets_map st); st1 = st\<lparr>sockets_map := m\<rparr>
               in if \<not> ok then (Some False, [], st1)
                  else
                    let st2 = st1\<lparr>sockets_enabled := True\<rparr>
                    in if \<not> written then (Some False, [], st2)
                       else case connection_loop answers of
                         None \<Rightarrow> (None, [], st2)
                       | Some None \<Rightarrow> (Some False, [], st2)
                       | Some (Some c) \<Rightarrow>
                           (Some True, c, st2\<lparr>sockets_map := fold set_peer c m\<rparr>))"

text \<open>The UCX input. The calls of UCX answer whether they succeeded: the context, the mapped receive
  buffer, the worker, the listener; \<open>port\<close> is the port the listener was given.\<close>

datatype InputRunState = CONFIGURING | RUNNING | TERMINATED

record UcxInput =
  uiState :: InputRunState
  uiConnRequests :: "(string \<times> u32) cqueue"
  uiConnMap :: "(string, bool) smap"
  uiStopRequested :: bool

definition tfb_ucx_pool_size :: "u64 \<Rightarrow> u64 \<Rightarrow> u64" where
  "tfb_ucx_pool_size opt hw = (let n = std_clamp opt 0 256 in max 16 (if n = 0 then hw else n))"

definition ucx_input_start :: "bool \<Rightarrow> bool \<Rightarrow> bool \<Rightarrow> bool \<Rightarrow> u32 option \<Rightarrow> bool \<Rightarrow> u32 option \<Rightarrow>
    (ConnStatus \<times> unit) option list \<Rightarrow> string \<Rightarrow> TfBuilderConfigStatus \<Rightarrow> UcxInput \<Rightarrow>
    bool option \<times> TfBuilderConfigStatus \<times> UcxInput" where
  "ucx_input_start ctx mapped worker listener prt written num answers ipaddr st0 u =
     (let st = st0\<lparr>ucx_enabled := False\<rparr>
      in if \<not> ctx \<or> \<not> mapped \<or> \<not> worker \<or> \<not> listener then (Some False, st, u)
         else case prt of
           None \<Rightarrow> (Some False, st, u)
         | Some pn \<Rightarrow>
             let st1 = st\<lparr>ucx_listen_ep := \<lparr>ip = ipaddr, port = pn\<rparr>, ucx_enabled := True\<rparr>
             in if \<not> written then (Some False, st1, u)
                else case num of
                  None \<Rightarrow> (Some False, st1, u)
                | Some n \<Rightarrow>
                    if n = 0 \<or> n = - 1 then (Some False, st1, u)
                    else case connection_loop answers of
                      None \<Rightarrow> (None, st1, u)
                    | Some None \<Rightarrow> (Some False, st1, u)
                    | Some (Some c) \<Rightarrow> (Some True, st1, u\<lparr>uiState := RUNNING\<rparr>))"

definition new_conn_handle :: "(string \<times> u32) option \<Rightarrow> UcxInput \<Rightarrow> UcxInput" where
  "new_conn_handle q u =
     (case q of
        None \<Rightarrow> u
      | Some r \<Rightarrow>
          if uiState u \<noteq> CONFIGURING then u
          else u\<lparr>uiConnRequests := snd (cq_push eFIFO r (uiConnRequests u))\<rparr>)"

text \<open>One iteration of the listener thread: \<open>made\<close> says that worker and endpoint were created,
  \<open>sender\<close> is the identifier received.\<close>

definition listener_step :: "bool \<Rightarrow> string option \<Rightarrow> UcxInput \<Rightarrow> UcxInput" where
  "listener_step made sender u =
     (if uiState u \<noteq> CONFIGURING then u
      else case cq_try_pop (uiConnRequests u) of
        (None, q) \<Rightarrow> u
      | (Some r, q) \<Rightarrow>
          let u1 = u\<lparr>uiConnRequests := q\<rparr>
          in if \<not> made then u1
             else (case sender of None \<Rightarrow> u1
                   | Some sid \<Rightarrow> u1\<lparr>uiConnMap := sm_put sid False (uiConnMap u1)\<rparr>))"

text \<open>A connection error stops the whole input, once; the second component says so.\<close>

definition tfb_client_ep_error :: "string \<Rightarrow> UcxInput \<Rightarrow> bool \<times> UcxInput" where
  "tfb_client_ep_error sid u =
     (let u1 = (if sm_has (uiConnMap u) sid then u\<lparr>uiConnMap := sm_put sid True (uiConnMap u)\<rparr> else u)
      in (\<not> uiStopRequested u, u1\<lparr>uiStopRequested := True\<rparr>))"

definition ucx_input_stop :: "BasicInfo \<Rightarrow> u64 \<Rightarrow> UcxInput \<Rightarrow> TfBuilderRpc \<Rightarrow> UcxInput \<times> TfBuilderRpc" where
  "ucx_input_stop info freeData u r =
     (let r1 = snd (stopAcceptingTfs info freeData r)
      in (u\<lparr>uiState := TERMINATED, uiConnMap := []\<rparr>,
          r1\<lparr>rpStfInputQueue := cq_stop (rpStfInputQueue r1)\<rparr>))"

section \<open>Receiving\<close>

text \<open>One STF received by FairMQ: the last message is the metadata. Errors and timeouts of the
  channel skip the iteration and are not modelled.\<close>

definition fmq_stf_receive :: "nat \<Rightarrow> string \<Rightarrow> received_data \<Rightarrow> TfBuilderRpc \<Rightarrow> TfBuilderRpc" where
  "fmq_stf_receive now sender d s =
     (let h = peek_tf_header (fst d)
      in push_meta (ReceivedStfMeta_info now (hId h) (hOrigin h) sender d)
           (snd (recordStfReceived now sender (hId h) s)))"

text \<open>One request served by a thread of the UCX pool: \<open>conns\<close> are the connections with their
  error flag, \<open>rcvd\<close> is the metadata received, if any. The result says whether the thread goes on.\<close>

definition ucx_receive_step :: "(string, bool) smap \<Rightarrow>
    ((string, string) IovStfHdrMeta \<times> 'k ucx_pack) option \<Rightarrow>
    ('k \<Rightarrow> u64 \<Rightarrow> u64 \<Rightarrow> fmq_message option) \<Rightarrow> nat \<Rightarrow> TfBuilderRpc \<Rightarrow> bool \<times> TfBuilderRpc" where
  "ucx_receive_step conns rcvd rma now s =
     (case cq_pop (rpStfInputQueue s) of
        (Blocked, q) \<Rightarrow> (True, s)
      | (Stopped, q) \<Rightarrow> (False, s)
      | (Popped sender, q) \<Rightarrow>
          let s1 = s\<lparr>rpStfInputQueue := q\<rparr>
          in (case sm_get conns sender of
                None \<Rightarrow> (True, s1)
              | Some err \<Rightarrow>
                  if err then (True, s1)
                  else case rcvd of
                    None \<Rightarrow> (True, s1)
                  | Some (m, pk) \<Rightarrow>
                      (case ucx_receive rma pk of
                         None \<Rightarrow> (False, s1)
                       | Some ds \<Rightarrow>
                           (True, push_meta
                             (ReceivedStfMeta_info now (hm_stf_id m) (hOrigin (peek_tf_header m)) sender (m, ds))
                             (snd (recordStfReceived now sender (hm_stf_id m) s1))))))"

section \<open>Pacing\<close>

text \<open>The STF of a topological time frame is deserialised and renamed.\<close>

definition rename_topo :: "bool \<Rightarrow> u64 \<Rightarrow> ReceivedStfMeta \<Rightarrow> TfBuilderRpc \<Rightarrow>
    (ReceivedStfMeta \<times> TfBuilderRpc) option" where
  "rename_topo hdr_ok now m r =
     (if mStfOrigin m \<noteq> eReadoutTopology then Some (m, r)
      else case mRecvStfdata m of
        None \<Rightarrow> None
      | Some (h, ds) \<Rightarrow>
          (case iov_deserialize hdr_ok now h ds of
             Inl _ \<Rightarrow> None
           | Inr f \<Rightarrow>
               let (tid, r') = getIdForTopoTf (mRecvStfSenderId m) (mStfId m) r
               in Some (m\<lparr>mStf := Some (updateId tid f), mRecvStfdata := None, mStfId := tid\<rparr>, r')))"

definition pacing_step :: "bool \<Rightarrow> u64 \<Rightarrow> TfBuilderInput \<Rightarrow> TfBuilderInput option" where
  "pacing_step hdr_ok now s =
     (if \<not> inRunning s then Some s
      else case cq_pop (rpReceivedDataQueue (inRpc s)) of
        (Popped m, q) \<Rightarrow>
          let s1 = s\<lparr>inRpc := (inRpc s)\<lparr>rpReceivedDataQueue := q\<rparr>\<rparr>; mm = inStfMergeMap s1
          in (case mType m of
                META_ADD \<Rightarrow> Some (s1\<lparr>inStfMergeMap := sm_put (mStfId m) (sm_at [] mm (mStfId m)) mm\<rparr>)
              | META_DELETE \<Rightarrow> Some (s1\<lparr>inStfMergeMap := sm_del (mStfId m) mm\<rparr>)
              | META_INFO \<Rightarrow>
                  (case rename_topo hdr_ok now m (inRpc s1) of
                     None \<Rightarrow> None
                   | Some (m', r) \<Rightarrow>
                       let tid = mStfId m'; s2 = s1\<lparr>inRpc := r\<rparr>
                       in if tid > inMaxMergedTfId s2 then
                            Some (s2\<lparr>inStfMergeMap := sm_put tid (sm_at [] mm tid @ [m']) mm\<rparr>)
                          else Some (s2\<lparr>inStfMergeMap := sm_del tid mm\<rparr>)))
      | _ \<Rightarrow> Some s)"

section \<open>Deserialising\<close>

fun deserialize_headers :: "(string \<Rightarrow> bool) \<Rightarrow> u64 \<Rightarrow> ReceivedStfMeta list \<Rightarrow> ReceivedStfMeta list option" where
  "deserialize_headers hdr_ok now [] = Some []"
| "deserialize_headers hdr_ok now (m # v) =
     (if mStf m \<noteq> None then map_option ((#) m) (deserialize_headers hdr_ok now v)
      else case mRecvStfdata m of
        None \<Rightarrow> None
      | Some (h, ds) \<Rightarrow>
          (case iov_deserialize (hdr_ok (mRecvStfSenderId m)) now h ds of
             Inl DeserOutOfRange \<Rightarrow> None
           | Inl DeserFailed \<Rightarrow>
               map_option ((#) (m\<lparr>mRecvStfdata := None\<rparr>)) (deserialize_headers hdr_ok now v)
           | Inr f \<Rightarrow>
               map_option ((#) (m\<lparr>mStf := Some f, mRecvStfdata := None\<rparr>)) (deserialize_headers hdr_ok now v)))"

text \<open>Only the time frame with the smallest identifier is considered.\<close>

definition deserializing_step :: "(string \<Rightarrow> bool) \<Rightarrow> u64 \<Rightarrow> TfBuilderInput \<Rightarrow> TfBuilderInput option" where
  "deserializing_step hdr_ok now s =
     (if \<not> inRunning s then Some s
      else case inStfMergeMap s of
        [] \<Rightarrow> Some s
      | (tid, v0) # mm \<Rightarrow>
          (case deserialize_headers hdr_ok now v0 of
             None \<Rightarrow> None
           | Some v \<Rightarrow>
               let stored = s\<lparr>inStfMergeMap := (tid, v) # mm\<rparr>
               in (case getNumberOfStfs tid (inRpc s) of
                     None \<Rightarrow> Some stored
                   | Some n \<Rightarrow>
                       if of_nat (length v) = n then
                         Some (s\<lparr>inStfsForMerging := snd (cq_push eFIFO v (inStfsForMerging s)),
                           inStfMergeMap := mm, inRpc := setNumberOfStfs tid None (inRpc s)\<rparr>)
                       else Some stored)))"

section \<open>Merging\<close>

fun merge_rest :: "ReceivedStfMeta list \<Rightarrow> frame_t \<Rightarrow> frame_t option" where
  "merge_rest [] tf = Some tf"
| "merge_rest (m # v) tf =
     (case mStf m of None \<Rightarrow> None | Some f \<Rightarrow> merge_rest v (snd (mergeStf f tf)))"

definition merger_step :: "TfBuilderInput \<Rightarrow> TfBuilderInput option" where
  "merger_step s =
     (if \<not> inRunning s then Some s
      else case cq_pop (inStfsForMerging s) of
        (Popped v, q) \<Rightarrow>
          let s1 = s\<lparr>inStfsForMerging := q\<rparr>
          in (case v of
                [] \<Rightarrow> None
              | m # rest \<Rightarrow>
                  (case mStf m of
                     None \<Rightarrow> Some s1
                   | Some seed \<Rightarrow>
                       (case merge_rest rest seed of
                          None \<Rightarrow> None
                        | Some tf \<Rightarrow>
                            Some (s1\<lparr>inMaxMergedTfId := max (inMaxMergedTfId s) (hId (stfHeader tf)),
                              inRpc := snd (recordTfBuilt tf (inRpc s)),
                              inOut := snd (cq_push eFIFO (snd (getDataSize tf)) (inOut s))\<rparr>))))
      | _ \<Rightarrow> Some s)"

section \<open>Forwarding\<close>

text \<open>One iteration of \<open>TfForwardThread\<close> while the device runs; \<open>run\<close> is \<open>mInRunningState\<close>, \<open>eos\<close>
  is \<open>mShouldSendEos\<close>. The adapter for DPL exists only when the device is not standalone. The
  frame given to DPL is the second component.\<close>

record TfForward =
  fwStandalone :: bool
  fwInRunningState :: bool
  fwShouldSendEos :: bool
  fwTotalDataSize :: u64
  fwTotalTfCount :: u64

definition forward_step :: "TfForward \<Rightarrow> TfBuilderInput \<Rightarrow>
    (TfForward \<times> frame_t option \<times> TfBuilderInput) option" where
  "forward_step d s =
     (if \<not> cqRunning (inOut s) then Some (d, None, s)
      else
        let (tfo, q) = cq_try_pop (inOut s); s1 = s\<lparr>inOut := q\<rparr>
        in if \<not> fwInRunningState d then
             (if fwShouldSendEos d then
                (if fwStandalone d then None else Some (d\<lparr>fwShouldSendEos := False\<rparr>, None, s1))
              else Some (d, None, s1))
           else (case tfo of
               None \<Rightarrow> Some (d, None, s1)
             | Some tf \<Rightarrow>
                 Some (d\<lparr>fwTotalDataSize := fwTotalDataSize d + fst (getDataSize tf),
                         fwTotalTfCount := fwTotalTfCount d + 1\<rparr>,
                   (if fwStandalone d then None else Some tf),
                   s1\<lparr>inRpc := snd (recordTfForwarded (hId (stfHeader tf)) (inRpc s1))\<rparr>)))"

text \<open>The start and the end of a run.\<close>

definition tfb_PreRun :: "BasicInfo \<Rightarrow> u64 \<Rightarrow> TfForward \<Rightarrow> TfBuilderInput \<Rightarrow> TfForward \<times> TfBuilderInput" where
  "tfb_PreRun info freeData d s =
     (let s1 = input_reset s
      in (d\<lparr>fwTotalDataSize := 0, fwTotalTfCount := 0, fwInRunningState := True\<rparr>,
          s1\<lparr>inRpc := snd (startAcceptingTfs info freeData (reset_run_counters (inRpc s1)))\<rparr>))"

definition tfb_PostRun :: "BasicInfo \<Rightarrow> u64 \<Rightarrow> TfForward \<Rightarrow> TfBuilderInput \<Rightarrow> TfForward \<times> TfBuilderInput" where
  "tfb_PostRun info freeData d s =
     (d\<lparr>fwShouldSendEos := True, fwInRunningState := False\<rparr>,
      s\<lparr>inRpc := snd (startAcceptingTfs info freeData (snd (stopAcceptingTfs info freeData (inRpc s))))\<rparr>)"

end
