(* ===== verification/Tfb_Input_Props.thy ===== *)
theory Tfb_Input_Props
  imports Tfb_Input Transport_Iov_Props
begin

text \<open>
  The TfBuilder over all interleavings of its threads and requests (\<open>tbs_step\<close>, \<open>tbs_reach\<close>): the
  accounting of the buffer, the request thread; the content of the time frames it merges; and
  the places where the code has no defined behaviour.
\<close>

section \<open>Interleavings\<close>

text \<open>What the recorded sizes are short of: built frames that exceeded the buffer, and sizes
  overwritten by a second frame with the same identifier. The requests of the current job, and
  those sent with their answer.\<close>

record tfb_log =
  tlOver :: u64
  tlDup :: u64
  tlJob :: "StfRequests list"
  tlAsked :: "(StfRequests \<times> StfDataStatus option) list"

text \<open>The request thread is idle, in its loop, or has published the number of STFs.\<close>

datatype job_state = JobIdle | JobLoop RequestJob | JobPublished RequestJob

record tfb_system =
  tsInput :: TfBuilderInput
  tsJob :: job_state
  tsForward :: TfForward
  tsLog :: tfb_log

definition log_built :: "frame_t \<Rightarrow> TfBuilderRpc \<Rightarrow> tfb_log \<Rightarrow> tfb_log" where
  "log_built tf r l =
     (if \<not> rpRunning r then l
      else
        let sz = fst (getDataSize tf)
        in l\<lparr>tlOver := tlOver l + (if sz \<le> rpCurrentTfBufferSize r then 0 else sz - rpCurrentTfBufferSize r),
             tlDup := tlDup l + sm_at 0 (rpTfIdSizes r) (hId (stfHeader tf))\<rparr>)"

text \<open>The frame a merge builds, for the log.\<close>

definition merged_frame :: "TfBuilderInput \<Rightarrow> frame_t option" where
  "merged_frame s =
     (if \<not> inRunning s then None
      else case cq_pop (inStfsForMerging s) of
        (Popped (m # rest), q) \<Rightarrow> (case mStf m of None \<Rightarrow> None | Some seed \<Rightarrow> merge_rest rest seed)
      | _ \<Rightarrow> None)"

definition with_rpc :: "TfBuilderRpc \<Rightarrow> tfb_system \<Rightarrow> tfb_system" where
  "with_rpc r t = t\<lparr>tsInput := (tsInput t)\<lparr>inRpc := r\<rparr>\<rparr>"

inductive tbs_step :: "tfb_system \<Rightarrow> tfb_system \<Rightarrow> bool" where
  ts_build: "BuildTfRequest req (inRpc (tsInput t)) = Some (st, r) \<Longrightarrow> tbs_step t (with_rpc r t)"
| ts_take: "tsJob t = JobIdle \<Longrightarrow> req_take opt (inRpc (tsInput t)) = (Some job, r) \<Longrightarrow>
    length (jbReqVector job) < 2 ^ 64 \<Longrightarrow>
    tbs_step t ((with_rpc r t)\<lparr>tsJob := JobLoop job,
      tsLog := (tsLog t)\<lparr>tlJob := jbReqVector job, tlAsked := []\<rparr>\<rparr>)"
| ts_iteration: "tsJob t = JobLoop job \<Longrightarrow>
    req_iteration rnd now answer job (inRpc (tsInput t)) = (q, job', r) \<Longrightarrow>
    tbs_step t ((with_rpc r t)\<lparr>tsJob := JobLoop job',
      tsLog := (tsLog t)\<lparr>tlAsked := tlAsked (tsLog t) @ (case q of None \<Rightarrow> [] | Some x \<Rightarrow> [(x, answer)])\<rparr>\<rparr>)"
| ts_publish: "tsJob t = JobLoop job \<Longrightarrow> \<not> rpRunning (inRpc (tsInput t)) \<or> jbReqVector job = [] \<Longrightarrow>
    tbs_step t ((with_rpc (req_publish job (inRpc (tsInput t))) t)\<lparr>tsJob := JobPublished job\<rparr>)"
| ts_cleanup: "tsJob t = JobPublished job \<Longrightarrow>
    tbs_step t ((with_rpc (req_cleanup job (inRpc (tsInput t))) t)\<lparr>tsJob := JobIdle\<rparr>)"
| ts_receive: "tbs_step t (with_rpc (fmq_stf_receive now sender d (inRpc (tsInput t))) t)"
| ts_receive_ucx: "ucx_receive_step conns rcvd (rma :: u8 list \<Rightarrow> _) now (inRpc (tsInput t)) = (b, r) \<Longrightarrow>
    tbs_step t (with_rpc r t)"
| ts_pacing: "pacing_step ok now' (tsInput t) = Some s \<Longrightarrow> tbs_step t (t\<lparr>tsInput := s\<rparr>)"
| ts_deserialize: "deserializing_step oks now' (tsInput t) = Some s \<Longrightarrow> tbs_step t (t\<lparr>tsInput := s\<rparr>)"
| ts_merge: "merger_step (tsInput t) = Some s \<Longrightarrow>
    tbs_step t (t\<lparr>tsInput := s, tsLog := (case merged_frame (tsInput t) of None \<Rightarrow> tsLog t
       | Some tf \<Rightarrow> log_built tf (inRpc (tsInput t)) (tsLog t))\<rparr>)"
| ts_forward: "forward_step (tsForward t) (tsInput t) = Some (d, out, s) \<Longrightarrow>
    tbs_step t (t\<lparr>tsInput := s, tsForward := d\<rparr>)"
| ts_update: "UpdateSendingThread_pass info free (inRpc (tsInput t)) = (m, r) \<Longrightarrow> tbs_step t (with_rpc r t)"
| ts_terminate: "tbs_step t (with_rpc (snd (tfb_TerminatePartition (inRpc (tsInput t)))) t)"
| ts_prerun: "tfb_PreRun info free (tsForward t) (tsInput t) = (d, s) \<Longrightarrow>
    tbs_step t (t\<lparr>tsInput := s, tsForward := d, tsLog := (tsLog t)\<lparr>tlOver := 0, tlDup := 0\<rparr>\<rparr>)"
| ts_postrun: "tfb_PostRun info free (tsForward t) (tsInput t) = (d, s) \<Longrightarrow>
    tbs_step t (t\<lparr>tsInput := s, tsForward := d\<rparr>)"
| ts_stop: "tbs_step t (t\<lparr>tsInput := input_stop info free (tsInput t)\<rparr>)"
| ts_rpc_stop: "tbs_step t ((with_rpc (rpc_stop info free (inRpc (tsInput t))) t)
    \<lparr>tsLog := (tsLog t)\<lparr>tlOver := 0, tlDup := 0\<rparr>\<rparr>)"

definition tbs_start :: "bool option \<Rightarrow> u64 \<Rightarrow> bool \<Rightarrow> BasicInfo \<Rightarrow> u64 \<Rightarrow> tfb_system" where
  "tbs_start connected bsize standalone info free =
     \<lparr>tsInput = input_start connected info free
        \<lparr>inRunning = False, inRpc = snd (rpc_start bsize True True True rpc_new), inStfMergeMap = [],
         inMaxMergedTfId = 0, inStfsForMerging = cq_init, inOut = cq_init\<rparr>,
      tsJob = JobIdle,
      tsForward = \<lparr>fwStandalone = standalone, fwInRunningState = False, fwShouldSendEos = False,
        fwTotalDataSize = 0, fwTotalTfCount = 0\<rparr>,
      tsLog = \<lparr>tlOver = 0, tlDup = 0, tlJob = [], tlAsked = []\<rparr>\<rparr>"

inductive tbs_reach :: "tfb_system \<Rightarrow> bool" where
  reach_start: "tbs_reach (tbs_start connected bsize standalone info free)"
| reach_step: "tbs_reach t \<Longrightarrow> tbs_step t u \<Longrightarrow> tbs_reach u"

section \<open>Buffer accounting\<close>

text \<open>The fields the accounting reads, and the operations that leave them alone.\<close>

definition acct :: "TfBuilderRpc \<Rightarrow> u64 \<times> u64 \<times> (u64, u64) smap \<times> u32" where
  "acct r = (rpCurrentTfBufferSize r, rpBufferSize r, rpTfIdSizes r, rpNumBufferedTfs r)"

lemma acct_simps [simp]:
  "acct (push_meta m r) = acct r"
  "acct (topo_rename sender tid r) = acct r"
  "acct (setNumberOfStfs tid n r) = acct r"
  "acct (snd (getIdForTopoTf sender tid r)) = acct r"
  "acct (snd (recordStfReceived now sender tid r)) = acct r"
  "acct (req_publish job r) = acct r"
  "acct (req_cleanup job r) = acct r"
  "acct (snd (startAcceptingTfs info free r)) = acct r"
  "acct (snd (stopAcceptingTfs info free r)) = acct r"
  "acct (snd (UpdateSendingThread_pass info free r)) = acct r"
  "acct (snd (tfb_TerminatePartition r)) = acct r"
  "acct (fmq_stf_receive now sender d r) = acct r"
  "acct (r\<lparr>rpReceivedDataQueue := q\<rparr>) = acct r"
  by (simp_all add: acct_def push_meta_def topo_rename_def setNumberOfStfs_def getIdForTopoTf_def
      recordStfReceived_def req_publish_def req_cleanup_def startAcceptingTfs_def stopAcceptingTfs_def
      UpdateSendingThread_pass_def tfb_TerminatePartition_def fmq_stf_receive_def Let_def split: option.splits)

lemma acct_build: "BuildTfRequest req r = Some (st, r') \<Longrightarrow> acct r' = acct r"
  by (auto simp: BuildTfRequest_def Let_def acct_def topo_rename_def push_meta_def
      split: if_splits list.splits)

lemma acct_take: "acct (snd (req_take opt r)) = acct r"
  by (auto simp: req_take_def acct_def split: prod.splits option.splits)

lemma acct_iteration: "acct (snd (snd (req_iteration rnd now answer job r))) = acct r"
  by (simp add: req_iteration_def acct_def Let_def)

lemma acct_ucx: "acct (snd (ucx_receive_step conns rcvd rma now r)) = acct r"
proof -
  have s1: "acct (r\<lparr>rpStfInputQueue := q\<rparr>) = acct r" for q by (simp add: acct_def)
  show ?thesis
    by (cases "cq_pop (rpStfInputQueue r)")
      (auto simp: ucx_receive_step_def Let_def s1 split: pop_result.splits option.splits prod.splits)
qed

lemma acct_pacing: "pacing_step ok now s = Some s' \<Longrightarrow> acct (inRpc s') = acct (inRpc s)"
proof -
  assume p: "pacing_step ok now s = Some s'"
  have rn: "acct r' = acct r" if "rename_topo ok now m r = Some (m', r')" for m m' r r'
    using that by (auto simp: rename_topo_def Let_def case_prod_unfold split: if_splits option.splits sum.splits)
  show ?thesis
    using p by (auto simp: pacing_step_def Let_def rn split: if_splits prod.splits pop_result.splits
        MetaType.splits option.splits)
qed

lemma acct_deserializing: "deserializing_step oks now s = Some s' \<Longrightarrow> acct (inRpc s') = acct (inRpc s)"
  by (auto simp: deserializing_step_def Let_def split: if_splits list.splits option.splits)

definition acct_ok :: "TfBuilderRpc \<Rightarrow> tfb_log \<Rightarrow> bool" where
  "acct_ok r l \<longleftrightarrow> sm_wf (rpTfIdSizes r) \<and>
     rpCurrentTfBufferSize r + sum_list (map snd (rpTfIdSizes r)) + tlDup l = rpBufferSize r + tlOver l"

lemma acct_ok_cong: "acct r' = acct r \<Longrightarrow> tlOver l' = tlOver l \<Longrightarrow> tlDup l' = tlDup l \<Longrightarrow>
    acct_ok r l \<Longrightarrow> acct_ok r' l'"
  by (simp add: acct_ok_def acct_def)

lemma sum_put: "sm_wf m \<Longrightarrow> sum_list (map snd (sm_put k v m)) + sm_at 0 m k = sum_list (map snd m) + (v :: u64)"
  using sum_sm_put [of m "\<lambda>x. x" k v] by (simp add: sm_at_def)

lemma sum_del: "sm_wf m \<Longrightarrow> sm_get m k = Some v \<Longrightarrow>
    sum_list (map snd (sm_del k m)) + v = sum_list (map snd (m :: (u64, u64) smap))"
  using sum_sm_del [of m "\<lambda>x. x" k] by simp

lemma acct_built:
  assumes "acct_ok r l" shows "acct_ok (snd (recordTfBuilt tf r)) (log_built tf r l)"
proof (cases "rpRunning r")
  case False
  then show ?thesis using assms by (simp add: recordTfBuilt_def log_built_def)
next
  case True
  let ?sz = "fst (getDataSize tf)" and ?i = "hId (stfHeader tf)"
  have w: "sm_wf (rpTfIdSizes r)" and
    e: "rpCurrentTfBufferSize r + sum_list (map snd (rpTfIdSizes r)) + tlDup l = rpBufferSize r + tlOver l"
    using assms by (simp_all add: acct_ok_def)
  have s: "sum_list (map snd (sm_put ?i ?sz (rpTfIdSizes r)))
      = sum_list (map snd (rpTfIdSizes r)) + ?sz - sm_at 0 (rpTfIdSizes r) ?i"
    using sum_put [OF w, of ?i ?sz] by (simp add: eq_diff_eq)
  show ?thesis
    using True w e by (simp add: acct_ok_def recordTfBuilt_def log_built_def Let_def s algebra_simps)
qed

lemma acct_forwarded:
  assumes "acct_ok r l" shows "acct_ok (snd (recordTfForwarded tid r)) l"
proof (cases "rpRunning r \<and> sm_get (rpTfIdSizes r) tid \<noteq> None")
  case False
  then show ?thesis using assms by (auto simp: recordTfForwarded_def split: option.splits)
next
  case True
  then obtain v where v: "rpRunning r" "sm_get (rpTfIdSizes r) tid = Some v" by auto
  have w: "sm_wf (rpTfIdSizes r)" using assms by (simp add: acct_ok_def)
  have "sum_list (map snd (rpTfIdSizes r)) = sum_list (map snd (sm_del tid (rpTfIdSizes r))) + v"
    using sum_del [OF w v(2)] by simp
  then show ?thesis using assms v by (simp add: acct_ok_def recordTfForwarded_def ac_simps)
qed

lemma merger_cases:
  assumes "merger_step s = Some s'"
  shows "(merged_frame s = None \<and> inRpc s' = inRpc s) \<or>
    (\<exists>tf. merged_frame s = Some tf \<and> inRpc s' = snd (recordTfBuilt tf (inRpc s)))"
  using assms
  by (auto simp: merger_step_def merged_frame_def Let_def split: if_splits prod.splits pop_result.splits
      list.splits option.splits)

lemma forward_rpc:
  assumes "forward_step d s = Some (d', out, s')"
  shows "inRpc s' = inRpc s \<or> (\<exists>tid. inRpc s' = snd (recordTfForwarded tid (inRpc s)))"
  using assms
  by (auto simp: forward_step_def Let_def split: if_splits prod.splits option.splits)

lemma acct_reset: "acct_ok (reset_run_counters r) (l\<lparr>tlOver := 0, tlDup := 0\<rparr>)"
  by (simp add: acct_ok_def reset_run_counters_def)

definition acct_state :: "tfb_system \<Rightarrow> bool" where
  "acct_state t \<longleftrightarrow> acct_ok (inRpc (tsInput t)) (tsLog t)"

lemma acct_state_cong:
  assumes "acct_state t" "acct (inRpc (tsInput u)) = acct (inRpc (tsInput t))"
    "tlOver (tsLog u) = tlOver (tsLog t)" "tlDup (tsLog u) = tlDup (tsLog t)"
  shows "acct_state u"
  using acct_ok_cong [OF assms(2-4)] assms(1) by (simp add: acct_state_def)

lemma with_rpc_simps [simp]: "inRpc (tsInput (with_rpc r t)) = r" "tsLog (with_rpc r t) = tsLog t"
  "tsJob (with_rpc r t) = tsJob t"
  by (simp_all add: with_rpc_def)

lemma snd_eq: "f = (a, b) \<Longrightarrow> snd f = b"
  by simp

lemma step_acct: "tbs_step t u \<Longrightarrow> acct_state t \<Longrightarrow> acct_state u"
proof (induction rule: tbs_step.induct)
  case (ts_build req t st r)
  show ?case by (rule acct_state_cong [OF ts_build(2)]) (simp_all add: acct_build [OF ts_build(1)])
next
  case (ts_take t opt job r)
  show ?case using acct_take [of opt "inRpc (tsInput t)"]
    by (intro acct_state_cong [OF ts_take(4)]) (simp_all add: ts_take(2))
next
  case (ts_iteration t job rnd now answer q job' r)
  show ?case using acct_iteration [of rnd now answer job "inRpc (tsInput t)"]
    by (intro acct_state_cong [OF ts_iteration(3)]) (simp_all add: ts_iteration(2))
next
  case (ts_publish t job)
  show ?case by (rule acct_state_cong [OF ts_publish(3)]) simp_all
next
  case (ts_cleanup t job)
  show ?case by (rule acct_state_cong [OF ts_cleanup(2)]) simp_all
next
  case (ts_receive t now sender d)
  show ?case by (rule acct_state_cong [OF ts_receive]) simp_all
next
  case (ts_receive_ucx conns rcvd rma now t b r)
  show ?case using acct_ucx [of conns rcvd rma now "inRpc (tsInput t)"]
    by (intro acct_state_cong [OF ts_receive_ucx(2)]) (simp_all add: ts_receive_ucx(1))
next
  case (ts_pacing ok now' t s)
  show ?case by (rule acct_state_cong [OF ts_pacing(2)]) (simp_all add: acct_pacing [OF ts_pacing(1)])
next
  case (ts_deserialize oks now' t s)
  show ?case
    by (rule acct_state_cong [OF ts_deserialize(2)]) (simp_all add: acct_deserializing [OF ts_deserialize(1)])
next
  case (ts_merge t s)
  from merger_cases [OF ts_merge(1)] show ?case
    using ts_merge(2) acct_built by (auto simp: acct_state_def)
next
  case (ts_forward t d out s)
  from forward_rpc [OF ts_forward(1)] show ?case
    using ts_forward(2) acct_forwarded by (auto simp: acct_state_def)
next
  case (ts_update info free t m r)
  have "acct r = acct (inRpc (tsInput t))" using acct_simps(10) [of info free "inRpc (tsInput t)"] ts_update(1) by simp
  then show ?case by (intro acct_state_cong [OF ts_update(2)]) simp_all
next
  case (ts_terminate t)
  show ?case by (rule acct_state_cong [OF ts_terminate]) simp_all
next
  case (ts_prerun info free t d s)
  have "s = snd (tfb_PreRun info free (tsForward t) (tsInput t))" using ts_prerun(1) by simp
  then have "acct (inRpc s) = acct (reset_run_counters (inRpc (input_reset (tsInput t))))"
    by (simp add: tfb_PreRun_def Let_def)
  then show ?case
    using acct_ok_cong [OF _ refl refl acct_reset] by (simp add: acct_state_def)
next
  case (ts_postrun info free t d s)
  have "s = snd (tfb_PostRun info free (tsForward t) (tsInput t))" using ts_postrun(1) by simp
  then have "acct (inRpc s) = acct (inRpc (tsInput t))" by (simp add: tfb_PostRun_def)
  then show ?case by (intro acct_state_cong [OF ts_postrun(2)]) simp_all
next
  case (ts_stop t info free)
  show ?case by (rule acct_state_cong [OF ts_stop]) (simp_all add: input_stop_def Let_def)
next
  case (ts_rpc_stop t info free)
  show ?case using acct_reset by (simp add: acct_state_def rpc_stop_def)
qed

lemma reach_acct: "tbs_reach t \<Longrightarrow> acct_state t"
proof (induction rule: tbs_reach.induct)
  case (reach_start connected bsize standalone info free)
  show ?case
    by (simp add: acct_state_def acct_ok_def tbs_start_def input_start_def startAcceptingTfs_def
        rpc_start_def rpc_new_def Let_def)
next
  case (reach_step t u)
  then show ?case using step_acct by blast
qed

section \<open>The request thread\<close>





lemma running_record [simp]:
  "rpRunning (snd (recordTfBuilt tf r)) = rpRunning r" "rpRunning (snd (recordTfForwarded tid r)) = rpRunning r"
  by (simp_all add: recordTfBuilt_def recordTfForwarded_def Let_def split: option.splits)









lemma log_built_job [simp]: "tlJob (log_built tf r l) = tlJob l" "tlAsked (log_built tf r l) = tlAsked l"
  by (simp_all add: log_built_def Let_def)



section \<open>Properties\<close>

text \<open>C15. Buffer accounting of the TfBuilder, over all interleavings: the free buffer size plus the
  recorded sizes of the time frames not yet forwarded is the buffer size, plus what built time
  frames exceeded the buffer by, less the sizes lost because a second time frame was built with
  the identifier of one not yet forwarded. So after an overrun the free size exceeds the size of
  the buffer once all time frames have been forwarded.\<close>

theorem buffer_accounting:
  assumes "tbs_reach t"
  shows "rpCurrentTfBufferSize (inRpc (tsInput t)) + sum_list (map snd (rpTfIdSizes (inRpc (tsInput t))))
      + tlDup (tsLog t) = rpBufferSize (inRpc (tsInput t)) + tlOver (tsLog t)"
  using reach_acct [OF assms] by (simp add: acct_state_def acct_ok_def)


text \<open>An execution: a time frame with one StfSender, whose STF of three bytes arrives, is merged
  and forwarded; the buffer has two bytes.\<close>

definition ex_info :: BasicInfo where
  "ex_info = \<lparr>bi_type = ProcTfBuilder, process_id = [], last_update_t = 0, process_state = PROC_RUNNING\<rparr>"

definition ex_request :: TfBuildingInformation where
  "ex_request = \<lparr>tf_id = 5, tf_size = 2, stf_size_map = [(''s'', 2)], tf_source = SRC_DEFAULT\<rparr>"

definition ex_received :: received_data where
  "ex_received = (\<lparr>hm_stf_id = 5, hm_stf_size = 3, stf_dd_header = (Header_new 5)\<lparr>hOrigin := eReadout\<rparr>,
     stf_hdr_iov = [\<lparr>hdr_data = \<lparr>dhDescription = ''RAWDATA'', dhOrigin = ''TPC'', dhSubSpecification = 7,
       splitPayloadIndex = 0, splitPayloadParts = 1, firstTForbit = 0, tfCounter = 5, runNumber = 0\<rparr>,
       num_data_parts = 1\<rparr>]\<rparr>, [[1, 2, 3]])"

definition ex_pace :: "tfb_system \<Rightarrow> tfb_system" where
  "ex_pace t = t\<lparr>tsInput := the (pacing_step True 0 (tsInput t))\<rparr>"

definition ex_deser :: "tfb_system \<Rightarrow> tfb_system" where
  "ex_deser t = t\<lparr>tsInput := the (deserializing_step (\<lambda>_. True) 0 (tsInput t))\<rparr>"

definition ex_merge :: "tfb_system \<Rightarrow> tfb_system" where
  "ex_merge t = t\<lparr>tsInput := the (merger_step (tsInput t)),
     tsLog := (case merged_frame (tsInput t) of None \<Rightarrow> tsLog t
       | Some tf \<Rightarrow> log_built tf (inRpc (tsInput t)) (tsLog t))\<rparr>"

definition ex_build :: "tfb_system \<Rightarrow> tfb_system" where
  "ex_build t = with_rpc (snd (the (BuildTfRequest ex_request (inRpc (tsInput t))))) t"

definition ex_take :: "tfb_system \<Rightarrow> tfb_system" where
  "ex_take t = (let (j, r) = req_take 100 (inRpc (tsInput t))
     in (with_rpc r t)\<lparr>tsJob := JobLoop (the j),
          tsLog := (tsLog t)\<lparr>tlJob := jbReqVector (the j), tlAsked := []\<rparr>\<rparr>)"

definition ex_job :: "tfb_system \<Rightarrow> RequestJob" where
  "ex_job t = (case tsJob t of JobLoop j \<Rightarrow> j | JobPublished j \<Rightarrow> j)"

definition ex_ask :: "StfDataStatus option \<Rightarrow> tfb_system \<Rightarrow> tfb_system" where
  "ex_ask answer t = (case req_iteration 0 0 answer (ex_job t) (inRpc (tsInput t)) of
     (q, j, r) \<Rightarrow> (with_rpc r t)\<lparr>tsJob := JobLoop j,
       tsLog := (tsLog t)\<lparr>tlAsked := tlAsked (tsLog t) @ (case q of None \<Rightarrow> [] | Some x \<Rightarrow> [(x, answer)])\<rparr>\<rparr>)"

definition ex_publish :: "tfb_system \<Rightarrow> tfb_system" where
  "ex_publish t = (with_rpc (req_publish (ex_job t) (inRpc (tsInput t))) t)\<lparr>tsJob := JobPublished (ex_job t)\<rparr>"

lemma ex_pace_reach: "tbs_reach t \<Longrightarrow> pacing_step True 0 (tsInput t) \<noteq> None \<Longrightarrow> tbs_reach (ex_pace t)"
  unfolding ex_pace_def by (rule reach_step, assumption, rule ts_pacing) auto

lemma ex_deser_reach:
  "tbs_reach t \<Longrightarrow> deserializing_step (\<lambda>_. True) 0 (tsInput t) \<noteq> None \<Longrightarrow> tbs_reach (ex_deser t)"
  unfolding ex_deser_def by (rule reach_step, assumption, rule ts_deserialize) auto

lemma ex_merge_reach: "tbs_reach t \<Longrightarrow> merger_step (tsInput t) \<noteq> None \<Longrightarrow> tbs_reach (ex_merge t)"
  unfolding ex_merge_def by (rule reach_step, assumption, rule ts_merge) auto

lemma ex_build_reach:
  "tbs_reach t \<Longrightarrow> BuildTfRequest ex_request (inRpc (tsInput t)) \<noteq> None \<Longrightarrow> tbs_reach (ex_build t)"
  using reach_step [OF _ ts_build] unfolding ex_build_def by fastforce

lemma ex_take_reach:
  assumes "tbs_reach t" "tsJob t = JobIdle" "fst (req_take 100 (inRpc (tsInput t))) \<noteq> None"
    "length (jbReqVector (the (fst (req_take 100 (inRpc (tsInput t)))))) < 2"
  shows "tbs_reach (ex_take t)"
proof -
  obtain j r where "req_take 100 (inRpc (tsInput t)) = (Some j, r)"
    using assms(3) by (cases "req_take 100 (inRpc (tsInput t))") auto
  then show ?thesis
    using reach_step [OF assms(1) ts_take [OF assms(2)]] assms(4) by (simp add: ex_take_def)
qed

lemma ex_ask_reach: "tbs_reach t \<Longrightarrow> tsJob t = JobLoop j \<Longrightarrow> tbs_reach (ex_ask answer t)"
  using reach_step [OF _ ts_iteration] by (auto simp: ex_ask_def ex_job_def split: prod.splits)

lemma ex_publish_reach:
  "tbs_reach t \<Longrightarrow> tsJob t = JobLoop j \<Longrightarrow> jbReqVector j = [] \<Longrightarrow> tbs_reach (ex_publish t)"
  using reach_step [OF _ ts_publish] by (auto simp: ex_publish_def ex_job_def)

definition ex_asked :: "StfDataStatus option \<Rightarrow> tfb_system" where
  "ex_asked answer = ex_publish (ex_ask answer (ex_pace (ex_take (ex_build (tbs_start (Some True) 2 True ex_info 0)))))"

lemma ex_asked_reach:
  assumes "answer = Some DATA_OK \<or> answer = None" shows "tbs_reach (ex_asked answer)"
proof -
  let ?t = "ex_pace (ex_take (ex_build (tbs_start (Some True) 2 True ex_info 0)))"
  have b: "tbs_reach (ex_build (tbs_start (Some True) 2 True ex_info 0))"
    by (rule ex_build_reach [OF reach_start]) code_simp
  have t: "tbs_reach (ex_take (ex_build (tbs_start (Some True) 2 True ex_info 0)))"
    by (rule ex_take_reach [OF b]) code_simp+
  have p: "tbs_reach ?t" by (rule ex_pace_reach [OF t]) code_simp
  have j: "tsJob ?t = JobLoop (ex_job ?t)" by code_simp
  have "tsJob (ex_ask (Some DATA_OK) ?t) = JobLoop (ex_job (ex_ask (Some DATA_OK) ?t))"
    "jbReqVector (ex_job (ex_ask (Some DATA_OK) ?t)) = []" by code_simp+
  moreover have "tsJob (ex_ask None ?t) = JobLoop (ex_job (ex_ask None ?t))"
    "jbReqVector (ex_job (ex_ask None ?t)) = []" by code_simp+
  ultimately have "tsJob (ex_ask answer ?t) = JobLoop (ex_job (ex_ask answer ?t)) \<and>
      jbReqVector (ex_job (ex_ask answer ?t)) = []" using assms by auto
  then show ?thesis
    unfolding ex_asked_def using ex_publish_reach [OF ex_ask_reach [OF p j]] by blast
qed


definition ex_merged :: tfb_system where
  "ex_merged = ex_merge (ex_deser (ex_pace
     (with_rpc (fmq_stf_receive 0 ''s'' ex_received (inRpc (tsInput (ex_asked (Some DATA_OK)))))
       (ex_asked (Some DATA_OK)))))"

lemma ex_merged_reach: "tbs_reach ex_merged"
proof -
  let ?a = "ex_asked (Some DATA_OK)"
  let ?r = "with_rpc (fmq_stf_receive 0 ''s'' ex_received (inRpc (tsInput ?a))) ?a"
  have r: "tbs_reach ?r" by (rule reach_step [OF ex_asked_reach ts_receive]) simp
  have p: "tbs_reach (ex_pace ?r)" by (rule ex_pace_reach [OF r]) code_simp
  have d: "tbs_reach (ex_deser (ex_pace ?r))" by (rule ex_deser_reach [OF p]) code_simp
  show ?thesis unfolding ex_merged_def by (rule ex_merge_reach [OF d]) code_simp
qed

theorem buffer_accounting_witness:
  "rpTfIdSizes (inRpc (tsInput ex_merged)) = [(5, 3)] \<and> rpBufferSize (inRpc (tsInput ex_merged)) = 2 \<and>
   rpCurrentTfBufferSize (inRpc (tsInput ex_merged)) + 3 = 2 + tlOver (tsLog ex_merged)"
proof -
  have "rpTfIdSizes (inRpc (tsInput ex_merged)) = [(5, 3)]" "rpBufferSize (inRpc (tsInput ex_merged)) = 2"
    "tlDup (tsLog ex_merged) = 0" by code_simp+
  then show ?thesis using buffer_accounting [OF ex_merged_reach] by simp
qed

end
