(* ===== verification/Tfb_Merge_Props.thy ===== *)
theory Tfb_Merge_Props
  imports Tfb_Input_Props
begin

text \<open>
  What the merger thread builds from the STFs of one time frame, what the accounting records for
  it, and executions that reach undefined behaviour.
\<close>

section \<open>Merging the STFs of a time frame\<close>

text \<open>A frame as the deserialiser makes it: well-formed, and without data when it is a null frame.\<close>

definition stf_ok :: "frame_t \<Rightarrow> bool" where
  "stf_ok f \<longleftrightarrow> accounted f \<and> (hOrigin (stfHeader f) = OriginNull \<longrightarrow> stfData f = [])"

definition stf_of :: "ReceivedStfMeta \<Rightarrow> frame_t" where
  "stf_of m = the (mStf m)"

definition merge_ok :: "ReceivedStfMeta \<Rightarrow> bool" where
  "merge_ok m \<longleftrightarrow> mStf m \<noteq> None \<and> stf_ok (stf_of m)"

lemma null_merge:
  assumes "stf_ok p" "hOrigin (stfHeader p) = OriginNull"
  shows "snd (mergeStf p f) = f"
proof -
  have "stfDataSize (updateStf p) = 0"
    using updateStf_data(2) [of p] assms by (simp add: stf_ok_def map_bytes_def)
  then show ?thesis using assms(2) by (simp add: mergeStf_def Let_def)
qed

lemma merge_one:
  assumes p: "stf_ok p"
  shows "vec_at (stfData (snd (mergeStf p f))) di ss = vec_at (stfData f) di ss @ vec_at (stfData p) di ss"
    and "map_bytes (stfData (snd (mergeStf p f))) = map_bytes (stfData f) + map_bytes (stfData p)"
    and "map_wf (stfData f) \<Longrightarrow> map_wf (stfData (snd (mergeStf p f)))"
    and "stfDataUpdated (snd (mergeStf p f)) = stfDataUpdated f"
    and "stfDataSize (snd (mergeStf p f)) = stfDataSize f"
    and "hOrigin (stfHeader f) \<noteq> OriginNull \<Longrightarrow> stfHeader (snd (mergeStf p f)) = stfHeader f"
proof -
  have wf: "map_wf (stfData p)" using p by (simp add: stf_ok_def accounted_def)
  have e: "vec_at (stfData p) di ss = [] \<and> map_bytes (stfData p) = 0" if "hOrigin (stfHeader p) = OriginNull"
    using p that by (simp add: stf_ok_def map_bytes_def)
  show "vec_at (stfData (snd (mergeStf p f))) di ss = vec_at (stfData f) di ss @ vec_at (stfData p) di ss"
    using null_merge [OF p, of f] mergeStf_at(1) [OF wf, of f di ss] e by fastforce
  show "map_bytes (stfData (snd (mergeStf p f))) = map_bytes (stfData f) + map_bytes (stfData p)"
    using null_merge [OF p, of f] mergeStf_at(2) [OF wf, of f] e by fastforce
  show "map_wf (stfData f) \<Longrightarrow> map_wf (stfData (snd (mergeStf p f)))" by (rule mergeStf_wf)
  show "stfDataUpdated (snd (mergeStf p f)) = stfDataUpdated f" by (rule mergeStf_updated)
  show "stfDataSize (snd (mergeStf p f)) = stfDataSize f" by (simp add: mergeStf_def Let_def)
  show "hOrigin (stfHeader f) \<noteq> OriginNull \<Longrightarrow> stfHeader (snd (mergeStf p f)) = stfHeader f"
    by (simp add: mergeStf_def Let_def)
qed

lemma merge_rest_content:
  assumes "list_all merge_ok rest"
  shows "\<exists>g. merge_rest rest f = Some g \<and>
    (\<forall>di ss. vec_at (stfData g) di ss
       = vec_at (stfData f) di ss @ concat (map (\<lambda>m. vec_at (stfData (stf_of m)) di ss) rest)) \<and>
    map_bytes (stfData g) = map_bytes (stfData f) + (\<Sum>m\<leftarrow>rest. map_bytes (stfData (stf_of m))) \<and>
    (map_wf (stfData f) \<longrightarrow> map_wf (stfData g)) \<and> stfDataUpdated g = stfDataUpdated f \<and>
    stfDataSize g = stfDataSize f \<and>
    (hOrigin (stfHeader f) \<noteq> OriginNull \<longrightarrow> stfHeader g = stfHeader f)"
  using assms
proof (induction rest arbitrary: f)
  case Nil
  then show ?case by simp
next
  case (Cons m rest)
  then have m: "mStf m = Some (stf_of m)" "stf_ok (stf_of m)" by (auto simp: merge_ok_def stf_of_def)
  let ?f = "snd (mergeStf (stf_of m) f)"
  note one = merge_one [OF m(2), of f]
  obtain g where g: "merge_rest rest ?f = Some g"
    "\<forall>di ss. vec_at (stfData g) di ss
       = vec_at (stfData ?f) di ss @ concat (map (\<lambda>m. vec_at (stfData (stf_of m)) di ss) rest)"
    "map_bytes (stfData g) = map_bytes (stfData ?f) + (\<Sum>m\<leftarrow>rest. map_bytes (stfData (stf_of m)))"
    "map_wf (stfData ?f) \<longrightarrow> map_wf (stfData g)" "stfDataUpdated g = stfDataUpdated ?f"
    "stfDataSize g = stfDataSize ?f"
    "hOrigin (stfHeader ?f) \<noteq> OriginNull \<longrightarrow> stfHeader g = stfHeader ?f"
    using Cons.IH [of ?f] Cons.prems by auto
  have "\<forall>di ss. vec_at (stfData g) di ss
      = vec_at (stfData f) di ss @ concat (map (\<lambda>m. vec_at (stfData (stf_of m)) di ss) (m # rest))"
    using g(2) one(1) by simp
  moreover have "merge_rest (m # rest) f = Some g" using g(1) m(1) by simp
  moreover have "map_bytes (stfData g)
      = map_bytes (stfData f) + (\<Sum>m\<leftarrow>m # rest. map_bytes (stfData (stf_of m)))"
    using g(3) one(2) by simp
  moreover have "hOrigin (stfHeader f) \<noteq> OriginNull \<longrightarrow> stfHeader g = stfHeader f"
    using g(7) one(6) by simp
  ultimately show ?case using g(4-6) one(3-5) by auto
qed

lemma merger_step_frame:
  assumes "inRunning s" "mContainer (inStfsForMerging s) = (m # rest) # vs"
    and "mStf m = Some seed" "merge_rest rest seed = Some tf"
  shows "merger_step s = Some (s\<lparr>inStfsForMerging := (inStfsForMerging s)\<lparr>mContainer := vs\<rparr>,
    inMaxMergedTfId := max (inMaxMergedTfId s) (hId (stfHeader tf)),
    inRpc := snd (recordTfBuilt tf (inRpc s)),
    inOut := snd (cq_push eFIFO (snd (getDataSize tf)) (inOut s))\<rparr>)"
  using assms by (simp add: merger_step_def cq_pop_def Let_def)



text \<open>An STF with three bytes, two of which are merged.\<close>

definition ex_stf_tpc :: frame_t where
  "ex_stf_tpc = setOrigin eReadout (snd (addStfDataStart (''RAWDATA'', ''TPC'') 7
     \<lparr>sdHeader = Some \<lparr>dhDescription = ''RAWDATA'', dhOrigin = ''TPC'', dhSubSpecification = 7,
        splitPayloadIndex = 0, splitPayloadParts = 0, firstTForbit = 0, tfCounter = 0, runNumber = 0\<rparr>,
      sdData = [1, 2, 3]\<rparr> (SubTimeFrame_new 5 9)))"

definition ex_meta :: "frame_t \<Rightarrow> ReceivedStfMeta" where
  "ex_meta f = (ReceivedStfMeta_type META_INFO 9)\<lparr>mStf := Some f\<rparr>"

definition ex_merger :: "ReceivedStfMeta list \<Rightarrow> TfBuilderInput" where
  "ex_merger v = \<lparr>inRunning = True, inRpc = snd (rpc_start 100 True True True rpc_new), inStfMergeMap = [],
     inMaxMergedTfId = 0, inStfsForMerging = \<lparr>mContainer = [v], cqRunning = True\<rparr>, inOut = cq_init\<rparr>"

lemma ex_stf_tpc_facts:
  "stf_reach ex_stf_tpc" "hOrigin (stfHeader ex_stf_tpc) = eReadout" "\<not> stfDataUpdated ex_stf_tpc"
  "map_bytes (stfData ex_stf_tpc) = 3" "hId (stfHeader ex_stf_tpc) = 9"
proof -
  show "stf_reach ex_stf_tpc"
    unfolding ex_stf_tpc_def
    by (rule stf_reach.reach_op [OF stf_reach.reach_op [OF stf_reach.reach_new op_start] op_origin])
qed (simp_all add: ex_stf_tpc_def setOrigin_def addStfDataStart_def SubTimeFrame_new_def Header_new_def
      vec_set_def push_part_def map_bytes_def sub_bytes_def vec_bytes_def message_bytes_def message_size_def)

lemma ex_merger_facts:
  "inRunning (ex_merger v)" "rpRunning (inRpc (ex_merger v))" "cqRunning (inOut (ex_merger v))"
  "mContainer (inStfsForMerging (ex_merger v)) = [v]" "rpCurrentTfBufferSize (inRpc (ex_merger v)) = 100"
  by (simp_all add: ex_merger_def rpc_start_def rpc_new_def cq_init_def Let_def)

lemma ex_meta_ok: "stf_of (ex_meta f) = f" "accounted f \<Longrightarrow> hOrigin (stfHeader f) = eReadout \<Longrightarrow> merge_ok (ex_meta f)"
  by (simp_all add: merge_ok_def ex_meta_def stf_of_def stf_ok_def)


text \<open>An STF without data that is the first of its time frame makes the size of the time frame
  wrong: the deserialiser sizes the new frame before it adds data, and merging does not mark the
  frame as changed, so the time frame built contains the data of all other STFs, but size 0 is
  recorded for it and nothing is taken from the buffer.\<close>

theorem null_seed_stale:
  assumes run: "inRunning s" "rpRunning (inRpc s)" "cqRunning (inOut s)"
    and q: "mContainer (inStfsForMerging s) = (m # rest) # vs"
    and empty: "stf_messages (updateStf f0) = []" "fst (iov_serialize f0) = (h, ds)"
    and seed: "iov_deserialize True now h ds = Inr seed" "mStf m = Some seed"
    and ok: "list_all merge_ok rest"
  shows "\<exists>s' tf. merger_step s = Some s' \<and> mContainer (inOut s') = mContainer (inOut s) @ [tf] \<and>
    map_bytes (stfData tf) = (\<Sum>x\<leftarrow>rest. map_bytes (stfData (stf_of x))) \<and>
    sm_get (rpTfIdSizes (inRpc s')) (hId (stfHeader tf)) = Some 0 \<and>
    rpCurrentTfBufferSize (inRpc s') = rpCurrentTfBufferSize (inRpc s)"
proof -
  obtain g0 where "iov_deserialize True now h ds = Inr g0" "stfDataUpdated g0" "stfDataSize g0 = 0"
    "stfData g0 = []" using empty_frame_sized [OF empty] by blast
  then have e: "stfDataUpdated seed" "stfDataSize seed = 0" "stfData seed = []" using seed by auto
  obtain g where g: "merge_rest rest seed = Some g"
    "map_bytes (stfData g) = (\<Sum>m\<leftarrow>rest. map_bytes (stfData (stf_of m)))"
    "stfDataUpdated g" "stfDataSize g = 0"
    using merge_rest_content [OF ok, of seed] e by (auto simp: map_bytes_def)
  have z: "getDataSize g = (0, g)" using g(3,4) by (simp add: getDataSize_def updateStf_def)
  note st = merger_step_frame [OF run(1) q seed(2) g(1)]
  let ?r = "snd (recordTfBuilt g (inRpc s))"
  have r: "sm_get (rpTfIdSizes ?r) (hId (stfHeader g)) = Some 0"
    "rpCurrentTfBufferSize ?r = rpCurrentTfBufferSize (inRpc s)"
    using run(2) z by (simp_all add: recordTfBuilt_def Let_def)
  show ?thesis
    unfolding st z
    by (intro exI conjI, rule refl) (use run(3) g(2) r in \<open>simp_all add: cq_push_def emplace_def\<close>)
qed

definition ex_null :: frame_t where
  "ex_null = setOrigin OriginNull (SubTimeFrame_new 5 9)"

theorem null_seed_stale_witness:
  "\<exists>seed s' tf. merger_step (ex_merger [ex_meta seed, ex_meta ex_stf_tpc]) = Some s' \<and>
     mContainer (inOut s') = [tf] \<and> map_bytes (stfData tf) = 3 \<and>
     sm_get (rpTfIdSizes (inRpc s')) (hId (stfHeader tf)) = Some 0"
proof -
  have n: "stf_messages (updateStf ex_null) = []"
    by (simp add: ex_null_def setOrigin_def SubTimeFrame_new_def updateStf_def stf_messages_def)
  have se: "fst (iov_serialize ex_null) = (fst (fst (iov_serialize ex_null)), snd (fst (iov_serialize ex_null)))"
    by simp
  obtain seed where seed: "iov_deserialize True 0 (fst (fst (iov_serialize ex_null)))
      (snd (fst (iov_serialize ex_null))) = Inr seed"
    using empty_frame_sized [OF n se] by blast
  have ok: "list_all merge_ok [ex_meta ex_stf_tpc]"
    using ex_meta_ok(2) [OF reach_accounted [OF ex_stf_tpc_facts(1)] ex_stf_tpc_facts(2)] by simp
  let ?v = "[ex_meta seed, ex_meta ex_stf_tpc]"
  have m: "mStf (ex_meta seed) = Some seed" by (simp add: ex_meta_def)
  obtain s' tf where s: "merger_step (ex_merger ?v) = Some s'"
    "mContainer (inOut s') = mContainer (inOut (ex_merger ?v)) @ [tf]"
    "map_bytes (stfData tf) = (\<Sum>x\<leftarrow>[ex_meta ex_stf_tpc]. map_bytes (stfData (stf_of x)))"
    "sm_get (rpTfIdSizes (inRpc s')) (hId (stfHeader tf)) = Some 0"
    using null_seed_stale [OF ex_merger_facts(1-4) n se seed m ok] by blast
  moreover have "mContainer (inOut (ex_merger ?v)) = []" by (simp add: ex_merger_def cq_init_def)
  ultimately show ?thesis
    using ex_stf_tpc_facts(4) by (intro exI [of _ seed] exI [of _ s'] exI [of _ tf]) (simp add: ex_meta_ok(1))
qed

section \<open>Undefined behaviour\<close>

text \<open>A time frame none of whose StfSenders could be reached can crash the merger thread: when
  the deserialising thread runs between the publication of the number of STFs (0) and the request
  to delete the time frame, it hands an empty vector to the merger thread, which reads the first
  and last element of it. The state before is reachable.\<close>

theorem empty_tf_crashes_merger:
  "\<exists>t. tbs_reach t \<and> mContainer (inStfsForMerging (tsInput t)) = [[]] \<and> merger_step (tsInput t) = None"
proof (intro exI conjI)
  show "tbs_reach (ex_deser (ex_asked None))"
    by (rule ex_deser_reach [OF ex_asked_reach]) (simp, code_simp)
qed code_simp+

text \<open>The end of a run makes the forwarding thread of a standalone device call the adapter to DPL,
  which such a device does not have.\<close>

lemma standalone_eos_null_adapter:
  assumes "fwStandalone d" "cqRunning (inOut s)"
  shows "forward_step (fst (tfb_PostRun info freeData d s)) (snd (tfb_PostRun info freeData d s)) = None"
  using assms by (simp add: forward_step_def tfb_PostRun_def cq_try_pop_def Let_def split: list.split)

end
