(* ===== verification/Mem_Icl.thy ===== *)
theory Mem_Icl
  imports DD_Prelude
begin

text \<open>
  The interval map that the allocator of \<open>common/MemoryUtils.h\<close> keeps its free ranges in.
  \<open>boost::icl::interval_map\<close> is not part of the sources: its operations are a parameter, a record
  of functions, and the locale \<open>interval_map\<close> states what its documentation promises. \<open>byte_icl\<close>,
  one count per byte, is an instance; the executions of the allocator use it.
\<close>

section \<open>The interval map\<close>

record 'm icl_ops =
  icl_empty :: 'm
  icl_add :: "nat \<Rightarrow> nat \<Rightarrow> 'm \<Rightarrow> 'm"
  icl_entries :: "'m \<Rightarrow> (nat \<times> nat \<times> nat) list"
  icl_erase :: "nat \<times> nat \<times> nat \<Rightarrow> 'm \<Rightarrow> 'm"
  icl_at :: "'m \<Rightarrow> nat \<Rightarrow> nat"
  icl_ok :: "'m \<Rightarrow> bool"

text \<open>\<open>icl_add lo hi\<close> is \<open>+= ([lo, hi), 1)\<close>; an entry is \<open>(lo, hi, count)\<close>. Adjacent ranges with the
  same count are joined.\<close>

locale interval_map =
  fixes I :: "'m icl_ops"
  assumes ok_empty: "icl_ok I (icl_empty I)"
    and ok_add: "icl_ok I m \<Longrightarrow> icl_ok I (icl_add I lo hi m)"
    and ok_erase: "icl_ok I m \<Longrightarrow> icl_ok I (icl_erase I e m)"
    and at_empty: "icl_at I (icl_empty I) x = 0"
    and at_add: "icl_ok I m \<Longrightarrow>
      icl_at I (icl_add I lo hi m) x = icl_at I m x + (if lo \<le> x \<and> x < hi then 1 else 0)"
    and at_erase: "icl_ok I m \<Longrightarrow> (lo, hi, n) \<in> set (icl_entries I m) \<Longrightarrow>
      icl_at I (icl_erase I (lo, hi, n) m) x = (if lo \<le> x \<and> x < hi then 0 else icl_at I m x)"
    and entry: "icl_ok I m \<Longrightarrow> (lo, hi, n) \<in> set (icl_entries I m) \<Longrightarrow>
      lo < hi \<and> 0 < n \<and> (\<forall>x. lo \<le> x \<and> x < hi \<longrightarrow> icl_at I m x = n)"
    and joined: "icl_ok I m \<Longrightarrow> lo < hi \<Longrightarrow> 0 < n \<Longrightarrow> \<forall>x. lo \<le> x \<and> x < hi \<longrightarrow> icl_at I m x = n \<Longrightarrow>
      \<exists>a b. (a, b, n) \<in> set (icl_entries I m) \<and> a \<le> lo \<and> hi \<le> b"
    and entries_disjoint: "icl_ok I m \<Longrightarrow>
      sorted_wrt (\<lambda>e f. fst (snd e) \<le> fst f) (icl_entries I m)"
begin

lemma at_in_entry:
  assumes "icl_ok I m" and "0 < icl_at I m x"
  obtains a b where "(a, b, icl_at I m x) \<in> set (icl_entries I m)" "a \<le> x" "x < b"
proof -
  have "\<forall>y. x \<le> y \<and> y < Suc x \<longrightarrow> icl_at I m y = icl_at I m x"
    by (metis le_antisym less_Suc_eq_le)
  from joined [OF assms(1) lessI assms(2) this] that show ?thesis
    by (auto simp: Suc_le_eq)
qed

lemma entry_at:
  assumes "icl_ok I m" and "(a, b, n) \<in> set (icl_entries I m)" and "a \<le> x" and "x < b"
  shows "icl_at I m x = n"
  using entry [OF assms(1, 2)] assms(3, 4) by blast

lemma entries_Nil: "icl_ok I m \<Longrightarrow> icl_entries I m = [] \<longleftrightarrow> (\<forall>x. icl_at I m x = 0)"
proof (cases "icl_entries I m")
  case Nil
  assume ok: "icl_ok I m"
  have "icl_at I m x = 0" for x
  proof (rule ccontr)
    assume "icl_at I m x \<noteq> 0"
    then have "0 < icl_at I m x" by simp
    from at_in_entry [OF ok this] show False using Nil by force
  qed
  then show ?thesis using Nil by simp
next
  case (Cons e es)
  assume ok: "icl_ok I m"
  obtain a b n where "e = (a, b, n)" by (cases e)
  then have "(a, b, n) \<in> set (icl_entries I m)" using Cons by simp
  then show ?thesis using entry [OF ok] Cons by (metis le_refl less_irrefl list.distinct(1))
qed

end

section \<open>One count per byte\<close>

fun runs :: "nat \<Rightarrow> nat list \<Rightarrow> (nat \<times> nat \<times> nat) list" where
  "runs i [] = []"
| "runs i (c # cs) =
     (case runs (Suc i) cs of
        [] \<Rightarrow> [(i, Suc i, c)]
      | (lo, hi, n) # es \<Rightarrow> if n = c then (i, hi, c) # es else (i, Suc i, c) # (lo, hi, n) # es)"

definition ic_at :: "nat list \<Rightarrow> nat \<Rightarrow> nat" where
  "ic_at m x = (if x < length m then m ! x else 0)"

definition ic_add :: "nat \<Rightarrow> nat \<Rightarrow> nat list \<Rightarrow> nat list" where
  "ic_add lo hi m =
     map (\<lambda>x. ic_at m x + (if lo \<le> x \<and> x < hi then 1 else 0)) [0..<max (length m) hi]"

definition ic_erase :: "nat \<times> nat \<times> nat \<Rightarrow> nat list \<Rightarrow> nat list" where
  "ic_erase e m =
     map (\<lambda>x. if fst e \<le> x \<and> x < fst (snd e) then 0 else ic_at m x) [0..<length m]"

definition ic_entries :: "nat list \<Rightarrow> (nat \<times> nat \<times> nat) list" where
  "ic_entries m = filter (\<lambda>e. 0 < snd (snd e)) (runs 0 m)"

definition byte_icl :: "nat list icl_ops" where
  "byte_icl = \<lparr>icl_empty = [], icl_add = ic_add, icl_entries = ic_entries, icl_erase = ic_erase,
     icl_at = ic_at, icl_ok = (\<lambda>_. True)\<rparr>"

lemma ic_at_add: "ic_at (ic_add lo hi m) x = ic_at m x + (if lo \<le> x \<and> x < hi then 1 else 0)"
  by (auto simp: ic_add_def ic_at_def)

lemma ic_at_erase: "ic_at (ic_erase (lo, hi, n) m) x = (if lo \<le> x \<and> x < hi then 0 else ic_at m x)"
  by (auto simp: ic_erase_def ic_at_def)

lemma runs_head: "runs i (c # cs) = e # es \<Longrightarrow> fst e = i \<and> snd (snd e) = c"
  by (auto split: list.splits if_splits)

lemma runs_Nil: "runs i cs = [] \<longleftrightarrow> cs = []"
  by (cases cs) (auto split: list.splits)

lemma runs_bounds:
  "(lo, hi, n) \<in> set (runs i cs) \<Longrightarrow>
     i \<le> lo \<and> lo < hi \<and> hi \<le> i + length cs \<and> (\<forall>x. lo \<le> x \<and> x < hi \<longrightarrow> cs ! (x - i) = n)"
proof (induction cs arbitrary: i lo hi n)
  case Nil
  then show ?case by simp
next
  case (Cons c cs)
  show ?case
  proof (cases cs)
    case Nil
    then show ?thesis using Cons.prems by auto
  next
    case (Cons d ds)
    then obtain e es where r: "runs (Suc i) cs = e # es"
      by (metis list.exhaust runs_Nil list.distinct(1))
    obtain a b k where e: "e = (a, b, k)" by (cases e)
    have shift: "(c # cs) ! (x - i) = cs ! (x - Suc i)" if "Suc i \<le> x" for x
      using that by (cases "x - i") (auto simp: Suc_diff_le diff_Suc split: nat.splits)
    note IH = Cons.IH [of _ _ _ "Suc i", unfolded r]
    have ha: "a = Suc i" using runs_head [of "Suc i" d ds] r e Cons by simp
    have old: ?thesis if "(lo, hi, n) \<in> set (e # es)"
      using IH [OF that] shift by auto
    consider "(lo, hi, n) \<in> set (e # es)" | "k = c" "(lo, hi, n) = (i, b, c)" | "(lo, hi, n) = (i, Suc i, c)"
      using Cons.prems r e by (auto split: if_splits)
    then show ?thesis
    proof cases
      case 2
      then show ?thesis using IH [of a b k] e ha shift by (auto simp: nth_Cons' le_Suc_eq)
    qed (use old in auto)
  qed
qed

lemma runs_disjoint: "sorted_wrt (\<lambda>e f. fst (snd e) \<le> fst f) (runs i cs)"
proof (induction cs arbitrary: i)
  case Nil
  then show ?case by simp
next
  case (Cons c cs)
  obtain es where r: "runs (Suc i) cs = es" by blast
  have sorted: "sorted_wrt (\<lambda>e f. fst (snd e) \<le> fst f) es" using Cons.IH [of "Suc i"] r by simp
  have low: "Suc i \<le> fst e" if "e \<in> set es" for e
    using that r runs_bounds [of "fst e" "fst (snd e)" "snd (snd e)" "Suc i" cs] by simp
  show ?case
    using sorted low r by (force split: list.splits)
qed

text \<open>Runs are as long as possible: bytes with the same count lie in one of them.\<close>

lemma runs_joined:
  "lo < hi \<Longrightarrow> i \<le> lo \<Longrightarrow> hi \<le> i + length cs \<Longrightarrow> (\<And>x. lo \<le> x \<Longrightarrow> x < hi \<Longrightarrow> cs ! (x - i) = n) \<Longrightarrow>
     \<exists>a b. (a, b, n) \<in> set (runs i cs) \<and> a \<le> lo \<and> hi \<le> b"
proof (induction cs arbitrary: i lo)
  case Nil
  then show ?case by simp
next
  case (Cons c cs)
  have rest: "\<exists>a b. (a, b, n) \<in> set (runs (Suc i) cs) \<and> a \<le> l \<and> hi \<le> b"
    if "Suc i \<le> l" "l < hi" "lo \<le> l" for l
  proof (rule Cons.IH)
    fix x assume "l \<le> x" "x < hi"
    then show "cs ! (x - Suc i) = n"
      using Cons.prems(4) [of x] that by (simp add: nth_Cons' )
  qed (use that Cons.prems in auto)
  have keep: "\<exists>a' b'. (a', b', n) \<in> set (runs i (c # cs)) \<and> a' \<le> a \<and> b \<le> b'"
    if ab: "(a, b, n) \<in> set (runs (Suc i) cs)" for a b
  proof -
    obtain e es where r: "runs (Suc i) cs = e # es" using ab by (cases "runs (Suc i) cs") auto
    obtain l h k where e: "e = (l, h, k)" by (cases e)
    have "i \<le> l" using runs_bounds [of l h k "Suc i" cs] r e by simp
    moreover have "(a, b, n) = (l, h, k) \<or> (a, b, n) \<in> set es" using ab r e by simp
    ultimately show ?thesis by (simp add: r e) (metis le_refl)
  qed
  show ?case
  proof (cases "lo = i")
    case False
    then have "Suc i \<le> lo" using Cons.prems(2) by simp
    from rest [OF this Cons.prems(1) le_refl]
    obtain a b where ab: "(a, b, n) \<in> set (runs (Suc i) cs)" "a \<le> lo" "hi \<le> b" by blast
    from keep [OF ab(1)]
    obtain a' b' where "(a', b', n) \<in> set (runs i (c # cs))" "a' \<le> a" "b \<le> b'" by blast
    then show ?thesis using ab by (meson le_trans)
  next
    case True
    then have c: "c = n" using Cons.prems(1) Cons.prems(4) [of lo] by simp
    show ?thesis
    proof (cases "Suc i < hi")
      case True
      then obtain a b where ab: "(a, b, n) \<in> set (runs (Suc i) cs)" "a \<le> Suc i" "hi \<le> b"
        using rest [of "Suc i"] \<open>lo = i\<close> by auto
      obtain e es where r: "runs (Suc i) cs = e # es" using ab(1) by (cases "runs (Suc i) cs") auto
      obtain l h k where e: "e = (l, h, k)" by (cases e)
      have "(a, b, n) = e"
      proof (rule ccontr)
        assume "(a, b, n) \<noteq> e"
        then have "h \<le> a" using runs_disjoint [of "Suc i" cs] ab(1) r e by auto
        moreover have "Suc i \<le> l" "l < h" using runs_bounds [of l h k "Suc i" cs] r e by auto
        ultimately show False using ab(2) by simp
      qed
      then show ?thesis using ab r e c \<open>lo = i\<close> by auto
    next
      case False
      then have "hi = Suc i" using True Cons.prems(1) by simp
      have "\<exists>h. (i, h, c) \<in> set (runs i (c # cs)) \<and> Suc i \<le> h"
      proof (cases "runs (Suc i) cs")
        case Nil
        then show ?thesis by simp
      next
        case (Cons e es)
        obtain l h k where e: "e = (l, h, k)" by (cases e)
        have "Suc i < h" using runs_bounds [of l h k "Suc i" cs] Cons e by auto
        then show ?thesis using Cons e by auto
      qed
      then show ?thesis using c True \<open>hi = Suc i\<close> by auto
    qed
  qed
qed

lemma ic_entry: "(lo, hi, n) \<in> set (ic_entries m) \<Longrightarrow>
  lo < hi \<and> 0 < n \<and> (\<forall>x. lo \<le> x \<and> x < hi \<longrightarrow> ic_at m x = n)"
  using runs_bounds [of lo hi n 0 m] by (auto simp: ic_entries_def ic_at_def)

lemma ic_joined:
  assumes "lo < hi" and "0 < n" and at: "\<forall>x. lo \<le> x \<and> x < hi \<longrightarrow> ic_at m x = n"
  shows "\<exists>a b. (a, b, n) \<in> set (ic_entries m) \<and> a \<le> lo \<and> hi \<le> b"
proof -
  have "ic_at m (hi - 1) = n" using at assms(1) by auto
  then have len: "hi \<le> length m" using assms(1, 2) by (auto simp: ic_at_def split: if_splits)
  have "\<exists>a b. (a, b, n) \<in> set (runs 0 m) \<and> a \<le> lo \<and> hi \<le> b"
  proof (rule runs_joined)
    fix x assume "lo \<le> x" "x < hi"
    then show "m ! (x - 0) = n" using at len by (auto simp: ic_at_def)
  qed (use assms(1) len in auto)
  then show ?thesis using assms(2) by (auto simp: ic_entries_def)
qed

interpretation byte_icl: interval_map byte_icl
proof unfold_locales
  fix m :: "nat list"
  show "sorted_wrt (\<lambda>e f. fst (snd e) \<le> fst f) (icl_entries byte_icl m)"
    by (simp add: byte_icl_def ic_entries_def runs_disjoint sorted_wrt_filter)
qed (auto simp: byte_icl_def ic_at_add ic_at_erase ic_at_def [of "[]"] dest: ic_entry ic_joined)

end
