(* ===== verification/Mem_Region.thy ===== *)
theory Mem_Region
  imports Mem_Icl
begin

text \<open>
  The allocator of shared memory regions, \<open>RegionAllocatorResource\<close> of \<open>common/MemoryUtils.h\<close>:
  allocation from a working extent, refilled from the free ranges; blocks come back from the
  transport in batches.

  Pointers are addresses, natural numbers inside the region, which does not wrap; sizes that
  callers pass are 64-bit words. The free ranges are an interval map of
  theory \<open>Mem_Icl\<close>. While an allocation waits, other threads return blocks or stop the region:
  the events of \<open>do_allocate\<close>. Setting up the mapping and the contents of the memory are left out.
\<close>

section \<open>State\<close>

datatype RegionAllocStrategy = eFindLongest | eFindFirst

record AllocBlock =
  abStart :: nat
  abLength :: nat
  abRefCnt :: nat

record 'm region =
  rgAddr :: nat
  rgSize :: nat
  rgRunning :: bool
  rgCanFail :: bool
  rgStart :: "nat option"
  rgLength :: nat
  rgFree :: int
  rgGeneration :: nat
  rgFreeRanges :: 'm
  rgAllocBlocks :: "(nat, AllocBlock) smap"

definition align_size_up :: "u64 \<Rightarrow> u64 \<Rightarrow> u64" where
  "align_size_up al n = (n + al - 1) div al * al"

definition region_new :: "'m icl_ops \<Rightarrow> bool \<Rightarrow> nat \<Rightarrow> nat \<Rightarrow> 'm region" where
  "region_new I canFail addr n =
     \<lparr>rgAddr = addr, rgSize = n, rgRunning = True, rgCanFail = canFail, rgStart = Some addr,
      rgLength = n, rgFree = int n, rgGeneration = 0, rgFreeRanges = icl_empty I,
      rgAllocBlocks = []\<rparr>"

definition region_stop :: "'m region \<Rightarrow> 'm region" where
  "region_stop s = s\<lparr>rgRunning := False\<rparr>"

definition get_ucx_ptr :: "nat \<Rightarrow> nat \<Rightarrow> nat \<Rightarrow> nat" where
  "get_ucx_ptr ucxAddr addr p = p - addr + ucxAddr"

section \<open>Allocation\<close>

definition reclaimSHMMessage :: "'m icl_ops \<Rightarrow> nat \<Rightarrow> nat \<Rightarrow> 'm region \<Rightarrow> 'm region" where
  "reclaimSHMMessage I p n s = s\<lparr>rgFreeRanges := icl_add I p (p + n) (rgFreeRanges s)\<rparr>"

definition try_alloc :: "nat \<Rightarrow> 'm region \<Rightarrow> nat option \<times> 'm region" where
  "try_alloc n s =
     (if n \<le> rgLength s then
        (rgStart s, s\<lparr>rgStart := (if rgLength s - n = 0 then None else map_option (\<lambda>p. p + n) (rgStart s)),
           rgLength := rgLength s - n\<rparr>)
      else (None, s))"

definition entry_length :: "nat \<times> nat \<times> nat \<Rightarrow> nat" where
  "entry_length e = fst (snd e) - fst e"

text \<open>\<open>std::max_element\<close>: the first of the longest entries.\<close>

fun max_entry :: "nat \<times> nat \<times> nat \<Rightarrow> (nat \<times> nat \<times> nat) list \<Rightarrow> nat \<times> nat \<times> nat" where
  "max_entry e [] = e"
| "max_entry e (f # fs) = max_entry (if entry_length e < entry_length f then f else e) fs"

definition pick_entry :: "RegionAllocStrategy \<Rightarrow> nat \<Rightarrow> (nat \<times> nat \<times> nat) list \<Rightarrow> (nat \<times> nat \<times> nat) option" where
  "pick_entry strat n es =
     (case strat of
        eFindFirst \<Rightarrow> find (\<lambda>e. n \<le> entry_length e) es
      | eFindLongest \<Rightarrow> (case es of [] \<Rightarrow> None | e # fs \<Rightarrow> Some (max_entry e fs)))"

definition drop_extent :: "'m icl_ops \<Rightarrow> 'm region \<Rightarrow> 'm region" where
  "drop_extent I s =
     (let s1 = (if rgLength s > 0 then
                  (case rgStart s of None \<Rightarrow> s | Some p \<Rightarrow> reclaimSHMMessage I p (rgLength s) s)
                else s)
      in s1\<lparr>rgStart := None, rgLength := 0\<rparr>)"

definition try_reclaim :: "'m icl_ops \<Rightarrow> RegionAllocStrategy \<Rightarrow> nat \<Rightarrow> 'm region \<Rightarrow> bool \<times> 'm region" where
  "try_reclaim I strat n s0 =
     (let s = drop_extent I s0; es = icl_entries I (rgFreeRanges s)
      in if es = [] then (False, s)
         else case pick_entry strat n es of
           None \<Rightarrow> (False, s)
         | Some (lo, hi, c) \<Rightarrow>
             if n > hi - lo then (False, s)
             else if c > 1 then
               (False, s\<lparr>rgFree := rgFree s - int (hi - lo),
                  rgFreeRanges := icl_erase I (lo, hi, c) (rgFreeRanges s)\<rparr>)
             else (True, s\<lparr>rgStart := Some lo, rgLength := hi - lo,
                  rgFreeRanges := icl_erase I (lo, hi, c) (rgFreeRanges s)\<rparr>))"

text \<open>What other threads do while the allocation waits: blocks come back, or the region is
  stopped. \<open>back\<close> is the callback of the region on a batch of blocks, which may have no defined
  behaviour.\<close>

datatype 'b region_event = BlocksBack 'b | RegionStopped

definition apply_event :: "('b \<Rightarrow> 'm region \<Rightarrow> 'm region option) \<Rightarrow> 'b region_event \<Rightarrow> 'm region \<Rightarrow>
    'm region option" where
  "apply_event back ev s =
     (case ev of BlocksBack b \<Rightarrow> back b s | RegionStopped \<Rightarrow> Some (region_stop s))"

text \<open>The wait for the generation to change. \<open>AllocWaiting\<close>: the events do not end it.\<close>

datatype 'p alloc_result = AllocNull | AllocPtr 'p | AllocWaiting | AllocUndefined

fun wait_generation :: "('b \<Rightarrow> 'm region \<Rightarrow> 'm region option) \<Rightarrow> nat \<Rightarrow> 'b region_event list \<Rightarrow> 'm region \<Rightarrow>
    ('b region_event list \<times> 'm region) alloc_result" where
  "wait_generation back g evs s =
     (if rgGeneration s \<noteq> g then AllocPtr (evs, s)
      else case evs of
        [] \<Rightarrow> AllocWaiting
      | ev # es \<Rightarrow>
          (case apply_event back ev s of
             None \<Rightarrow> AllocUndefined
           | Some s' \<Rightarrow> wait_generation back g es s'))"

declare wait_generation.simps [simp del]

text \<open>The retry loop of \<open>do_allocate\<close>, after the first attempt failed. Every wait consumes an event,
  so as many rounds as there are events, and one more, are enough.\<close>

fun alloc_loop :: "nat \<Rightarrow> 'm icl_ops \<Rightarrow> RegionAllocStrategy \<Rightarrow> ('b \<Rightarrow> 'm region \<Rightarrow> 'm region option) \<Rightarrow>
    nat \<Rightarrow> 'b region_event list \<Rightarrow> 'm region \<Rightarrow> nat alloc_result \<times> 'm region" where
  "alloc_loop 0 I strat back n evs s = (AllocWaiting, s)"
| "alloc_loop (Suc k) I strat back n evs s =
     (if \<not> rgRunning s then (AllocNull, s)
      else
        let (ok, s1) = try_reclaim I strat n s;
            (p, s2) = (if ok then try_alloc n s1 else (None, s1))
        in case p of
             Some a \<Rightarrow> (AllocPtr a, s2)
           | None \<Rightarrow>
               if rgCanFail s2 then (AllocNull, s2)
               else (case wait_generation back (rgGeneration s) evs s2 of
                   AllocPtr (es, s3) \<Rightarrow> alloc_loop k I strat back n es s3
                 | AllocUndefined \<Rightarrow> (AllocUndefined, s2)
                 | _ \<Rightarrow> (AllocWaiting, s2)))"

text \<open>\<open>track\<close>: the region counts the references to its blocks. The block is registered under the
  address of its last byte, with no reference yet.\<close>

definition alloc_done :: "bool \<Rightarrow> nat \<Rightarrow> nat \<Rightarrow> 'm region \<Rightarrow> 'm region" where
  "alloc_done track p n s =
     (let s1 = s\<lparr>rgFree := rgFree s - int n\<rparr>
      in if track then
           s1\<lparr>rgAllocBlocks := (if sm_has (rgAllocBlocks s1) (p + n - 1) then rgAllocBlocks s1
              else sm_put (p + n - 1) \<lparr>abStart = p, abLength = n, abRefCnt = 0\<rparr> (rgAllocBlocks s1))\<rparr>
         else s1)"

definition do_allocate :: "'m icl_ops \<Rightarrow> RegionAllocStrategy \<Rightarrow> u64 \<Rightarrow> bool \<Rightarrow>
    ('b \<Rightarrow> 'm region \<Rightarrow> 'm region option) \<Rightarrow> 'b region_event list \<Rightarrow> u64 \<Rightarrow> 'm region \<Rightarrow>
    nat alloc_result \<times> 'm region" where
  "do_allocate I strat al track back evs size0 s =
     (if \<not> rgRunning s then (AllocNull, s)
      else if size0 = 0 then (AllocPtr (rgAddr s + rgSize s), s)
      else
        let n = unat (align_size_up al size0); (p, s1) = try_alloc n s;
            (r, s2) = (case p of Some a \<Rightarrow> (AllocPtr a, s1)
              | None \<Rightarrow> alloc_loop (length evs + 1) I strat back n evs s1)
        in case r of AllocPtr a \<Rightarrow> (AllocPtr a, alloc_done track a n s2) | _ \<Rightarrow> (r, s2))"

section \<open>Reference counts\<close>

definition in_range :: "AllocBlock \<Rightarrow> nat \<Rightarrow> nat \<Rightarrow> bool" where
  "in_range b p n \<longleftrightarrow> p \<ge> abStart b \<and> p + n \<le> abStart b + abLength b"

definition sm_lower_bound :: "('k::linorder, 'v) smap \<Rightarrow> 'k \<Rightarrow> ('k \<times> 'v) option" where
  "sm_lower_bound m k = find (\<lambda>e. k \<le> fst e) m"

text \<open>A message from a pointer: one more reference to its block; \<open>None\<close> when there is no block,
  where the code increments the count of \<open>end()\<close>.\<close>

definition add_reference :: "nat \<Rightarrow> 'm region \<Rightarrow> 'm region option" where
  "add_reference p s =
     (case sm_lower_bound (rgAllocBlocks s) p of
        None \<Rightarrow> None
      | Some (k, b) \<Rightarrow> Some (s\<lparr>rgAllocBlocks := sm_put k (b\<lparr>abRefCnt := abRefCnt b + 1\<rparr>) (rgAllocBlocks s)\<rparr>))"

fun NewFairMQMessagesFromPtr :: "(nat \<times> nat) list \<Rightarrow> nat option \<Rightarrow> 'm region \<Rightarrow> 'm region option" where
  "NewFairMQMessagesFromPtr [] it s = Some s"
| "NewFairMQMessagesFromPtr ((p, n) # as) it s =
     (let cur = (case it of None \<Rightarrow> None | Some k \<Rightarrow>
            (case sm_get (rgAllocBlocks s) k of None \<Rightarrow> None
             | Some b \<Rightarrow> if in_range b p n then Some (k, b) else None))
      in case (case cur of Some kb \<Rightarrow> Some kb | None \<Rightarrow> sm_lower_bound (rgAllocBlocks s) p) of
           None \<Rightarrow> None
         | Some (k, b) \<Rightarrow> NewFairMQMessagesFromPtr as (Some k)
             (s\<lparr>rgAllocBlocks := sm_put k (b\<lparr>abRefCnt := abRefCnt b + 1\<rparr>) (rgAllocBlocks s)\<rparr>))"

definition NewFairMQMessage :: "'m icl_ops \<Rightarrow> RegionAllocStrategy \<Rightarrow> u64 \<Rightarrow> bool \<Rightarrow>
    ('b \<Rightarrow> 'm region \<Rightarrow> 'm region option) \<Rightarrow> 'b region_event list \<Rightarrow> u64 \<Rightarrow> 'm region \<Rightarrow>
    nat alloc_result \<times> 'm region" where
  "NewFairMQMessage I strat al track back evs n s =
     (case do_allocate I strat al track back evs n s of
        (AllocPtr p, s1) \<Rightarrow>
          if track then
            (case add_reference p s1 of None \<Rightarrow> (AllocUndefined, s1) | Some s2 \<Rightarrow> (AllocPtr p, s2))
          else (AllocPtr p, s1)
      | (r, s1) \<Rightarrow> (r, s1))"

section \<open>Blocks coming back\<close>

record region_block =
  rbPtr :: nat
  rbSize :: nat
  rbHint :: nat

text \<open>One reference less; with the last one the block is free. The result says whether the block
  was erased. The count is unsigned: \<open>None\<close> stands for a block that is not referenced.\<close>

definition alloc_deref :: "'m icl_ops \<Rightarrow> nat \<Rightarrow> 'm region \<Rightarrow> (bool \<times> 'm region) option" where
  "alloc_deref I k s =
     (case sm_get (rgAllocBlocks s) k of
        None \<Rightarrow> None
      | Some b \<Rightarrow>
          if abRefCnt b = 0 then None
          else if abRefCnt b = 1 then
            let s1 = reclaimSHMMessage I (abStart b) (abLength b) s
            in Some (True, s1\<lparr>rgFree := rgFree s1 + int (abLength b), rgGeneration := rgGeneration s1 + 1,
                 rgAllocBlocks := sm_del k (rgAllocBlocks s1)\<rparr>)
          else Some (False, s\<lparr>rgAllocBlocks := sm_put k (b\<lparr>abRefCnt := abRefCnt b - 1\<rparr>) (rgAllocBlocks s)\<rparr>))"

text \<open>\<open>lLastValIter\<close>: at the end, at a block, or at a block that has been erased.\<close>

datatype block_iter = IterEnd | IterAt nat | IterErased

fun reclaim_refcount_loop :: "'m icl_ops \<Rightarrow> region_block list \<Rightarrow> block_iter \<Rightarrow> 'm region \<Rightarrow> 'm region option" where
  "reclaim_refcount_loop I [] it s = Some s"
| "reclaim_refcount_loop I (rb # rbs) it s =
     (let step = (\<lambda>k. case alloc_deref I k s of
            None \<Rightarrow> None
          | Some (erased, s1) \<Rightarrow>
              reclaim_refcount_loop I rbs (if erased then IterErased else IterAt k) s1);
          lookup = (case sm_lower_bound (rgAllocBlocks s) (rbPtr rb) of None \<Rightarrow> None | Some (k, b) \<Rightarrow> step k)
      in case it of
           IterErased \<Rightarrow> None
         | IterEnd \<Rightarrow> lookup
         | IterAt j \<Rightarrow>
             (case sm_get (rgAllocBlocks s) j of
                None \<Rightarrow> None
              | Some b \<Rightarrow> if in_range b (rbHint rb) (rbSize rb) then step j else lookup))"

definition reclaim_refcount :: "'m icl_ops \<Rightarrow> region_block list \<Rightarrow> 'm region \<Rightarrow> 'm region option" where
  "reclaim_refcount I rbs s = reclaim_refcount_loop I (sort_key rbPtr rbs) IterEnd s"

text \<open>The exact strategy: the blocks are merged before they are added to the free ranges.\<close>

definition merge_blocks :: "'m icl_ops \<Rightarrow> u64 \<Rightarrow> region_block list \<Rightarrow> 'm" where
  "merge_blocks I al rbs =
     fold (\<lambda>rb m. if rbSize rb = 0 then m
        else icl_add I (rbPtr rb) (rbPtr rb + unat (align_size_up al (of_nat (rbSize rb)))) m) rbs (icl_empty I)"

definition reclaim_exact :: "'m icl_ops \<Rightarrow> u64 \<Rightarrow> region_block list \<Rightarrow> 'm region \<Rightarrow> 'm region option" where
  "reclaim_exact I al rbs s =
     (let es = icl_entries I (merge_blocks I al rbs);
          s1 = fold (\<lambda>e t. reclaimSHMMessage I (fst e) (entry_length e) t) es s
      in Some (s1\<lparr>rgFree := rgFree s1 + int (sum_list (map entry_length es)),
           rgGeneration := rgGeneration s1 + 1\<rparr>))"

section \<open>Memory resources\<close>

text \<open>The header and the data region of a device; a region may be absent.\<close>

record ('h, 'm) memory_resources =
  mrRunning :: bool
  mrHeader :: "'h region option"
  mrData :: "'m region option"

definition mr_start :: "('h, 'm) memory_resources \<Rightarrow> ('h, 'm) memory_resources" where
  "mr_start r = (if mrHeader r \<noteq> None \<or> mrData r \<noteq> None then r\<lparr>mrRunning := True\<rparr> else r)"

definition mr_stop :: "('h, 'm) memory_resources \<Rightarrow> ('h, 'm) memory_resources" where
  "mr_stop r = r\<lparr>mrRunning := False, mrHeader := map_option region_stop (mrHeader r),
     mrData := map_option region_stop (mrData r)\<rparr>"

definition freeData :: "('h, 'm) memory_resources \<Rightarrow> u64" where
  "freeData r = (if mrRunning r then (case mrData r of None \<Rightarrow> 0 | Some s \<Rightarrow> of_int (rgFree s)) else 0)"

definition freeHeader :: "('h, 'm) memory_resources \<Rightarrow> u64" where
  "freeHeader r = (if mrRunning r then (case mrHeader r of None \<Rightarrow> 0 | Some s \<Rightarrow> of_int (rgFree s)) else 0)"

definition sizeData :: "('h, 'm) memory_resources \<Rightarrow> u64" where
  "sizeData r = (if mrRunning r then (case mrData r of None \<Rightarrow> 0 | Some s \<Rightarrow> of_nat (rgSize s)) else 0)"

definition sizeHeader :: "('h, 'm) memory_resources \<Rightarrow> u64" where
  "sizeHeader r = (if mrRunning r then (case mrHeader r of None \<Rightarrow> 0 | Some s \<Rightarrow> of_nat (rgSize s)) else 0)"

text \<open>Messages in the data region (64 bytes, longest range, counted) and in the header region
  (the alignment of \<open>DataHeader\<close>, first range, exact). The contents are left out.\<close>

definition newDataMessage :: "'m icl_ops \<Rightarrow> ('b \<Rightarrow> 'm region \<Rightarrow> 'm region option) \<Rightarrow> 'b region_event list \<Rightarrow>
    u64 \<Rightarrow> 'm region \<Rightarrow> nat alloc_result \<times> 'm region" where
  "newDataMessage I back evs n s = NewFairMQMessage I eFindLongest 64 True back evs n s"

definition newHeaderMessage :: "'m icl_ops \<Rightarrow> u64 \<Rightarrow> ('b \<Rightarrow> 'm region \<Rightarrow> 'm region option) \<Rightarrow>
    'b region_event list \<Rightarrow> u64 \<Rightarrow> 'm region \<Rightarrow> nat alloc_result \<times> 'm region" where
  "newHeaderMessage I al back evs n s = NewFairMQMessage I eFindFirst al False back evs n s"

text \<open>One allocation per size, under one lock; \<open>None\<close> while one of them waits or has no defined
  behaviour. A null pointer is \<open>None\<close> in the list.\<close>

fun alloc_messages :: "(u64 \<Rightarrow> 'b region_event list \<Rightarrow> 'm region \<Rightarrow> nat alloc_result \<times> 'm region) \<Rightarrow>
    'b region_event list list \<Rightarrow> u64 list \<Rightarrow> 'm region \<Rightarrow> (nat option list \<times> 'm region) option" where
  "alloc_messages new evs [] s = Some ([], s)"
| "alloc_messages new evs (n # ns) s =
     (let ev = (case evs of [] \<Rightarrow> [] | e # _ \<Rightarrow> e); rest = (case evs of [] \<Rightarrow> [] | _ # es \<Rightarrow> es)
      in case new n ev s of
           (AllocPtr p, s1) \<Rightarrow> map_option (\<lambda>(ps, t). (Some p # ps, t)) (alloc_messages new rest ns s1)
         | (AllocNull, s1) \<Rightarrow> map_option (\<lambda>(ps, t). (None # ps, t)) (alloc_messages new rest ns s1)
         | _ \<Rightarrow> None)"

definition allocDataBuffers :: "'m icl_ops \<Rightarrow> ('b \<Rightarrow> 'm region \<Rightarrow> 'm region option) \<Rightarrow>
    'b region_event list list \<Rightarrow> u64 list \<Rightarrow> 'm region \<Rightarrow> (nat option list \<times> 'm region) option" where
  "allocDataBuffers I back evs ns s = alloc_messages (\<lambda>n ev. do_allocate I eFindLongest 64 True back ev n) evs ns s"

definition allocHdrBuffers :: "'m icl_ops \<Rightarrow> u64 \<Rightarrow> ('b \<Rightarrow> 'm region \<Rightarrow> 'm region option) \<Rightarrow>
    'b region_event list list \<Rightarrow> u64 list \<Rightarrow> 'm region \<Rightarrow> (nat option list \<times> 'm region) option" where
  "allocHdrBuffers I al back evs ns s = alloc_messages (\<lambda>n ev. newHeaderMessage I al back ev n) evs ns s"

text \<open>\<open>newDataMessages\<close> copies into every new message: a null one has no defined behaviour.\<close>

definition newDataMessages :: "'m icl_ops \<Rightarrow> ('b \<Rightarrow> 'm region \<Rightarrow> 'm region option) \<Rightarrow> 'b region_event list list \<Rightarrow>
    u64 list \<Rightarrow> 'm region \<Rightarrow> (nat list \<times> 'm region) option" where
  "newDataMessages I back evs ns s =
     (case alloc_messages (\<lambda>n ev. newDataMessage I back ev n) evs ns s of
        None \<Rightarrow> None
      | Some (ps, t) \<Rightarrow> if None \<in> set ps then None else Some (map the ps, t))"

definition fmqFromDataBuffers :: "(nat \<times> nat) list \<Rightarrow> 'm region \<Rightarrow> 'm region option" where
  "fmqFromDataBuffers as s = NewFairMQMessagesFromPtr as None s"

end
