(* ===== verification/Mem_Region_Claims.thy ===== *)
theory Mem_Region_Claims
  imports Mem_Region_Props
begin

text \<open>
  What the shared memory allocator promises and where it does not keep it. The abstract state of
  a region is the set of its live blocks; an allocation adds a block of free bytes to it, and
  fails only when there is no room.
\<close>

text \<open>
  C9. In every state that a region which counts references can reach, each byte of the segment has
  exactly one holder (the free ranges, the working extent or one live block), bytes outside of it
  have none, and the free size is the number of bytes of the segment in no live block.
\<close>

theorem region_partition:
  assumes "interval_map I" and "al \<noteq> 0" and "region_reach I strat al s"
  shows "icl_at I (rgFreeRanges s) x + of_bool (in_extent s x) + holders s x = of_bool (in_segment s x) \<and>
    rgFree s = int (card {x. in_segment s x \<and> \<not> live s x})"
proof
  note inv = interval_map.reach_inv [OF assms]
  show "icl_at I (rgFreeRanges s) x + of_bool (in_extent s x) + holders s x = of_bool (in_segment s x)"
    by (rule region_invD(5) [OF inv])
  have seg: "{x. in_segment s x} = {rgAddr s ..< rgAddr s + rgSize s}" by (auto simp: in_segment_def)
  have "{x. in_segment s x} = {x. in_segment s x \<and> live s x} \<union> {x. in_segment s x \<and> \<not> live s x}"
    by blast
  moreover have "finite {x. in_segment s x \<and> live s x}" "finite {x. in_segment s x \<and> \<not> live s x}"
    by (rule finite_subset [of _ "{rgAddr s ..< rgAddr s + rgSize s}"]; auto simp: in_segment_def)+
  ultimately have "card {x. in_segment s x} =
      card {x. in_segment s x \<and> live s x} + card {x. in_segment s x \<and> \<not> live s x}"
    by (subst (asm) (1) set_eq_iff) (subst card_Un_disjoint [symmetric]; auto intro: arg_cong [where f = card])
  moreover have "card {x. in_segment s x} = rgSize s" unfolding seg by simp
  ultimately show "rgFree s = int (card {x. in_segment s x \<and> \<not> live s x})"
    using region_invD(6) [OF inv] sum_lengths [OF inv] by simp
qed

lemma region_partition_witness:
  "holders (region_stop (region_new byte_icl True 8 16)) 20 \<le> 1 \<and>
   rgFree (region_stop (region_new byte_icl True 8 16)) =
     int (card {x. in_segment (region_stop (region_new byte_icl True 8 16)) x \<and>
       \<not> live (region_stop (region_new byte_icl True 8 16)) x})"
proof -
  have "region_reach byte_icl eFindLongest 8 (region_stop (region_new byte_icl True 8 16))"
    by (rule reach_stop, rule reach_new)
  from region_partition [OF byte_icl.interval_map_axioms _ this, of 20]
  show ?thesis by (cases "in_segment (region_stop (region_new byte_icl True 8 16)) 20") auto
qed

section \<open>The contract of an allocation\<close>

definition region_blocks :: "'m region \<Rightarrow> (nat \<times> nat) set" where
  "region_blocks s = (\<lambda>e. (abStart (snd e), abLength (snd e))) ` set (rgAllocBlocks s)"

definition fits :: "nat \<Rightarrow> nat \<Rightarrow> (nat \<times> nat) set \<Rightarrow> nat \<Rightarrow> nat \<Rightarrow> bool" where
  "fits addr sz L n p \<longleftrightarrow> (\<forall>x. p \<le> x \<and> x < p + n \<longrightarrow>
     addr \<le> x \<and> x < addr + sz \<and> (\<forall>b \<in> L. \<not> (fst b \<le> x \<and> x < fst b + snd b)))"

definition spec_alloc :: "nat \<Rightarrow> nat \<Rightarrow> nat \<Rightarrow> (nat \<times> nat) set \<Rightarrow> nat option \<Rightarrow> (nat \<times> nat) set \<Rightarrow> bool" where
  "spec_alloc addr sz n L r L' \<longleftrightarrow> (case r of
     Some p \<Rightarrow> fits addr sz L n p \<and> L' = insert (p, n) L
   | None \<Rightarrow> L' = L \<and> (\<forall>p. \<not> fits addr sz L n p))"

definition allocated :: "'p alloc_result \<Rightarrow> 'p option" where
  "allocated r = (case r of AllocPtr p \<Rightarrow> Some p | _ \<Rightarrow> None)"

lemma fits_room: "(\<exists>p. fits (rgAddr s) (rgSize s) (region_blocks s) n p) \<longleftrightarrow> has_room n s"
  by (simp add: fits_def has_room_def in_segment_def live_def region_blocks_def block_has_def)

lemma fitsI:
  assumes "\<And>x. p \<le> x \<Longrightarrow> x < p + n \<Longrightarrow> in_segment s x \<and> \<not> live s x"
  shows "fits (rgAddr s) (rgSize s) (region_blocks s) n p"
  using assms by (auto simp: fits_def in_segment_def live_def region_blocks_def block_has_def)

lemma region_blocks_cong: "rgAllocBlocks t = rgAllocBlocks s \<Longrightarrow> region_blocks t = region_blocks s"
  by (simp add: region_blocks_def)

context interval_map begin

lemma alloc_done_refines:
  assumes inv: "region_inv I s" and a: "try_alloc n s = (Some p, t)" and "0 < n"
  shows "spec_alloc (rgAddr s) (rgSize s) n (region_blocks s) (Some p) (region_blocks (alloc_done True p n t))"
  using alloc_done_inv(3) [OF assms] fitsI [OF alloc_done_inv(4) [OF assms]]
  by (simp add: spec_alloc_def region_blocks_def)

lemma attempt_refines:
  assumes inv: "region_inv I s" and "0 < n" and a: "attempt I strat n s = (r, t)"
  shows "spec_alloc (rgAddr s) (rgSize s) n (region_blocks s) r
    (region_blocks (case r of Some p \<Rightarrow> alloc_done True p n t | None \<Rightarrow> t))"
proof (cases r)
  case None
  then show ?thesis
    using attempt_none(2) [OF inv \<open>0 < n\<close>] a attempt_frame(2) [OF a] fits_room [of s n]
    by (auto simp: spec_alloc_def region_blocks_def)
next
  case (Some p)
  then obtain s1 where s1: "region_inv I s1" "try_alloc n s1 = (Some p, t)" "same_segment s s1"
    "rgAllocBlocks s1 = rgAllocBlocks s" using attempt_some [OF inv] a by metis
  then show ?thesis
    using alloc_done_refines [OF s1(1, 2) \<open>0 < n\<close>] Some
    by (simp add: region_blocks_cong [OF s1(4)] same_segment_def)
qed

end

lemma no_events_loop:
  assumes "rgRunning s" and "attempt I strat n s = (r, t)"
  shows "alloc_loop (Suc 0) I strat back n [] s =
    (case r of Some p \<Rightarrow> (AllocPtr p, t) | None \<Rightarrow> (if rgCanFail t then AllocNull else AllocWaiting, t))"
  using assms attempt_frame(3) [OF assms(2)]
  by (auto simp: alloc_loop_attempt wait_generation.simps [of _ _ "[]"] split: option.splits)

text \<open>
  C10. An allocation in a running region refines its contract: when no block comes back meanwhile, it
  adds a block of free bytes of the aligned size to the live blocks, and when it does not return a
  block (the null pointer of a region that can fail, or a wait) then nothing is allocated
  and no run of free bytes of the segment is long enough, whatever the fragmentation.
\<close>

theorem allocator_refines:
  assumes I: "interval_map I" and inv: "region_inv I s" and run: "rgRunning s"
    and size: "size0 \<noteq> 0" "al \<noteq> 0" "unat size0 + unat al \<le> 2 ^ 64"
    and r: "do_allocate I strat al True back [] size0 s = (r, t)"
  shows "spec_alloc (rgAddr s) (rgSize s) (unat (align_size_up al size0)) (region_blocks s)
    (allocated r) (region_blocks t)"
proof -
  let ?n = "unat (align_size_up al size0)"
  have n: "0 < ?n" using align_size_up_bounds(1) [OF size(2, 3)] size(1) by (simp add: unat_gt_0 [symmetric])
  obtain q s1 where q: "try_alloc ?n s = (q, s1)" by (cases "try_alloc ?n s")
  show ?thesis
  proof (cases q)
    case (Some p)
    then have "r = AllocPtr p" "t = alloc_done True p ?n s1"
      using r run size(1) q by (auto simp: do_allocate_def)
    then show ?thesis
      using interval_map.alloc_done_refines [OF I inv q [unfolded Some] n] by (simp add: allocated_def)
  next
    case None
    have s1: "s1 = s" using try_alloc_none [OF n inv] q None by blast
    obtain a u where a: "attempt I strat ?n s = (a, u)" by (cases "attempt I strat ?n s")
    note loop = no_events_loop [OF run a, of "back"]
    show ?thesis
      using interval_map.attempt_refines [OF I inv n a] r run size(1) q None s1 loop
      by (auto simp: do_allocate_def allocated_def split: option.splits if_splits)
  qed
qed

lemma allocator_refines_witness:
  "spec_alloc 8 16 16 {} (Some 8) {(8, 16)}"
proof -
  let ?s = "region_new byte_icl True 8 16"
  have "do_allocate byte_icl eFindLongest 8 True (reclaim_refcount byte_icl) [] 10 ?s =
      (AllocPtr 8, alloc_done True 8 16 (snd (try_alloc 16 ?s)))"
    by code_simp
  from allocator_refines [OF byte_icl.interval_map_axioms byte_icl.inv_new _ _ _ _ this]
  have "spec_alloc (rgAddr ?s) (rgSize ?s) (unat (align_size_up 8 10 :: u64)) (region_blocks ?s)
      (allocated (AllocPtr 8)) (region_blocks (alloc_done True 8 16 (snd (try_alloc 16 ?s))))"
    by (simp add: region_new_def)
  moreover have "unat (align_size_up 8 10 :: u64) = 16" by code_simp
  moreover have "region_blocks ?s = {}" "rgAddr ?s = 8" "rgSize ?s = 16"
    by (simp_all add: region_blocks_def region_new_def)
  moreover have "region_blocks (alloc_done True 8 16 (snd (try_alloc 16 ?s))) = {(8, 16)}"
    by (simp add: region_blocks_def region_new_def alloc_done_def try_alloc_def)
  ultimately show ?thesis by (simp add: allocated_def)
qed

section \<open>Waiting\<close>




lemma wait_stops:
  "rgGeneration s = g \<Longrightarrow> wait_generation back g (replicate k RegionStopped) s = AllocWaiting"
proof (induction k arbitrary: s)
  case (Suc k)
  then show ?case
    by (simp add: wait_generation.simps [of _ _ "RegionStopped # replicate k RegionStopped"]
        apply_event_def region_stop_def)
qed (simp add: wait_generation.simps [of _ _ "[]"])

text \<open>
  A stopped region leaves a waiting allocation waiting: when there is no room in a region that
  cannot fail, \<open>stop\<close> does not end the wait, however often it is called, because only the return of
  a block changes the generation.
\<close>

theorem stop_leaves_waiter:
  assumes I: "interval_map I" and inv: "region_inv I s" and run: "rgRunning s" and "\<not> rgCanFail s"
    and size: "size0 \<noteq> 0" "al \<noteq> 0" "unat size0 + unat al \<le> 2 ^ 64"
    and full: "\<nexists>p. fits (rgAddr s) (rgSize s) (region_blocks s) (unat (align_size_up al size0)) p"
  shows "fst (do_allocate I strat al True back (replicate k RegionStopped) size0 s) = AllocWaiting"
proof -
  let ?n = "unat (align_size_up al size0)"
  have n: "0 < ?n" using align_size_up_bounds(1) [OF size(2, 3)] size(1) by (simp add: unat_gt_0 [symmetric])
  have room: "\<not> has_room ?n s" using full fits_room [of s ?n] by simp
  obtain q s1 where q: "try_alloc ?n s = (q, s1)" by (cases "try_alloc ?n s")
  have "q = None"
    using room interval_map.extent_is_room [OF I inv] try_alloc_some q by (cases q) fastforce+
  then have s1: "s1 = s" using try_alloc_none [OF n inv] q by blast
  obtain a u where a: "attempt I strat ?n s = (a, u)" by (cases "attempt I strat ?n s")
  have "a = None" using interval_map.attempt_room [OF I inv n, of strat] room a by (cases a) auto
  moreover have "\<not> rgCanFail u" using attempt_frame(1) [OF a] assms(4) by (simp add: same_segment_def)
  moreover have "wait_generation back (rgGeneration s) (replicate k RegionStopped) u = AllocWaiting"
    by (rule wait_stops) (rule attempt_frame(3) [OF a])
  ultimately show ?thesis
    using q \<open>q = None\<close> s1 a run size(1) by (simp add: do_allocate_def alloc_loop_attempt)
qed

lemma stop_leaves_waiter_witness:
  "fst (do_allocate byte_icl eFindLongest 8 True (reclaim_refcount byte_icl) (replicate 2 RegionStopped) 10
     (region_new byte_icl False 8 8)) = AllocWaiting"
proof (rule stop_leaves_waiter [OF byte_icl.interval_map_axioms byte_icl.inv_new])
  have "unat (align_size_up 8 10 :: u64) = 16" by code_simp
  moreover have "\<not> fits 8 8 {} 16 p" for p
  proof
    assume f: "fits 8 8 {} 16 p"
    have "8 \<le> p" "p + 15 < 16"
      using f [unfolded fits_def, rule_format, of p] f [unfolded fits_def, rule_format, of "p + 15"] by auto
    then show False by simp
  qed
  ultimately show "\<nexists>p. fits (rgAddr (region_new byte_icl False 8 8)) (rgSize (region_new byte_icl False 8 8))
      (region_blocks (region_new byte_icl False 8 8)) (unat (align_size_up 8 (10 :: u64))) p"
    by (simp add: region_new_def region_blocks_def)
qed (simp_all add: region_new_def)

section \<open>Batches of blocks\<close>

text \<open>
  When the first block of a batch is the last reference to its allocation, the block is erased
  and the next block of the same batch reads it through the stale iterator: the batch has no
  defined behaviour, though its first block alone is freed.
\<close>

theorem erased_block_read:
  assumes "sort_key rbPtr rbs = a # b # rest"
    and "sm_lower_bound (rgAllocBlocks s) (rbPtr a) = Some (k, blk)"
    and "sm_get (rgAllocBlocks s) k = Some blk" and "abRefCnt blk = 1"
  shows "reclaim_refcount I rbs s = None \<and>
    map_option (\<lambda>t. sm_get (rgAllocBlocks t) k) (reclaim_refcount I [a] s) = Some None"
  using assms by (simp add: reclaim_refcount_def alloc_deref_def reclaimSHMMessage_def Let_def)

definition two_blocks :: "nat list region" where
  "two_blocks = region_new byte_icl False 0 4
     \<lparr>rgStart := None, rgLength := 0, rgFree := 0,
      rgAllocBlocks := [(1, \<lparr>abStart = 0, abLength = 2, abRefCnt = 1\<rparr>), (3, \<lparr>abStart = 2, abLength = 2, abRefCnt = 1\<rparr>)]\<rparr>"

lemma erased_block_read_witness:
  "reclaim_refcount byte_icl [\<lparr>rbPtr = 2, rbSize = 2, rbHint = 0\<rparr>, \<lparr>rbPtr = 0, rbSize = 2, rbHint = 0\<rparr>] two_blocks = None"
proof -
  let ?a = "\<lparr>rbPtr = 0, rbSize = 2, rbHint = 0\<rparr>" and ?b = "\<lparr>rbPtr = 2, rbSize = 2, rbHint = 0\<rparr>"
  have "sort_key rbPtr [?b, ?a] = ?a # ?b # []" by code_simp
  moreover have "sm_lower_bound (rgAllocBlocks two_blocks) (rbPtr ?a) =
      Some (1, \<lparr>abStart = 0, abLength = 2, abRefCnt = 1\<rparr>)"
    by code_simp
  moreover have "sm_get (rgAllocBlocks two_blocks) 1 = Some \<lparr>abStart = 0, abLength = 2, abRefCnt = 1\<rparr>"
    by code_simp
  ultimately show ?thesis using erased_block_read by fastforce
qed

lemma returned_bytes_fold:
  assumes "interval_map I" and "icl_ok I (rgFreeRanges s)"
    and "sorted_wrt (\<lambda>e f. fst (snd e) \<le> fst f) es" and "\<And>e. e \<in> set es \<Longrightarrow> fst e < fst (snd e)"
  shows "icl_at I (rgFreeRanges (fold (\<lambda>e t. reclaimSHMMessage I (fst e) (entry_length e) t) es s)) x =
    icl_at I (rgFreeRanges s) x + of_bool (\<exists>e \<in> set es. fst e \<le> x \<and> x < fst (snd e))"
  using assms(2-4)
proof (induction es arbitrary: s)
  case (Cons e es)
  let ?s = "reclaimSHMMessage I (fst e) (entry_length e) s"
  have up: "fst e + entry_length e = fst (snd e)" using Cons.prems(3) [of e] by (simp add: entry_length_def)
  have ok: "icl_ok I (rgFreeRanges ?s)"
    using interval_map.ok_add [OF assms(1) Cons.prems(1)] by (simp add: reclaimSHMMessage_def)
  have at: "icl_at I (rgFreeRanges ?s) x = icl_at I (rgFreeRanges s) x + of_bool (fst e \<le> x \<and> x < fst (snd e))"
    using interval_map.at_add [OF assms(1) Cons.prems(1), of "fst e" "fst (snd e)" x]
    by (simp add: reclaimSHMMessage_def up)
  have "\<not> (\<exists>f \<in> set es. fst f \<le> x \<and> x < fst (snd f))" if "fst e \<le> x \<and> x < fst (snd e)"
    using that Cons.prems(2) by force
  then show ?case
    using Cons.IH [OF ok] Cons.prems(2, 3) at by auto
qed simp

lemma sum_entries:
  assumes "sorted_wrt (\<lambda>e f. fst (snd e) \<le> fst f) es" and "\<And>e. e \<in> set es \<Longrightarrow> fst e < fst (snd e)"
  shows "finite {x. \<exists>e \<in> set es. fst e \<le> x \<and> x < fst (snd e)} \<and>
    sum_list (map entry_length es) = card {x. \<exists>e \<in> set es. fst e \<le> x \<and> x < fst (snd e)}"
  using assms
proof (induction es)
  case (Cons e es)
  let ?A = "{fst e ..< fst (snd e)}" and ?B = "{x. \<exists>f \<in> set es. fst f \<le> x \<and> x < fst (snd f)}"
  have split: "{x. \<exists>f \<in> set (e # es). fst f \<le> x \<and> x < fst (snd f)} = ?A \<union> ?B" by auto
  have "?A \<inter> ?B = {}" using Cons.prems(1) by force
  moreover have "finite ?B" "sum_list (map entry_length es) = card ?B" using Cons by auto
  moreover have "entry_length e = card ?A" by (simp add: entry_length_def)
  ultimately show ?case unfolding split by (simp add: card_Un_disjoint)
qed simp

definition batch_bytes :: "u64 \<Rightarrow> region_block list \<Rightarrow> nat set" where
  "batch_bytes al rbs = {x. \<exists>rb \<in> set rbs. rbSize rb \<noteq> 0 \<and> rbPtr rb \<le> x \<and>
     x < rbPtr rb + unat (align_size_up al (of_nat (rbSize rb)))}"

lemma merge_fold:
  assumes "interval_map I" and "icl_ok I m"
  shows "icl_ok I (fold (\<lambda>rb m. if rbSize rb = 0 then m
        else icl_add I (rbPtr rb) (rbPtr rb + unat (align_size_up al (of_nat (rbSize rb)))) m) rbs m) \<and>
    (0 < icl_at I (fold (\<lambda>rb m. if rbSize rb = 0 then m
        else icl_add I (rbPtr rb) (rbPtr rb + unat (align_size_up al (of_nat (rbSize rb)))) m) rbs m) x
      \<longleftrightarrow> 0 < icl_at I m x \<or> x \<in> batch_bytes al rbs)"
  using assms(2)
proof (induction rbs arbitrary: m)
  case Nil
  then show ?case by (simp add: batch_bytes_def)
next
  case (Cons rb rbs)
  let ?m = "if rbSize rb = 0 then m
    else icl_add I (rbPtr rb) (rbPtr rb + unat (align_size_up al (of_nat (rbSize rb)))) m"
  have ok: "icl_ok I ?m" using interval_map.ok_add [OF assms(1)] Cons.prems by simp
  have "0 < icl_at I ?m x \<longleftrightarrow> 0 < icl_at I m x \<or> x \<in> batch_bytes al [rb]"
    by (auto simp: interval_map.at_add [OF assms(1) Cons.prems] batch_bytes_def)
  moreover have "x \<in> batch_bytes al (rb # rbs) \<longleftrightarrow> x \<in> batch_bytes al [rb] \<or> x \<in> batch_bytes al rbs"
    by (auto simp: batch_bytes_def)
  ultimately show ?case using Cons.IH [OF ok] by (simp only: fold_simps) blast
qed

lemma merge_blocks_entries:
  assumes I: "interval_map I"
  shows "(\<exists>e \<in> set (icl_entries I (merge_blocks I al rbs)). fst e \<le> x \<and> x < fst (snd e)) \<longleftrightarrow>
    x \<in> batch_bytes al rbs"
proof -
  note m = merge_fold [OF I interval_map.ok_empty [OF I], of al rbs x, folded merge_blocks_def]
  have "(\<exists>e \<in> set (icl_entries I (merge_blocks I al rbs)). fst e \<le> x \<and> x < fst (snd e)) \<longleftrightarrow>
      0 < icl_at I (merge_blocks I al rbs) x"
  proof
    assume "\<exists>e \<in> set (icl_entries I (merge_blocks I al rbs)). fst e \<le> x \<and> x < fst (snd e)"
    then obtain a b n where abn: "(a, b, n) \<in> set (icl_entries I (merge_blocks I al rbs))" "a \<le> x" "x < b"
      by auto
    have "icl_at I (merge_blocks I al rbs) x = n" "0 < n"
      using interval_map.entry [OF I conjunct1 [OF m] abn(1)] abn(2, 3) by simp_all
    then show "0 < icl_at I (merge_blocks I al rbs) x" by simp
  next
    assume "0 < icl_at I (merge_blocks I al rbs) x"
    from interval_map.at_in_entry [OF I conjunct1 [OF m] this] obtain a b
      where ab: "(a, b, icl_at I (merge_blocks I al rbs) x) \<in> set (icl_entries I (merge_blocks I al rbs))"
        "a \<le> x" "x < b" .
    show "\<exists>e \<in> set (icl_entries I (merge_blocks I al rbs)). fst e \<le> x \<and> x < fst (snd e)"
      by (rule bexI [OF _ ab(1)]) (simp add: ab)
  qed
  then show ?thesis using m interval_map.at_empty [OF I] by simp
qed

lemma reclaim_fold_frame:
  "rgFree (fold (\<lambda>e t. reclaimSHMMessage I (fst e) (entry_length e) t) es s) = rgFree s \<and>
   rgGeneration (fold (\<lambda>e t. reclaimSHMMessage I (fst e) (entry_length e) t) es s) = rgGeneration s"
  by (induction es arbitrary: s) (simp_all add: reclaimSHMMessage_def)

text \<open>
  A batch of blocks of the header region gives back exactly its bytes, each block rounded up to
  the alignment: adjacent and overlapping blocks are merged first, so a block that comes back twice
  in a batch counts once, in the free ranges and in the free size.
\<close>

theorem exact_reclaim:
  assumes I: "interval_map I" and ok: "icl_ok I (rgFreeRanges s)" and r: "reclaim_exact I al rbs s = Some t"
  shows "icl_at I (rgFreeRanges t) x = icl_at I (rgFreeRanges s) x + of_bool (x \<in> batch_bytes al rbs) \<and>
    rgFree t = rgFree s + int (card (batch_bytes al rbs)) \<and> rgGeneration t = rgGeneration s + 1"
proof -
  let ?es = "icl_entries I (merge_blocks I al rbs)"
  have mok: "icl_ok I (merge_blocks I al rbs)"
    using merge_fold [OF I interval_map.ok_empty [OF I]] unfolding merge_blocks_def by blast
  note sorted = interval_map.entries_disjoint [OF I mok]
  have pos: "fst e < fst (snd e)" if "e \<in> set ?es" for e
    using that interval_map.entry [OF I mok, of "fst e" "fst (snd e)" "snd (snd e)"] by simp
  have bytes: "batch_bytes al rbs = {x. \<exists>e \<in> set ?es. fst e \<le> x \<and> x < fst (snd e)}"
    using merge_blocks_entries [OF I] by blast
  let ?s = "fold (\<lambda>e t. reclaimSHMMessage I (fst e) (entry_length e) t) ?es s"
  have t: "rgFreeRanges t = rgFreeRanges ?s" "rgFree t = rgFree ?s + int (sum_list (map entry_length ?es))"
    "rgGeneration t = rgGeneration ?s + 1"
    using r by (auto simp: reclaim_exact_def Let_def)
  have "icl_at I (rgFreeRanges t) x = icl_at I (rgFreeRanges s) x + of_bool (x \<in> batch_bytes al rbs)"
    using returned_bytes_fold [OF I ok sorted pos, of x] merge_blocks_entries [OF I, of al rbs x] t(1) by simp
  moreover have "sum_list (map entry_length ?es) = card (batch_bytes al rbs)"
    unfolding bytes using sum_entries [OF sorted pos] by blast
  ultimately show ?thesis using t reclaim_fold_frame by metis
qed

lemma exact_reclaim_witness:
  "icl_at byte_icl (rgFreeRanges (the (reclaim_exact byte_icl 8
     [\<lparr>rbPtr = 0, rbSize = 3, rbHint = 0\<rparr>, \<lparr>rbPtr = 0, rbSize = 3, rbHint = 0\<rparr>] two_blocks))) 7 =
   icl_at byte_icl (rgFreeRanges two_blocks) 7 + of_bool (7 \<in> batch_bytes 8
     [\<lparr>rbPtr = 0, rbSize = 3, rbHint = 0\<rparr>, \<lparr>rbPtr = 0, rbSize = 3, rbHint = 0\<rparr>])"
proof -
  have "\<exists>t. reclaim_exact byte_icl 8
     [\<lparr>rbPtr = 0, rbSize = 3, rbHint = 0\<rparr>, \<lparr>rbPtr = 0, rbSize = 3, rbHint = 0\<rparr>] two_blocks = Some t"
    by (simp add: reclaim_exact_def Let_def)
  then obtain t where t: "reclaim_exact byte_icl 8
     [\<lparr>rbPtr = 0, rbSize = 3, rbHint = 0\<rparr>, \<lparr>rbPtr = 0, rbSize = 3, rbHint = 0\<rparr>] two_blocks = Some t" ..
  have "icl_ok byte_icl (rgFreeRanges two_blocks)" by (simp add: byte_icl_def)
  from exact_reclaim [OF byte_icl.interval_map_axioms this t, of 7] show ?thesis by (simp add: t)
qed

end
