(* ===== verification/TfFile_Format.thy ===== *)
theory TfFile_Format
  imports DD_SubTimeFrame
begin

text \<open>
  The time frame file, \<open>common/SubTimeFrameFile.{h,cxx}\<close>: a file is a sequence of frames, each a
  header with the meta structure, a header with the index, and a header for every data part,
  followed by the part.

  The O2 headers are not part of the sources. Their layout is a parameter, the record
  \<open>o2_codec\<close>, and the locale \<open>o2_headers\<close> states what the sources rely on: a \<open>DataHeader\<close> occupies
  \<open>sizeof(DataHeader)\<close> bytes, starts with its base header, and reads back what was written. The
  meta structure is three 64-bit integers of this repository; it is laid out here, in little endian.
\<close>

section \<open>Little endian integers\<close>

fun le_bytes :: "nat \<Rightarrow> nat \<Rightarrow> u8 list" where
  "le_bytes 0 n = []"
| "le_bytes (Suc k) n = of_nat (n mod 256) # le_bytes k (n div 256)"

fun le_value :: "u8 list \<Rightarrow> nat" where
  "le_value [] = 0"
| "le_value (b # bs) = unat b + 256 * le_value bs"

lemma length_le_bytes [simp]: "length (le_bytes k n) = k"
  by (induction k arbitrary: n) simp_all

lemma le_value_bytes: "le_value (le_bytes k n) = n mod 256 ^ k"
proof (induction k arbitrary: n)
  case (Suc k)
  have "unat (of_nat (n mod 256) :: u8) = n mod 256" by (simp add: unat_of_nat)
  then show ?case by (simp add: Suc mod_mult2_eq)
qed simp

lemma unat_small: "n < 2 ^ 64 \<Longrightarrow> unat (of_nat n :: u64) = n"
  by (simp add: unat_of_nat)

definition u64_bytes :: "u64 \<Rightarrow> u8 list" where
  "u64_bytes w = le_bytes 8 (unat w)"

definition u64_of :: "u8 list \<Rightarrow> u64" where
  "u64_of bs = of_nat (le_value (take 8 bs))"

lemma length_u64_bytes [simp]: "length (u64_bytes w) = 8"
  by (simp add: u64_bytes_def)

lemma u64_of_bytes [simp]: "u64_of (u64_bytes w @ r) = w"
proof -
  have "unat w mod 256 ^ 8 = unat w" using unat_lt_size64 [of w] by simp
  then show ?thesis by (simp add: u64_of_def u64_bytes_def le_value_bytes del: le_bytes.simps)
qed

section \<open>The layout of the O2 headers\<close>

text \<open>A data header with the payload size and the flag for a following header.\<close>

record ('d, 'o) file_header =
  fhHeader :: "('d, 'o) DataHeader"
  fhPayloadSize :: u64
  fhNext :: bool

record base_header =
  bhSize :: nat
  bhVersion :: nat
  bhNext :: bool

text \<open>\<open>ocEncode\<close>: the bytes of a \<open>DataHeader\<close>. \<open>ocBase\<close>: the base header in the first bytes.
  \<open>ocIsBase\<close> and \<open>ocGet\<close>: \<open>BaseHeader::get\<close> and \<open>DataHeader::Get\<close> at the start of the bytes.
  \<open>ocUpgrade\<close> sets size and version in the bytes of a \<open>DataHeader\<close>; \<open>ocDefault\<close>: those of
  \<open>DataHeader()\<close>. \<open>ocNew\<close>: the constructor from description, origin, sub-specification and size.
  \<open>ocIndexElem\<close>: the bytes of an element of the index, padding included.\<close>

record ('d, 'o) o2_codec =
  ocSize :: nat
  ocBaseSize :: nat
  ocVersion :: nat
  ocEncode :: "('d, 'o) file_header \<Rightarrow> u8 list"
  ocBase :: "u8 list \<Rightarrow> base_header"
  ocIsBase :: "u8 list \<Rightarrow> bool"
  ocGet :: "u8 list \<Rightarrow> ('d, 'o) file_header option"
  ocUpgrade :: "u8 list \<Rightarrow> u8 list"
  ocDefault :: "u8 list"
  ocNew :: "'d \<Rightarrow> 'o \<Rightarrow> u32 \<Rightarrow> u64 \<Rightarrow> ('d, 'o) file_header"
  ocIndexElem :: "('d, 'o) EquipmentIdentifier \<Rightarrow> u32 \<Rightarrow> u64 \<Rightarrow> u64 \<Rightarrow> u8 list"
  ocMetaDesc :: 'd
  ocIndexDesc :: 'd
  ocRawDesc :: 'd
  ocOriginFLP :: 'o
  ocOriginAny :: 'o

locale o2_headers =
  fixes C :: "('d, 'o) o2_codec"
  assumes enc_length: "length (ocEncode C h) = ocSize C"
    and base_size: "0 < ocBaseSize C" "ocBaseSize C \<le> ocSize C"
    and enc_base: "ocBase C (take (ocBaseSize C) (ocEncode C h)) =
      \<lparr>bhSize = ocSize C, bhVersion = ocVersion C, bhNext = fhNext h\<rparr>"
    and enc_is_base: "ocIsBase C (ocEncode C h @ r)"
    and enc_get: "ocGet C (ocEncode C h) = Some h"
    and new_header: "dhDescription (fhHeader (ocNew C d og ss n)) = d"
      "fhPayloadSize (ocNew C d og ss n) = n" "\<not> fhNext (ocNew C d og ss n)"
    and index_elem: "length (ocIndexElem C e c off sz) = 48"
    and size_small: "ocSize C < 2 ^ 16"

section \<open>Meta and index\<close>

record SubTimeFrameFileMeta =
  mStfFileVersion :: u64
  mStfSizeInFile :: u64
  mWriteTimeMs :: u64

definition file_meta_new :: "u64 \<Rightarrow> u64 \<Rightarrow> SubTimeFrameFileMeta" where
  "file_meta_new now sz = \<lparr>mStfFileVersion = 1, mStfSizeInFile = sz, mWriteTimeMs = now\<rparr>"

definition meta_size :: nat where
  "meta_size = 24"

definition meta_bytes :: "SubTimeFrameFileMeta \<Rightarrow> u8 list" where
  "meta_bytes m = u64_bytes (mStfFileVersion m) @ u64_bytes (mStfSizeInFile m) @ u64_bytes (mWriteTimeMs m)"

definition meta_of :: "u8 list \<Rightarrow> SubTimeFrameFileMeta" where
  "meta_of bs = \<lparr>mStfFileVersion = u64_of bs, mStfSizeInFile = u64_of (drop 8 bs), mWriteTimeMs = u64_of (drop 16 bs)\<rparr>"

lemma length_meta_bytes [simp]: "length (meta_bytes m) = meta_size"
  by (simp add: meta_bytes_def meta_size_def)

lemma meta_of_bytes [simp]: "meta_of (meta_bytes m) = m"
proof -
  have "u64_of (u64_bytes w) = w" for w using u64_of_bytes [of w "[]"] by simp
  then show ?thesis by (simp add: meta_of_def meta_bytes_def)
qed

definition meta_header :: "('d, 'o) o2_codec \<Rightarrow> ('d, 'o) file_header" where
  "meta_header C = ocNew C (ocMetaDesc C) (ocOriginFLP C) 0 (of_nat meta_size)"

definition meta_size_in_file :: "('d, 'o) o2_codec \<Rightarrow> u64" where
  "meta_size_in_file C = of_nat (ocSize C) + of_nat meta_size"

record ('d, 'o) DataIndexElem =
  ixId :: "('d, 'o) EquipmentIdentifier"
  ixDataBlockCnt :: u32
  ixOffset :: u64
  ixSize :: u64

type_synonym ('d, 'o) file_index = "('d, 'o) DataIndexElem list"

definition AddStfElement :: "('d, 'o) EquipmentIdentifier \<Rightarrow> u32 \<Rightarrow> u64 \<Rightarrow> u64 \<Rightarrow>
    ('d, 'o) file_index \<Rightarrow> ('d, 'o) file_index" where
  "AddStfElement e cnt off sz ix = ix @ [\<lparr>ixId = e, ixDataBlockCnt = cnt, ixOffset = off, ixSize = sz\<rparr>]"

definition index_size_in_file :: "('d, 'o) o2_codec \<Rightarrow> ('d, 'o) file_index \<Rightarrow> u64" where
  "index_size_in_file C ix = of_nat (ocSize C) + 48 * of_nat (length ix)"

definition index_header :: "('d, 'o) o2_codec \<Rightarrow> ('d, 'o) file_index \<Rightarrow> ('d, 'o) file_header" where
  "index_header C ix = ocNew C (ocIndexDesc C) (ocOriginAny C) 0 (of_nat (length ix) * 48)"

definition index_bytes :: "('d, 'o) o2_codec \<Rightarrow> ('d, 'o) file_index \<Rightarrow> u8 list" where
  "index_bytes C ix = concat (map (\<lambda>e. ocIndexElem C (ixId e) (ixDataBlockCnt e) (ixOffset e) (ixSize e)) ix)"


section \<open>A layout\<close>

text \<open>An instance of the layout, with descriptions and origins that are words: the base header is
  size, version, flag and a marker, in 8 bytes; all fields follow in little endian.\<close>

type_synonym plain_header = "(u64, u32) file_header"

definition plain_encode :: "plain_header \<Rightarrow> u8 list" where
  "plain_encode h = le_bytes 4 52 @ le_bytes 2 3 @ [if fhNext h then 1 else 0, 79]
     @ le_bytes 8 (unat (dhDescription (fhHeader h))) @ le_bytes 8 (unat (fhPayloadSize h))
     @ le_bytes 4 (unat (dhOrigin (fhHeader h))) @ le_bytes 4 (unat (dhSubSpecification (fhHeader h)))
     @ le_bytes 4 (unat (splitPayloadIndex (fhHeader h))) @ le_bytes 4 (unat (splitPayloadParts (fhHeader h)))
     @ le_bytes 4 (unat (firstTForbit (fhHeader h))) @ le_bytes 4 (unat (tfCounter (fhHeader h)))
     @ le_bytes 4 (unat (runNumber (fhHeader h)))"

definition plain_base :: "u8 list \<Rightarrow> base_header" where
  "plain_base bs = \<lparr>bhSize = le_value (take 4 bs), bhVersion = le_value (take 2 (drop 4 bs)),
     bhNext = (take 1 (drop 6 bs) = [1])\<rparr>"

definition plain_is_base :: "u8 list \<Rightarrow> bool" where
  "plain_is_base bs \<longleftrightarrow> take 1 (drop 7 bs) = [79]"

definition u32_at :: "nat \<Rightarrow> u8 list \<Rightarrow> u32" where
  "u32_at i bs = of_nat (le_value (take 4 (drop i bs)))"

definition plain_get :: "u8 list \<Rightarrow> plain_header option" where
  "plain_get bs =
     (if length bs < 52 \<or> \<not> plain_is_base bs then None
      else Some \<lparr>fhHeader = \<lparr>dhDescription = u64_of (drop 8 bs), dhOrigin = u32_at 24 bs,
              dhSubSpecification = u32_at 28 bs, splitPayloadIndex = u32_at 32 bs,
              splitPayloadParts = u32_at 36 bs, firstTForbit = u32_at 40 bs, tfCounter = u32_at 44 bs,
              runNumber = u32_at 48 bs\<rparr>,
            fhPayloadSize = u64_of (drop 16 bs), fhNext = bhNext (plain_base bs)\<rparr>)"

definition plain_new :: "u64 \<Rightarrow> u32 \<Rightarrow> u32 \<Rightarrow> u64 \<Rightarrow> plain_header" where
  "plain_new d og ss n = \<lparr>fhHeader = \<lparr>dhDescription = d, dhOrigin = og, dhSubSpecification = ss,
     splitPayloadIndex = 0, splitPayloadParts = 1, firstTForbit = 0, tfCounter = 0, runNumber = 0\<rparr>,
     fhPayloadSize = n, fhNext = False\<rparr>"

definition plain_codec :: "(u64, u32) o2_codec" where
  "plain_codec = \<lparr>ocSize = 52, ocBaseSize = 8, ocVersion = 3, ocEncode = plain_encode, ocBase = plain_base,
     ocIsBase = plain_is_base, ocGet = plain_get, ocUpgrade = id, ocDefault = plain_encode (plain_new 0 0 0 0),
     ocNew = plain_new,
     ocIndexElem = (\<lambda>e c off sz. replicate 12 0 @ le_bytes 4 (unat c) @ replicate 16 0 @ le_bytes 8 (unat off) @ le_bytes 8 (unat sz)),
     ocMetaDesc = 1, ocIndexDesc = 2, ocRawDesc = 3, ocOriginFLP = 1, ocOriginAny = 2\<rparr>"

lemma u64_of_le [simp]: "u64_of (le_bytes 8 (unat w) @ r) = w"
  using u64_of_bytes [of w r] by (simp add: u64_bytes_def)

lemma of_le4: "(of_nat (le_value (le_bytes 4 (unat (w :: u32)))) :: u32) = w"
proof -
  have "unat w < 256 ^ 4" using unsigned_less [where 'a = nat and w = w] by simp
  then show ?thesis by (simp add: le_value_bytes del: le_bytes.simps)
qed

lemma length_plain_encode: "length (plain_encode h) = 52"
  by (simp add: plain_encode_def)

interpretation plain: o2_headers plain_codec
proof unfold_locales
  fix h :: plain_header and r :: "u8 list"
  note le = length_le_bytes le_value_bytes
  show "ocBase plain_codec (take (ocBaseSize plain_codec) (ocEncode plain_codec h)) =
      \<lparr>bhSize = ocSize plain_codec, bhVersion = ocVersion plain_codec, bhNext = fhNext h\<rparr>"
    by (simp add: plain_codec_def plain_base_def plain_encode_def le del: le_bytes.simps)
  show "ocIsBase plain_codec (ocEncode plain_codec h @ r)"
    by (simp add: plain_codec_def plain_is_base_def plain_encode_def del: le_bytes.simps)
  show "ocGet plain_codec (ocEncode plain_codec h) = Some h"
    by (simp add: plain_codec_def plain_get_def plain_encode_def plain_is_base_def plain_base_def u32_at_def
        of_le4 del: le_bytes.simps)
qed (simp_all add: plain_codec_def length_plain_encode plain_new_def)

end
