(* ===== verification/TfFile_Writer.thy ===== *)
theory TfFile_Writer
  imports TfFile_Format
begin

text \<open>
  Writing time frames, \<open>common/SubTimeFrameFileWriter.{h,cxx}\<close>: the frame is collected in the order
  of the equipment identifiers, the index is built from the sizes, and meta, index and all parts
  with their headers are written. A stream takes \<open>ofRoom\<close> more bytes; the write that does not fit
  fails, and nothing is written after it. The sidecar file is given by its rows, before formatting
  and without the columns of the RDH.
\<close>

section \<open>The stream\<close>

record out_file =
  ofContent :: "u8 list"
  ofGood :: bool
  ofRoom :: nat

definition file_put :: "u8 list \<Rightarrow> out_file \<Rightarrow> out_file" where
  "file_put bs w =
     (if \<not> ofGood w then w
      else if length bs \<le> ofRoom w then w\<lparr>ofContent := ofContent w @ bs, ofRoom := ofRoom w - length bs\<rparr>
      else w\<lparr>ofGood := False\<rparr>)"

definition writer_size :: "out_file \<Rightarrow> u64" where
  "writer_size w = of_nat (length (ofContent w))"

text \<open>Blocks below the size of the stream buffer are written in chunks of 512 bytes.\<close>

function chunks :: "u8 list \<Rightarrow> u8 list list" where
  "chunks bs = (if bs = [] then [] else take 512 bs # chunks (drop 512 bs))"
  by auto
termination by (relation "measure length") auto

declare chunks.simps [simp del]

definition buffered_write :: "u8 list \<Rightarrow> out_file \<Rightarrow> out_file" where
  "buffered_write bs w =
     (if length bs \<ge> 2 ^ 20 then file_put bs w else fold file_put (chunks bs) w)"

section \<open>Collecting a frame\<close>

definition writer_ids :: "('d::linorder, 'o::linorder) SubTimeFrame \<Rightarrow> ('d, 'o) EquipmentIdentifier list" where
  "writer_ids f = sort (getEquipmentIdentifiers f)"

definition writer_vec :: "('d, 'o) SubTimeFrame \<Rightarrow> ('d, 'o) EquipmentIdentifier \<Rightarrow> ('d, 'o) StfDataVector" where
  "writer_vec f e = vec_at (stfData f) (eid_identifier e) (mSubSpecification e)"

definition writer_data :: "('d::linorder, 'o::linorder) SubTimeFrame \<Rightarrow> ('d, 'o) StfMessage list" where
  "writer_data f = concat (map (writer_vec f) (writer_ids f))"

text \<open>Size and number of the parts of a vector, headers included.\<close>

definition parts_size :: "('d, 'o) o2_codec \<Rightarrow> ('d, 'o) StfMessage list \<Rightarrow> u64 \<times> u32" where
  "parts_size C v =
     fold (\<lambda>p (s, c). (s + (of_nat (ocSize C) + of_nat (length p)), c + 1)) (concat (map smDataParts v)) (0, 0)"

fun build_index :: "('d, 'o) o2_codec \<Rightarrow> ('d, 'o) SubTimeFrame \<Rightarrow> u64 \<Rightarrow> ('d, 'o) EquipmentIdentifier list \<Rightarrow>
    ('d, 'o) file_index \<Rightarrow> ('d, 'o) file_index" where
  "build_index C f off [] ix = ix"
| "build_index C f off (e # es) ix =
     (let (sz, cnt) = parts_size C (writer_vec f e)
      in build_index C f (off + sz) es (AddStfElement e cnt off sz ix))"

definition writer_index :: "('d::linorder, 'o::linorder) o2_codec \<Rightarrow> ('d, 'o) SubTimeFrame \<Rightarrow> ('d, 'o) file_index" where
  "writer_index C f = build_index C f 0 (writer_ids f) []"

definition size_in_file :: "('d::linorder, 'o::linorder) o2_codec \<Rightarrow> ('d, 'o) SubTimeFrame \<Rightarrow> u64" where
  "size_in_file C f = meta_size_in_file C + index_size_in_file C (writer_index C f)
     + fst (parts_size C (writer_data f))"

section \<open>Writing a frame\<close>

definition part_header :: "('d, 'o) DataHeader \<Rightarrow> nat \<Rightarrow> fmq_message \<Rightarrow> ('d, 'o) file_header" where
  "part_header h i p = \<lparr>fhHeader = h\<lparr>splitPayloadIndex := of_nat i\<rparr>, fhPayloadSize = of_nat (length p), fhNext = False\<rparr>"

fun write_parts :: "('d, 'o) o2_codec \<Rightarrow> ('d, 'o) DataHeader \<Rightarrow> nat \<Rightarrow> fmq_message list \<Rightarrow> out_file \<Rightarrow> out_file" where
  "write_parts C h i [] w = w"
| "write_parts C h i (p # ps) w =
     write_parts C h (Suc i) ps (buffered_write p (buffered_write (ocEncode C (part_header h i p)) w))"

text \<open>A message without header is reported and skipped, though its parts are counted.\<close>

fun write_messages :: "('d, 'o) o2_codec \<Rightarrow> ('d, 'o) StfMessage list \<Rightarrow> out_file \<Rightarrow> out_file" where
  "write_messages C [] w = w"
| "write_messages C (msg # v) w =
     write_messages C v (case smHeader msg of None \<Rightarrow> w | Some h \<Rightarrow> write_parts C h 0 (smDataParts msg) w)"

definition write_meta :: "('d, 'o) o2_codec \<Rightarrow> SubTimeFrameFileMeta \<Rightarrow> out_file \<Rightarrow> out_file" where
  "write_meta C m w = file_put (meta_bytes m) (file_put (ocEncode C (meta_header C)) w)"

definition write_index :: "('d, 'o) o2_codec \<Rightarrow> ('d, 'o) file_index \<Rightarrow> out_file \<Rightarrow> out_file" where
  "write_index C ix w = file_put (index_bytes C ix) (file_put (ocEncode C (index_header C ix)) w)"

section \<open>The sidecar\<close>

record ('d, 'o) sidecar_row =
  rwTfId :: u64
  rwTfOffset :: u64
  rwTfSize :: u64
  rwOrigin :: 'o
  rwDesc :: 'd
  rwSubSpec :: u32
  rwDataIdx :: u32
  rwHdrOff :: u64
  rwHdrSize :: u64
  rwDataOff :: u64
  rwDataSize :: u64

fun sidecar_parts :: "('d, 'o) o2_codec \<Rightarrow> u64 \<times> u64 \<times> u64 \<Rightarrow> ('d, 'o) DataHeader \<Rightarrow> nat \<Rightarrow> fmq_message list \<Rightarrow>
    u64 \<Rightarrow> ('d, 'o) sidecar_row list \<times> u64" where
  "sidecar_parts C tf h i [] off = ([], off)"
| "sidecar_parts C tf h i (p # ps) off =
     (let hs = of_nat (ocSize C); n = of_nat (length p);
          (rows, off') = sidecar_parts C tf h (Suc i) ps (off + hs + n)
      in (\<lparr>rwTfId = fst tf, rwTfOffset = fst (snd tf), rwTfSize = snd (snd tf), rwOrigin = dhOrigin h,
           rwDesc = dhDescription h, rwSubSpec = dhSubSpecification h, rwDataIdx = of_nat i, rwHdrOff = off,
           rwHdrSize = hs, rwDataOff = off + hs, rwDataSize = n\<rparr> # rows, off'))"

text \<open>\<open>None\<close>: the header of a message without header is copied.\<close>

fun sidecar_rows :: "('d, 'o) o2_codec \<Rightarrow> u64 \<times> u64 \<times> u64 \<Rightarrow> ('d, 'o) StfMessage list \<Rightarrow> u64 \<Rightarrow>
    ('d, 'o) sidecar_row list option" where
  "sidecar_rows C tf [] off = Some []"
| "sidecar_rows C tf (msg # v) off =
     (case smHeader msg of
        None \<Rightarrow> None
      | Some h \<Rightarrow>
          (let (rows, off') = sidecar_parts C tf h 0 (smDataParts msg) off
           in map_option ((@) rows) (sidecar_rows C tf v off')))"

text \<open>\<open>_write\<close>: the result is the number of bytes written, 0 on failure. \<open>info\<close>: the sidecar is
  written too; \<open>infoOk\<close>: its stream takes the rows. \<open>None\<close>: no defined behaviour.\<close>

definition write_frame :: "('d::linorder, 'o::linorder) o2_codec \<Rightarrow> u64 \<Rightarrow> bool \<Rightarrow> bool \<Rightarrow> ('d, 'o) SubTimeFrame \<Rightarrow>
    out_file \<Rightarrow> (u64 \<times> ('d, 'o) sidecar_row list \<times> out_file) option" where
  "write_frame C now info infoOk f w =
     (let ix = writer_index C f; v = writer_data f; prev = writer_size w; sz = size_in_file C f;
          w1 = write_index C ix (write_meta C (file_meta_new now sz) w);
          w2 = write_messages C v w1
      in if \<not> ofGood w2 then Some (0, [], w2)
         else if \<not> info then Some (writer_size w2 - prev, [], w2)
         else case sidecar_rows C (hId (stfHeader f), prev, sz) v (writer_size w1) of
             None \<Rightarrow> None
           | Some rows \<Rightarrow> if infoOk then Some (writer_size w2 - prev, rows, w2) else Some (0, [], w2))"

definition write_stf :: "('d::linorder, 'o::linorder) o2_codec \<Rightarrow> u64 \<Rightarrow> bool \<Rightarrow> bool \<Rightarrow> ('d, 'o) SubTimeFrame \<Rightarrow>
    out_file \<Rightarrow> (u64 \<times> ('d, 'o) sidecar_row list \<times> out_file) option" where
  "write_stf C now info infoOk f w =
     (if \<not> ofGood w then Some (0, [], w) else write_frame C now info infoOk (updateStf f) w)"

section \<open>Files\<close>

text \<open>The directory holds data files and sidecar files. A writer works on \<open>.part\<close> files, which its
  destructor renames unless they were removed. What a stream wrote is in the directory once it
  is closed.\<close>

datatype ('d, 'o) file_content = TfData "u8 list" | InfoRows "('d, 'o) sidecar_row list"

type_synonym ('d, 'o) directory = "string \<rightharpoonup> ('d, 'o) file_content"

record ('d, 'o) file_writer =
  fwName :: string
  fwFile :: out_file
  fwRows :: "('d, 'o) sidecar_row list"
  fwWriteInfo :: bool
  fwOpen :: bool
  fwRemoved :: bool

definition part_name :: "string \<Rightarrow> string" where
  "part_name n = n @ ''.part''"

definition info_name :: "string \<Rightarrow> string" where
  "info_name n = n @ ''.info''"

text \<open>\<open>ok\<close>: the two streams can be opened; the constructor throws otherwise. \<open>room\<close>: the bytes that
  the disk has for the data file.\<close>

definition writer_new :: "string \<Rightarrow> bool \<Rightarrow> bool \<times> bool \<Rightarrow> nat \<Rightarrow> ('d, 'o) directory \<Rightarrow>
    ('d, 'o) file_writer option \<times> ('d, 'o) directory" where
  "writer_new n info ok room d =
     (let w = \<lparr>fwName = n, fwFile = \<lparr>ofContent = [], ofGood = True, ofRoom = room\<rparr>, fwRows = [], fwWriteInfo = info,
            fwOpen = True, fwRemoved = False\<rparr>;
          d1 = d(part_name n \<mapsto> TfData [])
      in if \<not> fst ok then (None, d)
         else if \<not> info then (Some w, d1)
         else if \<not> snd ok then (None, d1)
         else (Some w, d1(part_name (info_name n) \<mapsto> InfoRows [])))"

definition writer_close :: "('d, 'o) file_writer \<Rightarrow> ('d, 'o) directory \<Rightarrow> ('d, 'o) file_writer \<times> ('d, 'o) directory" where
  "writer_close w d =
     (if \<not> fwOpen w then (w, d)
      else let d1 = d(part_name (fwName w) \<mapsto> TfData (ofContent (fwFile w)))
           in (w\<lparr>fwOpen := False\<rparr>,
               if fwWriteInfo w then d1(part_name (info_name (fwName w)) \<mapsto> InfoRows (fwRows w)) else d1))"

definition writer_remove :: "('d, 'o) file_writer \<Rightarrow> ('d, 'o) directory \<Rightarrow> ('d, 'o) file_writer \<times> ('d, 'o) directory" where
  "writer_remove w d =
     (w\<lparr>fwRemoved := True\<rparr>, d(part_name (fwName w) := None, part_name (info_name (fwName w)) := None))"

text \<open>\<open>None\<close>: there is no such file, and \<open>rename\<close> throws.\<close>

definition rename_file :: "string \<Rightarrow> string \<Rightarrow> ('d, 'o) directory \<Rightarrow> ('d, 'o) directory option" where
  "rename_file a b d = map_option (\<lambda>c. (d(a := None))(b \<mapsto> c)) (d a)"

definition writer_destroy :: "('d, 'o) file_writer \<Rightarrow> ('d, 'o) directory \<Rightarrow> ('d, 'o) directory" where
  "writer_destroy w0 d0 =
     (let (w, d) = writer_close w0 d0; n = fwName w;
          d1 = (if fwRemoved w then d
                else case rename_file (part_name n) n d of
                    None \<Rightarrow> d
                  | Some d2 \<Rightarrow>
                      if fwWriteInfo w
                      then (case rename_file (part_name (info_name n)) (info_name n) d2 of None \<Rightarrow> d2 | Some d3 \<Rightarrow> d3)
                      else d2)
      in snd (writer_remove w d1))"

definition writer_write :: "('d::linorder, 'o::linorder) o2_codec \<Rightarrow> u64 \<Rightarrow> bool \<Rightarrow> ('d, 'o) SubTimeFrame \<Rightarrow>
    ('d, 'o) file_writer \<Rightarrow> (u64 \<times> ('d, 'o) file_writer) option" where
  "writer_write C now infoOk f w =
     map_option (\<lambda>(r, rows, file). (r, w\<lparr>fwFile := file, fwRows := fwRows w @ rows\<rparr>))
       (write_stf C now (fwWriteInfo w) infoOk f (fwFile w))"

end
