(* ===== verification/TfFile_Names.thy ===== *)
theory TfFile_Names
  imports DD_Prelude
begin

text \<open>
  Names of files and directories: \<open>common/base/FilePathUtils.cxx\<close> and the string functions of the
  file sink and source. A directory is the list of the names in it, in the order of the iterator,
  which is not specified.
\<close>

section \<open>Strings\<close>

text \<open>\<open>boost::replace_all\<close>: the occurrences of \<open>p\<close>, from left to right.\<close>

function replace_all :: "string \<Rightarrow> string \<Rightarrow> string \<Rightarrow> string" where
  "replace_all p r [] = []"
| "replace_all p r (c # cs) =
     (if p \<noteq> [] \<and> take (length p) (c # cs) = p then r @ replace_all p r (drop (length p) (c # cs))
      else c # replace_all p r cs)"
  by pat_completeness auto
termination by (relation "measure (\<lambda>(p, r, s). length s)") auto

declare replace_all.simps(2) [simp del]

definition digit_char :: "nat \<Rightarrow> char" where
  "digit_char d = char_of (48 + d)"

definition is_digit :: "char \<Rightarrow> bool" where
  "is_digit c \<longleftrightarrow> 48 \<le> (of_char c :: nat) \<and> (of_char c :: nat) < 58"

function dec_string :: "nat \<Rightarrow> string" where
  "dec_string n = (if n < 10 then [digit_char n] else dec_string (n div 10) @ [digit_char (n mod 10)])"
  by auto
termination by (relation "measure id") auto

declare dec_string.simps [simp del]

definition dec_value :: "string \<Rightarrow> nat" where
  "dec_value s = foldl (\<lambda>a c. 10 * a + (of_char c - 48)) 0 s"

text \<open>\<open>setw(k) << setfill('0')\<close>\<close>

definition zero_padded :: "nat \<Rightarrow> nat \<Rightarrow> string" where
  "zero_padded k n = replicate (k - length (dec_string n)) CHR ''0'' @ dec_string n"

text \<open>\<open>boost::filesystem::path::operator/\<close>\<close>

definition path_join :: "string \<Rightarrow> string \<Rightarrow> string" where
  "path_join a b =
     (if a = [] \<or> b = [] \<or> hd b = CHR ''/'' \<or> last a = CHR ''/'' then a @ b else a @ ''/'' @ b)"

section \<open>The functions of FilePathUtils\<close>

text \<open>\<open>now\<close> is the date and time as text. \<open>None\<close>: the root is no directory, and the call throws.\<close>

definition getDateTimeStr :: "string \<Rightarrow> string" where
  "getDateTimeStr now = replace_all '':'' ''_'' now"

definition data_dir_entry :: "string \<Rightarrow> string \<Rightarrow> string \<times> nat \<Rightarrow> string \<times> nat" where
  "data_dir_entry now b = (\<lambda>(check, k).
     if b = now then (check @ now @ ''_'' @ dec_string (k + 1), k + 1) else (check, k))"

definition getDataDirName :: "string \<Rightarrow> string list option \<Rightarrow> string option" where
  "getDataDirName now root =
     map_option (\<lambda>entries. fst (fold (data_dir_entry (getDateTimeStr now)) entries (getDateTimeStr now, 0))) root"

text \<open>The match of \<open>(\d+)(?=\D*$)\<close>: the last run of digits, with what is before and after it.\<close>

definition seq_suffix :: "string \<Rightarrow> string" where
  "seq_suffix s = rev (takeWhile (\<lambda>c. \<not> is_digit c) (rev s))"

definition seq_digits :: "string \<Rightarrow> string" where
  "seq_digits s = rev (takeWhile is_digit (dropWhile (\<lambda>c. \<not> is_digit c) (rev s)))"

definition seq_prefix :: "string \<Rightarrow> string" where
  "seq_prefix s = rev (dropWhile is_digit (dropWhile (\<lambda>c. \<not> is_digit c) (rev s)))"

record seq_state =
  sqMaxSeq :: u64
  sqLen :: nat
  sqMatch :: bool
  sqPrefix :: string
  sqSuffix :: string

definition seq_init :: seq_state where
  "seq_init = \<lparr>sqMaxSeq = 0, sqLen = 1, sqMatch = False, sqPrefix = [], sqSuffix = []\<rparr>"

text \<open>\<open>None\<close>: \<open>stoull\<close> throws.\<close>

definition seq_entry :: "seq_state \<Rightarrow> string \<Rightarrow> seq_state option" where
  "seq_entry q s =
     (if seq_digits s = [] then Some q
      else if dec_value (seq_digits s) \<ge> 2 ^ 64 then None
      else
        (let n = of_nat (dec_value (seq_digits s)) + 1
         in if n \<ge> sqMaxSeq q then
              Some \<lparr>sqMaxSeq = n, sqLen = max (sqLen q) (length (seq_digits s)), sqMatch = True,
                sqPrefix = seq_prefix s, sqSuffix = seq_suffix s\<rparr>
            else Some q))"

fun seq_entries :: "seq_state \<Rightarrow> string list \<Rightarrow> seq_state option" where
  "seq_entries q [] = Some q"
| "seq_entries q (s # ss) = (case seq_entry q s of None \<Rightarrow> None | Some q1 \<Rightarrow> seq_entries q1 ss)"

definition seq_name :: "seq_state \<Rightarrow> string" where
  "seq_name q =
     (let n = unat (sqMaxSeq q)
      in if sqMatch q then sqPrefix q @ zero_padded (max (sqLen q) (length (dec_string n))) n @ sqSuffix q
         else dec_string n)"

definition getNextSeqName :: "string list option \<Rightarrow> string option" where
  "getNextSeqName root =
     (case root of None \<Rightarrow> None | Some entries \<Rightarrow> map_option seq_name (seq_entries seq_init entries))"

text \<open>The paths of the regular files of a directory, in order; \<open>regular\<close> says which entries are.\<close>

fun string_le :: "string \<Rightarrow> string \<Rightarrow> bool" where
  "string_le [] t = True"
| "string_le (c # cs) [] = False"
| "string_le (c # cs) (d # ds) =
     ((of_char c :: nat) < of_char d \<or> c = d \<and> string_le cs ds)"

fun insert_path :: "string \<Rightarrow> string list \<Rightarrow> string list" where
  "insert_path x [] = [x]"
| "insert_path x (y # ys) = (if string_le x y then x # y # ys else y # insert_path x ys)"

definition getAllFiles :: "string \<Rightarrow> (string \<Rightarrow> bool) \<Rightarrow> string list \<Rightarrow> string list" where
  "getAllFiles dir regular entries =
     foldr insert_path (filter regular (map (path_join dir) entries)) []"

section \<open>Numbers as text\<close>

lemma of_char_digit: "d < 10 \<Longrightarrow> (of_char (digit_char d) :: nat) = 48 + d"
  by (simp add: digit_char_def)

lemma digit_char_is_digit: "d < 10 \<Longrightarrow> is_digit (digit_char d)"
  by (simp add: is_digit_def of_char_digit)

lemma dec_string_digits: "list_all is_digit (dec_string n)"
proof (induction n rule: dec_string.induct)
  case (1 n)
  then show ?case by (subst dec_string.simps) (simp add: digit_char_is_digit)
qed

lemma dec_string_nonempty [simp]: "dec_string n \<noteq> []"
  by (subst dec_string.simps) simp

lemma dec_value_snoc: "dec_value (s @ [c]) = 10 * dec_value s + (of_char c - 48)"
  by (simp add: dec_value_def)

lemma dec_value_dec_string: "dec_value (dec_string n) = n"
proof (induction n rule: dec_string.induct)
  case (1 n)
  then show ?case
    by (subst dec_string.simps) (simp add: dec_value_snoc of_char_digit, simp add: dec_value_def of_char_digit)
qed

lemma dec_value_zeros: "dec_value (replicate k CHR ''0'' @ s) = dec_value s"
  by (induction k) (simp_all add: dec_value_def)

lemma dec_value_padded: "dec_value (zero_padded k n) = n"
  by (simp add: zero_padded_def dec_value_zeros dec_value_dec_string)

lemma padded_digits: "list_all is_digit (zero_padded k n)"
  using dec_string_digits [of n] by (auto simp: zero_padded_def list_all_iff is_digit_def)

lemma padded_inj: "zero_padded k n = zero_padded k m \<longleftrightarrow> n = m"
  by (metis dec_value_padded)

lemma padded_nonempty [simp]: "zero_padded k n \<noteq> []"
  by (simp add: zero_padded_def)

section \<open>The next name of a sequence\<close>

lemma span_append:
  assumes "list_all P a" and "b = [] \<or> \<not> P (hd b)"
  shows "takeWhile P (a @ b) = a" "dropWhile P (a @ b) = b"
  using assms by (induction a) (cases b, auto)+

lemma seq_parts:
  assumes d: "list_all is_digit d" "d \<noteq> []" and s: "list_all (\<lambda>c. \<not> is_digit c) s" and p: "p = [] \<or> \<not> is_digit (last p)"
  shows "seq_digits (p @ d @ s) = d" "seq_prefix (p @ d @ s) = p" "seq_suffix (p @ d @ s) = s"
proof -
  let ?r = "rev s @ rev d @ rev p"
  have a: "list_all (\<lambda>c. \<not> is_digit c) (rev s)" "list_all is_digit (rev d)" using s d by (auto simp: list_all_iff)
  have "is_digit (hd (rev d @ rev p))" using d by (auto simp: list_all_iff hd_append hd_rev)
  then have "rev d @ rev p = [] \<or> \<not> \<not> is_digit (hd (rev d @ rev p))" by simp
  note s1 = span_append [of "\<lambda>c. \<not> is_digit c", OF a(1) this]
  have "rev p = [] \<or> \<not> is_digit (hd (rev p))" using p by (auto simp: hd_rev)
  note d1 = span_append [OF a(2) this]
  show "seq_digits (p @ d @ s) = d" "seq_prefix (p @ d @ s) = p" "seq_suffix (p @ d @ s) = s"
    using s1 d1 by (simp_all add: seq_digits_def seq_prefix_def seq_suffix_def)
qed

lemma seq_suffix_no_digit: "list_all (\<lambda>c. \<not> is_digit c) (seq_suffix s)"
  by (auto simp: seq_suffix_def list_all_iff dest: set_takeWhileD)

lemma seq_prefix_end: "seq_prefix s = [] \<or> \<not> is_digit (last (seq_prefix s))"
  using hd_dropWhile [of is_digit "dropWhile (\<lambda>c. \<not> is_digit c) (rev s)"]
  by (auto simp: seq_prefix_def last_rev)

text \<open>The state covers the entries seen.\<close>

definition seq_covers :: "seq_state \<Rightarrow> string set \<Rightarrow> bool" where
  "seq_covers q S \<longleftrightarrow>
     (\<forall>s\<in>S. seq_digits s \<noteq> [] \<longrightarrow> sqMatch q \<and> dec_value (seq_digits s) < unat (sqMaxSeq q)) \<and>
     (\<not> sqMatch q \<longrightarrow> sqMaxSeq q = 0) \<and> list_all (\<lambda>c. \<not> is_digit c) (sqSuffix q) \<and> (sqPrefix q = [] \<or> \<not> is_digit (last (sqPrefix q)))"

lemma seq_entry_covers:
  assumes "seq_covers q S" and "dec_value (seq_digits s) + 1 < 2 ^ 64" and "seq_entry q s = Some q1"
  shows "seq_covers q1 (insert s S)"
proof (cases "seq_digits s = []")
  case True
  then show ?thesis using assms by (auto simp: seq_entry_def seq_covers_def)
next
  case False
  have u: "unat (of_nat (dec_value (seq_digits s)) + 1 :: u64) = dec_value (seq_digits s) + 1"
  proof -
    have "(of_nat (dec_value (seq_digits s)) + 1 :: u64) = of_nat (dec_value (seq_digits s) + 1)" by simp
    then show ?thesis using assms(2) by (simp only: unat_of_nat) simp
  qed
  have "q1 = (if of_nat (dec_value (seq_digits s)) + 1 \<ge> sqMaxSeq q
      then \<lparr>sqMaxSeq = of_nat (dec_value (seq_digits s)) + 1, sqLen = max (sqLen q) (length (seq_digits s)), sqMatch = True,
         sqPrefix = seq_prefix s, sqSuffix = seq_suffix s\<rparr> else q)"
    using assms(2, 3) False by (auto simp: seq_entry_def Let_def)
  then show ?thesis
    using assms(1) seq_suffix_no_digit [of s] seq_prefix_end [of s]
    by (auto simp: seq_covers_def word_le_nat_alt u)
qed

lemma seq_entries_covers:
  "seq_covers q S \<Longrightarrow> \<forall>s\<in>set ss. dec_value (seq_digits s) + 1 < 2 ^ 64 \<Longrightarrow> seq_entries q ss = Some q1 \<Longrightarrow>
    seq_covers q1 (S \<union> set ss)"
proof (induction ss arbitrary: q S)
  case (Cons s ss)
  then obtain q2 where q2: "seq_entry q s = Some q2" "seq_entries q2 ss = Some q1" by (auto split: option.splits)
  have "seq_covers q2 (insert s S)" by (rule seq_entry_covers [OF Cons.prems(1) _ q2(1)]) (use Cons.prems in simp)
  from Cons.IH [OF this _ q2(2)] show ?case using Cons.prems by simp
qed simp

text \<open>
  The next name of a sequence is new: for a directory whose numbers are below the largest 64-bit
  number, \<open>getNextSeqName\<close> answers, with a name that no entry of the directory has.
\<close>

theorem next_seq_fresh:
  assumes "\<forall>s\<in>set entries. dec_value (seq_digits s) + 1 < 2 ^ 64"
  shows "\<exists>n. getNextSeqName (Some entries) = Some n \<and> n \<notin> set entries"
proof -
  have def: "seq_entries q ss \<noteq> None" if "set ss \<subseteq> set entries" for q ss
    using that assms by (induction ss arbitrary: q) (auto simp: seq_entry_def Let_def split: option.splits)
  then obtain q where q: "seq_entries seq_init entries = Some q" by blast
  have "seq_covers seq_init {}" by (simp add: seq_covers_def seq_init_def)
  then have c: "seq_covers q (set entries)" using seq_entries_covers [OF _ assms q, of "{}"] by simp
  have "seq_name q \<notin> set entries"
  proof
    assume m: "seq_name q \<in> set entries"
    show False
    proof (cases "sqMatch q")
      case True
      let ?d = "zero_padded (max (sqLen q) (length (dec_string (unat (sqMaxSeq q))))) (unat (sqMaxSeq q))"
      have "seq_digits (seq_name q) = ?d"
        using seq_parts(1) [OF padded_digits padded_nonempty, of "sqSuffix q" "sqPrefix q"] c True
        by (simp add: seq_name_def Let_def seq_covers_def)
      note dd = this
      have ne: "seq_digits (seq_name q) \<noteq> []" by (simp only: dd) simp
      have "\<forall>s\<in>set entries. seq_digits s \<noteq> [] \<longrightarrow> dec_value (seq_digits s) < unat (sqMaxSeq q)"
        using c unfolding seq_covers_def by blast
      then have "dec_value (seq_digits (seq_name q)) < unat (sqMaxSeq q)" using m ne by blast
      then show False by (simp only: dd dec_value_padded)
    next
      case False
      have "seq_digits (seq_name q) \<noteq> []"
        using seq_parts(1) [OF dec_string_digits dec_string_nonempty, of "[]" "[]"] False
        by (simp add: seq_name_def Let_def)
      then show False using c m False by (auto simp: seq_covers_def)
    qed
  qed
  then show ?thesis using q by (simp add: getNextSeqName_def)
qed

lemma next_seq_fresh_witness:
  "\<exists>n. getNextSeqName (Some [''dir09'', ''data'', ''dir7'']) = Some n \<and> n \<notin> set [''dir09'', ''data'', ''dir7'']"
  by (rule next_seq_fresh) (simp add: seq_digits_def is_digit_def dec_value_def)

end
