(* ===== verification/TfFile_Sink.thy ===== *)
theory TfFile_Sink
  imports TfFile_Writer TfFile_Names
begin

text \<open>
  The file sink, \<open>common/SubTimeFrameFileSink.{h,cxx}\<close>: the thread that takes frames from the
  pipeline, writes those that are accepted to files, starts a new file when one is full, and passes
  every frame on. The names of files are built from a pattern.

  What the thread meets outside is an argument of a step, the record \<open>sink_env\<close>: the number that is
  drawn for the frame, the time, whether the streams open and take the sidecar, and the room on the
  disk. The configuration is an argument of \<open>loadVerifyConfig\<close>.
\<close>

section \<open>File names\<close>

text \<open>The run number of \<open>DataDistLogger\<close>, as text and as a number, and the local time.\<close>

record name_env =
  neRunString :: string
  neRun :: nat
  neDate :: string
  neTime :: string

definition newStfFileName :: "string \<Rightarrow> u32 \<Rightarrow> string \<Rightarrow> name_env \<Rightarrow> u64 \<Rightarrow> string" where
  "newStfFileName pat idx host e sid =
     replace_all ''%h'' host
       (replace_all ''%T'' (neTime e)
         (replace_all ''%D'' (neDate e)
           (replace_all ''%i'' (zero_padded 8 (unat sid))
             (replace_all ''%r'' (zero_padded (max 8 (length (neRunString e))) (neRun e))
               (replace_all ''%n'' (zero_padded 8 (unat idx)) pat)))))"

section \<open>The sink\<close>

record ('d, 'o) file_sink =
  skEnabled :: bool
  skReady :: bool
  skRootDir :: string
  skCurrentDir :: string
  skFileNamePattern :: string
  skStfsPerFile :: u64
  skPercentage :: u32
  skFileSize :: u64
  skSidecar :: bool
  skHostname :: string
  skCurrentFileIdx :: u32
  skWriter :: "('d, 'o) file_writer option"

definition sink_new :: "('d, 'o) file_sink" where
  "sink_new = \<lparr>skEnabled = False, skReady = False, skRootDir = [], skCurrentDir = [], skFileNamePattern = [],
     skStfsPerFile = 0, skPercentage = 100, skFileSize = 0, skSidecar = False, skHostname = [],
     skCurrentFileIdx = 0, skWriter = None\<rparr>"

record sink_options =
  soEnable :: bool
  soDir :: string
  soFileName :: string
  soStfsPerFile :: u64
  soPercent :: u32
  soFileSize :: u64
  soSidecar :: bool

text \<open>The defaults of \<open>getProgramOptions\<close>. The size is given in MiB.\<close>

definition sink_default_options :: sink_options where
  "sink_default_options = \<lparr>soEnable = False, soDir = [], soFileName = ''o2_rawtf_run%r_tf%i_%h.tf'',
     soStfsPerFile = 1, soPercent = 100, soFileSize = push_bit 10 4, soSidecar = False\<rparr>"

definition sink_loadVerifyConfig :: "(string \<Rightarrow> bool) \<Rightarrow> sink_options \<Rightarrow> ('d, 'o) file_sink \<Rightarrow> bool \<times> ('d, 'o) file_sink" where
  "sink_loadVerifyConfig is_dir opt s0 =
     (let s = s0\<lparr>skEnabled := soEnable opt\<rparr>
      in if \<not> soEnable opt then (True, s)
         else
           (let s1 = s\<lparr>skEnabled := False, skRootDir := soDir opt\<rparr>
            in if soDir opt = [] then (False, s1)
               else
                 (let s2 = s1\<lparr>skFileNamePattern := soFileName opt, skStfsPerFile := soStfsPerFile opt,
                        skFileSize := push_bit 20 (max 1 (soFileSize opt)),
                        skPercentage := min 100 (soPercent opt), skSidecar := soSidecar opt\<rparr>
                  in if \<not> is_dir (soDir opt) then (False, s2) else (True, s2\<lparr>skEnabled := True\<rparr>))))"

text \<open>\<open>makeDirectory\<close>: \<open>name\<close> is the answer of \<open>getDataDirName\<close>, \<open>None\<close> when it throws; \<open>created\<close> is
  that of \<open>create_directory\<close>, \<open>None\<close> when it throws.\<close>

definition makeDirectory :: "string \<Rightarrow> string option \<Rightarrow> bool option \<Rightarrow> ('d, 'o) file_sink \<Rightarrow> bool \<times> ('d, 'o) file_sink" where
  "makeDirectory run name created s =
     (if \<not> skEnabled s then (True, s)
      else case name of
          None \<Rightarrow> (False, s\<lparr>skReady := False\<rparr>)
        | Some n \<Rightarrow>
            (let s1 = s\<lparr>skCurrentDir := path_join (skRootDir s) (''run0'' @ run @ ''_'' @ n)\<rparr>
             in case created of
                  None \<Rightarrow> (False, s1\<lparr>skReady := False\<rparr>)
                | Some True \<Rightarrow> (True, s1\<lparr>skReady := True\<rparr>)
                | Some False \<Rightarrow> (False, s1\<lparr>skEnabled := False\<rparr>)))"

definition sink_start :: "string \<Rightarrow> ('d, 'o) file_sink \<Rightarrow> ('d, 'o) file_sink" where
  "sink_start host s =
     (if skEnabled s then s\<lparr>skHostname := takeWhile (\<lambda>c. c \<noteq> CHR ''.'') host\<rparr> else s)"

section \<open>The thread\<close>

record sink_locals =
  slAcceptedStfs :: u64
  slTotalStfs :: u64
  slCurrentFileSize :: u64
  slCurrentFileStfs :: u64

definition sink_locals_init :: sink_locals where
  "sink_locals_init = \<lparr>slAcceptedStfs = 0, slTotalStfs = 0, slCurrentFileSize = 0, slCurrentFileStfs = 0\<rparr>"

record sink_env =
  seDraw :: u32
  seMs :: u64
  seName :: name_env
  seOpens :: "bool \<times> bool"
  seRoom :: nat
  seInfoOk :: bool

text \<open>The sink, the locals of its thread and the directory.\<close>

type_synonym ('d, 'o) sink_state = "('d, 'o) file_sink \<times> sink_locals \<times> ('d, 'o) directory"

definition sink_writer :: "sink_env \<Rightarrow> u64 \<Rightarrow> ('d, 'o) file_sink \<Rightarrow> ('d, 'o) directory \<Rightarrow>
    ('d, 'o) file_writer option \<times> ('d, 'o) file_sink \<times> ('d, 'o) directory" where
  "sink_writer e sid s d =
     (case skWriter s of
        Some w \<Rightarrow> (Some w, s, d)
      | None \<Rightarrow>
          (case writer_new (path_join (skCurrentDir s)
                 (newStfFileName (skFileNamePattern s) (skCurrentFileIdx s) (skHostname s) (seName e) sid))
               (skSidecar s) (seOpens e) (seRoom e) d of
             (None, d1) \<Rightarrow> (None, s, d1)
           | (Some w, d1) \<Rightarrow> (Some w, s\<lparr>skWriter := Some w, skCurrentFileIdx := skCurrentFileIdx s + 1\<rparr>, d1)))"

definition sink_full :: "('d, 'o) file_sink \<Rightarrow> sink_locals \<Rightarrow> bool" where
  "sink_full s l \<longleftrightarrow>
     0 < skStfsPerFile s \<and> slCurrentFileStfs l \<ge> skStfsPerFile s \<or> slCurrentFileSize l \<ge> skFileSize s"

text \<open>An accepted frame. \<open>None\<close>: no defined behaviour.\<close>

definition sink_store :: "('d::linorder, 'o::linorder) o2_codec \<Rightarrow> sink_env \<Rightarrow> ('d, 'o) SubTimeFrame \<Rightarrow> ('d, 'o) sink_state \<Rightarrow>
    ('d, 'o) sink_state option" where
  "sink_store C e f st =
     (let (s0, l0, d0) = st; l = l0\<lparr>slAcceptedStfs := slAcceptedStfs l0 + 1\<rparr>;
          (ow, s, d) = sink_writer e (hId (stfHeader f)) s0 d0
      in case ow of
           None \<Rightarrow> Some (s, l, d)
         | Some w \<Rightarrow>
             (case writer_write C (seMs e) (seInfoOk e) f w of
                None \<Rightarrow> None
              | Some (r, w1) \<Rightarrow>
                  if r \<noteq> 0 then
                    (let l1 = l\<lparr>slCurrentFileStfs := slCurrentFileStfs l + 1,
                            slCurrentFileSize := writer_size (fwFile w1)\<rparr>
                     in if sink_full s l1
                        then Some (s\<lparr>skWriter := None\<rparr>, l1\<lparr>slCurrentFileStfs := 0, slCurrentFileSize := 0\<rparr>,
                               writer_destroy w1 d)
                        else Some (s\<lparr>skWriter := Some w1\<rparr>, l1, d))
                  else
                    (let (w2, d2) = writer_close w1 d; (w3, d3) = writer_remove w2 d2
                     in Some (s\<lparr>skWriter := None\<rparr>, l, writer_destroy w3 d3))))"

text \<open>One round of the thread with a frame of the pipeline: the frame is passed on.\<close>

definition sink_iteration :: "('d::linorder, 'o::linorder) o2_codec \<Rightarrow> sink_env \<Rightarrow> ('d, 'o) SubTimeFrame \<Rightarrow> ('d, 'o) sink_state \<Rightarrow>
    (('d, 'o) SubTimeFrame \<times> ('d, 'o) sink_state) option" where
  "sink_iteration C e f st =
     (let (s, l0, d) = st; l = l0\<lparr>slTotalStfs := slTotalStfs l0 + 1\<rparr>
      in if skEnabled s \<and> skReady s \<and> seDraw e < skPercentage s
         then map_option (Pair (updateStf f)) (sink_store C e (updateStf f) (s, l, d))
         else Some (f, (s, l, d)))"

text \<open>The destructor: the file that is open is closed and published.\<close>

definition sink_destroy :: "('d, 'o) file_sink \<Rightarrow> ('d, 'o) directory \<Rightarrow> ('d, 'o) directory" where
  "sink_destroy s d = (case skWriter s of None \<Rightarrow> d | Some w \<Rightarrow> writer_destroy w d)"

end
