(* ===== verification/TfFile_Reader.thy ===== *)
theory TfFile_Reader
  imports TfFile_Format Stfb_Readout
begin

text \<open>
  Reading time frames, \<open>common/SubTimeFrameFileReader.{h,cxx}\<close>: the file is mapped and read with a
  position; a read beyond its end closes the mapping. A header stack is found by following the
  base headers, at most 16 of them, and older versions of \<open>DataHeader\<close> are upgraded.

  The memory for the messages is an argument: \<open>mem k\<close> says whether the data and the header message
  of the \<open>k\<close>-th block of the frame could be allocated.
\<close>

section \<open>The mapping\<close>

record file_reader =
  frOpen :: bool
  frMap :: "u8 list"
  frOffset :: nat
  frSize :: nat

text \<open>\<open>None\<close>: the file could not be opened.\<close>

definition reader_new :: "u8 list option \<Rightarrow> file_reader" where
  "reader_new c = (case c of
     None \<Rightarrow> \<lparr>frOpen = False, frMap = [], frOffset = 0, frSize = 0\<rparr>
   | Some bs \<Rightarrow> \<lparr>frOpen = True, frMap = bs, frOffset = 0, frSize = length bs\<rparr>)"

definition set_position :: "nat \<Rightarrow> file_reader \<Rightarrow> file_reader" where
  "set_position p r = r\<lparr>frOffset := min p (frSize r)\<rparr>"

definition reader_eof :: "file_reader \<Rightarrow> bool" where
  "reader_eof r \<longleftrightarrow> frOffset r = frSize r"

definition invalidate :: "file_reader \<Rightarrow> file_reader" where
  "invalidate r = r\<lparr>frOpen := False, frOffset := 0, frSize := 0\<rparr>"

definition close_map :: "file_reader \<Rightarrow> file_reader" where
  "close_map r = r\<lparr>frOpen := False\<rparr>"

definition peek :: "file_reader \<Rightarrow> u8 list" where
  "peek r = drop (frOffset r) (frMap r)"

definition read_advance :: "nat \<Rightarrow> file_reader \<Rightarrow> u8 list option \<times> file_reader" where
  "read_advance n r =
     (if \<not> frOpen r then (None, r)
      else if min n (frSize r - frOffset r) \<noteq> n then (None, invalidate r)
      else (Some (take n (peek r)), r\<lparr>frOffset := frOffset r + n\<rparr>))"

definition ignore_nbytes :: "nat \<Rightarrow> file_reader \<Rightarrow> bool \<times> file_reader" where
  "ignore_nbytes n r =
     (if n \<noteq> min n (frSize r - frOffset r) then (False, invalidate r)
      else (True, r\<lparr>frOffset := frOffset r + n\<rparr>))"

section \<open>Header stacks\<close>

text \<open>The loop over the base headers; \<open>k\<close> of the 16 rounds are left. \<open>None\<close>: reading failed. The
  flag says that a round was left when the last header was found.\<close>

fun stack_size_loop :: "('d, 'o) o2_codec \<Rightarrow> nat \<Rightarrow> nat \<Rightarrow> file_reader \<Rightarrow> (nat \<times> bool) option \<times> file_reader" where
  "stack_size_loop C 0 n r = (Some (n, False), r)"
| "stack_size_loop C (Suc k) n r =
     (case read_advance (ocBaseSize C) r of
        (None, r1) \<Rightarrow> (None, r1)
      | (Some bs, r1) \<Rightarrow>
          (let b = ocBase C bs
           in case ignore_nbytes (bhSize b) (set_position (frOffset r) r1) of
                (False, r2) \<Rightarrow> (None, r2)
              | (True, r2) \<Rightarrow>
                  if bhNext b then stack_size_loop C k (n + bhSize b) r2 else (Some (n + bhSize b, 0 < k), r2)))"

definition getHeaderStackSize :: "('d, 'o) o2_codec \<Rightarrow> file_reader \<Rightarrow> nat \<times> file_reader" where
  "getHeaderStackSize C r =
     (case stack_size_loop C 16 0 r of
        (None, r1) \<Rightarrow> (0, r1)
      | (Some (n, ok), r1) \<Rightarrow> (if ok then n else 0, set_position (frOffset r) r1))"

definition upgrade_stack :: "('d, 'o) o2_codec \<Rightarrow> nat \<Rightarrow> u8 list \<Rightarrow> u8 list" where
  "upgrade_stack C n bs =
     (let b = ocBase C (take (ocBaseSize C) bs)
      in if bhVersion b < ocVersion C then
           ocUpgrade C (take (bhSize b) bs @ drop (bhSize b) (ocDefault C)) @ take (n - bhSize b) (drop (bhSize b) bs)
         else take n bs)"

text \<open>The original size of the stack, and the bytes of the stack.\<close>

definition getHeaderStack :: "('d, 'o) o2_codec \<Rightarrow> file_reader \<Rightarrow> nat \<times> u8 list \<times> file_reader" where
  "getHeaderStack C r =
     (let (n, r1) = getHeaderStackSize C r
      in if n < ocBaseSize C then (0, [], r1)
         else case ignore_nbytes n r1 of
             (False, r2) \<Rightarrow> (0, [], r2)
           | (True, r2) \<Rightarrow> if \<not> ocIsBase C (peek r1) then (n, [], r2) else (n, upgrade_stack C n (peek r1), r2))"

section \<open>Reading a frame\<close>

text \<open>The outcome: a null pointer, the use of a null pointer, or a frame.\<close>

datatype 'f read_result = ReadNull | ReadUndefined | ReadTf 'f

definition read_orbit :: "('d, 'o) o2_codec \<Rightarrow> 'o rdh_env \<Rightarrow> ('d, 'o) DataHeader \<Rightarrow> fmq_message \<Rightarrow>
    ('d, 'o) SubTimeFrame \<Rightarrow> ('d, 'o) SubTimeFrame" where
  "read_orbit C E h p f =
     (if firstTForbit h = 0 \<and> dhDescription h = ocRawDesc C then
        (case RDHReader E p of Inl _ \<Rightarrow> f | Inr R \<Rightarrow> updateFirstOrbit (getOrbit E R) f)
      else f)"

text \<open>One block, header stack and data: the message it makes and the bytes it takes.\<close>

definition read_block :: "('d, 'o) o2_codec \<Rightarrow> bool \<times> bool \<Rightarrow> file_reader \<Rightarrow>
    (('d, 'o) file_header \<times> fmq_message \<times> nat) option \<times> file_reader" where
  "read_block C mem r =
     (let (n, st, r1) = getHeaderStack C r
      in if n = 0 then (None, close_map r1)
         else case ocGet C st of
             None \<Rightarrow> (None, close_map r1)
           | Some h \<Rightarrow>
               if \<not> fst mem then (None, close_map r1)
               else (case read_advance (unat (fhPayloadSize h)) r1 of
                   (None, r2) \<Rightarrow> (None, r2)
                 | (Some p, r2) \<Rightarrow>
                     if (splitPayloadIndex (fhHeader h) = 0 \<or> splitPayloadParts (fhHeader h) \<le> 1) \<and> \<not> snd mem
                     then (None, close_map r2)
                     else (Some (h, p, n + unat (fhPayloadSize h)), r2)))"

definition block_data :: "('d, 'o) DataHeader \<Rightarrow> fmq_message \<Rightarrow> ('d, 'o) StfData" where
  "block_data h p =
     (if splitPayloadIndex h = 0 \<or> splitPayloadParts h \<le> 1 then \<lparr>sdHeader = Some h, sdData = p\<rparr>
      else \<lparr>sdHeader = None, sdData = p\<rparr>)"

lemma read_advance_bounds:
  "read_advance n r = (Some bs, r') \<Longrightarrow> frOffset r' = frOffset r + n \<and> n \<le> frSize r - frOffset r \<and> frSize r' = frSize r"
  by (auto simp: read_advance_def split: if_splits)

lemma ignore_nbytes_bounds:
  "ignore_nbytes n r = (True, r') \<Longrightarrow> frOffset r' = frOffset r + n \<and> n \<le> frSize r - frOffset r \<and> frSize r' = frSize r"
  by (auto simp: ignore_nbytes_def split: if_splits)

lemma stack_size_loop_size: "stack_size_loop C k n r = (Some x, r') \<Longrightarrow> frSize r' = frSize r"
proof (induction k arbitrary: n r)
  case (Suc k)
  then show ?case
    by (auto simp: Let_def set_position_def split: prod.splits option.splits bool.splits if_splits
        dest!: read_advance_bounds ignore_nbytes_bounds)
qed simp

lemma getHeaderStackSize_keeps:
  assumes "getHeaderStackSize C r = (n, r')" and "0 < n"
  shows "frOffset r' = min (frOffset r) (frSize r) \<and> frSize r' = frSize r"
  using assms stack_size_loop_size [of C 16 0 r]
  by (auto simp: getHeaderStackSize_def set_position_def split: prod.splits option.splits if_splits)

lemma getHeaderStack_advances:
  assumes "getHeaderStack C r = (n, st, r')" and "n \<noteq> 0"
  shows "frOffset r' = frOffset r + n \<and> frOffset r' \<le> frSize r' \<and> frSize r' = frSize r"
proof -
  obtain m r1 where s: "getHeaderStackSize C r = (m, r1)" by fastforce
  have m: "ignore_nbytes n r1 = (True, r') \<and> m = n"
    using assms s by (auto simp: getHeaderStack_def split: if_splits prod.splits bool.splits)
  then show ?thesis
    using getHeaderStackSize_keeps [of C r n r1] s ignore_nbytes_bounds [of n r1 r'] assms(2)
    by (auto simp: min_def split: if_splits)
qed

lemma read_block_advances:
  assumes "read_block C mem r = (Some (h, p, n), r')"
  shows "0 < n" "frOffset r' = frOffset r + n" "frOffset r' \<le> frSize r'" "frSize r' = frSize r"
proof -
  obtain m st r1 where g: "getHeaderStack C r = (m, st, r1)" by (cases "getHeaderStack C r") auto
  have m: "m \<noteq> 0" "n = m + unat (fhPayloadSize h)" "read_advance (unat (fhPayloadSize h)) r1 = (Some p, r')"
    using assms g by (auto simp: read_block_def split: if_splits option.splits prod.splits)
  then show "0 < n" "frOffset r' = frOffset r + n" "frOffset r' \<le> frSize r'" "frSize r' = frSize r"
    using getHeaderStack_advances [OF g m(1)] read_advance_bounds [OF m(3)] by auto
qed

text \<open>\<open>left\<close> is the signed 64-bit counter \<open>lLeftToRead\<close>.\<close>

function read_loop :: "('d, 'o) o2_codec \<Rightarrow> 'o rdh_env \<Rightarrow> (nat \<Rightarrow> bool \<times> bool) \<Rightarrow> nat \<Rightarrow> u64 \<Rightarrow>
    ('d, 'o) StfData list \<Rightarrow> ('d, 'o) SubTimeFrame \<Rightarrow> file_reader \<Rightarrow>
    (u64 \<times> ('d, 'o) StfData list \<times> ('d, 'o) SubTimeFrame) option \<times> file_reader" where
  "read_loop C E mem k left sd f r =
     (if sint left \<le> 0 then (Some (left, sd, f), r)
      else case read_block C (mem k) r of
          (None, r1) \<Rightarrow> (None, r1)
        | (Some (h, p, n), r1) \<Rightarrow>
            read_loop C E mem (Suc k) (left - of_nat n) (sd @ [block_data (fhHeader h) p])
              (read_orbit C E (fhHeader h) p f) r1)"
  by pat_completeness auto
termination
proof (relation "measure (\<lambda>(C, E, mem, k, left, sd, f, r). frSize r - frOffset r)", goal_cases)
  case (2 C E mem k left sd f r x r1 y h z p n)
  then show ?case using read_block_advances [of C "mem k" r h p n r1] by simp
qed simp

declare read_loop.simps [simp del]

text \<open>\<open>visit\<close>: the blocks are added to the frame; \<open>q\<close> is the vector of the last message.\<close>

fun read_visit :: "('d, 'o) StfData list \<Rightarrow> ('d, 'o) parts_ptr option \<Rightarrow> ('d, 'o) SubTimeFrame \<Rightarrow> ('d, 'o) SubTimeFrame" where
  "read_visit [] q f = f"
| "read_visit (d # ds) q f =
     (case sdHeader d of
        Some h \<Rightarrow>
          (let (p, f1) = addStfDataStart (dhDescription h, dhOrigin h) (dhSubSpecification h) d f
           in read_visit ds (Some p) f1)
      | None \<Rightarrow> read_visit ds q (addStfDataAppend q (sdData d) f))"

definition read_frame_data :: "('d, 'o) o2_codec \<Rightarrow> 'o rdh_env \<Rightarrow> (nat \<Rightarrow> bool \<times> bool) \<Rightarrow> u64 \<Rightarrow>
    ('d, 'o) SubTimeFrame \<Rightarrow> file_reader \<Rightarrow> ('d, 'o) SubTimeFrame read_result \<times> file_reader" where
  "read_frame_data C E mem n f r =
     (case read_loop C E mem 0 n [] f r of
        (None, r1) \<Rightarrow> (ReadNull, r1)
      | (Some (left, sd, f1), r1) \<Rightarrow>
          if sint left < 0 then (ReadNull, r1) else (ReadTf (read_visit sd None (updateStf f1)), r1))"

text \<open>The index is skipped: its header gives its size. The data size is what remains of the size
  in the meta structure.\<close>

definition read_index :: "('d, 'o) o2_codec \<Rightarrow> 'o rdh_env \<Rightarrow> (nat \<Rightarrow> bool \<times> bool) \<Rightarrow> u64 \<Rightarrow> nat \<Rightarrow>
    ('d, 'o) SubTimeFrame \<Rightarrow> file_reader \<Rightarrow> ('d, 'o) SubTimeFrame read_result \<times> file_reader" where
  "read_index C E mem sz nmeta f r =
     (let (n, st, r1) = getHeaderStack C r
      in if n = 0 then (ReadNull, close_map r1)
         else case ocGet C st of
             None \<Rightarrow> (ReadNull, r1)
           | Some h \<Rightarrow>
               (case ignore_nbytes (unat (fhPayloadSize h)) r1 of
                  (False, r2) \<Rightarrow> (ReadNull, r2)
                | (True, r2) \<Rightarrow>
                    read_frame_data C E mem
                      (sz - (of_nat nmeta + of_nat meta_size) - (of_nat n + fhPayloadSize h)) f r2))"

text \<open>\<open>read\<close>; \<open>sid\<close> is the static frame counter, which is returned.\<close>

definition read_tf :: "('d, 'o) o2_codec \<Rightarrow> 'o rdh_env \<Rightarrow> (nat \<Rightarrow> bool \<times> bool) \<Rightarrow> u64 \<Rightarrow> u64 \<Rightarrow> file_reader \<Rightarrow>
    ('d, 'o) SubTimeFrame read_result \<times> u64 \<times> file_reader" where
  "read_tf C E mem now sid r0 =
     (if frOffset r0 = frSize r0 \<or> \<not> frOpen r0 then (ReadNull, sid, r0)
      else
        let f0 = SubTimeFrame_new now sid; (n, st, r1) = getHeaderStack C r0
        in if n = 0 then (ReadNull, sid + 1, close_map r1)
           else case read_advance meta_size r1 of
               (None, r2) \<Rightarrow> (ReadNull, sid + 1, r2)
             | (Some mb, r2) \<Rightarrow>
                 (let m = meta_of mb; f = updateCreationTimeMs (mWriteTimeMs m) f0; sz = mStfSizeInFile m
                  in case ocGet C st of
                       None \<Rightarrow> (ReadUndefined, sid + 1, r2)
                     | Some h \<Rightarrow>
                         if dhDescription (fhHeader h) \<noteq> ocMetaDesc C then (ReadNull, sid + 1, close_map r2)
                         else if sz = meta_size_in_file C then (ReadNull, sid + 1, close_map r2)
                         else if (of_nat (frOffset r0) + sz :: u64) > of_nat (frSize r2)
                         then (ReadNull, sid + 1, close_map r2)
                         else (let (res, r3) = read_index C E mem sz n f r2 in (res, sid + 1, r3))))"

end
