(* ===== verification/TfFile_Source.thy ===== *)
theory TfFile_Source
  imports TfFile_Reader TfFile_Names DD_Queue
begin

text \<open>
  The file source, \<open>common/SubTimeFrameFileSource.{h,cxx}\<close>: the fetching thread queues the files, one
  after the other, copying remote files to a cache; the reading thread reads the frames of a file and
  queues them for the injecting thread. A cached file is shared by its entry in \<open>mLiveFiles\<close>, the
  queue, the fetching thread and the reading thread, and is deleted with the last of them.

  Shared pointers are modelled by what holds them: the use count of an entry of \<open>mLiveFiles\<close> is the
  number of the places that hold a pointer to it. The threads interleave: a step of a thread is a
  part of its loop with at most one access to the shared cache or the queue. The copy command is an
  argument that says which files arrive.
\<close>

section \<open>The files\<close>

record StfFileMeta =
  fmFilePath :: string
  fmIdx :: nat
  fmDeleteMe :: bool

record source_config =
  scFilesVector :: "string list"
  scRepeat :: bool
  scNumFiles :: nat
  scLocalFiles :: bool
  scCopyDst :: string

text \<open>The suffix and prefix tests of \<open>getDataFileList\<close>, on the paths of \<open>getAllFiles\<close>.\<close>

definition ends_with :: "string \<Rightarrow> string \<Rightarrow> bool" where
  "ends_with s x \<longleftrightarrow> length x \<le> length s \<and> drop (length s - length x) s = x"

definition path_filename :: "string \<Rightarrow> string" where
  "path_filename p = rev (takeWhile (\<lambda>c. c \<noteq> CHR ''/'') (rev p))"

definition getDataFileList :: "string list \<Rightarrow> string list" where
  "getDataFileList fs = filter (\<lambda>p. ends_with (path_filename p) ''.tf'' \<and> take 1 (path_filename p) \<noteq> ''.'') fs"

section \<open>The configuration\<close>

record source_options =
  roEnable :: bool
  roDir :: string
  roPreRead :: u32
  roRepeat :: bool
  roRegionSize :: u64
  roRegionId :: u16
  roHdrRegionSize :: u64
  roHdrRegionId :: u16
  roFileList :: string
  roCopyCmd :: string

text \<open>The defaults of \<open>getProgramOptions\<close>; the load rate, a floating point number, is not modelled.\<close>

definition source_default_options :: source_options where
  "source_default_options = \<lparr>roEnable = False, roDir = [], roPreRead = 1, roRepeat = False, roRegionSize = 1024,
     roRegionId = - 1, roHdrRegionSize = 256, roHdrRegionId = - 1, roFileList = [], roCopyCmd = []\<rparr>"

text \<open>What the configuration meets outside: the directories and their files, the lines of the file list
  (\<open>None\<close>: no regular file, or empty, or not to be opened), the new directory for the copies
  (\<open>None\<close>: it could not be created), and \<open>DATADIST_FILE_READ_COUNT\<close> as read by \<open>stol\<close> (the inner \<open>None\<close>:
  it throws).\<close>

record source_world =
  swIsDir :: "string \<Rightarrow> bool"
  swFiles :: "string \<Rightarrow> string list"
  swRegular :: "string \<Rightarrow> bool"
  swLines :: "string \<Rightarrow> string list option"
  swCopyDir :: "string option"
  swReadCount :: "int option option"

record source_settings =
  srEnabled :: bool
  srDir :: string
  srPreReadStfs :: u32
  srRegionSizeMB :: u64
  srTfDataRegionId :: "u16 option"
  srHdrRegionSizeMB :: u64
  srTfHdrRegionId :: "u16 option"
  srConfig :: source_config

definition region_id :: "u16 \<Rightarrow> u16 option" where
  "region_id i = (if i = - 1 then None else Some i)"

definition is_space :: "char \<Rightarrow> bool" where
  "is_space c \<longleftrightarrow> c = CHR '' '' \<or> 9 \<le> (of_char c :: nat) \<and> (of_char c :: nat) \<le> 13"

definition trim :: "string \<Rightarrow> string" where
  "trim s = rev (dropWhile is_space (rev (dropWhile is_space s)))"

fun contains :: "string \<Rightarrow> string \<Rightarrow> bool" where
  "contains [] x = (x = [])"
| "contains (c # cs) x = (take (length x) (c # cs) = x \<or> contains cs x)"

text \<open>The files: \<open>None\<close> when the options are refused.\<close>

definition source_remote :: "source_world \<Rightarrow> source_options \<Rightarrow> (string list \<times> string) option" where
  "source_remote W opt =
     (if roDir opt \<noteq> [] then None
      else if \<not> contains (roCopyCmd opt) ''?src'' \<or> \<not> contains (roCopyCmd opt) ''?dst'' then None
      else case swLines W (roFileList opt) of
          None \<Rightarrow> None
        | Some lines \<Rightarrow>
            (let files = filter (\<lambda>l. l \<noteq> []) (map trim lines)
             in if files = [] then None else map_option (Pair files) (swCopyDir W)))"

definition source_files :: "source_world \<Rightarrow> source_options \<Rightarrow> (string list \<times> bool \<times> string) option" where
  "source_files W opt =
     (if roFileList opt \<noteq> [] \<and> roCopyCmd opt \<noteq> [] then
        map_option (\<lambda>(fs, dst). (fs, False, dst)) (source_remote W opt)
      else if roDir opt \<noteq> [] then
        (let fs = getDataFileList (getAllFiles (roDir opt) (swRegular W) (swFiles W (roDir opt)))
         in if fs = [] then None else Some (fs, True, []))
      else None)"

text \<open>A read count that is no number is reported and ignored; a negative one becomes a large count.\<close>

definition source_read_count :: "int option option \<Rightarrow> source_config \<Rightarrow> source_config option" where
  "source_read_count v c =
     (case v of
        Some (Some n) \<Rightarrow>
          if n = 0 then None else Some (c\<lparr>scRepeat := True, scNumFiles := unat (of_int n :: u64)\<rparr>)
      | _ \<Rightarrow> Some c)"

definition source_settings_of :: "source_options \<Rightarrow> source_config \<Rightarrow> source_settings" where
  "source_settings_of opt c =
     \<lparr>srEnabled = roEnable opt, srDir = roDir opt, srPreReadStfs = roPreRead opt, srRegionSizeMB = roRegionSize opt,
      srTfDataRegionId = region_id (roRegionId opt), srHdrRegionSizeMB = roHdrRegionSize opt,
      srTfHdrRegionId = region_id (roHdrRegionId opt), srConfig = c\<rparr>"

definition source_config_of :: "source_options \<Rightarrow> string list \<times> bool \<times> string \<Rightarrow> source_config" where
  "source_config_of opt = (\<lambda>(fs, loc, dst).
     \<lparr>scFilesVector = fs, scRepeat = roRepeat opt, scNumFiles = 0, scLocalFiles = loc, scCopyDst = dst\<rparr>)"

text \<open>\<open>loadVerifyConfig\<close>: \<open>None\<close> is the answer false.\<close>

definition source_loadVerifyConfig :: "source_world \<Rightarrow> source_options \<Rightarrow> source_settings option" where
  "source_loadVerifyConfig W opt =
     (if \<not> roEnable opt then Some (source_settings_of opt (source_config_of opt ([], True, [])))
      else if roDir opt \<noteq> [] \<and> \<not> swIsDir W (roDir opt) then None
      else case source_files W opt of
          None \<Rightarrow> None
        | Some x \<Rightarrow>
            if roRegionSize opt = 0 \<or> roHdrRegionSize opt = 0 then None
            else if roPreRead opt = 0 then None
            else map_option (source_settings_of opt) (source_read_count (swReadCount W) (source_config_of opt x)))"

section \<open>The shared state\<close>

text \<open>\<open>ssLocal\<close>: the pointer that the fetching thread holds; \<open>ssFile\<close>: that of the reading thread, with
  the frames it has not queued yet; \<open>ssPut\<close>: the index whose file it has released and not yet put
  back; \<open>ssWait\<close>: it limits the read-ahead; \<open>ssDisk\<close>: the cached files.\<close>

datatype fetch_phase = FetchTop | FetchPush | FetchEnd | FetchDone

record 'f source_state =
  ssRunning :: bool
  ssPhase :: fetch_phase
  ssFileIndex :: u64
  ssFileErrors :: nat
  ssTotalFiles :: nat
  ssSuccessful :: nat
  ssLocal :: "StfFileMeta option"
  ssQueue :: "StfFileMeta cqueue"
  ssLive :: "nat \<rightharpoonup> StfFileMeta"
  ssFile :: "StfFileMeta option"
  ssPending :: "'f list"
  ssWait :: bool
  ssPut :: "nat option"
  ssReadDone :: bool
  ssReadStfQueue :: "'f cqueue"
  ssInjectDone :: bool
  ssPipeline :: "'f cqueue"
  ssDisk :: "string set"

definition source_init :: "'f source_state" where
  "source_init = \<lparr>ssRunning = True, ssPhase = FetchTop, ssFileIndex = - 1, ssFileErrors = 0, ssTotalFiles = 0,
     ssSuccessful = 0, ssLocal = None, ssQueue = cq_init, ssLive = Map.empty, ssFile = None, ssPending = [],
     ssWait = False, ssPut = None, ssReadDone = False, ssReadStfQueue = cq_init, ssInjectDone = False,
     ssPipeline = cq_init, ssDisk = {}\<rparr>"

definition held :: "StfFileMeta option \<Rightarrow> nat \<Rightarrow> nat" where
  "held x i = (case x of None \<Rightarrow> 0 | Some f \<Rightarrow> if fmIdx f = i then 1 else 0)"

definition use_count :: "nat \<Rightarrow> 'f source_state \<Rightarrow> nat" where
  "use_count i s =
     (if ssLive s i = None then 0 else 1) + held (ssLocal s) i + held (ssFile s) i
     + length (filter (\<lambda>f. fmIdx f = i) (mContainer (ssQueue s)))"

text \<open>\<open>stop\<close>, up to the joins.\<close>

definition source_stop :: "'f source_state \<Rightarrow> 'f source_state" where
  "source_stop s = s\<lparr>ssRunning := False, ssQueue := cq_stop (ssQueue s),
     ssReadStfQueue := snd (cq_flush (cq_stop (ssReadStfQueue s)))\<rparr>"

section \<open>The fetching thread\<close>

definition cache_path :: "source_config \<Rightarrow> nat \<Rightarrow> string" where
  "cache_path c i = path_join (scCopyDst c) (''cache-'' @ dec_string i @ ''-'' @ path_filename (scFilesVector c ! i))"

definition local_file :: "source_config \<Rightarrow> nat \<Rightarrow> StfFileMeta" where
  "local_file c i = \<lparr>fmFilePath = scFilesVector c ! i, fmIdx = i, fmDeleteMe = False\<rparr>"

definition cached_file :: "source_config \<Rightarrow> nat \<Rightarrow> StfFileMeta" where
  "cached_file c i = \<lparr>fmFilePath = cache_path c i, fmIdx = i, fmDeleteMe = True\<rparr>"

definition getExistingInstance :: "nat \<Rightarrow> 'f source_state \<Rightarrow> StfFileMeta option" where
  "getExistingInstance i s = ssLive s i"

definition insertExistingInstance :: "nat \<Rightarrow> StfFileMeta \<Rightarrow> 'f source_state \<Rightarrow> 'f source_state" where
  "insertExistingInstance i f s = s\<lparr>ssLive := (ssLive s)(i \<mapsto> f)\<rparr>"

definition fetch_close :: "'f source_state \<Rightarrow> 'f source_state" where
  "fetch_close s = s\<lparr>ssPhase := FetchDone, ssQueue := cq_stop (ssQueue s)\<rparr>"

text \<open>The loop up to the point where the thread holds the file. \<open>copied\<close>: the copy command produced
  the file. With more than 4 files in the queue, the thread waits.\<close>

definition fetch_file :: "source_config \<Rightarrow> bool \<Rightarrow> 'f source_state \<Rightarrow> 'f source_state" where
  "fetch_file c copied s =
     (let ix = (ssFileIndex s + 1) mod of_nat (length (scFilesVector c)); i = unat ix;
          s1 = s\<lparr>ssFileIndex := ix, ssTotalFiles := ssTotalFiles s + 1\<rparr>
      in if scLocalFiles c then s1\<lparr>ssLocal := Some (local_file c i), ssPhase := FetchPush\<rparr>
         else case getExistingInstance i s1 of
             Some f \<Rightarrow> s1\<lparr>ssLocal := Some f, ssPhase := FetchPush\<rparr>
           | None \<Rightarrow>
               if \<not> copied then s1\<lparr>ssFileErrors := ssFileErrors s1 + 1\<rparr>
               else insertExistingInstance i (cached_file c i)
                      (s1\<lparr>ssDisk := insert (cache_path c i) (ssDisk s1), ssLocal := Some (cached_file c i),
                         ssPhase := FetchPush\<rparr>))"

definition fetch_top :: "source_config \<Rightarrow> bool \<Rightarrow> 'f source_state \<Rightarrow> 'f source_state" where
  "fetch_top c copied s =
     (if \<not> ssRunning s \<or> \<not> ssFileErrors s < 10 then fetch_close s
      else if length (mContainer (ssQueue s)) > 4 then s
      else if ssTotalFiles s \<ge> length (scFilesVector c) \<and> \<not> scRepeat c then fetch_close s
      else fetch_file c copied s)"

definition fetch_push :: "'f source_state \<Rightarrow> 'f source_state" where
  "fetch_push s =
     (case ssLocal s of
        None \<Rightarrow> s
      | Some f \<Rightarrow> s\<lparr>ssQueue := snd (cq_push eFIFO f (ssQueue s)), ssPhase := FetchEnd\<rparr>)"

definition fetch_end :: "source_config \<Rightarrow> 'f source_state \<Rightarrow> 'f source_state" where
  "fetch_end c s =
     (let s1 = s\<lparr>ssLocal := None, ssSuccessful := ssSuccessful s + 1, ssPhase := FetchTop\<rparr>
      in if scNumFiles c > 0 \<and> ssSuccessful s1 = scNumFiles c then fetch_close s1 else s1)"

definition fetch_step :: "source_config \<Rightarrow> bool \<Rightarrow> 'f source_state \<Rightarrow> 'f source_state" where
  "fetch_step c copied s =
     (case ssPhase s of
        FetchTop \<Rightarrow> fetch_top c copied s
      | FetchPush \<Rightarrow> fetch_push s
      | FetchEnd \<Rightarrow> fetch_end c s
      | FetchDone \<Rightarrow> s)"

section \<open>The reading thread\<close>

definition delete_meta :: "StfFileMeta \<Rightarrow> 'f source_state \<Rightarrow> 'f source_state" where
  "delete_meta f s = (if fmDeleteMe f then s\<lparr>ssDisk := ssDisk s - {fmFilePath f}\<rparr> else s)"

definition putExistingInstance :: "nat \<Rightarrow> 'f source_state \<Rightarrow> 'f source_state" where
  "putExistingInstance i s =
     (case ssLive s i of
        None \<Rightarrow> s
      | Some f \<Rightarrow> if use_count i s = 1 then delete_meta f (s\<lparr>ssLive := (ssLive s)(i := None)\<rparr>) else s)"

definition read_exit :: "'f source_state \<Rightarrow> 'f source_state" where
  "read_exit s = s\<lparr>ssReadDone := True, ssReadStfQueue := cq_stop (ssReadStfQueue s)\<rparr>"

text \<open>\<open>frames\<close> are the frames that the reader gets from a file (\<open>read_file\<close>).\<close>

definition read_pop :: "(StfFileMeta \<Rightarrow> 'f list) \<Rightarrow> 'f source_state \<Rightarrow> 'f source_state" where
  "read_pop frames s =
     (if \<not> ssRunning s then read_exit s
      else case cq_pop (ssQueue s) of
          (Popped f, q) \<Rightarrow> s\<lparr>ssQueue := q, ssFile := Some f, ssPending := frames f\<rparr>
        | (Stopped, q) \<Rightarrow> read_exit s
        | (Blocked, q) \<Rightarrow> s)"

text \<open>One frame; a frame that was read when the source stops is dropped, with the rest of the file.\<close>

definition read_push :: "'f \<Rightarrow> 'f list \<Rightarrow> 'f source_state \<Rightarrow> 'f source_state" where
  "read_push x xs s =
     (if \<not> ssRunning s then s\<lparr>ssPending := []\<rparr>
      else case cq_push eFIFO x (ssReadStfQueue s) of
          (True, q) \<Rightarrow> s\<lparr>ssReadStfQueue := q, ssPending := xs, ssWait := True\<rparr>
        | (False, q) \<Rightarrow> s\<lparr>ssPending := []\<rparr>)"

text \<open>The file is released; when this was the last pointer to it, it is deleted.\<close>

definition read_reset :: "StfFileMeta \<Rightarrow> 'f source_state \<Rightarrow> 'f source_state" where
  "read_reset f s =
     (let s1 = s\<lparr>ssFile := None, ssPut := Some (fmIdx f)\<rparr>
      in if use_count (fmIdx f) s1 = 0 then delete_meta f s1 else s1)"

definition read_step :: "nat \<Rightarrow> (StfFileMeta \<Rightarrow> 'f list) \<Rightarrow> 'f source_state \<Rightarrow> 'f source_state" where
  "read_step preread frames s =
     (if ssReadDone s then s
      else if ssWait s then
        (if ssRunning s \<and> length (mContainer (ssReadStfQueue s)) \<ge> preread then s else s\<lparr>ssWait := False\<rparr>)
      else case ssFile s of
          Some f \<Rightarrow> (case ssPending s of [] \<Rightarrow> read_reset f s | x # xs \<Rightarrow> read_push x xs s)
        | None \<Rightarrow>
            (case ssPut s of
               Some i \<Rightarrow> putExistingInstance i (s\<lparr>ssPut := None\<rparr>)
             | None \<Rightarrow> read_pop frames s))"

section \<open>The injecting thread\<close>

text \<open>One round, without the waiting; the frame is handed to the pipeline whether it takes it or not.\<close>

definition inject_exit :: "'f source_state \<Rightarrow> 'f source_state" where
  "inject_exit s = s\<lparr>ssInjectDone := True, ssPipeline := cq_stop (ssPipeline s)\<rparr>"

definition inject_step :: "'f source_state \<Rightarrow> 'f option \<times> 'f source_state" where
  "inject_step s =
     (if ssInjectDone s then (None, s)
      else if \<not> ssRunning s then (None, inject_exit s)
      else case cq_pop (ssReadStfQueue s) of
          (Popped x, q) \<Rightarrow> (Some x, s\<lparr>ssReadStfQueue := q, ssPipeline := snd (cq_push eFIFO x (ssPipeline s))\<rparr>)
        | (Stopped, q) \<Rightarrow> (None, inject_exit s)
        | (Blocked, q) \<Rightarrow> (None, s))"

section \<open>Reading a file\<close>

lemma read_loop_bounds:
  "read_loop C E mem k left sd f r = (Some x, r') \<Longrightarrow> frOffset r \<le> frSize r \<Longrightarrow>
    frOffset r \<le> frOffset r' \<and> frOffset r' \<le> frSize r' \<and> frSize r' = frSize r"
proof (induction C E mem k left sd f r rule: read_loop.induct)
  case (1 C E mem k left sd f r)
  show ?case
  proof (cases "sint left \<le> 0")
    case True
    then show ?thesis using "1.prems" by (simp add: read_loop.simps [of C E mem k left])
  next
    case False
    obtain b r1 where rb: "read_block C (mem k) r = (b, r1)" by fastforce
    show ?thesis
    proof (cases b)
      case None
      then show ?thesis using "1.prems" False rb by (simp add: read_loop.simps [of C E mem k left])
    next
      case (Some y)
      obtain h p n where y: "y = (h, p, n)" by (cases y) auto
      note adv = read_block_advances [OF rb [unfolded Some y]]
      have "read_loop C E mem (Suc k) (left - of_nat n) (sd @ [block_data (fhHeader h) p])
          (read_orbit C E (fhHeader h) p f) r1 = (Some x, r')"
        using "1.prems"(1) False rb Some y by (simp add: read_loop.simps [of C E mem k left])
      from "1.IH" [OF False rb [symmetric] Some [unfolded y] refl refl this] adv show ?thesis by simp
    qed
  qed
qed

lemma read_tf_advances:
  assumes "read_tf C E mem now sid r = (ReadTf g, sid', r')"
  shows "frOffset r < frOffset r' \<and> frOffset r' \<le> frSize r' \<and> frSize r' = frSize r"
proof -
  obtain n st r1 where g: "getHeaderStack C r = (n, st, r1)" by (cases "getHeaderStack C r") auto
  have n: "n \<noteq> 0" using assms g by (auto simp: read_tf_def Let_def split: if_splits)
  note a1 = getHeaderStack_advances [OF g n]
  obtain mb r2 where r2: "read_advance meta_size r1 = (Some mb, r2)"
    using assms g n by (cases "read_advance meta_size r1") (auto simp: read_tf_def Let_def split: if_splits option.splits)
  note a2 = read_advance_bounds [OF r2]
  obtain sz f where ri: "read_index C E mem sz n f r2 = (ReadTf g, r')"
    using assms g n r2 by (auto simp: read_tf_def Let_def split: if_splits option.splits prod.splits)
  obtain n3 st3 r3 where g3: "getHeaderStack C r2 = (n3, st3, r3)" by (cases "getHeaderStack C r2") auto
  have n3: "n3 \<noteq> 0" using ri g3 by (auto simp: read_index_def split: if_splits)
  note a3 = getHeaderStack_advances [OF g3 n3]
  obtain h where h: "ocGet C st3 = Some h" using ri g3 n3 by (cases "ocGet C st3") (auto simp: read_index_def)
  obtain r4 where r4: "ignore_nbytes (unat (fhPayloadSize h)) r3 = (True, r4)"
    using ri g3 n3 h by (cases "ignore_nbytes (unat (fhPayloadSize h)) r3") (auto simp: read_index_def split: bool.splits)
  note a4 = ignore_nbytes_bounds [OF r4]
  obtain n5 where rd: "read_frame_data C E mem n5 f r4 = (ReadTf g, r')"
    using ri g3 n3 h r4 by (simp add: read_index_def)
  obtain x where rl: "read_loop C E mem 0 n5 [] f r4 = (Some x, r')"
    using rd by (cases "read_loop C E mem 0 n5 [] f r4")
      (auto simp: read_frame_data_def split: option.splits if_splits)
  have "frOffset r4 \<le> frSize r4" using a1 a2 a3 a4 by linarith
  from read_loop_bounds [OF rl this] show ?thesis using a1 a2 a3 a4 n by linarith
qed

text \<open>The frames of a file, in the order they are queued. \<open>run k\<close>: in round \<open>k\<close> the source still
  runs and the queue takes the frame. The flag is \<open>False\<close> when a null pointer was used.\<close>

function read_file :: "('d, 'o) o2_codec \<Rightarrow> 'o rdh_env \<Rightarrow> (nat \<Rightarrow> nat \<Rightarrow> bool \<times> bool) \<Rightarrow> (nat \<Rightarrow> u64) \<Rightarrow> (nat \<Rightarrow> bool) \<Rightarrow>
    nat \<Rightarrow> u64 \<Rightarrow> file_reader \<Rightarrow> ('d, 'o) SubTimeFrame list \<times> bool \<times> u64 \<times> file_reader" where
  "read_file C E mem now run k sid r =
     (case read_tf C E (mem k) (now k) sid r of
        (ReadNull, sid1, r1) \<Rightarrow> ([], True, sid1, r1)
      | (ReadUndefined, sid1, r1) \<Rightarrow> ([], False, sid1, r1)
      | (ReadTf f, sid1, r1) \<Rightarrow>
          if \<not> run k then ([], True, sid1, r1)
          else (let (fs, ok, sid2, r2) = read_file C E mem now run (Suc k) sid1 r1 in (f # fs, ok, sid2, r2)))"
  by pat_completeness auto
termination
proof (relation "measure (\<lambda>(C, E, mem, now, run, k, sid, r). frSize r - frOffset r)", goal_cases)
  case (2 C E mem now run k sid r x y f z w)
  then show ?case using read_tf_advances [of C E "mem k" "now k" sid r f z w] by (cases y) auto
qed simp

declare read_file.simps [simp del]

end
