(* ===== verification/TfFile_Props.thy ===== *)
theory TfFile_Props
  imports TfFile_Writer TfFile_Reader Transport_Iov_Props
begin

text \<open>
  The bytes of a frame in a file, and what the reader makes of them: what the writer produces is
  described by \<open>tf_bytes\<close>, and each function of the reader is followed over it. The properties of
  the files are in \<open>TfFile_Claims\<close>.
\<close>

section \<open>What is written\<close>

text \<open>\<open>w'\<close> is good only if \<open>bs\<close> was appended to the good stream \<open>w\<close>.\<close>

definition appends :: "u8 list \<Rightarrow> out_file \<Rightarrow> out_file \<Rightarrow> bool" where
  "appends bs w w' \<longleftrightarrow> (ofGood w' \<longrightarrow> ofGood w \<and> ofContent w' = ofContent w @ bs)"

lemma appends_trans: "appends a w w1 \<Longrightarrow> appends b w1 w2 \<Longrightarrow> appends (a @ b) w w2"
  by (auto simp: appends_def)

lemma appends_Nil [simp]: "appends [] w w"
  by (simp add: appends_def)

lemma put_appends: "appends bs w (file_put bs w)"
  by (simp add: appends_def file_put_def)

lemma fold_put_appends: "appends (concat bss) w (fold file_put bss w)"
  by (induction bss arbitrary: w) (auto intro: appends_trans [OF put_appends])

lemma concat_chunks: "concat (chunks bs) = bs"
  by (induction bs rule: chunks.induct) (subst chunks.simps, simp)

lemma buffered_appends: "appends bs w (buffered_write bs w)"
  using fold_put_appends [of "chunks bs" w] put_appends [of bs w]
  by (simp add: buffered_write_def concat_chunks)

fun part_blocks :: "('d, 'o) DataHeader \<Rightarrow> nat \<Rightarrow> fmq_message list \<Rightarrow> (('d, 'o) file_header \<times> fmq_message) list" where
  "part_blocks h i [] = []"
| "part_blocks h i (p # ps) = (part_header h i p, p) # part_blocks h (Suc i) ps"

definition message_blocks :: "('d, 'o) StfMessage \<Rightarrow> (('d, 'o) file_header \<times> fmq_message) list" where
  "message_blocks msg = (case smHeader msg of None \<Rightarrow> [] | Some h \<Rightarrow> part_blocks h 0 (smDataParts msg))"

definition block_bytes :: "('d, 'o) o2_codec \<Rightarrow> ('d, 'o) file_header \<times> fmq_message \<Rightarrow> u8 list" where
  "block_bytes C b = ocEncode C (fst b) @ snd b"

definition blocks_bytes :: "('d, 'o) o2_codec \<Rightarrow> (('d, 'o) file_header \<times> fmq_message) list \<Rightarrow> u8 list" where
  "blocks_bytes C bl = concat (map (block_bytes C) bl)"

definition frame_blocks :: "('d, 'o) StfMessage list \<Rightarrow> (('d, 'o) file_header \<times> fmq_message) list" where
  "frame_blocks v = concat (map message_blocks v)"

lemma blocks_bytes_append [simp]: "blocks_bytes C (a @ b) = blocks_bytes C a @ blocks_bytes C b"
  by (simp add: blocks_bytes_def)

lemma blocks_bytes_simps [simp]: "blocks_bytes C [] = []" "blocks_bytes C (b # bl) = block_bytes C b @ blocks_bytes C bl"
  by (simp_all add: blocks_bytes_def)

lemma frame_blocks_simps [simp]: "frame_blocks [] = []" "frame_blocks (msg # v) = message_blocks msg @ frame_blocks v"
  by (simp_all add: frame_blocks_def)

lemma write_parts_appends: "appends (blocks_bytes C (part_blocks h i ps)) w (write_parts C h i ps w)"
proof (induction ps arbitrary: i w)
  case (Cons p ps)
  let ?e = "ocEncode C (part_header h i p)"
  have "appends ((?e @ p) @ blocks_bytes C (part_blocks h (Suc i) ps)) w (write_parts C h i (p # ps) w)"
    using appends_trans [OF appends_trans [OF buffered_appends buffered_appends] Cons] by simp
  then show ?case by (simp add: block_bytes_def)
qed simp

lemma write_messages_appends: "appends (blocks_bytes C (frame_blocks v)) w (write_messages C v w)"
proof (induction v arbitrary: w)
  case (Cons msg v)
  let ?w = "case smHeader msg of None \<Rightarrow> w | Some h \<Rightarrow> write_parts C h 0 (smDataParts msg) w"
  have "appends (blocks_bytes C (message_blocks msg)) w ?w"
    by (simp add: message_blocks_def write_parts_appends split: option.splits)
  from appends_trans [OF this Cons.IH] show ?case by simp
qed simp

definition tf_head :: "('d::linorder, 'o::linorder) o2_codec \<Rightarrow> u64 \<Rightarrow> ('d, 'o) SubTimeFrame \<Rightarrow> u8 list" where
  "tf_head C now f = ocEncode C (meta_header C) @ meta_bytes (file_meta_new now (size_in_file C f))
     @ ocEncode C (index_header C (writer_index C f)) @ index_bytes C (writer_index C f)"

definition tf_bytes :: "('d::linorder, 'o::linorder) o2_codec \<Rightarrow> u64 \<Rightarrow> ('d, 'o) SubTimeFrame \<Rightarrow> u8 list" where
  "tf_bytes C now f = tf_head C now f @ blocks_bytes C (frame_blocks (writer_data f))"

lemma write_frame_bytes:
  assumes "write_frame C now info infoOk f w = Some (n, rows, w')" and "ofGood w'"
  shows "ofGood w" "ofContent w' = ofContent w @ tf_bytes C now f"
    "n \<noteq> 0 \<Longrightarrow> n = of_nat (length (tf_bytes C now f))"
proof -
  let ?ix = "writer_index C f"
  let ?w1 = "write_index C ?ix (write_meta C (file_meta_new now (size_in_file C f)) w)"
  let ?w2 = "write_messages C (writer_data f) ?w1"
  have "w' = ?w2" using assms by (auto simp: write_frame_def Let_def split: if_splits option.splits)
  have meta: "appends (ocEncode C (meta_header C) @ meta_bytes m) w (write_meta C m w)" for m
    unfolding write_meta_def by (rule appends_trans [OF put_appends put_appends])
  have index: "appends (ocEncode C (index_header C ?ix) @ index_bytes C ?ix) u (write_index C ?ix u)" for u
    unfolding write_index_def by (rule appends_trans [OF put_appends put_appends])
  have "appends (tf_bytes C now f) w w'"
    using appends_trans [OF appends_trans [OF meta index] write_messages_appends [of C "writer_data f"]]
    unfolding \<open>w' = ?w2\<close> tf_bytes_def tf_head_def by simp
  then show w: "ofGood w" "ofContent w' = ofContent w @ tf_bytes C now f" using assms(2) by (auto simp: appends_def)
  show "n = of_nat (length (tf_bytes C now f))" if "n \<noteq> 0"
  proof -
    have "n = writer_size w' - writer_size w"
      using assms that \<open>w' = ?w2\<close> by (auto simp: write_frame_def Let_def split: if_splits option.splits)
    then show ?thesis using w(2) by (simp add: writer_size_def)
  qed
qed

lemma write_failed:
  assumes "write_frame C now info infoOk f w = Some (n, rows, w')" and "\<not> ofGood w'"
  shows "n = 0"
  using assms by (auto simp: write_frame_def Let_def split: if_splits option.splits)

text \<open>The size that the meta structure announces.\<close>

lemma length_index_bytes: "o2_headers C \<Longrightarrow> length (index_bytes C ix) = 48 * length ix"
  by (induction ix) (simp_all add: index_bytes_def o2_headers.index_elem)

lemma fold_parts_size:
  "fst (fold (\<lambda>p (s, c). (s + (of_nat k + of_nat (length p)), c + (1 :: u32))) ps (s0, c0)) =
   s0 + (of_nat (\<Sum>p\<leftarrow>ps. k + length p) :: u64)"
  by (induction ps arbitrary: s0 c0) (simp_all add: add.assoc)

definition blocks_size :: "('d, 'o) o2_codec \<Rightarrow> ('d, 'o) StfMessage list \<Rightarrow> nat" where
  "blocks_size C v = (\<Sum>p\<leftarrow>concat (map smDataParts v). ocSize C + length p)"

lemma parts_size_eq: "fst (parts_size C v) = of_nat (blocks_size C v)"
  unfolding parts_size_def blocks_size_def using fold_parts_size [of "ocSize C" _ 0 0] by simp

lemma length_part_blocks:
  "o2_headers C \<Longrightarrow> length (blocks_bytes C (part_blocks h i ps)) = (\<Sum>p\<leftarrow>ps. ocSize C + length p)"
  by (induction ps arbitrary: i) (simp_all add: block_bytes_def o2_headers.enc_length)

lemma length_frame_blocks:
  assumes "o2_headers C" and "list_all (\<lambda>msg. smHeader msg \<noteq> None) v"
  shows "length (blocks_bytes C (frame_blocks v)) = blocks_size C v"
  using assms(2)
  by (induction v) (auto simp: blocks_size_def message_blocks_def length_part_blocks [OF assms(1)])

lemma size_in_file_eq:
  assumes C: "o2_headers C" and "list_all (\<lambda>msg. smHeader msg \<noteq> None) (writer_data f)"
  shows "size_in_file C f = of_nat (length (tf_bytes C now f))"
  by (simp add: size_in_file_def tf_bytes_def tf_head_def parts_size_eq length_frame_blocks [OF assms]
      length_index_bytes [OF C] o2_headers.enc_length [OF C] meta_size_in_file_def index_size_in_file_def)

section \<open>What is read\<close>

text \<open>A reader of an open file, between the bytes read and the rest.\<close>

definition reader_at :: "u8 list \<Rightarrow> u8 list \<Rightarrow> file_reader" where
  "reader_at pre rest = \<lparr>frOpen = True, frMap = pre @ rest, frOffset = length pre, frSize = length pre + length rest\<rparr>"

lemma reader_at_simps [simp]:
  "frOpen (reader_at pre rest)" "frOffset (reader_at pre rest) = length pre"
  "frSize (reader_at pre rest) = length pre + length rest" "peek (reader_at pre rest) = rest"
  by (simp_all add: reader_at_def peek_def)

lemma reader_at_advance:
  "reader_at pre (bs @ rest)\<lparr>frOffset := length pre + length bs\<rparr> = reader_at (pre @ bs) rest"
  by (simp add: reader_at_def)

lemma read_advance_at: "n = length bs \<Longrightarrow> read_advance n (reader_at pre (bs @ rest)) = (Some bs, reader_at (pre @ bs) rest)"
  by (simp add: read_advance_def reader_at_advance)

lemma ignore_nbytes_at: "n = length bs \<Longrightarrow> ignore_nbytes n (reader_at pre (bs @ rest)) = (True, reader_at (pre @ bs) rest)"
  by (simp add: ignore_nbytes_def reader_at_advance)

lemma reader_at_back: "set_position (length pre) (reader_at (pre @ bs) rest) = reader_at pre (bs @ rest)"
  by (simp add: set_position_def reader_at_def)

lemma reader_at_split: "reader_at pre rest = reader_at pre (take n rest @ drop n rest)"
  by simp

context o2_headers begin

lemma stack_size_at:
  assumes "\<not> fhNext h"
  shows "getHeaderStackSize C (reader_at pre (ocEncode C h @ rest)) = (ocSize C, reader_at pre (ocEncode C h @ rest))"
proof -
  let ?e = "ocEncode C h" and ?b = "ocBaseSize C"
  let ?r = "reader_at pre (?e @ rest)"
  have lb: "?b = length (take ?b ?e)" using base_size enc_length by simp
  have "read_advance ?b ?r = read_advance ?b (reader_at pre (take ?b ?e @ (drop ?b ?e @ rest)))"
    by (simp add: append_assoc [symmetric] del: append_assoc)
  then have ra: "read_advance ?b ?r = (Some (take ?b ?e), reader_at (pre @ take ?b ?e) (drop ?b ?e @ rest))"
    using read_advance_at [OF lb] by simp
  have bk: "set_position (length pre) (reader_at (pre @ take ?b ?e) (drop ?b ?e @ rest)) = ?r"
    using reader_at_back [of pre "take ?b ?e" "drop ?b ?e @ rest"]
    by (simp add: append_assoc [symmetric] del: append_assoc)
  have ig: "ignore_nbytes (ocSize C) ?r = (True, reader_at (pre @ ?e) rest)"
    by (rule ignore_nbytes_at) (simp add: enc_length)
  have "stack_size_loop C (Suc 15) 0 ?r = (Some (ocSize C, True), reader_at (pre @ ?e) rest)"
    using ra bk ig assms enc_base [of h] by (subst stack_size_loop.simps(2)) simp
  then have "stack_size_loop C 16 0 ?r = (Some (ocSize C, True), reader_at (pre @ ?e) rest)"
    by (simp add: numeral_eq_Suc)
  then show ?thesis by (simp add: getHeaderStackSize_def reader_at_back)
qed

lemma header_stack_at:
  assumes "\<not> fhNext h"
  shows "getHeaderStack C (reader_at pre (ocEncode C h @ rest)) = (ocSize C, ocEncode C h, reader_at (pre @ ocEncode C h) rest)"
proof -
  have ig: "ignore_nbytes (ocSize C) (reader_at pre (ocEncode C h @ rest)) = (True, reader_at (pre @ ocEncode C h) rest)"
    by (rule ignore_nbytes_at) (simp add: enc_length)
  have "take (ocBaseSize C) (ocEncode C h @ rest) = take (ocBaseSize C) (ocEncode C h)"
    using base_size enc_length by simp
  then have "upgrade_stack C (ocSize C) (ocEncode C h @ rest) = ocEncode C h"
    unfolding upgrade_stack_def Let_def by (simp only: enc_base) (simp add: enc_length)
  then show ?thesis
    using stack_size_at [OF assms, of pre rest] ig base_size
    by (simp add: getHeaderStack_def Let_def enc_is_base)
qed

text \<open>A block that the reader takes as it is written.\<close>

lemma read_block_at:
  assumes "\<not> fhNext (fst b)" and "fhPayloadSize (fst b) = of_nat (length (snd b))" and "length (snd b) < 2 ^ 64"
  shows "read_block C (True, True) (reader_at pre (block_bytes C b @ rest)) =
    (Some (fst b, snd b, ocSize C + length (snd b)), reader_at (pre @ block_bytes C b) rest)"
proof -
  have n: "unat (fhPayloadSize (fst b)) = length (snd b)"
    using assms(2, 3) by (simp add: unat_of_nat)
  have "ocSize C \<noteq> 0" using base_size by simp
  then show ?thesis
    using header_stack_at [OF assms(1), of pre "snd b @ rest"]
    by (simp add: read_block_def block_bytes_def enc_get n read_advance_at [OF refl])
qed

end

definition block_ok_at :: "('d, 'o) file_header \<times> fmq_message \<Rightarrow> bool" where
  "block_ok_at b \<longleftrightarrow> \<not> fhNext (fst b) \<and> fhPayloadSize (fst b) = of_nat (length (snd b))"

lemma part_blocks_ok: "list_all block_ok_at (part_blocks h i ps)"
  by (induction ps arbitrary: i) (simp_all add: block_ok_at_def part_header_def)

lemma frame_blocks_ok: "list_all block_ok_at (frame_blocks v)"
  by (induction v) (simp_all add: message_blocks_def part_blocks_ok split: option.splits)

lemma sint_of_nat: "n < 2 ^ 63 \<Longrightarrow> sint (of_nat n :: u64) = int n"
proof -
  assume n: "n < 2 ^ 63"
  have "uint (of_nat n :: u64) = int n" using n by (simp add: unsigned_of_nat take_bit_nat_eq_self)
  then show ?thesis using n by (simp add: sint_uint signed_take_bit_int_eq_self)
qed

fun block_orbits :: "('d, 'o) o2_codec \<Rightarrow> 'o rdh_env \<Rightarrow> (('d, 'o) file_header \<times> fmq_message) list \<Rightarrow>
    ('d, 'o) SubTimeFrame \<Rightarrow> ('d, 'o) SubTimeFrame" where
  "block_orbits C E [] f = f"
| "block_orbits C E (b # bl) f = block_orbits C E bl (read_orbit C E (fhHeader (fst b)) (snd b) f)"

context o2_headers begin

lemma read_loop_at:
  assumes "list_all block_ok_at bl" and "length (blocks_bytes C bl) < 2 ^ 63"
  shows "read_loop C E (\<lambda>_. (True, True)) k (of_nat (length (blocks_bytes C bl))) sd f (reader_at pre (blocks_bytes C bl @ rest)) =
    (Some (0, sd @ map (\<lambda>b. block_data (fhHeader (fst b)) (snd b)) bl, block_orbits C E bl f),
     reader_at (pre @ blocks_bytes C bl) rest)"
  using assms
proof (induction bl arbitrary: k sd f pre)
  case Nil
  then show ?case by (subst read_loop.simps) simp
next
  case (Cons b bl)
  let ?n = "length (blocks_bytes C (b # bl))" and ?m = "ocSize C + length (snd b)"
  have len: "?n = ?m + length (blocks_bytes C bl)" by (simp add: block_bytes_def enc_length)
  have ok: "\<not> fhNext (fst b)" "fhPayloadSize (fst b) = of_nat (length (snd b))"
    using Cons.prems(1) by (simp_all add: block_ok_at_def)
  have "0 < ?n" using len base_size by linarith
  moreover have "sint (of_nat ?n :: u64) = int ?n" by (rule sint_of_nat [OF Cons.prems(2)])
  ultimately have pos: "\<not> sint (of_nat ?n :: u64) \<le> 0" by linarith
  have rb: "read_block C (True, True) (reader_at pre (blocks_bytes C (b # bl) @ rest)) =
      (Some (fst b, snd b, ?m), reader_at (pre @ block_bytes C b) (blocks_bytes C bl @ rest))"
    using read_block_at [OF ok, of pre "blocks_bytes C bl @ rest"] Cons.prems(2) len by simp
  have left: "(of_nat ?n :: u64) - of_nat ?m = of_nat (length (blocks_bytes C bl))"
    unfolding len by (simp add: of_nat_add)
  show ?case
    using Cons.IH [of "Suc k" "sd @ [block_data (fhHeader (fst b)) (snd b)]" "read_orbit C E (fhHeader (fst b)) (snd b) f" "pre @ block_bytes C b"]
      Cons.prems pos rb left len
    by (subst read_loop.simps) simp
qed

end

section \<open>The messages read back\<close>

text \<open>The header of a message comes back with the index of its first part.\<close>

definition read_back :: "('d, 'o) StfMessage \<Rightarrow> ('d, 'o) StfMessage" where
  "read_back msg = msg\<lparr>smHeader := map_option (\<lambda>h. h\<lparr>splitPayloadIndex := 0\<rparr>) (smHeader msg)\<rparr>"

lemma read_back_key [simp]: "msg_key (read_back msg) = msg_key msg"
  by (simp add: msg_key_def read_back_def option.map_comp comp_def)

abbreviation blocks_data :: "(('d, 'o) file_header \<times> fmq_message) list \<Rightarrow> ('d, 'o) StfData list" where
  "blocks_data bl \<equiv> map (\<lambda>b. block_data (fhHeader (fst b)) (snd b)) bl"

lemma visit_parts:
  assumes "1 < splitPayloadParts h" and "0 < i" and "i + length ps < 2 ^ 32"
  shows "read_visit (blocks_data (part_blocks h i ps) @ ds) (Some q) f =
    read_visit ds (Some q) (fold (addStfDataAppend (Some q)) ps f)"
  using assms(2, 3)
proof (induction ps arbitrary: i f)
  case (Cons p ps)
  have "unat (of_nat i :: u32) = i" using Cons.prems by (simp add: unat_of_nat)
  then have i: "(of_nat i :: u32) \<noteq> 0" using Cons.prems(1) by auto
  have b: "block_data (h\<lparr>splitPayloadIndex := of_nat i\<rparr>) p = \<lparr>sdHeader = None, sdData = p\<rparr>"
    using i assms(1) by (simp add: block_data_def)
  show ?case using Cons.IH [of "Suc i"] Cons.prems by (simp add: part_header_def b)
qed simp

lemma visit_message_blocks:
  assumes "parts_announced msg"
  shows "\<exists>f1 q'. adds f [read_back msg] f1 \<and>
    read_visit (blocks_data (message_blocks msg) @ ds) q f = read_visit ds q' f1"
proof -
  obtain h d ps where m: "smHeader msg = Some h" "smDataParts msg = d # ps"
    and n: "unat (iov_parts h) = Suc (length ps)"
    using assms by (auto simp: parts_announced_def neq_Nil_conv)
  let ?h = "h\<lparr>splitPayloadIndex := 0\<rparr>"
  let ?di = "(dhDescription ?h, dhOrigin ?h)" and ?ss = "dhSubSpecification ?h"
  define f0 where "f0 = snd (addStfDataStart ?di ?ss \<lparr>sdHeader = Some ?h, sdData = d\<rparr> f)"
  let ?p = "(?di, ?ss, length (vec_at (stfData f) ?di ?ss))"
  have p: "addStfDataStart ?di ?ss \<lparr>sdHeader = Some ?h, sdData = d\<rparr> f = (?p, f0)"
    by (simp add: f0_def addStfDataStart_def Let_def)
  have a: "adds f [\<lparr>smHeader = Some ?h, smDataParts = [d] @ ps\<rparr>] (fold (addStfDataAppend (Some ?p)) ps f0)"
    using fold_part_adds [OF start_adds, of ?h d ?di ?ss f ps] unfolding f0_def by (simp add: msg_key_def)
  have rb: "\<lparr>smHeader = Some ?h, smDataParts = [d] @ ps\<rparr> = read_back msg"
    using m by (cases msg) (simp add: read_back_def)
  have first: "block_data ?h d = \<lparr>sdHeader = Some ?h, sdData = d\<rparr>" by (simp add: block_data_def)
  have "read_visit (blocks_data (part_blocks h (Suc 0) ps) @ ds) (Some ?p) f0 =
      read_visit ds (Some ?p) (fold (addStfDataAppend (Some ?p)) ps f0)"
  proof (cases "ps = []")
    case False
    then have "1 < splitPayloadParts h" using n by (auto simp: iov_parts_def split: if_splits)
    moreover have "Suc (length ps) < 2 ^ 32"
      using n unsigned_less [where 'a = nat and w = "iov_parts h"] by simp
    ultimately show ?thesis by (intro visit_parts) simp_all
  qed simp
  then have "read_visit (blocks_data (message_blocks msg) @ ds) q f =
      read_visit ds (Some ?p) (fold (addStfDataAppend (Some ?p)) ps f0)"
    using m first p by (simp add: message_blocks_def part_header_def)
  moreover have "adds f [read_back msg] (fold (addStfDataAppend (Some ?p)) ps f0)" using a unfolding rb .
  ultimately show ?thesis by blast
qed

lemma visit_frame_blocks:
  "list_all parts_announced v \<Longrightarrow> adds f (map read_back v) (read_visit (blocks_data (frame_blocks v)) q f)"
proof (induction v arbitrary: f q)
  case Nil
  then show ?case by (simp add: adds_Nil)
next
  case (Cons msg v)
  obtain f1 q' where f1: "adds f [read_back msg] f1"
    "read_visit (blocks_data (message_blocks msg) @ blocks_data (frame_blocks v)) q f = read_visit (blocks_data (frame_blocks v)) q' f1"
    using visit_message_blocks [of msg f] Cons.prems by fastforce
  have "adds f1 (map read_back v) (read_visit (blocks_data (frame_blocks v)) q' f1)"
    using Cons by simp
  from adds_trans [OF f1(1) this] show ?case using f1(2) by simp
qed

section \<open>The messages of the writer\<close>

lemma vec_announced:
  assumes a: "accounted f" and s: "sendable f" and v: "msg \<in> set (vec_at (stfData (updateStf f)) di ss)"
  shows "parts_announced msg"
proof -
  have ok: "message_ok di ss msg" using sendable_updated [OF a] s v unfolding sendable_def by blast
  then obtain h where h: "smHeader msg = Some h" "smDataParts msg \<noteq> []"
    by (auto simp: message_ok_def msg_key_def)
  obtain h0 where "h = update_header (stfHeader f) (length (smDataParts msg)) h0"
    using vec_updated [OF a v h] by blast
  then show ?thesis using parts_announced_updated [OF ok] h by simp
qed

lemma writer_data_announced:
  assumes "accounted f" "sendable f"
  shows "list_all parts_announced (writer_data (updateStf f))"
  using vec_announced [OF assms] by (auto simp: list_all_iff writer_data_def writer_vec_def)

lemma announced_header: "list_all parts_announced v \<Longrightarrow> list_all (\<lambda>msg. smHeader msg \<noteq> None) v"
  by (auto simp: list_all_iff parts_announced_def)

lemma equipment_ids:
  assumes "map_wf m"
  shows "distinct (concat (map (\<lambda>e. map (\<lambda>s. eid_of (fst e) (fst s)) (snd e)) m))"
  using assms
proof (induction m)
  case (Cons e m)
  obtain di sub where e: "e = (di, sub)" by fastforce
  have "distinct (map (\<lambda>s. eid_of di (fst s)) sub)"
    using Cons.prems e by (auto simp: map_wf_def distinct_map inj_on_def)
  moreover have "di \<notin> fst ` set m" using Cons.prems e by (auto simp: map_wf_def)
  then have "set (map (\<lambda>s. eid_of di (fst s)) sub) \<inter> set (concat (map (\<lambda>e. map (\<lambda>s. eid_of (fst e) (fst s)) (snd e)) m)) = {}"
    by force
  ultimately show ?case using Cons e by (simp add: map_wf_def)
qed simp

lemma vec_at_key:
  assumes "vec_at m di ss \<noteq> []"
  shows "eid_of di ss \<in> set (concat (map (\<lambda>e. map (\<lambda>s. eid_of (fst e) (fst s)) (snd e)) m))"
proof -
  obtain sub v where "map_of m di = Some sub" "map_of sub ss = Some v"
    using assms by (auto simp: vec_at_def split: option.splits)
  then have "(di, sub) \<in> set m" "(ss, v) \<in> set sub" by (simp_all add: map_of_SomeD)
  then show ?thesis by force
qed

lemma filter_concat_keys:
  assumes "distinct es" and "\<And>e msg. msg \<in> set (V e) \<Longrightarrow> K msg = Some e"
  shows "filter (\<lambda>msg. K msg = Some e) (concat (map V es)) = (if e \<in> set es then V e else [])"
  using assms(1)
proof (induction es)
  case (Cons x es)
  have "filter (\<lambda>msg. K msg = Some e) (V x) = (if e = x then V x else [])"
    using assms(2) by (auto simp: filter_id_conv filter_empty_conv)
  then show ?case using Cons by auto
qed simp

lemma eid_of_fields [simp]: "eid_identifier (eid_of di ss) = di" "mSubSpecification (eid_of di ss) = ss"
  by (simp_all add: eid_of_def eid_identifier_def)

lemma eid_of_parts: "eid_of (eid_identifier e) (mSubSpecification e) = e"
  by (cases e) (simp add: eid_of_def eid_identifier_def)

lemma writer_data_filter:
  assumes wf: "map_wf (stfData f)" and s: "sendable f"
  shows "filter (\<lambda>msg. msg_key msg = Some (di, ss)) (writer_data f) = vec_at (stfData f) di ss"
proof -
  let ?K = "\<lambda>msg. map_option (\<lambda>k. eid_of (fst k) (snd k)) (msg_key msg)"
  have key: "?K msg = Some e" if "msg \<in> set (writer_vec f e)" for e msg
  proof -
    have "msg_key msg = Some (eid_identifier e, mSubSpecification e)"
      using that s unfolding sendable_def writer_vec_def message_ok_def by blast
    then show ?thesis by (simp add: eid_of_parts)
  qed
  have d: "distinct (writer_ids f)"
    using equipment_ids [OF wf] by (simp add: writer_ids_def getEquipmentIdentifiers_def)
  have "(msg_key msg = Some (di, ss)) = (?K msg = Some (eid_of di ss))" for msg :: "('a, 'b) StfMessage"
    by (cases "msg_key msg") (auto simp: prod_eq_iff)
  then have "filter (\<lambda>msg. msg_key msg = Some (di, ss)) (writer_data f) =
      (if eid_of di ss \<in> set (writer_ids f) then writer_vec f (eid_of di ss) else [])"
    using filter_concat_keys [of "writer_ids f" "writer_vec f" ?K "eid_of di ss"] d key by (simp add: writer_data_def)
  moreover have "vec_at (stfData f) di ss = []" if "eid_of di ss \<notin> set (writer_ids f)"
    using vec_at_key [of "stfData f" di ss] that by (auto simp: writer_ids_def getEquipmentIdentifiers_def)
  ultimately show ?thesis by (simp add: writer_vec_def)
qed

end
