(* ===== verification/TfFile_Claims.thy ===== *)
theory TfFile_Claims
  imports TfFile_Props
begin

text \<open>
  What time frame files promise: a frame that was written is read back with its messages, what
  was written has the announced size, a truncated file gives no frame, and the sidecar points at
  the data.
\<close>

section \<open>A frame in the file\<close>

lemma length_tf_bytes:
  assumes "o2_headers C"
  shows "length (tf_bytes C now f) = 2 * ocSize C + 24 + 48 * length (writer_index C f)
    + length (blocks_bytes C (frame_blocks (writer_data f)))"
  by (simp add: tf_bytes_def tf_head_def length_index_bytes [OF assms] o2_headers.enc_length [OF assms] meta_size_def)

lemma unat_of_nat_small: "n < 2 ^ 63 \<Longrightarrow> unat (of_nat n :: u64) = n"
  by (simp add: unat_of_nat)

lemma word_of_nat_less_iff: "m < 2 ^ 63 \<Longrightarrow> n < 2 ^ 63 \<Longrightarrow> (of_nat m :: u64) < of_nat n \<longleftrightarrow> m < n"
  by (simp add: word_less_nat_alt unat_of_nat)

context o2_headers begin

lemma read_data_at:
  assumes "length (blocks_bytes C (frame_blocks v)) < 2 ^ 63"
  shows "read_frame_data C E (\<lambda>_. (True, True)) (of_nat (length (blocks_bytes C (frame_blocks v)))) f
      (reader_at pre (blocks_bytes C (frame_blocks v) @ rest)) =
    (ReadTf (read_visit (blocks_data (frame_blocks v)) None (updateStf (block_orbits C E (frame_blocks v) f))),
     reader_at (pre @ blocks_bytes C (frame_blocks v)) rest)"
  using read_loop_at [OF frame_blocks_ok assms, of E 0 "[]" f pre rest] by (simp add: read_frame_data_def)

lemma read_index_at:
  assumes "2 * ocSize C + 24 + 48 * length ix + length (blocks_bytes C (frame_blocks v)) < 2 ^ 63"
    and sz: "sz = of_nat (2 * ocSize C + 24 + 48 * length ix + length (blocks_bytes C (frame_blocks v)))"
  shows "read_index C E (\<lambda>_. (True, True)) sz (ocSize C) f
      (reader_at pre ((ocEncode C (index_header C ix) @ index_bytes C ix @ blocks_bytes C (frame_blocks v)) @ rest)) =
    (ReadTf (read_visit (blocks_data (frame_blocks v)) None (updateStf (block_orbits C E (frame_blocks v) f))),
     reader_at (pre @ ocEncode C (index_header C ix) @ index_bytes C ix @ blocks_bytes C (frame_blocks v)) rest)"
proof -
  let ?h = "index_header C ix" and ?n = "length (blocks_bytes C (frame_blocks v))"
  have nx: "\<not> fhNext ?h" by (simp add: index_header_def new_header)
  have pay: "fhPayloadSize ?h = of_nat (48 * length ix)" by (simp add: index_header_def new_header)
  have upay: "unat (fhPayloadSize ?h) = length (index_bytes C ix)"
    unfolding pay using assms(1) by (subst unat_of_nat_small) (simp_all add: length_index_bytes [OF o2_headers_axioms])
  have left: "sz - (of_nat (ocSize C) + of_nat meta_size) - (of_nat (ocSize C) + fhPayloadSize ?h) = of_nat ?n"
    unfolding sz pay by (simp add: meta_size_def algebra_simps)
  have n0: "ocSize C \<noteq> 0" using base_size by simp
  show ?thesis
    using header_stack_at [OF nx, of pre "index_bytes C ix @ blocks_bytes C (frame_blocks v) @ rest"]
      ignore_nbytes_at [OF upay, of "pre @ ocEncode C ?h" "blocks_bytes C (frame_blocks v) @ rest"]
      read_data_at [of v E f "pre @ ocEncode C ?h @ index_bytes C ix" rest] assms(1) n0
    by (simp add: read_index_def enc_get left)
qed

end

lemma read_orbit_frame:
  "stfData (read_orbit C E h p f) = stfData f" "hId (stfHeader (read_orbit C E h p f)) = hId (stfHeader f)"
  "hRunNumber (stfHeader (read_orbit C E h p f)) = hRunNumber (stfHeader f)"
  "hOrigin (stfHeader (read_orbit C E h p f)) = hOrigin (stfHeader f)"
  "hCreationTimeMs (stfHeader (read_orbit C E h p f)) = hCreationTimeMs (stfHeader f)"
  by (auto simp: read_orbit_def updateFirstOrbit_def split: sum.splits)

lemma block_orbits_frame:
  "stfData (block_orbits C E bl f) = stfData f \<and> hId (stfHeader (block_orbits C E bl f)) = hId (stfHeader f) \<and>
   hRunNumber (stfHeader (block_orbits C E bl f)) = hRunNumber (stfHeader f) \<and>
   hOrigin (stfHeader (block_orbits C E bl f)) = hOrigin (stfHeader f) \<and>
   hCreationTimeMs (stfHeader (block_orbits C E bl f)) = hCreationTimeMs (stfHeader f)"
  by (induction bl arbitrary: f) (simp_all add: read_orbit_frame)

text \<open>The frame the reader makes of the messages of the writer.\<close>

definition frame_read :: "('d::linorder, 'o::linorder) o2_codec \<Rightarrow> 'o rdh_env \<Rightarrow> u64 \<Rightarrow> u64 \<Rightarrow> u64 \<Rightarrow>
    ('d, 'o) SubTimeFrame \<Rightarrow> ('d, 'o) SubTimeFrame" where
  "frame_read C E now sid ms f =
     read_visit (blocks_data (frame_blocks (writer_data f))) None
       (updateStf (block_orbits C E (frame_blocks (writer_data f)) (updateCreationTimeMs ms (SubTimeFrame_new now sid))))"

lemma read_tf_step:
  assumes "frOpen r" "frOffset r \<noteq> frSize r" "getHeaderStack C r = (n, st, r1)" "n \<noteq> 0"
    "read_advance meta_size r1 = (Some mb, r2)" "meta_of mb = m" "ocGet C st = Some h"
    "dhDescription (fhHeader h) = ocMetaDesc C" "mStfSizeInFile m \<noteq> meta_size_in_file C"
    "\<not> (of_nat (frOffset r) + mStfSizeInFile m :: u64) > of_nat (frSize r2)"
    "read_index C E mem (mStfSizeInFile m) n (updateCreationTimeMs (mWriteTimeMs m) (SubTimeFrame_new now sid)) r2 = (res, r3)"
  shows "read_tf C E mem now sid r = (res, sid + 1, r3)"
  using assms by (simp add: read_tf_def)

lemma read_tf_too_long:
  assumes "getHeaderStack C r = (n, st, r1)" "n \<noteq> 0"
    "read_advance meta_size r1 = (Some mb, r2)" "meta_of mb = m" "ocGet C st = Some h"
    "(of_nat (frOffset r) + mStfSizeInFile m :: u64) > of_nat (frSize r2)"
  shows "fst (read_tf C E mem now sid r) = ReadNull"
  using assms by (simp add: read_tf_def Let_def)

lemma read_tf_at:
  fixes C :: "('d::linorder, 'o::linorder) o2_codec"
  assumes C: "o2_headers C" and hd: "list_all (\<lambda>msg. smHeader msg \<noteq> None) (writer_data f)"
    and len: "length pre + length (tf_bytes C ms f) + length rest < 2 ^ 63"
  shows "read_tf C E (\<lambda>_. (True, True)) now sid (reader_at pre (tf_bytes C ms f @ rest)) =
    (ReadTf (frame_read C E now sid ms f), sid + 1, reader_at (pre @ tf_bytes C ms f) rest)"
proof -
  let ?h = "meta_header C" and ?m = "file_meta_new ms (size_in_file C f)" and ?ix = "writer_index C f"
  let ?bl = "frame_blocks (writer_data f)"
  let ?r0 = "reader_at pre (tf_bytes C ms f @ rest)"
  let ?idx = "ocEncode C (index_header C ?ix) @ index_bytes C ?ix @ blocks_bytes C ?bl"
  have split: "tf_bytes C ms f = ocEncode C ?h @ meta_bytes ?m @ ?idx" by (simp add: tf_bytes_def tf_head_def)
  have L: "length (tf_bytes C ms f) = 2 * ocSize C + 24 + 48 * length ?ix + length (blocks_bytes C ?bl)"
    by (rule length_tf_bytes [OF C])
  have sz: "size_in_file C f = of_nat (length (tf_bytes C ms f))" by (rule size_in_file_eq [OF C hd])
  have pos: "0 < ocSize C" using o2_headers.base_size [OF C] by simp
  have hs: "getHeaderStack C ?r0 = (ocSize C, ocEncode C ?h, reader_at (pre @ ocEncode C ?h) (meta_bytes ?m @ ?idx @ rest))"
    using o2_headers.header_stack_at [OF C, of ?h pre "meta_bytes ?m @ ?idx @ rest"]
    by (simp add: split meta_header_def o2_headers.new_header [OF C])
  have ra: "read_advance meta_size (reader_at (pre @ ocEncode C ?h) (meta_bytes ?m @ ?idx @ rest)) =
      (Some (meta_bytes ?m), reader_at (pre @ ocEncode C ?h @ meta_bytes ?m) (?idx @ rest))"
    using read_advance_at [of meta_size "meta_bytes ?m" "pre @ ocEncode C ?h" "?idx @ rest"] by simp
  have notempty: "mStfSizeInFile ?m \<noteq> meta_size_in_file C"
  proof -
    have "unat (size_in_file C f) \<noteq> unat (meta_size_in_file C)"
      using len pos L unfolding sz meta_size_in_file_def meta_size_def
      by (subst unat_of_nat_small) (simp_all add: of_nat_add [symmetric] unat_of_nat_small del: of_nat_add of_nat_numeral)
    then show ?thesis by (auto simp: file_meta_new_def)
  qed
  have fits: "\<not> (of_nat (length pre) + mStfSizeInFile ?m :: u64) > of_nat (length pre + length (tf_bytes C ms f) + length rest)"
    using len by (simp add: file_meta_new_def sz word_of_nat_less_iff of_nat_add [symmetric] del: of_nat_add)
  have small: "2 * ocSize C + 24 + 48 * length ?ix + length (blocks_bytes C ?bl) < 2 ^ 63" using len L by linarith
  have ms': "mStfSizeInFile ?m = of_nat (2 * ocSize C + 24 + 48 * length ?ix + length (blocks_bytes C ?bl))"
    unfolding L [symmetric] by (simp add: file_meta_new_def sz)
  have idx: "read_index C E (\<lambda>_. (True, True)) (mStfSizeInFile ?m) (ocSize C) f' (reader_at (pre @ ocEncode C ?h @ meta_bytes ?m) (?idx @ rest)) =
      (ReadTf (read_visit (blocks_data ?bl) None (updateStf (block_orbits C E ?bl f'))), reader_at (pre @ tf_bytes C ms f) rest)" for f'
    using o2_headers.read_index_at [OF C small ms', of E f' "pre @ ocEncode C ?h @ meta_bytes ?m" rest]
    unfolding split by simp
  have size: "frSize (reader_at (pre @ ocEncode C ?h @ meta_bytes ?m) (?idx @ rest)) = length pre + length (tf_bytes C ms f) + length rest"
    by (simp add: split)
  have desc: "dhDescription (fhHeader ?h) = ocMetaDesc C" by (simp add: meta_header_def o2_headers.new_header [OF C])
  have p2: "frOffset ?r0 \<noteq> frSize ?r0" using L pos by simp
  have p4: "ocSize C \<noteq> 0" using pos by simp
  have p10: "\<not> (of_nat (frOffset ?r0) + mStfSizeInFile ?m :: u64) >
      of_nat (frSize (reader_at (pre @ ocEncode C ?h @ meta_bytes ?m) (?idx @ rest)))"
    by (subst size, subst reader_at_simps(2), rule fits)
  have wt: "mWriteTimeMs ?m = ms" by (simp add: file_meta_new_def)
  note p11 = idx [of "updateCreationTimeMs (mWriteTimeMs ?m) (SubTimeFrame_new now sid)"]
  show ?thesis
    unfolding frame_read_def
    using read_tf_step [OF reader_at_simps(1) p2 hs p4 ra meta_of_bytes o2_headers.enc_get [OF C] desc notempty p10 p11]
    by (simp only: wt)
qed

section \<open>Writing succeeds when there is room\<close>

definition takes :: "u8 list \<Rightarrow> out_file \<Rightarrow> out_file \<Rightarrow> bool" where
  "takes bs w w' \<longleftrightarrow> (ofGood w \<and> length bs \<le> ofRoom w \<longrightarrow> ofGood w' \<and> ofRoom w' = ofRoom w - length bs)"

lemma takes_trans: "takes a w w1 \<Longrightarrow> takes b w1 w2 \<Longrightarrow> takes (a @ b) w w2"
  by (auto simp: takes_def)

lemma takes_Nil [simp]: "takes [] w w"
  by (simp add: takes_def)

lemma put_takes: "takes bs w (file_put bs w)"
  by (simp add: takes_def file_put_def)

lemma fold_put_takes: "takes (concat bss) w (fold file_put bss w)"
  by (induction bss arbitrary: w) (auto intro: takes_trans [OF put_takes])

lemma buffered_takes: "takes bs w (buffered_write bs w)"
  using fold_put_takes [of "chunks bs" w] put_takes [of bs w]
  by (simp add: buffered_write_def concat_chunks)

lemma write_parts_takes: "takes (blocks_bytes C (part_blocks h i ps)) w (write_parts C h i ps w)"
proof (induction ps arbitrary: i w)
  case (Cons p ps)
  let ?e = "ocEncode C (part_header h i p)"
  have "takes ((?e @ p) @ blocks_bytes C (part_blocks h (Suc i) ps)) w (write_parts C h i (p # ps) w)"
    using takes_trans [OF takes_trans [OF buffered_takes buffered_takes] Cons] by simp
  then show ?case by (simp add: block_bytes_def)
qed simp

lemma write_messages_takes: "takes (blocks_bytes C (frame_blocks v)) w (write_messages C v w)"
proof (induction v arbitrary: w)
  case (Cons msg v)
  let ?w = "case smHeader msg of None \<Rightarrow> w | Some h \<Rightarrow> write_parts C h 0 (smDataParts msg) w"
  have "takes (blocks_bytes C (message_blocks msg)) w ?w"
    by (simp add: message_blocks_def write_parts_takes split: option.splits)
  from takes_trans [OF this Cons.IH] show ?case by simp
qed simp

lemma sidecar_defined: "list_all (\<lambda>msg. smHeader msg \<noteq> None) v \<Longrightarrow> sidecar_rows C tf v off \<noteq> None"
proof (induction v arbitrary: off)
  case (Cons msg v)
  then obtain h where "smHeader msg = Some h" by auto
  then show ?case using Cons by (cases "sidecar_parts C tf h 0 (smDataParts msg) off") simp
qed simp

lemma write_stf_succeeds:
  fixes C :: "('d::linorder, 'o::linorder) o2_codec"
  assumes C: "o2_headers C" and a: "accounted f" and s: "sendable f"
    and w: "ofGood w" "length (tf_bytes C ms (updateStf f)) \<le> ofRoom w"
  shows "\<exists>rows w'. write_stf C ms info True f w = Some (of_nat (length (tf_bytes C ms (updateStf f))), rows, w') \<and>
    ofContent w' = ofContent w @ tf_bytes C ms (updateStf f)"
proof -
  let ?f = "updateStf f" and ?ix = "writer_index C (updateStf f)"
  let ?w1 = "write_index C ?ix (write_meta C (file_meta_new ms (size_in_file C ?f)) w)"
  let ?w2 = "write_messages C (writer_data ?f) ?w1"
  have meta: "takes (ocEncode C (meta_header C) @ meta_bytes m) w (write_meta C m w)" for m
    unfolding write_meta_def by (rule takes_trans [OF put_takes put_takes])
  have index: "takes (ocEncode C (index_header C ?ix) @ index_bytes C ?ix) u (write_index C ?ix u)" for u
    unfolding write_index_def by (rule takes_trans [OF put_takes put_takes])
  have "takes (tf_bytes C ms ?f) w ?w2"
    using takes_trans [OF takes_trans [OF meta index] write_messages_takes [of C "writer_data ?f"]]
    unfolding tf_bytes_def tf_head_def by simp
  then have good: "ofGood ?w2" using w by (simp add: takes_def)
  have "list_all (\<lambda>msg. smHeader msg \<noteq> None) (writer_data ?f)"
    by (rule announced_header [OF writer_data_announced [OF a s]])
  then obtain rows0 where r0: "sidecar_rows C (hId (stfHeader ?f), writer_size w, size_in_file C ?f) (writer_data ?f) (writer_size ?w1) = Some rows0"
    using sidecar_defined by blast
  let ?n = "writer_size ?w2 - writer_size w"
  obtain rows where wf: "write_frame C ms info True ?f w = Some (?n, rows, ?w2)"
    using good r0 by (cases info) (simp_all add: write_frame_def Let_def)
  note c = write_frame_bytes(2) [OF wf good]
  then have "?n = of_nat (length (tf_bytes C ms ?f))" by (simp add: writer_size_def)
  then show ?thesis using wf c w(1) by (simp add: write_stf_def)
qed

section \<open>Round trip\<close>

lemma frame_read_messages:
  assumes a: "accounted f" and s: "sendable f"
  shows "vec_at (stfData (frame_read C E now sid ms (updateStf f))) di ss =
      map (\<lambda>msg. read_back (updated_message (stfHeader f) msg)) (vec_at (stfData f) di ss) \<and>
    hId (stfHeader (frame_read C E now sid ms (updateStf f))) = sid \<and>
    hRunNumber (stfHeader (frame_read C E now sid ms (updateStf f))) = 0 \<and>
    hCreationTimeMs (stfHeader (frame_read C E now sid ms (updateStf f))) = ms"
proof -
  let ?v = "writer_data (updateStf f)"
  let ?f0 = "updateStf (block_orbits C E (frame_blocks ?v) (updateCreationTimeMs ms (SubTimeFrame_new now sid)))"
  let ?g = "frame_read C E now sid ms (updateStf f)"
  have g: "adds ?f0 (map read_back ?v) ?g"
    unfolding frame_read_def by (rule visit_frame_blocks [OF writer_data_announced [OF a s]])
  have f0: "vec_at (stfData ?f0) di ss = []"
    by (simp add: updateStf_def block_orbits_frame updateCreationTimeMs_def SubTimeFrame_new_def)
  have wf: "map_wf (stfData (updateStf f))" using updateStf_accounted [OF a] by (simp add: accounted_def)
  have "filter (\<lambda>msg. msg_key msg = Some (di, ss)) (map read_back ?v) =
      map read_back (filter (\<lambda>msg. msg_key msg = Some (di, ss)) ?v)"
    by (simp add: filter_map comp_def)
  also have "\<dots> = map read_back (vec_at (stfData (updateStf f)) di ss)"
    using writer_data_filter [OF wf] sendable_updated [OF a] s by simp
  finally have "vec_at (stfData ?g) di ss = map read_back (vec_at (stfData (updateStf f)) di ss)"
    using adds_at [OF g, of di ss] f0 by simp
  moreover have "stfHeader ?g = stfHeader ?f0" using g by (simp add: adds_def)
  ultimately show ?thesis
    by (simp add: updateStf_data(1) [OF a] comp_def block_orbits_frame updateCreationTimeMs_def SubTimeFrame_new_def Header_new_def)
qed

lemma write_stf_bytes:
  assumes C: "o2_headers C" and a: "accounted f" and s: "sendable f"
    and w: "write_stf C ms info infoOk f w = Some (n, rows, w')" and n: "n \<noteq> 0"
  shows "ofContent w' = ofContent w @ tf_bytes C ms (updateStf f)" "n = of_nat (length (tf_bytes C ms (updateStf f)))"
    "n = size_in_file C (updateStf f)" "list_all (\<lambda>msg. smHeader msg \<noteq> None) (writer_data (updateStf f))"
proof -
  have wf: "write_frame C ms info infoOk (updateStf f) w = Some (n, rows, w')"
    using w n by (auto simp: write_stf_def split: if_splits)
  then have good: "ofGood w'" using write_failed n by blast
  show hd: "list_all (\<lambda>msg. smHeader msg \<noteq> None) (writer_data (updateStf f))"
    by (rule announced_header [OF writer_data_announced [OF a s]])
  show "ofContent w' = ofContent w @ tf_bytes C ms (updateStf f)" by (rule write_frame_bytes(2) [OF wf good])
  show l: "n = of_nat (length (tf_bytes C ms (updateStf f)))" by (rule write_frame_bytes(3) [OF wf good n])
  then show "n = size_in_file C (updateStf f)" using size_in_file_eq [OF C hd, of ms] by simp
qed

text \<open>
  C22. Round trip of a time frame file: a frame whose messages carry the key they are stored under
  and that was written with success is read back from the file, wherever it starts and whatever
  follows it, with the same parts in the same order for every data identifier and
  sub-specification, and the reader is left at its end. The number that the writer returns is the
  number of bytes it appended, and the size that the meta structure announces. The headers come
  back with the index of their first part; the creation time is the time of writing, but the id
  of the frame is a counter of the reader, and the run number is 0.
\<close>

theorem file_roundtrip:
  fixes C :: "('d::linorder, 'o::linorder) o2_codec"
  assumes "o2_headers C" "stf_reach f" "sendable f"
    "write_stf C ms info infoOk f w = Some (n, rows, w')" "n \<noteq> 0" "length (ofContent w') + length rest < 2 ^ 63"
  shows "\<exists>g bytes. ofContent w' = ofContent w @ bytes \<and> n = of_nat (length bytes) \<and> n = size_in_file C (updateStf f) \<and>
    read_tf C E (\<lambda>_. (True, True)) now sid (reader_at (ofContent w) (bytes @ rest)) =
      (ReadTf g, sid + 1, reader_at (ofContent w') rest) \<and>
    (\<forall>di ss. vec_at (stfData g) di ss =
      map (\<lambda>msg. read_back (updated_message (stfHeader f) msg)) (vec_at (stfData f) di ss)) \<and>
    hId (stfHeader g) = sid \<and> hRunNumber (stfHeader g) = 0 \<and> hCreationTimeMs (stfHeader g) = ms"
proof -
  note a = reach_accounted [OF assms(2)]
  note b = write_stf_bytes [OF assms(1) a assms(3-5)]
  have "read_tf C E (\<lambda>_. (True, True)) now sid (reader_at (ofContent w) (tf_bytes C ms (updateStf f) @ rest)) =
      (ReadTf (frame_read C E now sid ms (updateStf f)), sid + 1, reader_at (ofContent w') rest)"
    using read_tf_at [OF assms(1) b(4), of "ofContent w" ms rest] assms(6) b(1) by simp
  then show ?thesis using b(1-3) frame_read_messages [OF a assms(3)] by blast
qed

text \<open>A frame with a message of two parts and one of one part, written with the layout of words.\<close>

definition file_hdr :: "u64 \<Rightarrow> (u64, u32) DataHeader" where
  "file_hdr d = \<lparr>dhDescription = d, dhOrigin = 2, dhSubSpecification = 7, splitPayloadIndex = 0,
     splitPayloadParts = 0, firstTForbit = 0, tfCounter = 0, runNumber = 0\<rparr>"

definition file_frame :: "(u64, u32) SubTimeFrame" where
  "file_frame =
     snd (addStfDataStart (4, 2) 7 \<lparr>sdHeader = Some (file_hdr 4), sdData = [9]\<rparr>
       (addStfDataAppend (Some ((5, 2), 7, 0)) [4]
         (snd (addStfDataStart (5, 2) 7 \<lparr>sdHeader = Some (file_hdr 5), sdData = [1, 2, 3]\<rparr> (SubTimeFrame_new 5 9)))))"

definition file_rdh :: "u32 rdh_env" where
  "file_rdh = \<lparr>rdhSize = 64, getSystemID = \<lambda>d. 0, getFeeID = \<lambda>d. 0, getLinkID = \<lambda>d. 0, getEndPointID = \<lambda>d. 0,
     getCruID = \<lambda>d. 0, getMemorySize = \<lambda>d. 0, getOffsetToNext = \<lambda>d. 0, getStopBit = \<lambda>d. True,
     getOrbit = \<lambda>d. 7, DAQtoO2 = \<lambda>b. 0, DAQ_INVALID = 255\<rparr>"

lemma file_frame_reach: "stf_reach file_frame"
  unfolding file_frame_def
  by (rule reach_op [OF reach_op [OF reach_op [OF reach_new op_start] op_append] op_start])

lemma file_frame_vec:
  "vec_at (stfData file_frame) (4, 2) 7 = [\<lparr>smHeader = Some (file_hdr 4), smDataParts = [[9]]\<rparr>]"
  "vec_at (stfData file_frame) (5, 2) 7 = [\<lparr>smHeader = Some (file_hdr 5), smDataParts = [[1, 2, 3], [4]]\<rparr>]"
  "(di, ss) \<noteq> ((4, 2), 7) \<Longrightarrow> (di, ss) \<noteq> ((5, 2), 7) \<Longrightarrow> vec_at (stfData file_frame) di ss = []"
  by (simp_all add: file_frame_def addStfDataStart_def addStfDataAppend_def SubTimeFrame_new_def push_part_def
      parts_at_def vec_at_set Let_def)

lemma file_frame_sendable: "sendable file_frame"
  unfolding sendable_def
proof (intro allI ballI)
  fix di ss msg assume m: "msg \<in> set (vec_at (stfData file_frame) di ss)"
  consider "(di, ss) = ((4, 2), 7)" | "(di, ss) = ((5, 2), 7)" | "vec_at (stfData file_frame) di ss = []"
    using file_frame_vec(3) by blast
  then show "message_ok di ss msg"
    using m by cases (simp_all add: file_frame_vec message_ok_def msg_key_def file_hdr_def)
qed

lemma file_frame_length: "length (tf_bytes plain_codec 5 (updateStf file_frame)) < 2 ^ 20"
proof -
  note a = reach_accounted [OF file_frame_reach]
  have "blocks_size plain_codec (writer_data (updateStf file_frame)) < 1000" by code_simp
  moreover have "length (writer_index plain_codec (updateStf file_frame)) < 10" by code_simp
  moreover have "length (blocks_bytes plain_codec (frame_blocks (writer_data (updateStf file_frame)))) =
      blocks_size plain_codec (writer_data (updateStf file_frame))"
    by (rule length_frame_blocks [OF plain.o2_headers_axioms announced_header [OF writer_data_announced [OF a file_frame_sendable]]])
  moreover have "ocSize plain_codec = 52" by (simp add: plain_codec_def)
  ultimately show ?thesis by (simp add: length_tf_bytes [OF plain.o2_headers_axioms])
qed

abbreviation empty_file :: out_file where
  "empty_file \<equiv> \<lparr>ofContent = [], ofGood = True, ofRoom = 2 ^ 20\<rparr>"

lemma file_frame_written:
  obtains n rows w' where "write_stf plain_codec 5 True True file_frame empty_file = Some (n, rows, w')"
    "n \<noteq> 0" "length (ofContent w') + length ([] :: u8 list) < 2 ^ 63"
proof -
  note a = reach_accounted [OF file_frame_reach]
  let ?L = "length (tf_bytes plain_codec 5 (updateStf file_frame))"
  obtain n rows w' where w: "write_stf plain_codec 5 True True file_frame empty_file = Some (n, rows, w')"
    "n = of_nat ?L" "ofContent w' = tf_bytes plain_codec 5 (updateStf file_frame)"
    using write_stf_succeeds [OF plain.o2_headers_axioms a file_frame_sendable, of empty_file 5 True] file_frame_length
    by auto
  moreover have "0 < ?L" by (simp add: length_tf_bytes [OF plain.o2_headers_axioms])
  then have "(of_nat ?L :: u64) \<noteq> 0" using file_frame_length unat_of_nat_small [of ?L] by fastforce
  ultimately show ?thesis using that [OF w(1)] file_frame_length by simp
qed

lemma file_roundtrip_witness:
  "\<exists>g bytes. fst (read_tf plain_codec file_rdh (\<lambda>_. (True, True)) 6 3 (reader_at [] bytes)) = ReadTf g \<and>
     map smDataParts (vec_at (stfData g) (5, 2) 7) = [[[1, 2, 3], [4]]] \<and> hId (stfHeader g) = 3"
proof -
  obtain n rows w' where w: "write_stf plain_codec 5 True True file_frame empty_file = Some (n, rows, w')"
    "n \<noteq> 0" "length (ofContent w') + length ([] :: u8 list) < 2 ^ 63" using file_frame_written by blast
  obtain g bytes where g: "read_tf plain_codec file_rdh (\<lambda>_. (True, True)) 6 3 (reader_at (ofContent empty_file) (bytes @ [])) =
      (ReadTf g, 3 + 1, reader_at (ofContent w') [])"
    "vec_at (stfData g) (5, 2) 7 =
      map (\<lambda>msg. read_back (updated_message (stfHeader file_frame) msg)) (vec_at (stfData file_frame) (5, 2) 7)"
    "hId (stfHeader g) = 3"
    using file_roundtrip [OF plain.o2_headers_axioms file_frame_reach file_frame_sendable w, of file_rdh 6 3] by blast
  then show ?thesis by (intro exI [of _ g] exI [of _ bytes]) (simp add: file_frame_vec read_back_def updated_message_def)
qed

section \<open>Truncated files\<close>

context o2_headers begin

lemma short_stack:
  assumes "k < ocSize C"
  shows "fst (getHeaderStack C (reader_at pre (take k (ocEncode C h)))) = 0"
proof -
  let ?t = "take k (ocEncode C h)" and ?b = "ocBaseSize C"
  let ?r = "reader_at pre ?t"
  have lt: "length ?t = k" using assms enc_length by simp
  have "\<exists>r1. stack_size_loop C (Suc 15) 0 ?r = (None, r1)"
  proof (cases "?b \<le> k")
    case False
    then have "read_advance ?b ?r = (None, invalidate ?r)" using lt by (simp add: read_advance_def)
    then show ?thesis by (subst stack_size_loop.simps(2)) simp
  next
    case True
    then have tb: "take ?b ?t = take ?b (ocEncode C h)" by simp
    have ra: "read_advance ?b ?r = (Some (take ?b (ocEncode C h)), ?r\<lparr>frOffset := length pre + ?b\<rparr>)"
      using True lt tb by (simp add: read_advance_def)
    have "ignore_nbytes (ocSize C) (set_position (length pre) (?r\<lparr>frOffset := length pre + ?b\<rparr>)) =
        (False, invalidate (set_position (length pre) (?r\<lparr>frOffset := length pre + ?b\<rparr>)))"
      using assms lt by (simp add: ignore_nbytes_def set_position_def)
    then show ?thesis using ra by (subst stack_size_loop.simps(2)) (simp add: enc_base)
  qed
  then obtain r1 where "stack_size_loop C 16 0 ?r = (None, r1)" by (auto simp: numeral_eq_Suc)
  then show ?thesis using base_size by (simp add: getHeaderStack_def getHeaderStackSize_def)
qed

end

lemma take_append_short: "k \<le> length a \<Longrightarrow> take k (a @ b) = take k a"
  by simp

text \<open>
  C23. A truncated file gives no frame: when the file ends before the end of a frame, wherever it is
  cut, reading the frame returns null, whatever memory there is. A frame is never delivered with a
  part of its data missing.
\<close>

theorem truncated_file:
  fixes C :: "('d::linorder, 'o::linorder) o2_codec"
  assumes C: "o2_headers C" and hd: "list_all (\<lambda>msg. smHeader msg \<noteq> None) (writer_data f)"
    and len: "length pre + length (tf_bytes C ms f) < 2 ^ 63" and k: "k < length (tf_bytes C ms f)"
  shows "fst (read_tf C E mem now sid (reader_at pre (take k (tf_bytes C ms f)))) = ReadNull"
proof -
  let ?h = "meta_header C" and ?m = "file_meta_new ms (size_in_file C f)"
  let ?r = "reader_at pre (take k (tf_bytes C ms f))"
  obtain tail where t: "tf_bytes C ms f = ocEncode C ?h @ meta_bytes ?m @ tail" by (simp add: tf_bytes_def tf_head_def)
  note el = o2_headers.enc_length [OF C]
  have nx: "\<not> fhNext ?h" by (simp add: meta_header_def o2_headers.new_header [OF C])
  have pos: "ocSize C \<noteq> 0" using o2_headers.base_size [OF C] by simp
  consider "k = 0" | "0 < k" "k < ocSize C" | "ocSize C \<le> k" "k < ocSize C + meta_size" | "ocSize C + meta_size \<le> k"
    by linarith
  then show ?thesis
  proof cases
    case 1
    then show ?thesis by (simp add: read_tf_def)
  next
    case 2
    then have r: "?r = reader_at pre (take k (ocEncode C ?h))" unfolding t using el by simp
    have "fst (getHeaderStack C ?r) = 0" unfolding r by (rule o2_headers.short_stack [OF C 2(2)])
    then show ?thesis by (cases "getHeaderStack C ?r") (simp add: read_tf_def)
  next
    case 3
    let ?x = "take (k - ocSize C) (meta_bytes ?m)"
    have r: "?r = reader_at pre (ocEncode C ?h @ ?x)" unfolding t using el 3 by simp
    have hs: "getHeaderStack C ?r = (ocSize C, ocEncode C ?h, reader_at (pre @ ocEncode C ?h) ?x)"
      unfolding r by (rule o2_headers.header_stack_at [OF C nx])
    have "length ?x < meta_size" using 3 by simp
    then have "\<exists>r2. read_advance meta_size (reader_at (pre @ ocEncode C ?h) ?x) = (None, r2)"
      by (simp add: read_advance_def)
    then show ?thesis using hs pos by (auto simp: read_tf_def)
  next
    case 4
    let ?x = "take (k - ocSize C - meta_size) tail"
    have r: "?r = reader_at pre (ocEncode C ?h @ meta_bytes ?m @ ?x)" unfolding t using el 4 by simp
    have hs: "getHeaderStack C ?r = (ocSize C, ocEncode C ?h, reader_at (pre @ ocEncode C ?h) (meta_bytes ?m @ ?x))"
      unfolding r by (rule o2_headers.header_stack_at [OF C nx])
    have ra: "read_advance meta_size (reader_at (pre @ ocEncode C ?h) (meta_bytes ?m @ ?x)) =
        (Some (meta_bytes ?m), reader_at (pre @ ocEncode C ?h @ meta_bytes ?m) ?x)"
      using read_advance_at [of meta_size "meta_bytes ?m" "pre @ ocEncode C ?h" ?x] by simp
    have sz: "mStfSizeInFile ?m = of_nat (length (tf_bytes C ms f))"
      using size_in_file_eq [OF C hd, of ms] by (simp add: file_meta_new_def)
    have short: "frSize (reader_at (pre @ ocEncode C ?h @ meta_bytes ?m) ?x) = length pre + k"
      using 4 k el unfolding t by simp
    have "(of_nat (frOffset ?r) + mStfSizeInFile ?m :: u64) > of_nat (length pre + k)"
      using len k unfolding sz reader_at_simps of_nat_add [symmetric] by (subst word_of_nat_less_iff) simp_all
    then have "(of_nat (frOffset ?r) + mStfSizeInFile ?m :: u64) > of_nat (frSize (reader_at (pre @ ocEncode C ?h @ meta_bytes ?m) ?x))"
      by (subst short)
    from read_tf_too_long [OF hs pos ra meta_of_bytes o2_headers.enc_get [OF C] this] show ?thesis .
  qed
qed

lemma truncated_file_witness:
  "fst (read_tf plain_codec file_rdh (\<lambda>_. (True, True)) 6 3 (reader_at [] (take 100 (tf_bytes plain_codec 5 (updateStf file_frame))))) = ReadNull"
proof (rule truncated_file [OF plain.o2_headers_axioms])
  obtain n rows w' where w: "write_stf plain_codec 5 True True file_frame empty_file = Some (n, rows, w')"
    "n \<noteq> 0" "length (ofContent w') + length ([] :: u8 list) < 2 ^ 63" using file_frame_written by blast
  note b = write_stf_bytes [OF plain.o2_headers_axioms reach_accounted [OF file_frame_reach] file_frame_sendable w(1, 2)]
  show "list_all (\<lambda>msg. smHeader msg \<noteq> None) (writer_data (updateStf file_frame))" by (rule b(4))
  show "length ([] :: u8 list) + length (tf_bytes plain_codec 5 (updateStf file_frame)) < 2 ^ 63" using b(1) w(3) by simp
  have "ocSize plain_codec = 52" by (simp add: plain_codec_def)
  then show "100 < length (tf_bytes plain_codec 5 (updateStf file_frame))"
    by (simp add: length_tf_bytes [OF plain.o2_headers_axioms])
qed

section \<open>The sidecar\<close>

text \<open>The row of a block: the bytes of its header and of its data in the file.\<close>

definition row_of :: "('d, 'o) o2_codec \<Rightarrow> u8 list \<Rightarrow> ('d, 'o) sidecar_row \<Rightarrow> ('d, 'o) file_header \<times> fmq_message \<Rightarrow> bool" where
  "row_of C content r b \<longleftrightarrow>
     take (unat (rwHdrSize r)) (drop (unat (rwHdrOff r)) content) = ocEncode C (fst b) \<and>
     take (unat (rwDataSize r)) (drop (unat (rwDataOff r)) content) = snd b \<and>
     rwOrigin r = dhOrigin (fhHeader (fst b)) \<and> rwDesc r = dhDescription (fhHeader (fst b)) \<and>
     rwSubSpec r = dhSubSpecification (fhHeader (fst b)) \<and> rwDataIdx r = splitPayloadIndex (fhHeader (fst b))"

lemma sidecar_parts_rows:
  fixes C :: "('d, 'o) o2_codec"
  assumes C: "o2_headers C" and len: "length pre + length (blocks_bytes C (part_blocks h i ps)) < 2 ^ 63"
    and p: "sidecar_parts C tf h i ps (of_nat (length pre)) = (rows, off)"
  shows "list_all2 (row_of C (pre @ blocks_bytes C (part_blocks h i ps) @ rest)) rows (part_blocks h i ps) \<and>
    off = of_nat (length (pre @ blocks_bytes C (part_blocks h i ps)))"
  using len p
proof (induction ps arbitrary: i pre rows)
  case (Cons p ps)
  let ?e = "ocEncode C (part_header h i p)" and ?bl = "blocks_bytes C (part_blocks h (Suc i) ps)"
  let ?pre = "pre @ ?e @ p"
  have el: "length ?e = ocSize C" by (rule o2_headers.enc_length [OF C])
  obtain rs where rs: "sidecar_parts C tf h (Suc i) ps (of_nat (length ?pre)) = (rs, off)"
    "rows = \<lparr>rwTfId = fst tf, rwTfOffset = fst (snd tf), rwTfSize = snd (snd tf), rwOrigin = dhOrigin h,
           rwDesc = dhDescription h, rwSubSpec = dhSubSpecification h, rwDataIdx = of_nat i, rwHdrOff = of_nat (length pre),
           rwHdrSize = of_nat (ocSize C), rwDataOff = of_nat (length pre) + of_nat (ocSize C), rwDataSize = of_nat (length p)\<rparr> # rs"
    using Cons.prems(2) el by (auto simp: Let_def add.assoc split: prod.splits)
  have l: "length pre + ocSize C + length p + length ?bl < 2 ^ 63"
    using Cons.prems(1) el by (simp add: block_bytes_def)
  note ih = Cons.IH [OF _ rs(1)]
  have o: "(of_nat (length pre) + of_nat (ocSize C) :: u64) = of_nat (length pre + ocSize C)" by simp
  have "row_of C (?pre @ ?bl @ rest) (hd rows) (part_header h i p, p)"
    unfolding rs(2) row_of_def o using l el
    by (simp add: unat_small part_header_def del: of_nat_add)
  then show ?case using ih l el rs(2) by (simp add: block_bytes_def)
qed simp

lemma list_all2_row_append:
  "list_all2 (row_of C x) a b \<Longrightarrow> list_all2 (row_of C x) c d \<Longrightarrow> list_all2 (row_of C x) (a @ c) (b @ d)"
  by (rule list_all2_appendI)

lemma sidecar_rows_blocks:
  fixes C :: "('d, 'o) o2_codec"
  assumes C: "o2_headers C" and len: "length pre + length (blocks_bytes C (frame_blocks v)) < 2 ^ 63"
    and p: "sidecar_rows C tf v (of_nat (length pre)) = Some rows"
  shows "list_all2 (row_of C (pre @ blocks_bytes C (frame_blocks v))) rows (frame_blocks v)"
  using len p
proof (induction v arbitrary: pre rows)
  case (Cons msg v)
  obtain h where h: "smHeader msg = Some h" using Cons.prems(2) by (cases "smHeader msg") simp_all
  let ?b = "part_blocks h 0 (smDataParts msg)"
  have mb: "message_blocks msg = ?b" by (simp add: message_blocks_def h)
  obtain r1 off where r1: "sidecar_parts C tf h 0 (smDataParts msg) (of_nat (length pre)) = (r1, off)" by fastforce
  have l: "length pre + length (blocks_bytes C ?b) < 2 ^ 63" using Cons.prems(1) by (simp add: mb)
  from sidecar_parts_rows [OF C l r1]
  have s1: "list_all2 (row_of C (pre @ blocks_bytes C ?b @ blocks_bytes C (frame_blocks v))) r1 ?b"
    and off: "off = of_nat (length (pre @ blocks_bytes C ?b))" by blast+
  obtain r2 where r2: "sidecar_rows C tf v (of_nat (length (pre @ blocks_bytes C ?b))) = Some r2" "rows = r1 @ r2"
    using Cons.prems(2) h r1 off by (auto simp: Let_def)
  have "list_all2 (row_of C ((pre @ blocks_bytes C ?b) @ blocks_bytes C (frame_blocks v))) r2 (frame_blocks v)"
    by (rule Cons.IH [OF _ r2(1)]) (use Cons.prems(1) in \<open>simp add: mb\<close>)
  then show ?case using s1 r2(2) by (simp add: mb list_all2_row_append)
qed simp

text \<open>
  The sidecar locates the data: after a successful write there is one row for every part of the
  frame, in the order of the file, and its offsets and sizes are those of the header and of the
  part in the data file, whose origin, description, sub-specification and part index it shows.
\<close>

theorem sidecar_locates:
  fixes C :: "('d::linorder, 'o::linorder) o2_codec"
  assumes "o2_headers C" "write_stf C ms True infoOk f w = Some (n, rows, w')" "n \<noteq> 0" "length (ofContent w') < 2 ^ 63"
  shows "list_all2 (row_of C (ofContent w')) rows (frame_blocks (writer_data (updateStf f)))"
proof -
  let ?f = "updateStf f" and ?v = "writer_data (updateStf f)"
  let ?w1 = "write_index C (writer_index C ?f) (write_meta C (file_meta_new ms (size_in_file C ?f)) w)"
  let ?w2 = "write_messages C ?v ?w1"
  have wf: "write_frame C ms True infoOk ?f w = Some (n, rows, w')"
    using assms(2, 3) by (auto simp: write_stf_def split: if_splits)
  have w': "w' = ?w2" "ofGood ?w2"
    "sidecar_rows C (hId (stfHeader ?f), writer_size w, size_in_file C ?f) ?v (writer_size ?w1) = Some rows"
    using wf assms(3) by (auto simp: write_frame_def Let_def split: if_splits option.splits)
  have "ofContent ?w2 = ofContent ?w1 @ blocks_bytes C (frame_blocks ?v)"
    using write_messages_appends [of C ?v ?w1] w'(2) by (simp add: appends_def)
  then show ?thesis
    using sidecar_rows_blocks [OF assms(1), of "ofContent ?w1" ?v] w'(1, 3) assms(4) by (simp add: writer_size_def)
qed

lemma sidecar_locates_witness:
  "\<exists>rows (w' :: out_file). list_all2 (row_of plain_codec (ofContent w')) rows (frame_blocks (writer_data (updateStf file_frame)))
     \<and> length rows = 3"
proof -
  obtain n rows w' where w: "write_stf plain_codec 5 True True file_frame empty_file = Some (n, rows, w')"
    "n \<noteq> 0" "length (ofContent w') + length ([] :: u8 list) < 2 ^ 63" using file_frame_written by blast
  have r: "list_all2 (row_of plain_codec (ofContent w')) rows (frame_blocks (writer_data (updateStf file_frame)))"
    using sidecar_locates [OF plain.o2_headers_axioms w(1, 2)] w(3) by simp
  have "length (frame_blocks (writer_data (updateStf file_frame))) = 3" by code_simp
  then have "length rows = 3" using list_all2_lengthD [OF r] by simp
  then show ?thesis using r by blast
qed

end
