(* ===== verification/TfFile_Sink_Props.thy ===== *)
theory TfFile_Sink_Props
  imports TfFile_Sink TfFile_Source TfFile_Claims "HOL-Library.Sublist"
begin

text \<open>
  Properties of the file sink: the files it publishes hold whole frames only, and the file source
  reads from them what was stored; the names of the files of different frames differ.
\<close>

section \<open>Publishing a file\<close>

definition is_part :: "string \<Rightarrow> bool" where
  "is_part n \<longleftrightarrow> (\<exists>m. n = part_name m)"

lemma part_name_inj [simp]: "part_name a = part_name b \<longleftrightarrow> a = b"
  by (simp add: part_name_def)

lemma names_differ [simp]:
  "info_name n \<noteq> n" "n \<noteq> info_name n" "part_name n \<noteq> n" "n \<noteq> part_name n" "is_part (part_name n)"
  "n \<noteq> part_name (info_name n)" "part_name (info_name n) \<noteq> n" "info_name n \<noteq> part_name m" "part_name m \<noteq> info_name n"
proof -
  show "n \<noteq> part_name (info_name n)" "part_name (info_name n) \<noteq> n"
    by (metis append_assoc append_self_conv info_name_def list.distinct(1) part_name_def append_is_Nil_conv)+
  have "last (info_name n) = CHR ''o''" "last (part_name m) = CHR ''t''" by (simp_all add: info_name_def part_name_def)
  then show "info_name n \<noteq> part_name m" "part_name m \<noteq> info_name n" by auto
qed (auto simp: is_part_def part_name_def info_name_def)

lemma not_part_update [simp]: "\<not> is_part n \<Longrightarrow> (d(part_name m := x)) n = d n"
  by auto

lemma destroy_publishes:
  assumes w: "fwOpen w" "\<not> fwRemoved w" and n: "\<not> is_part n" and c: "writer_destroy w d n = Some (TfData c)"
  shows "n = fwName w \<and> c = ofContent (fwFile w) \<or> d n = Some (TfData c)"
proof -
  let ?n = "fwName w" and ?i = "info_name (fwName w)"
  have np: "n \<noteq> part_name m" for m using n by auto
  show ?thesis
  proof (cases "fwWriteInfo w")
    case True
    then show ?thesis using w c np
      by (cases "n = ?i")
        (simp_all add: writer_destroy_def writer_close_def writer_remove_def rename_file_def Let_def fun_upd_def split: if_splits)
  next
    case False
    then show ?thesis using w c np
      by (simp add: writer_destroy_def writer_close_def writer_remove_def rename_file_def Let_def fun_upd_def split: if_splits)
  qed
qed

lemma destroy_result:
  assumes "fwOpen w" "\<not> fwRemoved w" "\<not> is_part (fwName w)"
  shows "writer_destroy w d (fwName w) = Some (TfData (ofContent (fwFile w)))"
proof -
  have "fwName w \<noteq> part_name m" for m using assms(3) by auto
  then show ?thesis
    using assms by (simp add: writer_destroy_def writer_close_def writer_remove_def rename_file_def Let_def fun_upd_def)
qed

lemma discard_publishes_nothing:
  assumes "writer_close w d = (w2, d2)" and "writer_remove w2 d2 = (w3, d3)" and "\<not> is_part n"
  shows "writer_destroy w3 d3 n = d n"
proof -
  have np: "n \<noteq> part_name m" for m using assms(3) by auto
  show ?thesis using assms(1, 2) np
    by (auto simp: writer_destroy_def writer_close_def writer_remove_def Let_def fun_upd_def split: if_splits)
qed

lemma writer_new_keeps:
  assumes "writer_new n info ok room d = (ow, d1)" and "\<not> is_part m"
  shows "d1 m = d m"
proof -
  have "m \<noteq> part_name x" for x using assms(2) by auto
  then show ?thesis using assms(1) by (auto simp: writer_new_def Let_def split: if_splits)
qed

lemma writer_new_fresh:
  "writer_new n info ok room d = (Some w, d1) \<Longrightarrow> fwOpen w \<and> \<not> fwRemoved w \<and> ofContent (fwFile w) = []"
  by (auto simp: writer_new_def Let_def split: if_splits)

section \<open>Frames in a file\<close>

text \<open>The bytes of frames, each with the time it was written.\<close>

definition tf_file :: "('d::linorder, 'o::linorder) o2_codec \<Rightarrow> (u64 \<times> ('d, 'o) SubTimeFrame) list \<Rightarrow> u8 list" where
  "tf_file C fs = concat (map (\<lambda>(ms, f). tf_bytes C ms (updateStf f)) fs)"

lemma tf_file_simps [simp]:
  "tf_file C [] = []" "tf_file C (x # fs) = tf_bytes C (fst x) (updateStf (snd x)) @ tf_file C fs"
  "tf_file C (fs @ gs) = tf_file C fs @ tf_file C gs"
  by (simp_all add: tf_file_def split: prod.split)

lemma updateStf_idem [simp]: "updateStf (updateStf f) = updateStf f"
  by (cases "stfDataUpdated f") (simp_all add: updateStf_def split: prod.split)

lemma writer_write_appends:
  assumes "writer_write C ms infoOk (updateStf f) w = Some (r, w1)" and "r \<noteq> 0"
  shows "ofContent (fwFile w1) = ofContent (fwFile w) @ tf_bytes C ms (updateStf f) \<and> fwOpen w1 = fwOpen w \<and>
    fwRemoved w1 = fwRemoved w \<and> fwName w1 = fwName w"
proof -
  obtain rows fl where ws: "write_stf C ms (fwWriteInfo w) infoOk (updateStf f) (fwFile w) = Some (r, rows, fl)"
    and w1: "w1 = w\<lparr>fwFile := fl, fwRows := fwRows w @ rows\<rparr>"
    using assms(1) by (auto simp: writer_write_def)
  have wf: "write_frame C ms (fwWriteInfo w) infoOk (updateStf f) (fwFile w) = Some (r, rows, fl)"
    using ws assms(2) by (simp add: write_stf_def split: if_splits)
  then have "ofGood fl" using write_failed assms(2) by blast
  from write_frame_bytes(2) [OF wf this] show ?thesis by (simp add: w1)
qed

section \<open>The runs of the sink\<close>

text \<open>From a sink without an open file and an empty directory; the list holds the frames that were
  given to the thread, with the time of writing.\<close>

inductive sink_reach :: "('d::linorder, 'o::linorder) o2_codec \<Rightarrow> ('d, 'o) file_sink \<Rightarrow>
    (u64 \<times> ('d, 'o) SubTimeFrame) list \<Rightarrow> ('d, 'o) sink_state \<Rightarrow> bool"
  for C s0 where
  sink_reach_init: "skWriter s0 = None \<Longrightarrow> sink_reach C s0 [] (s0, sink_locals_init, Map.empty)"
| sink_reach_dir: "sink_reach C s0 H (s, l, d) \<Longrightarrow> sink_reach C s0 H (snd (makeDirectory run name created s), l, d)"
| sink_reach_frame: "sink_reach C s0 H st \<Longrightarrow> sink_iteration C e f st = Some (g, st') \<Longrightarrow>
    sink_reach C s0 (H @ [(seMs e, f)]) st'"

definition whole :: "('d::linorder, 'o::linorder) o2_codec \<Rightarrow> u64 \<Rightarrow> (u64 \<times> ('d, 'o) SubTimeFrame) list \<Rightarrow> u8 list \<Rightarrow> bool" where
  "whole C N H c \<longleftrightarrow> (\<exists>fs. fs \<noteq> [] \<and> subseq fs H \<and> c = tf_file C fs \<and> (0 < N \<longrightarrow> length fs \<le> unat N))"

definition published_ok :: "('d::linorder, 'o::linorder) o2_codec \<Rightarrow> u64 \<Rightarrow> (u64 \<times> ('d, 'o) SubTimeFrame) list \<Rightarrow>
    ('d, 'o) directory \<Rightarrow> bool" where
  "published_ok C N H d \<longleftrightarrow> (\<forall>n c. d n = Some (TfData c) \<longrightarrow> \<not> is_part n \<longrightarrow> whole C N H c)"

text \<open>The open file: its frames are not more than the counter of the thread says.\<close>

definition open_ok :: "('d::linorder, 'o::linorder) o2_codec \<Rightarrow> u64 \<Rightarrow> (u64 \<times> ('d, 'o) SubTimeFrame) list \<Rightarrow> u64 \<Rightarrow>
    ('d, 'o) file_writer \<Rightarrow> bool" where
  "open_ok C N H k w \<longleftrightarrow> fwOpen w \<and> \<not> fwRemoved w \<and>
     (\<exists>fs. fs \<noteq> [] \<and> subseq fs H \<and> ofContent (fwFile w) = tf_file C fs \<and> (0 < N \<longrightarrow> length fs \<le> unat k))"

definition sink_ok :: "('d::linorder, 'o::linorder) o2_codec \<Rightarrow> u64 \<Rightarrow> (u64 \<times> ('d, 'o) SubTimeFrame) list \<Rightarrow> ('d, 'o) sink_state \<Rightarrow> bool" where
  "sink_ok C N H st \<longleftrightarrow> (case st of (s, l, d) \<Rightarrow>
     skStfsPerFile s = N \<and> published_ok C N H d \<and> (0 < N \<longrightarrow> slCurrentFileStfs l < N) \<and>
     (\<forall>w. skWriter s = Some w \<longrightarrow> open_ok C N H (slCurrentFileStfs l) w))"

lemma whole_mono: "whole C N H c \<Longrightarrow> subseq H H' \<Longrightarrow> whole C N H' c"
  unfolding whole_def by (blast intro: subseq_order.order_trans)

lemma open_ok_mono: "open_ok C N H k w \<Longrightarrow> subseq H H' \<Longrightarrow> open_ok C N H' k w"
  unfolding open_ok_def by (blast intro: subseq_order.order_trans)

lemma published_mono: "published_ok C N H d \<Longrightarrow> subseq H H' \<Longrightarrow> published_ok C N H' d"
  unfolding published_ok_def by (meson whole_mono)

lemma published_keep:
  "published_ok C N H d \<Longrightarrow> (\<And>n. \<not> is_part n \<Longrightarrow> d' n = d n) \<Longrightarrow> published_ok C N H d'"
  unfolding published_ok_def by metis

lemma open_published:
  assumes o: "open_ok C N H k w" and k: "0 < N \<longrightarrow> k \<le> N" and p: "published_ok C N H d"
  shows "published_ok C N H (writer_destroy w d)"
  unfolding published_ok_def
proof (intro allI impI)
  fix n c assume c: "writer_destroy w d n = Some (TfData c)" and n: "\<not> is_part n"
  have w: "fwOpen w" "\<not> fwRemoved w" using o by (simp_all add: open_ok_def)
  obtain fs where fs: "fs \<noteq> []" "subseq fs H" "ofContent (fwFile w) = tf_file C fs" "0 < N \<longrightarrow> length fs \<le> unat k"
    using o by (auto simp: open_ok_def)
  have "whole C N H (ofContent (fwFile w))"
    using fs k by (auto simp: whole_def word_le_nat_alt intro: order_trans)
  then show "whole C N H c"
    using destroy_publishes [OF w n c] p n by (auto simp: published_ok_def)
qed

lemma sink_writer_ok:
  assumes sw: "sink_writer e sid s d = (ow, s1, d1)" and ok: "sink_ok C N H (s, l, d)"
  shows "skStfsPerFile s1 = N \<and> skFileSize s1 = skFileSize s \<and> published_ok C N H d1 \<and>
    (ow = None \<longrightarrow> skWriter s1 = None) \<and>
    (\<forall>w. ow = Some w \<longrightarrow> skWriter s1 = Some w \<and> fwOpen w \<and> \<not> fwRemoved w \<and>
      (ofContent (fwFile w) = [] \<or> open_ok C N H (slCurrentFileStfs l) w))"
proof (cases "skWriter s")
  case (Some w)
  then show ?thesis using sw ok by (auto simp: sink_writer_def sink_ok_def open_ok_def)
next
  case None
  let ?w = "writer_new (path_join (skCurrentDir s) (newStfFileName (skFileNamePattern s) (skCurrentFileIdx s) (skHostname s) (seName e) sid))
      (skSidecar s) (seOpens e) (seRoom e) d"
  have nd: "?w = (ow, d1) \<and> s1 = (if ow = None then s else s\<lparr>skWriter := ow, skCurrentFileIdx := skCurrentFileIdx s + 1\<rparr>)"
    using sw None by (cases ?w; cases "fst ?w") (auto simp: sink_writer_def)
  note nw = nd [THEN conjunct1] and s1 = nd [THEN conjunct2]
  have "published_ok C N H d1"
    by (rule published_keep [of C N H d]) (use ok writer_new_keeps [OF nw] in \<open>auto simp: sink_ok_def\<close>)
  moreover have "\<forall>w. ow = Some w \<longrightarrow> fwOpen w \<and> \<not> fwRemoved w \<and> ofContent (fwFile w) = []"
    using writer_new_fresh nw by metis
  ultimately show ?thesis using s1 None ok by (auto simp: sink_ok_def)
qed

lemma sink_store_ok:
  assumes st: "sink_store C e (updateStf f) (s0, l0, d0) = Some (s', l', d')" and ok: "sink_ok C N H (s0, l0, d0)"
  shows "sink_ok C N (H @ [(seMs e, f)]) (s', l', d')"
proof -
  let ?H = "H @ [(seMs e, f)]"
  define l where "l = l0\<lparr>slAcceptedStfs := slAcceptedStfs l0 + 1\<rparr>"
  have sub: "subseq H ?H" by (rule subseq_rev_drop_many [OF subseq_order.order_refl]) 
  obtain ow s d where sw: "sink_writer e (hId (stfHeader (updateStf f))) s0 d0 = (ow, s, d)" by (cases "sink_writer e (hId (stfHeader (updateStf f))) s0 d0") auto
  note ws = sink_writer_ok [OF sw ok]
  have pub: "published_ok C N ?H d" using ws published_mono [OF _ sub] by blast
  have cnt: "0 < N \<longrightarrow> slCurrentFileStfs l < N" using ok by (simp add: sink_ok_def l_def)
  show ?thesis
  proof (cases ow)
    case None
    then have "(s', l', d') = (s, l, d)" using st sw by (simp add: sink_store_def l_def)
    then show ?thesis using ws None pub cnt by (auto simp: sink_ok_def)
  next
    case (Some w)
    obtain r w1 where ww: "writer_write C (seMs e) (seInfoOk e) (updateStf f) w = Some (r, w1)"
      using st sw Some by (auto simp: sink_store_def Let_def split: option.splits)
    show ?thesis
    proof (cases "r = 0")
      case True
      obtain w2 d2 w3 d3 where cr: "writer_close w1 d = (w2, d2)" "writer_remove w2 d2 = (w3, d3)" by fastforce
      have "published_ok C N ?H (writer_destroy w3 d3)"
        by (rule published_keep [OF pub discard_publishes_nothing [OF cr]])
      moreover have "(s', l', d') = (s\<lparr>skWriter := None\<rparr>, l, writer_destroy w3 d3)"
        using st sw Some ww True cr by (simp add: sink_store_def l_def)
      ultimately show ?thesis using ws cnt by (simp add: sink_ok_def)
    next
      case False
      define l1 where "l1 = l\<lparr>slCurrentFileStfs := slCurrentFileStfs l + 1, slCurrentFileSize := writer_size (fwFile w1)\<rparr>"
      have w: "fwOpen w" "\<not> fwRemoved w" "ofContent (fwFile w) = [] \<or> open_ok C N H (slCurrentFileStfs l) w"
        using ws Some by (simp_all add: l_def)
      note a = writer_write_appends [OF ww False]
      have inc: "0 < N \<longrightarrow> unat (slCurrentFileStfs l + 1) = unat (slCurrentFileStfs l) + 1"
        using cnt unsigned_less [where 'a = nat and w = N] by (auto simp: word_less_nat_alt unat_plus_if')
      have o: "open_ok C N ?H (slCurrentFileStfs l1) w1"
        using w(3)
      proof
        assume "ofContent (fwFile w) = []"
        moreover have "subseq ([] @ [(seMs e, f)]) ?H" by (rule list_emb_append_mono) simp_all
        ultimately show ?thesis unfolding open_ok_def using a w(1, 2) inc
          by (intro conjI exI [of _ "[(seMs e, f)]"]) (simp_all add: l1_def)
      next
        assume "open_ok C N H (slCurrentFileStfs l) w"
        then obtain fs where fs: "fs \<noteq> []" "subseq fs H" "ofContent (fwFile w) = tf_file C fs" "0 < N \<longrightarrow> length fs \<le> unat (slCurrentFileStfs l)"
          by (auto simp: open_ok_def)
        have "subseq (fs @ [(seMs e, f)]) ?H" using fs(2) by simp
        then show ?thesis unfolding open_ok_def using a w(1, 2) inc fs
          by (intro conjI exI [of _ "fs @ [(seMs e, f)]"]) (simp_all add: l1_def)
      qed
      have le: "0 < N \<longrightarrow> slCurrentFileStfs l1 \<le> N" using cnt inc by (auto simp: l1_def word_less_nat_alt word_le_nat_alt)
      show ?thesis
      proof (cases "sink_full s l1")
        case True
        then have "(s', l', d') = (s\<lparr>skWriter := None\<rparr>, l1\<lparr>slCurrentFileStfs := 0, slCurrentFileSize := 0\<rparr>, writer_destroy w1 d)"
          using st sw Some ww False by (simp add: sink_store_def l_def l1_def)
        then show ?thesis using ws open_published [OF o le pub] by (simp add: sink_ok_def)
      next
        case nf: False
        then have "(s', l', d') = (s\<lparr>skWriter := Some w1\<rparr>, l1, d)"
          using st sw Some ww False by (simp add: sink_store_def l_def l1_def)
        moreover have "0 < N \<longrightarrow> slCurrentFileStfs l1 < N" using nf ws by (auto simp: sink_full_def)
        ultimately show ?thesis using ws pub o by (simp add: sink_ok_def)
      qed
    qed
  qed
qed

lemma sink_iteration_ok:
  assumes "sink_iteration C e f st = Some (g, st')" and "sink_ok C N H st"
  shows "sink_ok C N (H @ [(seMs e, f)]) st'"
proof -
  obtain s l d where st: "st = (s, l, d)" by (cases st)
  let ?l = "l\<lparr>slTotalStfs := slTotalStfs l + 1\<rparr>"
  have ok: "sink_ok C N H (s, ?l, d)" using assms(2) st by (simp add: sink_ok_def)
  have sub: "subseq H (H @ [(seMs e, f)])" by (rule subseq_rev_drop_many [OF subseq_order.order_refl])
  show ?thesis
  proof (cases "skEnabled s \<and> skReady s \<and> seDraw e < skPercentage s")
    case True
    then have "sink_store C e (updateStf f) (s, ?l, d) = Some st'" using assms(1) st by (auto simp: sink_iteration_def)
    then show ?thesis using sink_store_ok [OF _ ok] by (cases st') simp
  next
    case False
    then have "st' = (s, ?l, d)" using assms(1) st by (auto simp: sink_iteration_def Let_def)
    then show ?thesis using ok published_mono [OF _ sub] open_ok_mono [OF _ sub] by (auto simp: sink_ok_def)
  qed
qed

lemma sink_reach_ok: "sink_reach C s0 H st \<Longrightarrow> sink_ok C (skStfsPerFile s0) H st"
proof (induction rule: sink_reach.induct)
  case sink_reach_init
  then show ?case by (simp add: sink_ok_def published_ok_def sink_locals_init_def)
next
  case (sink_reach_dir H s l d run name created)
  then show ?case by (auto simp: sink_ok_def makeDirectory_def Let_def split: option.split bool.split)
next
  case (sink_reach_frame H st e f g st')
  then show ?case using sink_iteration_ok by blast
qed

lemma published_whole:
  assumes "sink_reach C s0 H (s, l, d)" "d n = Some (TfData c) \<or> sink_destroy s d n = Some (TfData c)" "\<not> is_part n"
  shows "\<exists>fs. fs \<noteq> [] \<and> subseq fs H \<and> c = tf_file C fs \<and> (0 < skStfsPerFile s0 \<longrightarrow> length fs \<le> unat (skStfsPerFile s0))"
proof -
  let ?N = "skStfsPerFile s0"
  note ok = sink_reach_ok [OF assms(1)]
  have p: "published_ok C ?N H d" using ok by (simp add: sink_ok_def)
  have "published_ok C ?N H (sink_destroy s d)"
  proof (cases "skWriter s")
    case (Some w)
    then have "open_ok C ?N H (slCurrentFileStfs l) w" "0 < ?N \<longrightarrow> slCurrentFileStfs l \<le> ?N"
      using ok by (auto simp: sink_ok_def)
    from open_published [OF this p] show ?thesis using Some by (simp add: sink_destroy_def)
  qed (simp add: sink_destroy_def p)
  then have "whole C ?N H c" using p assms(2, 3) unfolding published_ok_def by blast
  then show ?thesis by (simp add: whole_def)
qed

text \<open>
  C24. Published files are whole: every data file that the sink has given its final name, while it runs
  or when it is destroyed, whatever writes and opens failed before, is the concatenation of whole
  frames, at least one, that were given to the sink, in their order, and with a configured number of
  frames per file it holds at most that many.
\<close>

theorem published_files_whole:
  assumes "sink_reach C s0 H (s, l, d)" "d n = Some (TfData c) \<or> sink_destroy s d n = Some (TfData c)" "\<not> is_part n"
  shows "\<exists>fs. fs \<noteq> [] \<and> subseq fs H \<and> c = tf_file C fs \<and> (0 < skStfsPerFile s0 \<longrightarrow> length fs \<le> unat (skStfsPerFile s0))"
  by (rule published_whole [OF assms])

section \<open>Reading the files back\<close>

fun frames_read :: "('d::linorder, 'o::linorder) o2_codec \<Rightarrow> 'o rdh_env \<Rightarrow> (nat \<Rightarrow> u64) \<Rightarrow> nat \<Rightarrow> u64 \<Rightarrow>
    (u64 \<times> ('d, 'o) SubTimeFrame) list \<Rightarrow> ('d, 'o) SubTimeFrame list" where
  "frames_read C E now k sid [] = []"
| "frames_read C E now k sid ((ms, f) # fs) =
     frame_read C E (now k) sid ms (updateStf f) # frames_read C E now (Suc k) (sid + 1) fs"

lemma read_file_at:
  fixes C :: "('d::linorder, 'o::linorder) o2_codec"
  assumes C: "o2_headers C" and fs: "\<And>ms f. (ms, f) \<in> set fs \<Longrightarrow> stf_reach f \<and> sendable f"
    and len: "length pre + length (tf_file C fs) < 2 ^ 63"
  shows "read_file C E (\<lambda>_ _. (True, True)) now (\<lambda>_. True) k sid (reader_at pre (tf_file C fs)) =
    (frames_read C E now k sid fs, True, sid + of_nat (length fs), reader_at (pre @ tf_file C fs) [])"
  using fs len
proof (induction fs arbitrary: pre k sid)
  case Nil
  then show ?case by (subst read_file.simps) (simp add: read_tf_def)
next
  case (Cons x fs)
  obtain ms f where x: "x = (ms, f)" by fastforce
  have f: "stf_reach f" "sendable f" using Cons.prems(1) [of ms f] x by simp_all
  let ?b = "tf_bytes C ms (updateStf f)"
  have hd: "list_all (\<lambda>msg. smHeader msg \<noteq> None) (writer_data (updateStf f))"
    by (rule announced_header [OF writer_data_announced [OF reach_accounted [OF f(1)] f(2)]])
  have "read_tf C E (\<lambda>_. (True, True)) (now k) sid (reader_at pre (?b @ tf_file C fs)) =
      (ReadTf (frame_read C E (now k) sid ms (updateStf f)), sid + 1, reader_at (pre @ ?b) (tf_file C fs))"
    by (rule read_tf_at [OF C hd]) (use Cons.prems(2) x in simp)
  moreover have "read_file C E (\<lambda>_ _. (True, True)) now (\<lambda>_. True) (Suc k) (sid + 1) (reader_at (pre @ ?b) (tf_file C fs)) =
      (frames_read C E now (Suc k) (sid + 1) fs, True, sid + 1 + of_nat (length fs), reader_at ((pre @ ?b) @ tf_file C fs) [])"
    by (rule Cons.IH) (use Cons.prems x in auto)
  ultimately show ?case by (subst read_file.simps) (simp add: x)
qed

text \<open>The same parts under every key, in the order of the frames.\<close>

definition same_parts :: "('d, 'o) SubTimeFrame \<Rightarrow> ('d, 'o) SubTimeFrame \<Rightarrow> bool" where
  "same_parts f g \<longleftrightarrow> (\<forall>di ss. map smDataParts (vec_at (stfData g) di ss) = map smDataParts (vec_at (stfData f) di ss))"

lemma frames_read_same:
  assumes "\<And>ms f. (ms, f) \<in> set fs \<Longrightarrow> stf_reach f \<and> sendable f"
  shows "list_all2 (\<lambda>(ms, f) g. same_parts f g \<and> hCreationTimeMs (stfHeader g) = ms) fs (frames_read C E now k sid fs)"
  using assms
proof (induction fs arbitrary: k sid)
  case (Cons x fs)
  obtain ms f where x: "x = (ms, f)" by fastforce
  have f: "stf_reach f" "sendable f" using Cons.prems [of ms f] x by simp_all
  have "same_parts f (frame_read C E (now k) sid ms (updateStf f))"
    using frame_read_messages [OF reach_accounted [OF f(1)] f(2)]
    by (simp add: same_parts_def read_back_def updated_message_def comp_def split: option.split)
  moreover have "list_all2 (\<lambda>(ms, f) g. same_parts f g \<and> hCreationTimeMs (stfHeader g) = ms) fs
      (frames_read C E now (Suc k) (sid + 1) fs)"
    by (rule Cons.IH) (use Cons.prems in auto)
  moreover have "hCreationTimeMs (stfHeader (frame_read C E (now k) sid ms (updateStf f))) = ms"
    using frame_read_messages [OF reach_accounted [OF f(1)] f(2)] by blast
  ultimately show ?case using x by simp
qed simp

text \<open>The source does not take the files that are being written.\<close>

lemma listed_file_last:
  assumes "n \<in> set (getDataFileList fs)"
  shows "last n = CHR ''f''"
proof -
  have e: "ends_with (path_filename n) ''.tf''" using assms by (simp add: getDataFileList_def)
  obtain a where a: "n = a @ path_filename n"
    using takeWhile_dropWhile_id [of "\<lambda>c. c \<noteq> CHR ''/''" "rev n"]
    by (metis path_filename_def rev_append rev_rev_ident)
  obtain b where "path_filename n = b @ ''.tf''" using e unfolding ends_with_def by (metis append_take_drop_id)
  then have "n = a @ b @ ''.tf''" using a by simp
  then show ?thesis by simp
qed

lemma part_last: "is_part n \<Longrightarrow> last n = CHR ''t''"
  by (auto simp: is_part_def part_name_def)

lemma listed_not_part:
  assumes "n \<in> set (getDataFileList fs)"
  shows "\<not> is_part n"
  using listed_file_last [OF assms] part_last [of n] by auto

text \<open>
  C25. Recorded frames can be replayed: from every data file that the sink has published and that the
  file source lists, the source reads, to the end of the file, a sequence of frames that were given to the sink, in their
  order, each with the same parts under every data identifier and sub-specification, and with the
  time of writing as its creation time.
\<close>

theorem recorded_frames_replay:
  fixes C :: "('d::linorder, 'o::linorder) o2_codec"
  assumes "o2_headers C" "sink_reach C s0 H (s, l, d)" "\<forall>(ms, f)\<in>set H. stf_reach f \<and> sendable f"
    and "d n = Some (TfData c) \<or> sink_destroy s d n = Some (TfData c)" "n \<in> set (getDataFileList names)"
      "length c < 2 ^ 63"
  shows "\<exists>fs gs sid' r. fs \<noteq> [] \<and> subseq fs H \<and>
    read_file C E (\<lambda>_ _. (True, True)) now (\<lambda>_. True) 0 sid (reader_new (Some c)) = (gs, True, sid', r) \<and> reader_eof r \<and>
    list_all2 (\<lambda>(ms, f) g. same_parts f g \<and> hCreationTimeMs (stfHeader g) = ms) fs gs"
proof -
  obtain fs where fs: "fs \<noteq> []" "subseq fs H" "c = tf_file C fs"
    using published_whole [OF assms(2, 4) listed_not_part [OF assms(5)]] by blast
  have "x \<in> set H" if "x \<in> set fs" for x using list_emb_set [OF fs(2) that] by metis
  then have ok: "\<And>ms f. (ms, f) \<in> set fs \<Longrightarrow> stf_reach f \<and> sendable f" using assms(3) by blast
  have "reader_new (Some c) = reader_at [] c" by (simp add: reader_new_def reader_at_def)
  then have "read_file C E (\<lambda>_ _. (True, True)) now (\<lambda>_. True) 0 sid (reader_new (Some c)) =
      (frames_read C E now 0 sid fs, True, sid + of_nat (length fs), reader_at c [])"
    using read_file_at [OF assms(1) ok, where pre = "[]" and E = E and now = now and k = 0 and sid = sid] fs(3) assms(6) by simp
  then show ?thesis
    using fs frames_read_same [OF ok, where C = C and E = E and now = now and k = 0 and sid = sid]
    by (intro exI [of _ fs] exI [of _ "frames_read C E now 0 sid fs"] exI [of _ "sid + of_nat (length fs)"]
        exI [of _ "reader_at c []"]) (simp add: reader_eof_def reader_at_def)
qed

section \<open>A recorded frame\<close>

definition record_sink :: "(u64, u32) file_sink" where
  "record_sink = sink_new\<lparr>skEnabled := True, skReady := True, skCurrentDir := ''d'', skFileNamePattern := ''x.tf'',
     skStfsPerFile := 1, skFileSize := 2 ^ 32, skSidecar := True\<rparr>"

definition record_env :: sink_env where
  "record_env = \<lparr>seDraw = 0, seMs = 5, seName = \<lparr>neRunString = [], neRun = 0, neDate = [], neTime = []\<rparr>,
     seOpens = (True, True), seRoom = 2 ^ 20, seInfoOk = True\<rparr>"

lemma listed_x: "''d/x.tf'' \<in> set (getDataFileList [''d/x.tf''])"
  by (simp add: getDataFileList_def path_filename_def ends_with_def)

lemmas not_part_x = listed_not_part [OF listed_x]

lemma name_x: "newStfFileName ''x.tf'' i h e sid = ''x.tf''"
  by (simp add: newStfFileName_def replace_all.simps(2))

lemma sink_store_full:
  assumes "sink_writer e (hId (stfHeader f)) s0 d0 = (Some w, s, d)" and "writer_write C (seMs e) (seInfoOk e) f w = Some (r, w1)"
    and "r \<noteq> 0" and "skStfsPerFile s = 1" and "slCurrentFileStfs l0 = 0"
  shows "\<exists>l'. sink_store C e f (s0, l0, d0) = Some (s\<lparr>skWriter := None\<rparr>, l', writer_destroy w1 d)"
  using assms by (simp add: sink_store_def sink_full_def)

lemma record_run:
  obtains s l d c where "sink_reach plain_codec record_sink [(5, file_frame)] (s, l, d)" "d ''d/x.tf'' = Some (TfData c)"
    "length c < 2 ^ 63"
proof -
  obtain n rows w' where w: "write_stf plain_codec 5 True True file_frame empty_file = Some (n, rows, w')"
    "n \<noteq> 0" "length (ofContent w') + length ([] :: u8 list) < 2 ^ 63" using file_frame_written by blast
  have w2: "write_stf plain_codec 5 True True (updateStf file_frame) empty_file = Some (n, rows, w')"
    using w(1) by (simp add: write_stf_def)
  let ?w = "\<lparr>fwName = ''d/x.tf'', fwFile = empty_file, fwRows = [], fwWriteInfo = True, fwOpen = True, fwRemoved = False\<rparr>"
  let ?w1 = "?w\<lparr>fwFile := w', fwRows := rows\<rparr>"
  let ?d = "[part_name ''d/x.tf'' \<mapsto> TfData [], part_name (info_name ''d/x.tf'') \<mapsto> InfoRows []] :: (u64, u32) directory"
  have nw: "writer_new ''d/x.tf'' True (True, True) (2 ^ 20) Map.empty = (Some ?w, ?d)"
    unfolding writer_new_def Let_def by (simp del: fun_upd_apply)
  have pj: "path_join ''d'' ''x.tf'' = ''d/x.tf''" by (simp add: path_join_def)
  define s where "s = record_sink\<lparr>skWriter := Some ?w, skCurrentFileIdx := skCurrentFileIdx record_sink + 1\<rparr>"
  have c: "skEnabled record_sink" "skReady record_sink" "seDraw record_env < skPercentage record_sink"
    "seMs record_env = 5" "seInfoOk record_env" "skStfsPerFile s = 1" "skWriter record_sink = None"
    "skCurrentDir record_sink = ''d''" "skFileNamePattern record_sink = ''x.tf''" "skSidecar record_sink = True"
    "seOpens record_env = (True, True)" "seRoom record_env = 2 ^ 20"
    by (simp_all add: record_sink_def record_env_def sink_new_def s_def)
  have sw: "sink_writer record_env sid record_sink Map.empty = (Some ?w, s, ?d)" for sid
    unfolding sink_writer_def c option.case name_x pj nw prod.case s_def ..
  have ww: "writer_write plain_codec (seMs record_env) (seInfoOk record_env) (updateStf file_frame) ?w = Some (n, ?w1)"
    unfolding c(4) using c(5) w2 by (simp add: writer_write_def)
  obtain l2 where it: "sink_store plain_codec record_env (updateStf file_frame)
      (record_sink, sink_locals_init\<lparr>slTotalStfs := 1\<rparr>, Map.empty) = Some (s\<lparr>skWriter := None\<rparr>, l2, writer_destroy ?w1 ?d)"
    using sink_store_full [OF sw ww w(2) c(6), of "sink_locals_init\<lparr>slTotalStfs := 1\<rparr>"]
    by (auto simp: sink_locals_init_def)
  have it: "sink_iteration plain_codec record_env file_frame (record_sink, sink_locals_init, Map.empty) =
      Some (updateStf file_frame, (s\<lparr>skWriter := None\<rparr>, l2, writer_destroy ?w1 ?d))"
    using it c(1-3) by (simp add: sink_iteration_def sink_locals_init_def)
  have init: "sink_reach plain_codec record_sink [] (record_sink, sink_locals_init, Map.empty)"
    by (rule sink_reach_init) (simp add: record_sink_def sink_new_def)
  have r: "sink_reach plain_codec record_sink [(5, file_frame)] (s\<lparr>skWriter := None\<rparr>, l2, writer_destroy ?w1 ?d)"
    using sink_reach_frame [OF init it] by (simp add: record_env_def)
  have "writer_destroy ?w1 ?d ''d/x.tf'' = Some (TfData (ofContent w'))" using destroy_result [of ?w1 ?d] not_part_x by simp
  moreover have "length (ofContent w') < 2 ^ 63" using w(3) by simp
  ultimately show ?thesis by (rule that [OF r])
qed

lemma published_files_whole_witness:
  "\<exists>(d :: (u64, u32) directory) c fs. d ''d/x.tf'' = Some (TfData c) \<and> fs \<noteq> [] \<and> subseq fs [(5, file_frame)] \<and> c = tf_file plain_codec fs"
proof -
  obtain s l d c where r: "sink_reach plain_codec record_sink [(5, file_frame)] (s, l, d)" "d ''d/x.tf'' = Some (TfData c)"
    "length c < 2 ^ 63" by (rule record_run)
  obtain fs where "fs \<noteq> []" "subseq fs [(5, file_frame)]" "c = tf_file plain_codec fs"
    using published_files_whole [OF r(1) disjI1 [OF r(2)] not_part_x] by blast
  then show ?thesis using r(2) by (intro exI [of _ d] exI [of _ c] exI [of _ fs] conjI)
qed

lemma recorded_frames_replay_witness:
  "\<exists>c gs sid' r. read_file plain_codec file_rdh (\<lambda>_ _. (True, True)) (\<lambda>_. 6) (\<lambda>_. True) 0 3 (reader_new (Some c)) = (gs, True, sid', r) \<and>
     reader_eof r \<and> gs \<noteq> []"
proof -
  obtain s l d c where r: "sink_reach plain_codec record_sink [(5, file_frame)] (s, l, d)" "d ''d/x.tf'' = Some (TfData c)" "length c < 2 ^ 63"
    by (rule record_run)
  have h: "\<forall>(ms, f)\<in>set [(5, file_frame)]. stf_reach f \<and> sendable f" using file_frame_reach file_frame_sendable by simp
  obtain fs gs sid' q where "fs \<noteq> []"
    "read_file plain_codec file_rdh (\<lambda>_ _. (True, True)) (\<lambda>_. 6) (\<lambda>_. True) 0 3 (reader_new (Some c)) = (gs, True, sid', q)"
    "reader_eof q" "list_all2 (\<lambda>(ms, f) g. same_parts f g \<and> hCreationTimeMs (stfHeader g) = ms) fs gs"
    using recorded_frames_replay [OF plain.o2_headers_axioms r(1) h disjI1 [OF r(2)] listed_x r(3), of file_rdh "\<lambda>_. 6" 3] by blast
  then show ?thesis by (intro exI [of _ c] exI [of _ gs] exI [of _ sid'] exI [of _ q]) auto
qed

section \<open>The names of the files\<close>

lemma replace_all_plain: "CHR ''%'' \<notin> set a \<Longrightarrow> replace_all (CHR ''%'' # q) r (a @ b) = a @ replace_all (CHR ''%'' # q) r b"
  by (induction a) (auto simp: replace_all.simps(2))

lemma padded_plain: "CHR ''%'' \<notin> set (zero_padded k n)"
  using padded_digits [of k n] by (auto simp: list_all_iff is_digit_def)

abbreviation default_pattern :: string where
  "default_pattern \<equiv> ''o2_rawtf_run%r_tf%i_%h.tf''"

lemma default_pattern_option: "soFileName sink_default_options = default_pattern"
  by (simp add: sink_default_options_def)

lemma default_name:
  "newStfFileName default_pattern idx host e sid =
    ''o2_rawtf_run'' @ zero_padded (max 8 (length (neRunString e))) (neRun e) @ ''_tf'' @ zero_padded 8 (unat sid) @
    ''_'' @ host @ ''.tf''"
proof -
  let ?R = "zero_padded (max 8 (length (neRunString e))) (neRun e)" and ?I = "zero_padded 8 (unat sid)"
  note p = replace_all_plain [OF padded_plain]
  have 1: "replace_all ''%n'' N default_pattern = default_pattern" for N by (simp add: replace_all.simps(2))
  have 2: "replace_all ''%r'' ?R default_pattern = ''o2_rawtf_run'' @ ?R @ ''_tf%i_%h.tf''" by (simp add: replace_all.simps(2))
  have 3: "replace_all ''%i'' ?I (''o2_rawtf_run'' @ ?R @ ''_tf%i_%h.tf'') = ''o2_rawtf_run'' @ ?R @ ''_tf'' @ ?I @ ''_%h.tf''"
    by (simp add: replace_all.simps(2) p)
  have 4: "replace_all ''%D'' x (''o2_rawtf_run'' @ ?R @ ''_tf'' @ ?I @ ''_%h.tf'') = ''o2_rawtf_run'' @ ?R @ ''_tf'' @ ?I @ ''_%h.tf''"
    "replace_all ''%T'' x (''o2_rawtf_run'' @ ?R @ ''_tf'' @ ?I @ ''_%h.tf'') = ''o2_rawtf_run'' @ ?R @ ''_tf'' @ ?I @ ''_%h.tf''"
    "replace_all ''%h'' x (''o2_rawtf_run'' @ ?R @ ''_tf'' @ ?I @ ''_%h.tf'') = ''o2_rawtf_run'' @ ?R @ ''_tf'' @ ?I @ ''_'' @ x @ ''.tf''" for x
    by (simp_all add: replace_all.simps(2) p)
  show ?thesis unfolding newStfFileName_def 1 2 3 4 ..
qed

lemma padded_append_inj:
  assumes "zero_padded k n @ CHR ''_'' # x = zero_padded l m @ CHR ''_'' # y"
  shows "n = m \<and> x = y"
proof -
  have "\<not> is_digit CHR ''_''" by (simp add: is_digit_def)
  then have "takeWhile is_digit (zero_padded i j @ CHR ''_'' # z) = zero_padded i j" for i j z
    using span_append(1) [OF padded_digits, of "CHR ''_'' # z" i j] by simp
  then have "zero_padded k n = zero_padded l m" using assms by metis
  then show ?thesis using assms dec_value_padded by (metis append_same_eq list.inject same_append_eq)
qed

text \<open>
  Different frames get different files: with the default pattern, on one host, the names of two
  files are equal only when the run number and the identifier of the frame are, whatever the file
  index, the date and the time.
\<close>

theorem file_names_distinct:
  "newStfFileName default_pattern idx host e sid = newStfFileName default_pattern idx' host e' sid' \<longleftrightarrow>
    sid = sid' \<and>
    zero_padded (max 8 (length (neRunString e))) (neRun e) = zero_padded (max 8 (length (neRunString e'))) (neRun e')"
  (is "?l \<longleftrightarrow> ?r")
proof
  assume ?l
  then have "zero_padded (max 8 (length (neRunString e))) (neRun e) @ CHR ''_'' # ''tf'' @ zero_padded 8 (unat sid) @ ''_'' @ host @ ''.tf'' =
      zero_padded (max 8 (length (neRunString e'))) (neRun e') @ CHR ''_'' # ''tf'' @ zero_padded 8 (unat sid') @ ''_'' @ host @ ''.tf''"
    by (simp add: default_name)
  note a = this padded_append_inj [OF this]
  then have "zero_padded 8 (unat sid) @ CHR ''_'' # host @ ''.tf'' = zero_padded 8 (unat sid') @ CHR ''_'' # host @ ''.tf''" by simp
  from padded_append_inj [OF this] have "sid = sid'" by (simp only: word_unat_eq_iff)
  then show ?r using a by auto
next
  assume ?r
  then show ?l by (simp add: default_name)
qed

end
