(* ===== verification/TfFile_Source_Props.thy ===== *)
theory TfFile_Source_Props
  imports TfFile_Source
begin

text \<open>
  Properties of the file source, over all interleavings of its three threads and \<open>stop\<close>: a cached
  file stays on the disk while a thread or the queue holds it, and the frames are injected in the
  order of the files, none lost and none twice.
\<close>

section \<open>Interleavings\<close>

text \<open>The list is the sequence of frames that were injected.\<close>

inductive source_reach :: "source_config \<Rightarrow> nat \<Rightarrow> (StfFileMeta \<Rightarrow> 'f list) \<Rightarrow> 'f source_state \<Rightarrow> 'f list \<Rightarrow> bool"
  for c pre frames where
  source_reach_init: "source_reach c pre frames source_init []"
| source_reach_fetch: "source_reach c pre frames s J \<Longrightarrow> source_reach c pre frames (fetch_step c copied s) J"
| source_reach_read: "source_reach c pre frames s J \<Longrightarrow> source_reach c pre frames (read_step pre frames s) J"
| source_reach_inject: "source_reach c pre frames s J \<Longrightarrow> inject_step s = (x, s') \<Longrightarrow>
    source_reach c pre frames s' (J @ (case x of None \<Rightarrow> [] | Some y \<Rightarrow> [y]))"
| source_reach_stop: "source_reach c pre frames s J \<Longrightarrow> source_reach c pre frames (source_stop s) J"

section \<open>The cache\<close>

definition file_holders :: "'f source_state \<Rightarrow> StfFileMeta set" where
  "file_holders s = set_option (ssLocal s) \<union> set_option (ssFile s) \<union> set (mContainer (ssQueue s))"

definition cached_ok :: "source_config \<Rightarrow> 'f source_state \<Rightarrow> bool" where
  "cached_ok c s \<longleftrightarrow>
     (\<forall>i f. ssLive s i = Some f \<longrightarrow> f = cached_file c i \<and> cache_path c i \<in> ssDisk s) \<and>
     (\<forall>f\<in>file_holders s. fmDeleteMe f \<longrightarrow> ssLive s (fmIdx f) = Some f)"

lemma cached_file_fields [simp]:
  "fmFilePath (cached_file c i) = cache_path c i" "fmIdx (cached_file c i) = i" "fmDeleteMe (cached_file c i)"
  "\<not> fmDeleteMe (local_file c i)" "fmIdx (local_file c i) = i"
  by (simp_all add: cached_file_def local_file_def)

lemma dec_string_append_inj:
  assumes "dec_string i @ CHR ''-'' # x = dec_string j @ CHR ''-'' # y"
  shows "i = j"
proof -
  have "\<not> is_digit CHR ''-''" by (simp add: is_digit_def)
  then have "takeWhile is_digit (dec_string n @ CHR ''-'' # z) = dec_string n" for n z
    using span_append(1) [OF dec_string_digits, of "CHR ''-'' # z" n] by simp
  then have "dec_string i = dec_string j" using assms by metis
  then show ?thesis by (metis dec_value_dec_string)
qed

lemma cache_path_inj: "cache_path c i = cache_path c j \<longleftrightarrow> i = j"
  using dec_string_append_inj [of i _ j] by (auto simp: cache_path_def path_join_def split: if_splits)

lemma cached_keep:
  "cached_ok c s \<Longrightarrow> ssLive s' = ssLive s \<Longrightarrow> ssDisk s \<subseteq> ssDisk s' \<Longrightarrow>
    (\<And>f. f \<in> file_holders s' \<Longrightarrow> fmDeleteMe f \<Longrightarrow> f \<in> file_holders s \<or> ssLive s (fmIdx f) = Some f) \<Longrightarrow> cached_ok c s'"
  unfolding cached_ok_def by (metis subsetD)

lemma use_count_holders:
  "ssLive s i \<noteq> None \<Longrightarrow> use_count i s = 1 \<longleftrightarrow> (\<forall>f\<in>file_holders s. fmIdx f \<noteq> i)"
  by (auto simp: use_count_def file_holders_def held_def filter_empty_conv split: option.splits)

lemma use_count_live: "ssLive s i = Some f \<Longrightarrow> use_count i s \<noteq> 0"
  by (simp add: use_count_def)

lemma put_cached:
  assumes "cached_ok c s"
  shows "cached_ok c (putExistingInstance i s)"
proof (cases "ssLive s i")
  case (Some f)
  show ?thesis
  proof (cases "use_count i s = 1")
    case True
    then have h: "\<forall>g\<in>file_holders s. fmIdx g \<noteq> i" using use_count_holders [of s i] Some by simp
    have f: "f = cached_file c i" using assms Some by (simp add: cached_ok_def)
    let ?s = "delete_meta f (s\<lparr>ssLive := (ssLive s)(i := None)\<rparr>)"
    have s: "ssLive ?s = (ssLive s)(i := None)" "ssDisk ?s = ssDisk s - {cache_path c i}" "file_holders ?s = file_holders s"
      by (simp_all add: delete_meta_def f file_holders_def)
    have "cached_ok c ?s" using assms h unfolding cached_ok_def s by (auto simp: cache_path_inj)
    then show ?thesis using Some True by (simp add: putExistingInstance_def)
  next
    case False
    then show ?thesis using Some assms by (simp add: putExistingInstance_def)
  qed
qed (simp add: putExistingInstance_def assms)

lemma fetch_file_cached:
  assumes "cached_ok c s"
  shows "cached_ok c (fetch_file c copied s)"
proof -
  let ?ix = "(ssFileIndex s + 1) mod of_nat (length (scFilesVector c))"
  show ?thesis
  proof (cases "scLocalFiles c")
    case True
    then show ?thesis
      by (intro cached_keep [OF assms]) (auto simp: fetch_file_def Let_def file_holders_def)
  next
    case False
    show ?thesis
    proof (cases "ssLive s (unat ?ix)")
      case None
      show ?thesis
      proof (cases copied)
        case True
        then show ?thesis using assms False None
          by (auto simp: fetch_file_def Let_def getExistingInstance_def insertExistingInstance_def cached_ok_def file_holders_def)
      next
        case nc: False
        then show ?thesis using False None
          by (intro cached_keep [OF assms]) (auto simp: fetch_file_def Let_def getExistingInstance_def file_holders_def)
      qed
    next
      case (Some f)
      then have "fmIdx f = unat ?ix" using assms unfolding cached_ok_def by (metis cached_file_fields(2))
      then show ?thesis using False Some
        by (intro cached_keep [OF assms]) (auto simp: fetch_file_def Let_def getExistingInstance_def file_holders_def)
    qed
  qed
qed

lemma fetch_cached:
  assumes "cached_ok c s"
  shows "cached_ok c (fetch_step c copied s)"
proof (cases "ssPhase s")
  case FetchTop
  then show ?thesis using assms fetch_file_cached [OF assms]
    by (auto simp: fetch_step_def fetch_top_def fetch_close_def cq_stop_def file_holders_def intro!: cached_keep [OF assms])
next
  case FetchPush
  then show ?thesis
    by (intro cached_keep [OF assms]; cases "ssLocal s"; cases "cqRunning (ssQueue s)")
      (auto simp: fetch_step_def fetch_push_def cq_push_def emplace_def file_holders_def)
next
  case FetchEnd
  have "ssLive (fetch_end c s) = ssLive s \<and> ssDisk (fetch_end c s) = ssDisk s \<and>
      file_holders (fetch_end c s) \<subseteq> file_holders s"
    by (auto simp: fetch_end_def fetch_close_def cq_stop_def file_holders_def Let_def)
  then show ?thesis using FetchEnd by (intro cached_keep [OF assms]) (auto simp: fetch_step_def)
qed (simp add: fetch_step_def assms)

lemma read_pop_cached:
  assumes "cached_ok c s"
  shows "cached_ok c (read_pop frames s)"
proof (cases "ssRunning s")
  case True
  then show ?thesis
    by (intro cached_keep [OF assms]; cases "mContainer (ssQueue s)")
      (auto simp: read_pop_def read_exit_def cq_pop_def file_holders_def split: if_splits)
next
  case False
  then show ?thesis by (intro cached_keep [OF assms]) (auto simp: read_pop_def read_exit_def file_holders_def)
qed

lemma read_push_cached:
  assumes "cached_ok c s"
  shows "cached_ok c (read_push x xs s)"
proof -
  have "ssLive (read_push x xs s) = ssLive s \<and> ssDisk (read_push x xs s) = ssDisk s \<and>
      file_holders (read_push x xs s) = file_holders s"
    by (cases "ssRunning s"; cases "cqRunning (ssReadStfQueue s)") (simp_all add: read_push_def cq_push_def file_holders_def)
  then show ?thesis using assms by (simp add: cached_ok_def)
qed

lemma read_reset_cached:
  assumes ok: "cached_ok c s" and f: "ssFile s = Some f"
  shows "cached_ok c (read_reset f s)"
proof -
  let ?s = "s\<lparr>ssFile := None, ssPut := Some (fmIdx f)\<rparr>"
  have "cached_ok c ?s" by (intro cached_keep [OF ok]) (auto simp: file_holders_def)
  moreover have "fmDeleteMe f \<Longrightarrow> ssLive ?s (fmIdx f) = Some f" using ok f by (simp add: cached_ok_def file_holders_def)
  then have "fmDeleteMe f \<Longrightarrow> use_count (fmIdx f) ?s \<noteq> 0" using use_count_live by blast
  ultimately show ?thesis by (auto simp: read_reset_def delete_meta_def Let_def)
qed

lemma read_cached:
  assumes "cached_ok c s"
  shows "cached_ok c (read_step pre frames s)"
proof -
  have p: "cached_ok c (s\<lparr>ssPut := None\<rparr>)" "cached_ok c (s\<lparr>ssWait := False\<rparr>)"
    by (rule cached_keep [OF assms]; simp add: file_holders_def)+
  show ?thesis
    using assms p read_pop_cached [OF assms] read_push_cached [OF assms] read_reset_cached [OF assms] put_cached [OF p(1)]
    by (auto simp: read_step_def split: option.split list.split)
qed

lemma inject_cached: "cached_ok c s \<Longrightarrow> inject_step s = (x, s') \<Longrightarrow> cached_ok c s'"
  by (erule cached_keep)
    (auto simp: inject_step_def inject_exit_def file_holders_def split: if_splits prod.splits pop_result.splits)

text \<open>
  C26. A cached file is kept while it is used: in every interleaving of the threads of the file source,
  a file of the cache that is queued, held by the fetching thread or being read is on the disk, and
  it is the one that the table of live files has under its index. Deleting it with its last user
  never takes it from another.
\<close>

theorem cached_file_kept:
  assumes "source_reach c pre frames s J" "f \<in> file_holders s" "fmDeleteMe f"
  shows "fmFilePath f \<in> ssDisk s \<and> ssLive s (fmIdx f) = Some f"
proof -
  have "cached_ok c s" using assms(1)
  proof (induction rule: source_reach.induct)
    case source_reach_init
    then show ?case by (simp add: cached_ok_def source_init_def file_holders_def cq_init_def)
  next
    case (source_reach_stop s J)
    then show ?case by (intro cached_keep [OF source_reach_stop.IH]) (auto simp: source_stop_def cq_stop_def file_holders_def)
  qed (simp_all add: fetch_cached read_cached inject_cached)
  then show ?thesis using assms(2, 3) unfolding cached_ok_def by (metis cached_file_fields(1))
qed

definition remote_config :: source_config where
  "remote_config = \<lparr>scFilesVector = [''/eos/a.tf''], scRepeat = True, scNumFiles = 3, scLocalFiles = False, scCopyDst = ''/tmp''\<rparr>"

lemma cached_file_kept_witness:
  "''/tmp/cache-0-a.tf'' \<in> ssDisk (fetch_step remote_config True (source_init :: nat source_state))"
proof -
  let ?s = "fetch_step remote_config True (source_init :: nat source_state)"
  have f: "cached_file remote_config 0 \<in> file_holders ?s"
    by (simp add: fetch_step_def source_init_def fetch_top_def fetch_file_def Let_def getExistingInstance_def
        insertExistingInstance_def remote_config_def cq_init_def file_holders_def)
  have d: "dec_string 0 = ''0''" by code_simp
  have "source_reach remote_config 1 (\<lambda>_. []) ?s []"
    by (rule source_reach_fetch [OF source_reach_init])
  from cached_file_kept [OF this f] show ?thesis
    by (simp add: cache_path_def remote_config_def path_join_def path_filename_def d)
qed

section \<open>The order of the frames\<close>

definition files_queued :: "'f source_state \<Rightarrow> nat" where
  "files_queued s = ssSuccessful s + (if ssPhase s = FetchEnd then 1 else 0)"

text \<open>The fetching thread, with local files; \<open>n\<close> is their number.\<close>

definition fetch_ok :: "source_config \<Rightarrow> 'f source_state \<Rightarrow> bool" where
  "fetch_ok c s \<longleftrightarrow>
     ssFileErrors s = 0 \<and>
     (ssPhase s \<noteq> FetchDone \<longrightarrow>
       ssTotalFiles s = ssSuccessful s + (if ssPhase s = FetchTop then 0 else 1) \<and>
       (scNumFiles c > 0 \<longrightarrow> ssSuccessful s < scNumFiles c) \<and>
       (\<not> scRepeat c \<longrightarrow> ssTotalFiles s \<le> length (scFilesVector c))) \<and>
     ssFileIndex s = (if ssTotalFiles s = 0 then - 1 else of_nat ((ssTotalFiles s - 1) mod length (scFilesVector c))) \<and>
     (ssPhase s = FetchPush \<or> ssPhase s = FetchEnd \<longrightarrow>
       ssLocal s = Some (local_file c (ssSuccessful s mod length (scFilesVector c)))) \<and>
     (ssRunning s \<longrightarrow> (ssPhase s = FetchDone \<longleftrightarrow> \<not> cqRunning (ssQueue s))) \<and>
     (ssRunning s \<and> ssPhase s = FetchDone \<longrightarrow>
       scNumFiles c > 0 \<and> ssSuccessful s = scNumFiles c \<and> (\<not> scRepeat c \<longrightarrow> ssSuccessful s \<le> length (scFilesVector c)) \<or>
       \<not> scRepeat c \<and> ssSuccessful s = length (scFilesVector c) \<and> (scNumFiles c > 0 \<longrightarrow> ssSuccessful s < scNumFiles c))"

lemma next_index:
  assumes "0 < n" "n < 2 ^ 63" and "ix = (if t = 0 then - 1 else of_nat ((t - 1) mod n))"
  shows "(ix + 1 :: u64) mod of_nat n = of_nat (t mod n)"
proof (cases t)
  case 0
  then show ?thesis using assms by simp
next
  case (Suc m)
  have lt: "m mod n < n" using assms(1) by simp
  have "(ix + 1) = (of_nat (m mod n + 1) :: u64)" using assms(3) Suc by simp
  also have "(of_nat (m mod n + 1) :: u64) mod of_nat n = of_nat ((m mod n + 1) mod n)"
  proof (rule word_unat_eq_iff [THEN iffD2])
    have "(m mod n + 1) mod n < n" using assms(1) by simp
    moreover have "n < 2 ^ 64" using assms(2) by simp
    ultimately have "m mod n + 1 < 2 ^ 64" "n < 2 ^ 64" "(m mod n + 1) mod n < 2 ^ 64"
      using lt by linarith+
    note u = this [THEN unat_small]
    show "unat ((of_nat (m mod n + 1) :: u64) mod of_nat n) = unat (of_nat ((m mod n + 1) mod n) :: u64)"
      by (simp only: unat_mod u)
  qed
  finally show ?thesis using Suc by (simp add: mod_Suc_eq)
qed

lemma fetch_file_local:
  assumes c: "scLocalFiles c" and n: "0 < length (scFilesVector c)" "length (scFilesVector c) < 2 ^ 63" and ok: "fetch_ok c s"
  shows "fetch_file c copied s = s\<lparr>ssFileIndex := of_nat (ssTotalFiles s mod length (scFilesVector c)),
     ssTotalFiles := ssTotalFiles s + 1, ssLocal := Some (local_file c (ssTotalFiles s mod length (scFilesVector c))),
     ssPhase := FetchPush\<rparr>"
proof -
  let ?n = "length (scFilesVector c)"
  have "ssFileIndex s = (if ssTotalFiles s = 0 then - 1 else of_nat ((ssTotalFiles s - 1) mod ?n))"
    using ok by (simp add: fetch_ok_def)
  note i = next_index [OF n this]
  have "ssTotalFiles s mod ?n < ?n" using n(1) by simp
  then have "ssTotalFiles s mod ?n < 2 ^ 64" using n(2) by simp
  note u = unat_small [OF this]
  show ?thesis using c by (simp add: fetch_file_def i u)
qed

lemma fetch_fetch_ok:
  assumes c: "scLocalFiles c" and n: "0 < length (scFilesVector c)" "length (scFilesVector c) < 2 ^ 63" and ok: "fetch_ok c s"
  shows "fetch_ok c (fetch_step c copied s)"
proof (cases "ssPhase s")
  case FetchTop
  then show ?thesis using ok fetch_file_local [OF c n ok]
    by (auto simp: fetch_step_def fetch_top_def fetch_close_def cq_stop_def fetch_ok_def)
next
  case FetchPush
  then have l: "ssLocal s = Some (local_file c (ssSuccessful s mod length (scFilesVector c)))" using ok by (simp add: fetch_ok_def)
  show ?thesis
    using FetchPush ok l by (cases "cqRunning (ssQueue s)") (auto simp: fetch_step_def fetch_push_def cq_push_def fetch_ok_def)
next
  case FetchEnd
  then show ?thesis using ok
    by (auto simp: fetch_step_def fetch_end_def fetch_close_def cq_stop_def fetch_ok_def Let_def)
next
  case FetchDone
  then show ?thesis using ok by (simp add: fetch_step_def)
qed

text \<open>The frames on their way, in order: injected, read, in hand, and those of the queued files.\<close>

definition flow_ok :: "source_config \<Rightarrow> (StfFileMeta \<Rightarrow> 'f list) \<Rightarrow> 'f source_state \<Rightarrow> 'f list \<Rightarrow> bool" where
  "flow_ok c frames s J \<longleftrightarrow>
     (ssRunning s \<longrightarrow>
       J @ mContainer (ssReadStfQueue s) @ ssPending s @ concat (map frames (mContainer (ssQueue s))) =
         concat (map (\<lambda>k. frames (local_file c (k mod length (scFilesVector c)))) [0..<files_queued s]) \<and>
       (ssReadDone s \<longleftrightarrow> \<not> cqRunning (ssReadStfQueue s)) \<and>
       (ssReadDone s \<longrightarrow> mContainer (ssQueue s) = [] \<and> ssPending s = [] \<and> ssPhase s = FetchDone) \<and>
       (ssPending s \<noteq> [] \<longrightarrow> ssFile s \<noteq> None) \<and>
       (ssInjectDone s \<longrightarrow> ssReadDone s \<and> mContainer (ssReadStfQueue s) = []))"

lemma fetch_flow:
  assumes c: "scLocalFiles c" and n: "0 < length (scFilesVector c)" "length (scFilesVector c) < 2 ^ 63"
    and ok: "fetch_ok c s" and f: "flow_ok c frames s J"
  shows "flow_ok c frames (fetch_step c copied s) J"
proof (cases "ssPhase s")
  case FetchTop
  then show ?thesis using f fetch_file_local [OF c n ok]
    by (auto simp: fetch_step_def fetch_top_def fetch_close_def cq_stop_def flow_ok_def files_queued_def)
next
  case FetchPush
  then have l: "ssLocal s = Some (local_file c (ssSuccessful s mod length (scFilesVector c)))" using ok by (simp add: fetch_ok_def)
  show ?thesis
  proof (cases "ssRunning s")
    case True
    then have "cqRunning (ssQueue s)" using ok FetchPush by (simp add: fetch_ok_def)
    then show ?thesis using FetchPush f l True
      by (auto simp: fetch_step_def fetch_push_def cq_push_def emplace_def flow_ok_def files_queued_def)
  next
    case False
    then show ?thesis using FetchPush l by (simp add: fetch_step_def fetch_push_def flow_ok_def)
  qed
next
  case FetchEnd
  then have "files_queued (fetch_end c s) = files_queued s" "mContainer (ssQueue (fetch_end c s)) = mContainer (ssQueue s)"
    "ssRunning (fetch_end c s) = ssRunning s" "ssReadStfQueue (fetch_end c s) = ssReadStfQueue s"
    "ssPending (fetch_end c s) = ssPending s" "ssReadDone (fetch_end c s) = ssReadDone s"
    "ssFile (fetch_end c s) = ssFile s" "ssInjectDone (fetch_end c s) = ssInjectDone s"
    by (simp_all add: fetch_end_def fetch_close_def cq_stop_def files_queued_def Let_def)
  then show ?thesis using f FetchEnd by (auto simp: fetch_step_def flow_ok_def)
next
  case FetchDone
  then show ?thesis using f by (simp add: fetch_step_def)
qed

text \<open>The reading thread does not touch the fetching thread, and the steps of the frames keep their order.\<close>

lemma fetch_ok_same:
  "fetch_ok c s \<Longrightarrow> ssFileErrors s' = ssFileErrors s \<Longrightarrow> ssPhase s' = ssPhase s \<Longrightarrow> ssTotalFiles s' = ssTotalFiles s \<Longrightarrow>
    ssSuccessful s' = ssSuccessful s \<Longrightarrow> ssFileIndex s' = ssFileIndex s \<Longrightarrow> ssLocal s' = ssLocal s \<Longrightarrow>
    (ssRunning s' \<longrightarrow> ssRunning s \<and> cqRunning (ssQueue s') = cqRunning (ssQueue s)) \<Longrightarrow> fetch_ok c s'"
  unfolding fetch_ok_def by auto

lemma delete_meta_fields [simp]:
  "ssRunning (delete_meta f s) = ssRunning s" "ssPhase (delete_meta f s) = ssPhase s"
  "ssFileIndex (delete_meta f s) = ssFileIndex s" "ssFileErrors (delete_meta f s) = ssFileErrors s"
  "ssTotalFiles (delete_meta f s) = ssTotalFiles s" "ssSuccessful (delete_meta f s) = ssSuccessful s"
  "ssLocal (delete_meta f s) = ssLocal s" "ssQueue (delete_meta f s) = ssQueue s" "ssFile (delete_meta f s) = ssFile s"
  "ssPending (delete_meta f s) = ssPending s" "ssReadDone (delete_meta f s) = ssReadDone s"
  "ssReadStfQueue (delete_meta f s) = ssReadStfQueue s" "ssInjectDone (delete_meta f s) = ssInjectDone s"
  by (simp_all add: delete_meta_def)

text \<open>A step of the reading thread that only counts, releases or waits.\<close>

definition read_neutral :: "'f source_state \<Rightarrow> 'f source_state \<Rightarrow> bool" where
  "read_neutral s s' \<longleftrightarrow>
     ssRunning s' = ssRunning s \<and> ssPhase s' = ssPhase s \<and> ssFileIndex s' = ssFileIndex s \<and>
     ssFileErrors s' = ssFileErrors s \<and> ssTotalFiles s' = ssTotalFiles s \<and> ssSuccessful s' = ssSuccessful s \<and>
     ssLocal s' = ssLocal s \<and> ssQueue s' = ssQueue s \<and> ssPending s' = ssPending s \<and> ssReadDone s' = ssReadDone s \<and>
     ssReadStfQueue s' = ssReadStfQueue s \<and> ssInjectDone s' = ssInjectDone s \<and>
     (ssPending s \<noteq> [] \<longrightarrow> ssFile s' = ssFile s)"

lemma read_neutral_ok:
  assumes "read_neutral s s'"
  shows "fetch_ok c s \<Longrightarrow> fetch_ok c s'" "flow_ok c frames s J \<Longrightarrow> flow_ok c frames s' J"
proof -
  show "fetch_ok c s \<Longrightarrow> fetch_ok c s'"
    by (erule fetch_ok_same) (use assms in \<open>simp_all add: read_neutral_def\<close>)
  show "flow_ok c frames s J \<Longrightarrow> flow_ok c frames s' J"
    using assms by (simp add: read_neutral_def flow_ok_def files_queued_def) blast
qed

lemma read_reset_neutral: "ssPending s = [] \<Longrightarrow> read_neutral s (read_reset f s)"
  by (simp add: read_neutral_def read_reset_def Let_def)

lemma read_put_neutral: "read_neutral s (putExistingInstance i (s\<lparr>ssPut := None\<rparr>))"
  by (simp add: read_neutral_def putExistingInstance_def split: option.split)

lemma read_pop_ok:
  assumes "fetch_ok c s" "flow_ok c frames s J" "\<not> ssReadDone s" "ssFile s = None"
  shows "fetch_ok c (read_pop frames s) \<and> flow_ok c frames (read_pop frames s) J"
proof (cases "ssRunning s")
  case False
  then show ?thesis using assms(1) by (auto simp: read_pop_def read_exit_def flow_ok_def fetch_ok_def)
next
  case True
  have p: "ssPending s = []" using assms(2, 4) True by (auto simp: flow_ok_def)
  show ?thesis
  proof (cases "mContainer (ssQueue s)")
    case Nil
    have "cqRunning (ssQueue s) \<longleftrightarrow> ssPhase s \<noteq> FetchDone" using assms(1) True by (auto simp: fetch_ok_def)
    then show ?thesis using assms True Nil p
      by (auto simp: read_pop_def cq_pop_def read_exit_def cq_stop_def flow_ok_def fetch_ok_def files_queued_def)
  next
    case (Cons f q)
    then have s: "read_pop frames s = s\<lparr>ssQueue := (ssQueue s)\<lparr>mContainer := q\<rparr>, ssFile := Some f, ssPending := frames f\<rparr>"
      using True by (simp add: read_pop_def cq_pop_def)
    have "fetch_ok c (read_pop frames s)" by (rule fetch_ok_same [OF assms(1)]) (simp_all add: s)
    moreover have "flow_ok c frames (read_pop frames s) J"
      using assms(2, 3) True Cons p by (simp add: s flow_ok_def files_queued_def)
    ultimately show ?thesis ..
  qed
qed

lemma read_push_ok:
  assumes "fetch_ok c s" "flow_ok c frames s J" "\<not> ssReadDone s" "ssFile s = Some f" "ssPending s = x # xs"
  shows "fetch_ok c (read_push x xs s) \<and> flow_ok c frames (read_push x xs s) J"
proof (cases "ssRunning s")
  case False
  then show ?thesis using assms(1) by (auto simp: read_push_def flow_ok_def fetch_ok_def)
next
  case True
  then have "cqRunning (ssReadStfQueue s)" using assms(2, 3) by (simp add: flow_ok_def)
  then have s: "read_push x xs s = s\<lparr>ssReadStfQueue := (ssReadStfQueue s)\<lparr>mContainer := mContainer (ssReadStfQueue s) @ [x]\<rparr>,
      ssPending := xs, ssWait := True\<rparr>"
    using True by (simp add: read_push_def cq_push_def emplace_def)
  have "fetch_ok c (read_push x xs s)" by (rule fetch_ok_same [OF assms(1)]) (simp_all add: s)
  moreover have "flow_ok c frames (read_push x xs s) J"
    using assms(2-5) True by (simp add: s flow_ok_def files_queued_def)
  ultimately show ?thesis ..
qed

lemma read_ok:
  assumes "fetch_ok c s" "flow_ok c frames s J"
  shows "fetch_ok c (read_step pre frames s) \<and> flow_ok c frames (read_step pre frames s) J"
proof -
  have w: "read_neutral s (s\<lparr>ssWait := False\<rparr>)" by (simp add: read_neutral_def)
  have neutral: ?thesis if "read_neutral s (read_step pre frames s)" using that assms read_neutral_ok by blast
  show ?thesis
  proof (cases "ssReadDone s \<or> ssWait s")
    case True
    then have "read_step pre frames s = s \<or> read_step pre frames s = s\<lparr>ssWait := False\<rparr>" by (auto simp: read_step_def)
    then show ?thesis using assms w neutral by metis
  next
    case False
    show ?thesis
    proof (cases "ssFile s")
      case None
      show ?thesis
      proof (cases "ssPut s")
        case None
        then have "read_step pre frames s = read_pop frames s" using False \<open>ssFile s = None\<close> by (simp add: read_step_def)
        then show ?thesis using read_pop_ok [OF assms] False \<open>ssFile s = None\<close> by simp
      next
        case (Some i)
        then have "read_step pre frames s = putExistingInstance i (s\<lparr>ssPut := None\<rparr>)"
          using False None by (simp add: read_step_def)
        then show ?thesis using neutral read_put_neutral by metis
      qed
    next
      case (Some f)
      show ?thesis
      proof (cases "ssPending s")
        case Nil
        then have "read_step pre frames s = read_reset f s" using False Some by (simp add: read_step_def)
        then show ?thesis using neutral read_reset_neutral [OF Nil] by metis
      next
        case (Cons x xs)
        then have "read_step pre frames s = read_push x xs s" using False Some by (simp add: read_step_def)
        then show ?thesis using read_push_ok [OF assms _ Some Cons] False by simp
      qed
    qed
  qed
qed

lemma inject_ok:
  assumes "fetch_ok c s" "flow_ok c frames s J" "inject_step s = (x, s')"
  shows "fetch_ok c s' \<and> flow_ok c frames s' (J @ (case x of None \<Rightarrow> [] | Some y \<Rightarrow> [y]))"
proof (cases "ssInjectDone s \<or> \<not> ssRunning s")
  case True
  then have s: "x = None" "s' = s \<or> s' = inject_exit s \<and> \<not> ssRunning s"
    using assms(3) by (auto simp: inject_step_def split: if_splits)
  have "fetch_ok c (inject_exit s)" by (rule fetch_ok_same [OF assms(1)]) (simp_all add: inject_exit_def)
  moreover have "\<not> ssRunning s \<Longrightarrow> flow_ok c frames (inject_exit s) J" by (simp add: inject_exit_def flow_ok_def)
  ultimately show ?thesis using s assms(1, 2) by auto
next
  case False
  show ?thesis
  proof (cases "mContainer (ssReadStfQueue s)")
    case Nil
    show ?thesis
    proof (cases "cqRunning (ssReadStfQueue s)")
      case True
      then show ?thesis using assms False Nil by (simp add: inject_step_def cq_pop_def)
    next
      case nr: False
      then have s: "x = None" "s' = inject_exit s" using assms(3) False Nil by (auto simp: inject_step_def cq_pop_def)
      have "fetch_ok c s'" by (rule fetch_ok_same [OF assms(1)]) (simp_all add: s inject_exit_def)
      then show ?thesis using assms(2) False Nil nr by (auto simp: s inject_exit_def flow_ok_def files_queued_def)
    qed
  next
    case (Cons y ys)
    then have s: "x = Some y" "s' = s\<lparr>ssReadStfQueue := (ssReadStfQueue s)\<lparr>mContainer := ys\<rparr>,
        ssPipeline := snd (cq_push eFIFO y (ssPipeline s))\<rparr>"
      using assms(3) False by (auto simp: inject_step_def cq_pop_def)
    have "fetch_ok c s'" by (rule fetch_ok_same [OF assms(1)]) (simp_all add: s)
    then show ?thesis using assms(2) False Cons by (simp add: s flow_ok_def files_queued_def)
  qed
qed

lemma stop_ok:
  "fetch_ok c s \<Longrightarrow> fetch_ok c (source_stop s)" "flow_ok c frames (source_stop s) J"
  by (auto simp: source_stop_def fetch_ok_def flow_ok_def)

text \<open>
  C27. The frames of the files are injected in order: with local files, in every interleaving of the
  threads until the source is stopped, the frames that were injected, those that were read, those
  of the file in hand and those of the queued files are, in this order, the frames of the files that
  were fetched, which are the files of the list from the first one on, again and again. When all
  threads have ended, the injected frames are those of all files: of every file once, without
  repetition, or of the number of files that was configured.
\<close>

theorem source_in_order:
  assumes "source_reach c pre frames s J" "scLocalFiles c" "scFilesVector c \<noteq> []" "length (scFilesVector c) < 2 ^ 63"
    and "ssRunning s"
  shows "J @ mContainer (ssReadStfQueue s) @ ssPending s @ concat (map frames (mContainer (ssQueue s))) =
      concat (map (\<lambda>k. frames (local_file c (k mod length (scFilesVector c)))) [0..<files_queued s]) \<and>
    (ssInjectDone s \<longrightarrow>
      J = concat (map (\<lambda>k. frames (local_file c (k mod length (scFilesVector c))))
        [0..<if scRepeat c then scNumFiles c
             else if scNumFiles c = 0 then length (scFilesVector c)
             else min (scNumFiles c) (length (scFilesVector c))]))"
proof -
  have n: "0 < length (scFilesVector c)" "length (scFilesVector c) < 2 ^ 63" using assms(3, 4) by simp_all
  have ok: "fetch_ok c s \<and> flow_ok c frames s J" using assms(1)
  proof (induction rule: source_reach.induct)
    case source_reach_init
    then show ?case
      using n by (simp add: source_init_def fetch_ok_def flow_ok_def cq_init_def files_queued_def)
  next
    case (source_reach_fetch s J copied)
    then show ?case using fetch_fetch_ok [OF assms(2) n] fetch_flow [OF assms(2) n] by blast
  next
    case (source_reach_read s J)
    then show ?case using read_ok by blast
  next
    case (source_reach_inject s J x s')
    then show ?case using inject_ok by blast
  next
    case (source_reach_stop s J)
    then show ?case using stop_ok by blast
  qed
  then have eq: "J @ mContainer (ssReadStfQueue s) @ ssPending s @ concat (map frames (mContainer (ssQueue s))) =
      concat (map (\<lambda>k. frames (local_file c (k mod length (scFilesVector c)))) [0..<files_queued s])"
    using assms(5) by (simp add: flow_ok_def)
  have "files_queued s = (if scRepeat c then scNumFiles c else if scNumFiles c = 0 then length (scFilesVector c)
      else min (scNumFiles c) (length (scFilesVector c)))"
    "mContainer (ssReadStfQueue s) = []" "ssPending s = []" "mContainer (ssQueue s) = []" if "ssInjectDone s"
    using ok assms(5) that by (auto simp: flow_ok_def fetch_ok_def files_queued_def)
  then show ?thesis using eq by auto
qed

definition play_config :: source_config where
  "play_config = \<lparr>scFilesVector = [''a.tf'', ''b.tf''], scRepeat = False, scNumFiles = 0, scLocalFiles = True, scCopyDst = []\<rparr>"

definition play_state :: "nat source_state" where
  "play_state = read_step 1 (\<lambda>_. [7]) (read_step 1 (\<lambda>_. [7])
     (fetch_step play_config True (fetch_step play_config True (fetch_step play_config True source_init))))"

lemma source_in_order_witness:
  "\<exists>s. [7] @ mContainer (ssReadStfQueue s) @ ssPending s @ concat (map (\<lambda>_. [7]) (mContainer (ssQueue s))) =
     concat (map (\<lambda>k. [7 :: nat]) [0..<files_queued s])"
proof -
  have r: "source_reach play_config 1 (\<lambda>_. [7]) play_state []"
    unfolding play_state_def
    by (rule source_reach_read [OF source_reach_read [OF source_reach_fetch [OF source_reach_fetch [OF source_reach_fetch [OF source_reach_init]]]]])
  have p: "play_state = (source_init :: nat source_state)\<lparr>ssFileIndex := 0, ssTotalFiles := 1, ssSuccessful := 1,
      ssFile := Some (local_file play_config 0), ssPending := [], ssWait := True,
      ssReadStfQueue := \<lparr>mContainer = [7], cqRunning = True\<rparr>\<rparr>"
    by (simp add: play_state_def fetch_step_def fetch_top_def fetch_file_def fetch_push_def fetch_end_def read_step_def
        read_pop_def read_push_def cq_push_def cq_pop_def emplace_def source_init_def cq_init_def play_config_def Let_def)
  obtain s where i: "inject_step play_state = (Some 7, s)" "ssRunning s"
    by (simp add: p inject_step_def source_init_def cq_pop_def)
  have "source_reach play_config 1 (\<lambda>_. [7]) s ([] @ (case Some 7 of None \<Rightarrow> [] | Some y \<Rightarrow> [y]))"
    by (rule source_reach_inject [OF r i(1)])
  from source_in_order [OF this _ _ _ i(2)]
  show ?thesis by (intro exI [of _ s]) (simp add: play_config_def)
qed

text \<open>The options that are accepted give the hypotheses of this property.\<close>

lemma source_files_nonempty: "source_files W opt = Some (fs, loc, dst) \<Longrightarrow> fs \<noteq> []"
  by (auto simp: source_files_def source_remote_def Let_def split: if_splits option.splits)

lemma read_count_files: "source_read_count v c = Some c' \<Longrightarrow> scFilesVector c' = scFilesVector c"
  by (auto simp: source_read_count_def split: option.splits if_splits)

lemma config_accepted:
  assumes "source_loadVerifyConfig W opt = Some r" and "srEnabled r"
  shows "scFilesVector (srConfig r) \<noteq> [] \<and> 0 < srPreReadStfs r"
proof -
  have "roEnable opt" using assms by (auto simp: source_loadVerifyConfig_def source_settings_of_def split: if_splits)
  then obtain x c where x: "source_files W opt = Some x" "source_read_count (swReadCount W) (source_config_of opt x) = Some c"
    "r = source_settings_of opt c" "roPreRead opt \<noteq> 0"
    using assms(1) by (auto simp: source_loadVerifyConfig_def split: if_splits option.splits)
  obtain fs loc dst where "x = (fs, loc, dst)" by (cases x) auto
  then show ?thesis
    using x read_count_files [OF x(2)] source_files_nonempty [of W opt fs loc dst]
    by (simp add: source_settings_of_def source_config_of_def word_gt_0)
qed

end
