(* ===== verification/Disc_Config.thy ===== *)
theory Disc_Config
  imports DD_Discovery TfFile_Names
begin

text \<open>
  Process types, command line options and number parsing of the discovery layer
  (\<open>common/discovery/Config.h\<close>, \<open>ConfigParameters.h\<close>, the conversions of \<open>ConfigConsul.cxx\<close>).
  \<open>Inl\<close> is an exception that leaves the function.
\<close>

datatype config_error = InvalidArgument string | RuntimeError string | MapOutOfRange

section \<open>Process types\<close>

record ProcessType =
  mType :: int

definition PT_StfBuilder :: ProcessType where "PT_StfBuilder = \<lparr>mType = 1\<rparr>"
definition PT_StfSender :: ProcessType where "PT_StfSender = \<lparr>mType = 2\<rparr>"
definition PT_TfBuilder :: ProcessType where "PT_TfBuilder = \<lparr>mType = 3\<rparr>"
definition PT_TfScheduler :: ProcessType where "PT_TfScheduler = \<lparr>mType = 4\<rparr>"

definition process_type_of_string :: "string \<Rightarrow> ProcessType" where
  "process_type_of_string s =
     (if s = ''StfBuilder'' then PT_StfBuilder
      else if s = ''StfSender'' then PT_StfSender
      else if s = ''TfBuilder'' then PT_TfBuilder
      else if s = ''TfScheduler'' then PT_TfScheduler
      else \<lparr>mType = -1\<rparr>)"

definition process_type_string :: "ProcessType \<Rightarrow> string" where
  "process_type_string p =
     (if p = PT_StfBuilder then ''StfBuilder''
      else if p = PT_StfSender then ''StfSender''
      else if p = PT_TfBuilder then ''TfBuilder''
      else if p = PT_TfScheduler then ''TfScheduler''
      else ''UnknownType'')"

definition cProcessTypeMap :: "(int, ProcessTypePB) smap" where
  "cProcessTypeMap =
     [(mType PT_StfBuilder, ProcStfBuilder), (mType PT_StfSender, ProcStfSender),
      (mType PT_TfBuilder, ProcTfBuilder), (mType PT_TfScheduler, ProcTfScheduler)]"

definition to_ProcessTypePB :: "ProcessType \<Rightarrow> config_error + ProcessTypePB" where
  "to_ProcessTypePB p =
     (case sm_get cProcessTypeMap (mType p) of None \<Rightarrow> Inl MapOutOfRange | Some t \<Rightarrow> Inr t)"

fun process_pb_string :: "ProcessTypePB \<Rightarrow> string" where
  "process_pb_string ProcStfBuilder = ''StfBuilder''"
| "process_pb_string ProcStfSender = ''StfSender''"
| "process_pb_string ProcTfBuilder = ''TfBuilder''"
| "process_pb_string ProcTfScheduler = ''TfScheduler''"
| "process_pb_string ProcUnknown = ''UnknownType''"

section \<open>States and requests\<close>

datatype TfBuilderState = TfbInitialized | TfbConnecting | TfbConnected | TfbRunning

fun tfb_state_string :: "TfBuilderState \<Rightarrow> string" where
  "tfb_state_string TfbInitialized = ''initialized''"
| "tfb_state_string TfbConnecting = ''connecting''"
| "tfb_state_string TfbConnected = ''connected''"
| "tfb_state_string TfbRunning = ''running''"

record PartitionRequest =
  mPartitionId :: string
  mStfSenderIdList :: "string list"

section \<open>Options\<close>

text \<open>
  The options of the command line are a function from the key to the value. \<open>iface\<close> is
  \<open>getInterfaceIP\<close>, \<open>None\<close> when it throws.
\<close>

definition getNetworkIfAddressOption ::
    "(string \<Rightarrow> string option) \<Rightarrow> (string \<Rightarrow> string) \<Rightarrow> config_error + string" where
  "getNetworkIfAddressOption iface opts =
     (let i = opts ''discovery-net-if''
      in if i = [] then Inl (InvalidArgument ''Network interface not provided.'')
         else (case iface i of
             None \<Rightarrow> Inl (InvalidArgument (''Error while looking up address for interface '' @ i))
           | Some a \<Rightarrow>
               if a = [] then Inl (InvalidArgument (''Could not find address for interface '' @ i))
               else Inr a))"

definition getEndpointOption :: "(string \<Rightarrow> string) \<Rightarrow> string" where
  "getEndpointOption opts = opts ''discovery-endpoint''"

text \<open>\<open>uuid\<close> is the text of the random identifier, \<open>host\<close> the name of the host.\<close>

definition getIdOption ::
    "string \<Rightarrow> string \<Rightarrow> ProcessType \<Rightarrow> (string \<Rightarrow> string) \<Rightarrow> bool \<Rightarrow> config_error + string" where
  "getIdOption uuid host p opts required =
     (let i = opts ''discovery-id''
      in if i \<noteq> [] then Inr i
         else if required \<and> p = PT_StfSender then
           Inl (InvalidArgument ''Parameter 'discovery-id' for StfSender must be provided on command line.'')
         else Inr (process_type_string p @ ''-'' @ takeWhile (\<lambda>c. c \<noteq> CHR ''.'') host @ ''-'' @ take 8 uuid))"

definition getPartitionOption :: "(string \<Rightarrow> string) \<Rightarrow> string option" where
  "getPartitionOption opts =
     (let i = opts ''discovery-partition'' in if i \<noteq> [] then Some i else None)"

section \<open>Numbers as text\<close>

text \<open>
  \<open>boost::lexical_cast\<close> to a 64-bit integer: an optional sign, then digits up to the end of the
  text; \<open>None\<close> is \<open>bad_lexical_cast\<close>. The unsigned conversion negates modulo \<open>2^64\<close>.
\<close>

definition lex_digits :: "string \<Rightarrow> nat option" where
  "lex_digits ds = (if ds \<noteq> [] \<and> list_all is_digit ds then Some (dec_value ds) else None)"

definition lexical_int64 :: "string \<Rightarrow> u64 option" where
  "lexical_int64 s =
     (let neg = (s \<noteq> [] \<and> hd s = CHR ''-''); pos = (s \<noteq> [] \<and> hd s = CHR ''+'')
      in case lex_digits (if neg \<or> pos then tl s else s) of
           None \<Rightarrow> None
         | Some n \<Rightarrow>
             if neg then (if n \<le> 2 ^ 63 then Some (- of_nat n) else None)
             else (if n < 2 ^ 63 then Some (of_nat n) else None))"

definition lexical_uint64 :: "string \<Rightarrow> u64 option" where
  "lexical_uint64 s =
     (let neg = (s \<noteq> [] \<and> hd s = CHR ''-''); pos = (s \<noteq> [] \<and> hd s = CHR ''+'')
      in case lex_digits (if neg \<or> pos then tl s else s) of
           None \<Rightarrow> None
         | Some n \<Rightarrow> if n < 2 ^ 64 then Some (if neg then - of_nat n else of_nat n) else None)"

text \<open>\<open>std::to_string\<close>\<close>

definition int64_string :: "u64 \<Rightarrow> string" where
  "int64_string n = (if sint n < 0 then CHR ''-'' # dec_string (nat (- sint n)) else dec_string (nat (sint n)))"

definition uint64_string :: "u64 \<Rightarrow> string" where
  "uint64_string n = dec_string (unat n)"

section \<open>Properties\<close>

lemma process_type_names:
  "process_type_string (process_type_of_string s) \<noteq> ''UnknownType'' \<Longrightarrow>
    process_type_string (process_type_of_string s) = s"
  by (auto simp: process_type_of_string_def process_type_string_def PT_StfBuilder_def PT_StfSender_def
      PT_TfBuilder_def PT_TfScheduler_def)

lemma process_pb_names:
  "to_ProcessTypePB p = Inr t \<Longrightarrow> process_pb_string t = process_type_string p"
  by (cases p) (auto simp: to_ProcessTypePB_def cProcessTypeMap_def sm_get_def process_type_string_def PT_StfBuilder_def
      PT_StfSender_def PT_TfBuilder_def PT_TfScheduler_def split: if_splits)

lemma lex_digits_dec [simp]: "lex_digits (dec_string n) = Some n"
  by (simp add: lex_digits_def dec_string_digits dec_value_dec_string)

lemma hd_dec_digit: "is_digit (hd (dec_string n))"
  using dec_string_digits [of n] by (cases "dec_string n") auto

lemma dec_no_sign [simp]: "hd (dec_string n) \<noteq> CHR ''-''" "hd (dec_string n) \<noteq> CHR ''+''"
  using hd_dec_digit [of n] by (auto simp: is_digit_def)

lemma lexical_uint64_string: "lexical_uint64 (uint64_string n) = Some n"
  using unsigned_less [where 'a = nat and w = n]
  by (simp add: lexical_uint64_def uint64_string_def)

lemma sint_bounds64: "- (2 ^ 63) \<le> sint (n :: u64)" "sint (n :: u64) < 2 ^ 63"
  using sint_greater_eq [of n] sint_less [of n] by simp_all

lemma lexical_int64_string: "lexical_int64 (int64_string n) = Some n"
proof (cases "sint n < 0")
  case True
  have "nat (- sint n) \<le> 2 ^ 63" using sint_bounds64(1) [of n] by simp
  moreover have "- (of_nat (nat (- sint n)) :: u64) = n"
    using True by (simp add: of_nat_nat)
  ultimately show ?thesis using True by (simp add: lexical_int64_def int64_string_def)
next
  case False
  have "nat (sint n) < 2 ^ 63" using sint_bounds64(2) [of n] by simp
  then show ?thesis using False by (simp add: lexical_int64_def int64_string_def)
qed

lemma uint64_string_no_minus: "hd (uint64_string n) \<noteq> CHR ''-''" "uint64_string n \<noteq> []"
  by (simp_all add: uint64_string_def)

lemma int64_string_nonempty [simp]: "int64_string n \<noteq> []"
  by (simp add: int64_string_def)

end
