(* ===== verification/Disc_Consul.thy ===== *)
theory Disc_Consul
  imports Disc_Config
begin

text \<open>
  The client of the Consul key/value store (\<open>common/discovery/ConfigConsul.h\<close>).

  The store and the library that talks to it are the parameter \<open>consul\<close>: every call maps the
  state of the service to an answer, \<open>None\<close> when it throws, and the new state. A \<open>Kv\<close> that
  cannot be created throws at its first call. Serialising a status and parsing it are
  parameters too. The threads hold \<open>mTunablesLock\<close> for a whole operation or round, so
  operations and rounds are atomic.
\<close>

section \<open>The service\<close>

record KeyValue =
  kv_key :: string
  kv_value :: string
  kv_valid :: bool

record 'c consul =
  c_items :: "string \<Rightarrow> 'c \<Rightarrow> KeyValue list option \<times> 'c"
  c_item :: "string \<Rightarrow> 'c \<Rightarrow> KeyValue option \<times> 'c"
  c_count :: "string \<Rightarrow> 'c \<Rightarrow> nat option \<times> 'c"
  c_set :: "string \<Rightarrow> string \<Rightarrow> 'c \<Rightarrow> unit option \<times> 'c"
  c_erase :: "string \<Rightarrow> 'c \<Rightarrow> unit option \<times> 'c"
  c_erase_all :: "string \<Rightarrow> 'c \<Rightarrow> unit option \<times> 'c"

section \<open>State\<close>

datatype config_kind = CfgTfScheduler | CfgStfBuilder | CfgStfSender | CfgTfBuilder

record 'b config_status =
  cs_type :: ProcessTypePB
  cs_process_id :: string
  cs_process_state :: ProcessState
  cs_partition :: string
  cs_run_number :: u64
  cs_partition_state :: PartitionState
  cs_last_update :: string
  cs_last_update_t :: u64
  cs_body :: 'b

text \<open>
  \<open>ccConnected\<close>: \<open>mConsul\<close> is not null. The two prefixes \<open>ccWritePrefix\<close> and
  \<open>ccReadPrefix\<close> are the function-local statics of \<open>write\<close> and \<open>getTfSchedulerConfig\<close>, which
  keep the value of the first call.
\<close>

record 'b consul_config =
  ccKind :: config_kind
  ccConnected :: bool
  mConsulKey :: string
  ccRunning :: bool
  mTunablesRead :: bool
  mTunables :: "(string, string) smap"
  mTunablesToAdd :: "(string, string) smap"
  mStatus :: "'b config_status"
  ccWritePrefix :: "string option"
  ccReadPrefix :: "string option"

definition new_config :: "config_kind \<Rightarrow> 'b config_status \<Rightarrow> 'b consul_config" where
  "new_config kind st =
     \<lparr>ccKind = kind, ccConnected = False, mConsulKey = [], ccRunning = True, mTunablesRead = False,
      mTunables = [], mTunablesToAdd = [], mStatus = st, ccWritePrefix = None, ccReadPrefix = None\<rparr>"

section \<open>Prefixes\<close>

definition getInfoPrefix :: "string \<Rightarrow> string" where
  "getInfoPrefix p = ''epn/data-dist/partition/'' @ p @ ''/info''"

definition getGlobalTunablePrefix :: string where
  "getGlobalTunablePrefix = ''epn/data-dist/parameters/Global/''"

fun getTunablePrefix :: "config_kind \<Rightarrow> string" where
  "getTunablePrefix CfgTfScheduler = ''epn/data-dist/parameters/TfScheduler/''"
| "getTunablePrefix CfgStfBuilder = ''epn/data-dist/parameters/StfBuilder/''"
| "getTunablePrefix CfgStfSender = ''epn/data-dist/parameters/StfSender/''"
| "getTunablePrefix CfgTfBuilder = ''epn/data-dist/parameters/TfBuilder/''"

definition starts_with :: "string \<Rightarrow> string \<Rightarrow> bool" where
  "starts_with s p \<longleftrightarrow> take (length p) s = p"

definition full_key :: "config_kind \<Rightarrow> string \<Rightarrow> string" where
  "full_key K k = (if starts_with k ''DataDist'' then getGlobalTunablePrefix else getTunablePrefix K) @ k"

section \<open>The polling thread\<close>

text \<open>
  The items of one prefix. The flag is false when an exception ends the round: a call throws,
  or the key is shorter than the prefix (\<open>substr\<close>).
\<close>

fun take_items :: "string \<Rightarrow> KeyValue list \<Rightarrow> (string, string) smap \<Rightarrow> bool \<times> (string, string) smap" where
  "take_items p [] m = (True, m)"
| "take_items p (kv # kvs) m =
     (if kv_valid kv \<and> kv_value kv \<noteq> [] then
        (if length (kv_key kv) < length p then (False, m)
         else take_items p kvs (sm_put (drop (length p) (kv_key kv)) (kv_value kv) m))
      else take_items p kvs m)"

definition poll_prefix ::
    "'c consul \<Rightarrow> string \<Rightarrow> (string, string) smap \<Rightarrow> 'c \<Rightarrow> bool \<times> (string, string) smap \<times> 'c" where
  "poll_prefix K p m c =
     (case c_items K p c of
        (None, c1) \<Rightarrow> (False, m, c1)
      | (Some [], c1) \<Rightarrow> (case c_set K p [] c1 of (r, c2) \<Rightarrow> (r \<noteq> None, m, c2))
      | (Some kvs, c1) \<Rightarrow> (case take_items p kvs m of (ok, m1) \<Rightarrow> (ok, m1, c1)))"

fun poll_prefixes ::
    "'c consul \<Rightarrow> string list \<Rightarrow> (string, string) smap \<Rightarrow> 'c \<Rightarrow> bool \<times> (string, string) smap \<times> 'c" where
  "poll_prefixes K [] m c = (True, m, c)"
| "poll_prefixes K (p # ps) m c =
     (case poll_prefix K p m c of (ok, m1, c1) \<Rightarrow> if ok then poll_prefixes K ps m1 c1 else (False, m1, c1))"

fun write_back :: "'c consul \<Rightarrow> config_kind \<Rightarrow> (string \<times> string) list \<Rightarrow> 'c \<Rightarrow> bool \<times> 'c" where
  "write_back K t [] c = (True, c)"
| "write_back K t (e # es) c =
     (case c_set K (full_key t (fst e)) (snd e) c of (r, c1) \<Rightarrow>
        if r = None then (False, c1) else write_back K t es c1)"

text \<open>One round of \<open>ConsulPollingThread\<close>.\<close>

definition ConsulPollingThread_round :: "'c consul \<Rightarrow> 'b consul_config \<Rightarrow> 'c \<Rightarrow> 'b consul_config \<times> 'c" where
  "ConsulPollingThread_round K s c =
     (case poll_prefixes K [getGlobalTunablePrefix, getTunablePrefix (ccKind s)] [] c of (ok, m, c1) \<Rightarrow>
        if \<not> ok then (s\<lparr>mTunables := m, mTunablesRead := True\<rparr>, c1)
        else
          (case write_back K (ccKind s) (mTunablesToAdd s) c1 of (ok2, c2) \<Rightarrow>
             (s\<lparr>mTunables := m, mTunablesRead := True,
                mTunablesToAdd := (if ok2 then [] else mTunablesToAdd s)\<rparr>, c2)))"

section \<open>Construction and clean-up\<close>

text \<open>
  \<open>connect\<close>: whether the connection object is created. The constructor waits for the first
  round of the thread it has started.
\<close>

definition consul_new ::
    "'c consul \<Rightarrow> bool \<Rightarrow> config_kind \<Rightarrow> ProcessType \<Rightarrow> string \<Rightarrow> bool \<Rightarrow> 'b config_status \<Rightarrow> 'c \<Rightarrow>
       config_error + ('b consul_config \<times> 'c)" where
  "consul_new K connect kind ptype endpoint required st c =
     (let empty = (endpoint = []); noop = starts_with endpoint ''no-op'';
          s = new_config kind st
      in if \<not> required \<and> (empty \<or> noop) then Inr (s, c)
         else if required \<and> empty then Inl (InvalidArgument ''discovery-endpoint parameter is not provided'')
         else if noop then
           (if required \<and> (ptype = PT_StfSender \<or> ptype = PT_TfBuilder \<or> ptype = PT_TfScheduler) then
              Inl (InvalidArgument ''Error: A valid discovery-endpoint (consul) parameter must be provided.'')
            else Inr (s, c))
         else if connect then Inr (ConsulPollingThread_round K (s\<lparr>ccConnected := True\<rparr>) c)
         else Inr (s, c))"

definition consul_cleanup :: "'c consul \<Rightarrow> 'b consul_config \<Rightarrow> 'c \<Rightarrow> 'b consul_config \<times> 'c" where
  "consul_cleanup K s c =
     (let s1 = s\<lparr>ccRunning := False\<rparr>
      in if \<not> ccConnected s \<or> mConsulKey s = [] then (s1, c)
         else (s1, snd (c_erase_all K (mConsulKey s) c)))"

section \<open>Publishing the status\<close>

definition createKeyPrefix :: "'b consul_config \<Rightarrow> config_error + 'b consul_config" where
  "createKeyPrefix s =
     (let st = mStatus s
      in if cs_partition st = [] then Inl (RuntimeError ''createKeyPrefix: partition id must be set'')
         else Inr (s\<lparr>mConsulKey := ''epn/data-dist/partition/'' @ cs_partition st @ ''/'' @
             process_pb_string (cs_type st) @ ''/'' @ cs_process_id st\<rparr>))"

definition write_string :: "'c consul \<Rightarrow> string \<Rightarrow> bool \<Rightarrow> 'b consul_config \<Rightarrow> 'c \<Rightarrow> bool \<times> 'c" where
  "write_string K dat initial s c =
     (if \<not> ccConnected s then (False, c)
      else if initial then
        (case c_count K (mConsulKey s) c of
           (None, c1) \<Rightarrow> (False, c1)
         | (Some n, c1) \<Rightarrow>
             if n > 0 then (False, c1)
             else (case c_set K (mConsulKey s) dat c1 of (r, c2) \<Rightarrow> (r \<noteq> None, c2)))
      else (case c_set K (mConsulKey s) dat c of (r, c2) \<Rightarrow> (r \<noteq> None, c2)))"

fun set_all :: "'c consul \<Rightarrow> (string \<times> string) list \<Rightarrow> 'c \<Rightarrow> bool \<times> 'c" where
  "set_all K [] c = (True, c)"
| "set_all K (e # es) c =
     (case c_set K (fst e) (snd e) c of (r, c1) \<Rightarrow> if r = None then (False, c1) else set_all K es c1)"

fun partition_state_number :: "PartitionState \<Rightarrow> nat" where
  "partition_state_number PARTITION_IGNORE = 0"
| "partition_state_number PARTITION_UNKNOWN = 1"
| "partition_state_number PARTITION_ERROR = 2"
| "partition_state_number PARTITION_REQUEST_INVALID = 3"
| "partition_state_number PARTITION_CONFIGURING = 4"
| "partition_state_number PARTITION_CONFIGURED = 5"
| "partition_state_number PARTITION_TERMINATING = 6"
| "partition_state_number PARTITION_TERMINATED = 7"

fun PartitionState_Name :: "PartitionState \<Rightarrow> string" where
  "PartitionState_Name PARTITION_IGNORE = ''IGNORE__''"
| "PartitionState_Name PARTITION_UNKNOWN = ''PARTITION_UNKNOWN''"
| "PartitionState_Name PARTITION_ERROR = ''PARTITION_ERROR''"
| "PartitionState_Name PARTITION_REQUEST_INVALID = ''PARTITION_REQUEST_INVALID''"
| "PartitionState_Name PARTITION_CONFIGURING = ''PARTITION_CONFIGURING''"
| "PartitionState_Name PARTITION_CONFIGURED = ''PARTITION_CONFIGURED''"
| "PartitionState_Name PARTITION_TERMINATING = ''PARTITION_TERMINATING''"
| "PartitionState_Name PARTITION_TERMINATED = ''PARTITION_TERMINATED''"

text \<open>\<open>time\<close>: the text and the milliseconds of \<open>getCurrentTimeString\<close>.\<close>

definition consul_write ::
    "'c consul \<Rightarrow> ('b config_status \<Rightarrow> string) \<Rightarrow> string \<times> u64 \<Rightarrow> bool \<Rightarrow> 'b consul_config \<Rightarrow> 'c \<Rightarrow>
       config_error + (bool \<times> 'b consul_config \<times> 'c)" where
  "consul_write K serialize time initial s c =
     (if \<not> ccConnected s then Inr (False, s, c)
      else (case createKeyPrefix s of
          Inl e \<Rightarrow> Inl e
        | Inr s1 \<Rightarrow>
            (let st = (mStatus s1)\<lparr>cs_last_update := fst time, cs_last_update_t := snd time\<rparr>;
                 s2 = s1\<lparr>mStatus := st\<rparr>;
                 dat = serialize st
             in if ccKind s2 = CfgTfScheduler then
                  (let p = (case ccWritePrefix s2 of Some p \<Rightarrow> p | None \<Rightarrow> getInfoPrefix (cs_partition st));
                       s3 = s2\<lparr>ccWritePrefix := Some p\<rparr>;
                       c1 = snd (set_all K
                         [(p @ ''/partition-state'', dec_string (partition_state_number (cs_partition_state st))),
                          (p @ ''/partition-state-str'', PartitionState_Name (cs_partition_state st)),
                          (p @ ''/last-update'', fst time)] c)
                   in case write_string K dat initial s3 c1 of (ok, c2) \<Rightarrow> Inr (ok, s3, c2))
                else (case write_string K dat initial s2 c of (ok, c2) \<Rightarrow> Inr (ok, s2, c2)))))"

section \<open>Parameters\<close>

definition add_tunable :: "string \<Rightarrow> string \<Rightarrow> 'b consul_config \<Rightarrow> 'b consul_config" where
  "add_tunable k v s = s\<lparr>mTunablesToAdd := sm_put k v (mTunablesToAdd s)\<rparr>"

definition getBoolParam :: "string \<Rightarrow> bool \<Rightarrow> 'b consul_config \<Rightarrow> bool \<times> 'b consul_config" where
  "getBoolParam k d s =
     (case sm_get (mTunables s) k of
        None \<Rightarrow> (d, add_tunable k (if d then ''true'' else ''false'') s)
      | Some v \<Rightarrow> (v = ''true'' \<or> v = ''TRUE'' \<or> v = ''True'' \<or> v = ''1'', s))"

definition getStringParam :: "string \<Rightarrow> string \<Rightarrow> 'b consul_config \<Rightarrow> string \<times> 'b consul_config" where
  "getStringParam k d s =
     (case sm_get (mTunables s) k of None \<Rightarrow> (d, add_tunable k d s) | Some v \<Rightarrow> (v, s))"

definition getInt64Param :: "string \<Rightarrow> u64 \<Rightarrow> 'b consul_config \<Rightarrow> u64 \<times> 'b consul_config" where
  "getInt64Param k d s =
     (case sm_get (mTunables s) k of
        None \<Rightarrow> (d, add_tunable k (int64_string d) s)
      | Some v \<Rightarrow>
          (case lexical_int64 v of None \<Rightarrow> (d, add_tunable k (int64_string d) s) | Some n \<Rightarrow> (n, s)))"

definition getUInt64Param :: "string \<Rightarrow> u64 \<Rightarrow> 'b consul_config \<Rightarrow> u64 \<times> 'b consul_config" where
  "getUInt64Param k d s =
     (case sm_get (mTunables s) k of
        None \<Rightarrow> (d, add_tunable k (uint64_string d) s)
      | Some v \<Rightarrow>
          (case (if v \<noteq> [] \<and> hd v = CHR ''-'' then None else lexical_uint64 v) of
             None \<Rightarrow> (d, add_tunable k (uint64_string d) s)
           | Some n \<Rightarrow> (n, s)))"

section \<open>Partition requests\<close>

text \<open>\<open>boost::trim_copy\<close> and \<open>boost::split\<close> with \<open>token_compress_on\<close>.\<close>

definition is_trim_space :: "char \<Rightarrow> bool" where
  "is_trim_space c \<longleftrightarrow> (of_char c :: nat) = 32 \<or> 9 \<le> (of_char c :: nat) \<and> (of_char c :: nat) \<le> 13"

definition trim_copy :: "string \<Rightarrow> string" where
  "trim_copy s = rev (dropWhile is_trim_space (rev (dropWhile is_trim_space s)))"

definition is_separator :: "char \<Rightarrow> bool" where
  "is_separator c \<longleftrightarrow> (of_char c :: nat) \<in> {59, 44, 10, 9, 13, 32}"

function split_compress :: "(char \<Rightarrow> bool) \<Rightarrow> string \<Rightarrow> string list" where
  "split_compress P s =
     (case dropWhile (\<lambda>c. \<not> P c) s of
        [] \<Rightarrow> [s]
      | c # cs \<Rightarrow> takeWhile (\<lambda>c. \<not> P c) s # split_compress P (dropWhile P cs))"
  by pat_completeness auto
termination
proof (relation "measure (\<lambda>(P, s). length s)", goal_cases)
  case (2 P s c cs)
  have "length (dropWhile (\<lambda>c. \<not> P c) s) \<le> length s" by (simp add: length_dropWhile_le)
  moreover have "length (dropWhile P cs) \<le> length cs" by (simp add: length_dropWhile_le)
  ultimately show ?case using 2 by simp
qed simp

declare split_compress.simps [simp del]

definition sReqKeyPrefix :: string where
  "sReqKeyPrefix = ''epn/data-dist/request''"

definition sInvalidKeyPrefix :: string where
  "sInvalidKeyPrefix = ''epn/data-dist/invalid_requests/''"

text \<open>The checks on the items found; \<open>None\<close>: the request is not valid.\<close>

definition check_request :: "KeyValue list \<Rightarrow> PartitionRequest option" where
  "check_request items =
     (if length items \<noteq> 2 then None
      else
        (case find (\<lambda>kv. kv_key kv = sReqKeyPrefix @ ''/partition-id'') items of
           None \<Rightarrow> None
         | Some pid \<Rightarrow>
             (case find (\<lambda>kv. kv_key kv = sReqKeyPrefix @ ''/stf-sender-id-list'') items of
                None \<Rightarrow> None
              | Some flps \<Rightarrow>
                  (let p = trim_copy (kv_value pid);
                       ids = split_compress is_separator (kv_value flps);
                       uids = remdups (sort ids)
                   in if p = [] then None
                      else if uids = [] then None
                      else if length ids \<noteq> length uids then None
                      else Some \<lparr>mPartitionId = p, mStfSenderIdList = uids\<rparr>))))"

text \<open>Moving the items: the flag is false when a call throws, or \<open>substr\<close> of a key that is too short.\<close>

fun move_items :: "'c consul \<Rightarrow> string \<Rightarrow> KeyValue list \<Rightarrow> 'c \<Rightarrow> bool \<times> 'c" where
  "move_items K info [] c = (True, c)"
| "move_items K info (kv # kvs) c =
     (if length (kv_key kv) < length sReqKeyPrefix then (False, c)
      else
        (case c_set K (info @ drop (length sReqKeyPrefix) (kv_key kv)) (kv_value kv) c of (r, c1) \<Rightarrow>
           if r = None then (False, c1)
           else
             (case c_erase K (kv_key kv) c1 of (r2, c2) \<Rightarrow>
                if r2 = None then (False, c2) else move_items K info kvs c2)))"

text \<open>The answer, the request it fills in, and the service.\<close>

definition getNewPartitionRequest ::
    "'c consul \<Rightarrow> string \<times> u64 \<Rightarrow> PartitionRequest \<Rightarrow> 'c \<Rightarrow> bool \<times> PartitionRequest \<times> 'c" where
  "getNewPartitionRequest K time req c =
     (case c_items K sReqKeyPrefix c of
        (None, c1) \<Rightarrow> (False, req, c1)
      | (Some items, c1) \<Rightarrow>
          if length items < 2 then (False, req, c1)
          else
            (let r = check_request items;
                 ok = (r \<noteq> None);
                 req1 = (case r of None \<Rightarrow> req | Some q \<Rightarrow> q);
                 info = (if ok then getInfoPrefix (mPartitionId req1) else sInvalidKeyPrefix @ dec_string (unat (snd time)))
             in case c_set K (info @ ''/request-time'') (fst time) c1 of (w, c2) \<Rightarrow>
                  if w = None then (ok, req1, c2)
                  else (ok, req1, snd (move_items K info items c2))))"

section \<open>Reading the status of other processes\<close>

text \<open>
  \<open>parse\<close> is \<open>ParseFromString\<close>: whether the text is a message, and what the message object
  holds afterwards. The answer is true also when it is not.
\<close>

definition get_config ::
    "'c consul \<Rightarrow> (string \<Rightarrow> bool \<times> 's) \<Rightarrow> string \<Rightarrow> 's \<Rightarrow> 'c \<Rightarrow> bool \<times> 's \<times> 'c" where
  "get_config K parse key st c =
     (case c_item K key c of
        (None, c1) \<Rightarrow> (False, st, c1)
      | (Some kv, c1) \<Rightarrow>
          if \<not> kv_valid kv then (False, st, c1)
          else if kv_value kv = [] then (False, st, c1)
          else (True, snd (parse (kv_value kv)), c1))"

definition getStfSenderConfig ::
    "'c consul \<Rightarrow> (string \<Rightarrow> bool \<times> 's) \<Rightarrow> string \<Rightarrow> string \<Rightarrow> 's \<Rightarrow> 'c \<Rightarrow> bool \<times> 's \<times> 'c" where
  "getStfSenderConfig K parse part i st c =
     get_config K parse (''epn/data-dist/partition/'' @ part @ ''/StfSender/'' @ i) st c"

definition getTfBuilderConfig ::
    "'c consul \<Rightarrow> (string \<Rightarrow> bool \<times> 's) \<Rightarrow> string \<Rightarrow> string \<Rightarrow> 's \<Rightarrow> 'c \<Rightarrow> bool \<times> 's \<times> 'c" where
  "getTfBuilderConfig K parse part i st c =
     get_config K parse (''epn/data-dist/partition/'' @ part @ ''/TfBuilder/'' @ i) st c"

text \<open>
  The item with the smallest key, the first one after the sort by the keys; the keys of the
  store are unique.
\<close>

fun smallest_item :: "KeyValue \<Rightarrow> KeyValue list \<Rightarrow> KeyValue" where
  "smallest_item b [] = b"
| "smallest_item b (kv # kvs) = smallest_item (if kv_key kv < kv_key b then kv else b) kvs"

text \<open>\<open>stoul\<close> skips white space and a sign, and throws without a digit.\<close>

definition stoul :: "string \<Rightarrow> nat option" where
  "stoul s =
     (let t = dropWhile is_trim_space s;
          neg = (t \<noteq> [] \<and> hd t = CHR ''-''); pos = (t \<noteq> [] \<and> hd t = CHR ''+'');
          ds = takeWhile is_digit (if neg \<or> pos then tl t else t)
      in if ds = [] \<or> 2 ^ 64 \<le> dec_value ds then None
         else Some (if neg then (2 ^ 64 - dec_value ds) mod 2 ^ 64 else dec_value ds))"

text \<open>
  \<open>state\<close> is \<open>set_partition_state\<close> on the message that is filled in; \<open>parse\<close> replaces the whole
  message.
\<close>

definition getTfSchedulerConfig ::
    "'c consul \<Rightarrow> (string \<Rightarrow> bool \<times> 's) \<Rightarrow> (nat \<Rightarrow> 's \<Rightarrow> 's) \<Rightarrow> string \<Rightarrow> 'b consul_config \<Rightarrow> 's \<Rightarrow> 'c \<Rightarrow>
       bool \<times> 's \<times> 'b consul_config \<times> 'c" where
  "getTfSchedulerConfig K parse state part s st c =
     (let p = (case ccReadPrefix s of Some p \<Rightarrow> p | None \<Rightarrow> getInfoPrefix (cs_partition (mStatus s)));
          s1 = s\<lparr>ccReadPrefix := Some p\<rparr>
      in case c_item K (p @ ''/partition-state'') c of
           (None, c1) \<Rightarrow> (False, st, s1, c1)
         | (Some kv, c1) \<Rightarrow>
             (case (if kv_valid kv \<and> kv_value kv \<noteq> [] then map_option (\<lambda>n. state n st) (stoul (kv_value kv)) else Some st) of
                None \<Rightarrow> (False, st, s1, c1)
              | Some st1 \<Rightarrow>
                  (case c_items K (''epn/data-dist/partition/'' @ part @ ''/TfScheduler'') c1 of
                     (None, c2) \<Rightarrow> (False, st1, s1, c2)
                   | (Some [], c2) \<Rightarrow> (False, st1, s1, c2)
                   | (Some (kv # kvs), c2) \<Rightarrow> (True, snd (parse (kv_value (smallest_item kv kvs))), s1, c2))))"

end
