(* ===== verification/Disc_SchedClient.thy ===== *)
theory Disc_SchedClient
  imports Disc_Consul
begin

text \<open>
  The client of the scheduler (\<open>common/discovery/TfSchedulerRpcClient.{h,cxx}\<close>) that StfSenders and
  TfBuilders use: finding the scheduler through Consul, and the guarded calls with their retries.

  gRPC is outside: a look at the channel (\<open>GetState(true)\<close>) and the outcome of a call, \<open>None\<close> for a
  status that is not OK, are inputs. A loop takes the list of what its rounds see; \<open>None\<close> as its
  value means that it is still waiting when the list ends.
\<close>

section \<open>State\<close>

text \<open>The fields of the scheduler's status the client reads; the state is a number of the enum.\<close>

record sched_conf =
  sf_partition_state :: u32
  sf_endpoint :: string

definition sched_conf_clear :: sched_conf where
  "sched_conf_clear = \<lparr>sf_partition_state = 0, sf_endpoint = []\<rparr>"

definition set_partition_state :: "nat \<Rightarrow> sched_conf \<Rightarrow> sched_conf" where
  "set_partition_state n m = m\<lparr>sf_partition_state := of_nat n\<rparr>"

text \<open>\<open>mChannel\<close>: the endpoint the channel was created for; the stub comes and goes with it.\<close>

record sched_client =
  mTfSchedulerConf :: sched_conf
  mChannel :: "string option"
  mShouldRetryStart :: bool

definition sched_client_new :: sched_client where
  "sched_client_new = \<lparr>mTfSchedulerConf = sched_conf_clear, mChannel = None, mShouldRetryStart = True\<rparr>"

section \<open>Start and stop\<close>

definition sched_client_start ::
    "'c consul \<Rightarrow> (string \<Rightarrow> bool \<times> sched_conf) \<Rightarrow> 'b consul_config \<Rightarrow> sched_client \<Rightarrow> 'c \<Rightarrow>
       bool \<times> sched_client \<times> 'b consul_config \<times> 'c" where
  "sched_client_start K parse cfg s c =
     (if \<not> mShouldRetryStart s then (False, s, cfg, c)
      else
        (case getTfSchedulerConfig K parse set_partition_state (cs_partition (mStatus cfg)) cfg sched_conf_clear c of
           (found, conf, cfg1, c1) \<Rightarrow>
             (let s1 = s\<lparr>mTfSchedulerConf := conf\<rparr>
              in if \<not> found then
                   (if sf_partition_state conf = of_nat (partition_state_number PARTITION_ERROR) \<or>
                       sf_partition_state conf = of_nat (partition_state_number PARTITION_TERMINATED) then
                      (False, s1\<lparr>mShouldRetryStart := False\<rparr>, cfg1, c1)
                    else (False, s1, cfg1, c1))
                 else if mChannel s \<noteq> None then (True, s1, cfg1, c1)
                 else (True, s1\<lparr>mChannel := Some (sf_endpoint conf)\<rparr>, cfg1, c1))))"

definition sched_client_stop :: "sched_client \<Rightarrow> sched_client" where
  "sched_client_stop s = s\<lparr>mTfSchedulerConf := sched_conf_clear, mChannel := None\<rparr>"

definition getEndpoint :: "sched_client \<Rightarrow> string" where
  "getEndpoint s = sf_endpoint (mTfSchedulerConf s)"

section \<open>The channel\<close>

datatype channel_state = CH_IDLE | CH_CONNECTING | CH_READY | CH_TRANSIENT_FAILURE | CH_SHUTDOWN

definition is_ready :: "sched_client \<Rightarrow> channel_state \<Rightarrow> bool" where
  "is_ready s g \<longleftrightarrow> mChannel s \<noteq> None \<and> g = CH_READY"

definition is_alive :: "sched_client \<Rightarrow> channel_state \<Rightarrow> bool" where
  "is_alive s g \<longleftrightarrow> mChannel s \<noteq> None \<and> g \<noteq> CH_SHUTDOWN"

definition updateTimeInformation :: "u64 \<Rightarrow> BasicInfo \<Rightarrow> BasicInfo" where
  "updateTimeInformation t i = i\<lparr>last_update_t := t\<rparr>"

section \<open>Calls\<close>

text \<open>The heartbeat sends the message as it is. The answer is the success and whether the call was made.\<close>

definition HeartBeat :: "sched_client \<Rightarrow> channel_state \<Rightarrow> bool \<Rightarrow> bool \<times> bool" where
  "HeartBeat s g ok = (if is_alive s g then (ok, True) else (False, False))"

text \<open>A round of a loop: the channel before the call, the reply, the channel after a failed call.\<close>

type_synonym 'r round = "channel_state \<times> 'r option \<times> channel_state"

text \<open>
  \<open>NumStfSendersInPartitionRequest_call\<close>: a failed call on a channel that is not ready is repeated. The
  value is the answer and the number of senders left in the output parameter.
\<close>

fun num_senders_loop :: "sched_client \<Rightarrow> u32 \<Rightarrow> u32 round list \<Rightarrow> (bool \<times> u32) option" where
  "num_senders_loop s n [] = None"
| "num_senders_loop s n ((g, reply, g') # rs) =
     (if \<not> is_alive s g then Some (False, n)
      else (case reply of
          Some k \<Rightarrow> Some (True, k)
        | None \<Rightarrow> if \<not> is_ready s g' then num_senders_loop s 0 rs else Some (False, 0)))"

definition NumStfSendersInPartitionRequest_call ::
    "sched_client \<Rightarrow> channel_state \<Rightarrow> u32 \<Rightarrow> u32 round list \<Rightarrow> (bool \<times> u32) option" where
  "NumStfSendersInPartitionRequest_call s g n rs =
     (if \<not> is_alive s g then Some (False, n) else num_senders_loop s n rs)"

text \<open>
  \<open>TfBuilderConnectionRequest_call\<close> and \<open>TfBuilderUCXConnectionRequest_call\<close>: repeated until the call is
  answered or the channel is shut down; a failed call clears the reply. \<open>cl\<close> is the cleared reply.
\<close>

fun request_loop :: "sched_client \<Rightarrow> 'r \<Rightarrow> 'r \<Rightarrow> 'r round list \<Rightarrow> (bool \<times> 'r) option" where
  "request_loop s cl r [] = None"
| "request_loop s cl r ((g, reply, g') # rs) =
     (if \<not> is_alive s g then Some (False, r)
      else (case reply of Some a \<Rightarrow> Some (True, a) | None \<Rightarrow> request_loop s cl cl rs))"

definition TfBuilderConnectionRequest_call ::
    "sched_client \<Rightarrow> channel_state \<Rightarrow> 'r \<Rightarrow> 'r \<Rightarrow> 'r round list \<Rightarrow> (bool \<times> 'r) option" where
  "TfBuilderConnectionRequest_call s g cl r rs =
     (if \<not> is_alive s g then Some (False, r) else request_loop s cl r rs)"

definition TfBuilderUCXConnectionRequest_call ::
    "sched_client \<Rightarrow> channel_state \<Rightarrow> 'r \<Rightarrow> 'r \<Rightarrow> 'r round list \<Rightarrow> (bool \<times> 'r) option" where
  "TfBuilderUCXConnectionRequest_call s g cl r rs =
     (if \<not> is_alive s g then Some (False, r) else request_loop s cl r rs)"

text \<open>The calls made once: the answer, the reply, and the message that is sent with its new time.\<close>

definition TfBuilderDisconnectionRequest_call ::
    "sched_client \<Rightarrow> channel_state \<Rightarrow> u64 \<Rightarrow> TfBuilderConfigStatus \<Rightarrow> ConnStatus option \<Rightarrow> ConnStatus \<Rightarrow>
       bool \<times> ConnStatus \<times> TfBuilderConfigStatus option" where
  "TfBuilderDisconnectionRequest_call s g t m reply r =
     (if \<not> is_alive s g then (False, r, None)
      else (let m1 = m\<lparr>tbc_info := updateTimeInformation t (tbc_info m)\<rparr>
            in case reply of None \<Rightarrow> (False, r, Some m1) | Some a \<Rightarrow> (True, a, Some m1)))"

definition TfBuilderUCXDisconnectionRequest_call ::
    "sched_client \<Rightarrow> channel_state \<Rightarrow> u64 \<Rightarrow> TfBuilderConfigStatus \<Rightarrow> ConnStatus option \<Rightarrow> ConnStatus \<Rightarrow>
       bool \<times> ConnStatus \<times> TfBuilderConfigStatus option" where
  "TfBuilderUCXDisconnectionRequest_call s g t m reply r =
     (if \<not> is_alive s g then (False, r, None)
      else (let m1 = m\<lparr>tbc_info := updateTimeInformation t (tbc_info m)\<rparr>
            in case reply of None \<Rightarrow> (False, r, Some m1) | Some a \<Rightarrow> (True, a, Some m1)))"

definition TfBuilderUpdate_call ::
    "sched_client \<Rightarrow> channel_state \<Rightarrow> u64 \<Rightarrow> TfBuilderUpdateMessage \<Rightarrow> bool \<Rightarrow> bool \<times> TfBuilderUpdateMessage option" where
  "TfBuilderUpdate_call s g t m ok =
     (if \<not> is_alive s g then (False, None)
      else (ok, Some (m\<lparr>tbu_info := updateTimeInformation t (tbu_info m)\<rparr>)))"

definition StfSenderStfUpdate_call ::
    "sched_client \<Rightarrow> channel_state \<Rightarrow> u64 \<Rightarrow> StfSenderStfInfo \<Rightarrow> StfInfoStatus option \<Rightarrow> StfInfoStatus \<Rightarrow>
       bool \<times> StfInfoStatus \<times> StfSenderStfInfo option" where
  "StfSenderStfUpdate_call s g t m reply r =
     (if \<not> is_alive s g then (False, r, None)
      else (let m1 = m\<lparr>ssi_info := updateTimeInformation t (ssi_info m)\<rparr>
            in case reply of None \<Rightarrow> (False, r, Some m1) | Some a \<Rightarrow> (True, a, Some m1)))"

section \<open>Properties\<close>

text \<open>A client that is connected stays on its channel; a terminal state ends all attempts.\<close>

lemma start_keeps_channel:
  assumes "mChannel s = Some e" "sched_client_start K parse cfg s c = (ok, s1, cfg1, c1)"
  shows "mChannel s1 = Some e"
  using assms by (auto simp: sched_client_start_def Let_def split: if_splits prod.splits)

lemma no_retry_after_terminal:
  "\<not> mShouldRetryStart s \<Longrightarrow> sched_client_start K parse cfg (sched_client_stop s) c = (False, sched_client_stop s, cfg, c)"
  by (simp add: sched_client_start_def sched_client_stop_def)

lemma start_false_no_channel:
  "sched_client_start K parse cfg s c = (False, s1, cfg1, c1) \<Longrightarrow> mChannel s1 = mChannel s"
  by (auto simp: sched_client_start_def Let_def split: if_splits prod.splits)

lemma start_true_channel:
  "sched_client_start K parse cfg s c = (True, s1, cfg1, c1) \<Longrightarrow> mChannel s1 \<noteq> None"
  by (auto simp: sched_client_start_def Let_def split: if_splits prod.splits)

lemma not_connected_no_call:
  assumes "mChannel s = None"
  shows "NumStfSendersInPartitionRequest_call s g n rs = Some (False, n)"
    "TfBuilderConnectionRequest_call s g cl r rs' = Some (False, r)"
    "TfBuilderUpdate_call s g t m ok = (False, None)"
    "HeartBeat s g ok = (False, False)"
  using assms by (simp_all add: NumStfSendersInPartitionRequest_call_def TfBuilderConnectionRequest_call_def
      TfBuilderUpdate_call_def HeartBeat_def is_alive_def)

lemma request_loop_answer:
  assumes "mChannel s \<noteq> None" and "\<forall>(g, reply, g')\<in>set rs. g \<noteq> CH_SHUTDOWN \<and> reply = None" and "g \<noteq> CH_SHUTDOWN"
  shows "request_loop s cl r (rs @ (g, Some a, g') # rs') = Some (True, a)"
  using assms(2) by (induction rs arbitrary: r) (use assms(1, 3) in \<open>auto simp: is_alive_def\<close>)

text \<open>
  A connection request answers true exactly when a call is answered while the channel is alive: for
  a client with a channel, the request gives up only at a shutdown, and then with the cleared reply
  (or the one it was given when no call was made); what it returns is the reply of the first
  answered call, with all earlier calls failed and no shutdown before it.
\<close>

theorem connection_request_result:
  assumes "mChannel s \<noteq> None" "g0 \<noteq> CH_SHUTDOWN"
    and "TfBuilderConnectionRequest_call s g0 cl r rs = Some (ok, a)"
  shows "\<exists>pre g g' reply post. rs = pre @ (g, reply, g') # post \<and>
    (\<forall>(h, q, h')\<in>set pre. h \<noteq> CH_SHUTDOWN \<and> q = None) \<and>
    (if ok then g \<noteq> CH_SHUTDOWN \<and> reply = Some a else g = CH_SHUTDOWN \<and> a = (if pre = [] then r else cl))"
proof -
  have "\<exists>pre g g' reply post. rs = pre @ (g, reply, g') # post \<and>
    (\<forall>(h, q, h')\<in>set pre. h \<noteq> CH_SHUTDOWN \<and> q = None) \<and>
    (if ok then g \<noteq> CH_SHUTDOWN \<and> reply = Some a else g = CH_SHUTDOWN \<and> a = (if pre = [] then r else cl))"
    if "request_loop s cl r rs = Some (ok, a)" for r
    using that
  proof (induction rs arbitrary: r)
    case (Cons x rs)
    obtain g reply g' where x: "x = (g, reply, g')" by (cases x)
    show ?case
    proof (cases "g \<noteq> CH_SHUTDOWN \<and> reply = None")
      case False
      then have "x # rs = [] @ (g, reply, g') # rs \<and>
          (if ok then g \<noteq> CH_SHUTDOWN \<and> reply = Some a else g = CH_SHUTDOWN \<and> a = (if ([] :: 'a round list) = [] then r else cl))"
        using Cons.prems assms(1) x by (auto simp: is_alive_def split: if_splits option.splits)
      then show ?thesis by fastforce
    next
      case True
      then have "request_loop s cl cl rs = Some (ok, a)" using Cons.prems assms(1) x by (simp add: is_alive_def)
      from Cons.IH [OF this] obtain pre h h' q post where
        p: "rs = pre @ (h, q, h') # post" "\<forall>(h, q, h')\<in>set pre. h \<noteq> CH_SHUTDOWN \<and> q = None"
          "if ok then h \<noteq> CH_SHUTDOWN \<and> q = Some a else h = CH_SHUTDOWN \<and> a = (if pre = [] then cl else cl)" by blast
      show ?thesis
        by (rule exI [of _ "x # pre"], rule exI [of _ h], rule exI [of _ h'], rule exI [of _ q], rule exI [of _ post])
          (use p True x in \<open>auto split: if_splits\<close>)
    qed
  qed simp
  then show ?thesis using assms by (simp add: TfBuilderConnectionRequest_call_def is_alive_def)
qed

end
