(* ===== verification/Transport_Dpl.thy ===== *)
theory Transport_Dpl
  imports DD_SubTimeFrame
begin

text \<open>
  The adapters between frames and the multi-part messages of the data processing layer,
  \<open>common/SubTimeFrameDPL.{h,cxx}\<close>.

  The O2 header stacks are outside: \<open>dpl_codec\<close> gives their bytes, what a cast of bytes to a
  \<open>DataHeader\<close> reads (\<open>hdr_of\<close>) and what a search in a stack finds (\<open>hdr_get\<close>), the same for the header of a frame,
  and the initial \<open>DataHeader\<close>. A stack is described by its \<open>DataHeader\<close> and the fields of the
  processing header and the source header that are used. \<open>Inl\<close> is an exception, or
  \<open>DplUndefined\<close> for an access outside a message or the vector of messages.
\<close>

section \<open>Headers\<close>

record ('d, 'o) dpl_header =
  dplHeader :: "('d, 'o) DataHeader"
  dplPayloadSize :: u64
  dplStart :: "u64 option"
  dplCreation :: u64
  dplCompleted :: bool

record ('d, 'o) dpl_codec =
  hdr_bytes :: "('d, 'o) dpl_header \<Rightarrow> fmq_message"
  hdr_of :: "fmq_message \<Rightarrow> ('d, 'o) dpl_header"
  hdr_get :: "fmq_message \<Rightarrow> ('d, 'o) dpl_header option"
  hdr_new :: "'d \<Rightarrow> 'o \<Rightarrow> u32 \<Rightarrow> ('d, 'o) DataHeader"
  stfh_bytes :: "StfHeader \<Rightarrow> fmq_message"
  stfh_of :: "fmq_message \<Rightarrow> StfHeader"
  sz_DataHeader :: nat
  sz_StfHeader :: nat
  gDataDescSubTimeFrame :: 'd
  gDataOriginFLP :: 'o
  gDataDescriptionInfo :: 'd
  gDataOriginAny :: 'o

datatype dpl_fault = DplBadAlloc | DplRuntimeError | DplUndefined

section \<open>From a frame to messages\<close>

definition dpl_stf_header :: "('d, 'o) dpl_codec \<Rightarrow> StfHeader \<Rightarrow> ('d, 'o) dpl_header" where
  "dpl_stf_header C H =
     \<lparr>dplHeader = (hdr_new C (gDataDescSubTimeFrame C) (gDataOriginFLP C) 0)
        \<lparr>tfCounter := ucast (hId H), runNumber := hRunNumber H, firstTForbit := hFirstOrbit H\<rparr>,
      dplPayloadSize = of_nat (sz_StfHeader C), dplStart = Some (hId H), dplCreation = hCreationTimeMs H,
      dplCompleted = False\<rparr>"

definition split_header :: "('d, 'o) dpl_header \<Rightarrow> nat \<Rightarrow> nat \<Rightarrow> fmq_message \<Rightarrow> ('d, 'o) dpl_header" where
  "split_header x n i p =
     x\<lparr>dplHeader := (dplHeader x)\<lparr>splitPayloadIndex := of_nat i, splitPayloadParts := of_nat n\<rparr>,
       dplPayloadSize := of_nat (length p)\<rparr>"

fun full_split :: "('d, 'o) dpl_codec \<Rightarrow> ('d, 'o) dpl_header \<Rightarrow> nat \<Rightarrow> nat \<Rightarrow> fmq_message list \<Rightarrow> fmq_message list" where
  "full_split C x n i [] = []"
| "full_split C x n i (p # ps) = hdr_bytes C (split_header x n i p) # p # full_split C x n (Suc i) ps"

text \<open>
  One message of the frame. \<open>ext\<close> gives the whole stack of a header message from its
  \<open>DataHeader\<close>, \<open>budget\<close> the number of header messages that can still be allocated; the last part
  of a message reuses its header message. A missing header is a null pointer, which is used at
  the latest by the channel; without parts, \<open>size() - 1\<close> wraps.
\<close>

definition dpl_message ::
    "('d, 'o) dpl_codec \<Rightarrow> (('d, 'o) DataHeader \<Rightarrow> ('d, 'o) dpl_header) \<Rightarrow> bool \<Rightarrow> nat \<Rightarrow> ('d, 'o) StfMessage \<Rightarrow>
       dpl_fault + (nat \<times> fmq_message list)" where
  "dpl_message C ext reduced budget msg =
     (case smHeader msg of
        None \<Rightarrow> Inl DplUndefined
      | Some h \<Rightarrow>
          if reduced then Inr (budget, hdr_bytes C (ext h) # smDataParts msg)
          else
            (case smDataParts msg of
               [] \<Rightarrow> Inl DplUndefined
             | [p] \<Rightarrow> Inr (budget, [hdr_bytes C (split_header (ext h) 1 0 p), p])
             | ps \<Rightarrow>
                 if budget < length ps - 1 then Inl DplBadAlloc
                 else Inr (budget - (length ps - 1), full_split C (ext h) (length ps) 0 ps)))"

fun dpl_messages ::
    "('d, 'o) dpl_codec \<Rightarrow> (('d, 'o) DataHeader \<Rightarrow> ('d, 'o) dpl_header) \<Rightarrow> bool \<Rightarrow> nat \<Rightarrow> ('d, 'o) StfMessage list \<Rightarrow>
       dpl_fault + fmq_message list" where
  "dpl_messages C ext reduced budget [] = Inr []"
| "dpl_messages C ext reduced budget (msg # v) =
     (case dpl_message C ext reduced budget msg of
        Inl e \<Rightarrow> Inl e
      | Inr (b, ms) \<Rightarrow>
          (case dpl_messages C ext reduced b v of Inl e \<Rightarrow> Inl e | Inr ms' \<Rightarrow> Inr (ms @ ms')))"

text \<open>The messages of the frame in the order of the sorted identifiers.\<close>

definition dpl_order :: "('d::linorder, 'o::linorder) SubTimeFrame \<Rightarrow> ('d, 'o) StfMessage list" where
  "dpl_order f =
     concat (map (\<lambda>e. vec_at (stfData f) (eid_identifier e) (mSubSpecification e)) (sort (getEquipmentIdentifiers f)))"

definition dpl_visit_out ::
    "('d::linorder, 'o::linorder) dpl_codec \<Rightarrow> (('d, 'o) DataHeader \<Rightarrow> ('d, 'o) dpl_header) \<Rightarrow> bool \<Rightarrow> nat \<Rightarrow>
       ('d, 'o) SubTimeFrame \<Rightarrow> dpl_fault + fmq_message list" where
  "dpl_visit_out C ext reduced budget f =
     (if budget < 2 then Inl DplBadAlloc
      else
        (case dpl_messages C ext reduced (budget - 2) (dpl_order f) of
           Inl e \<Rightarrow> Inl e
         | Inr ms \<Rightarrow> Inr (hdr_bytes C (dpl_stf_header C (stfHeader f)) # stfh_bytes C (stfHeader f) # ms)))"

section \<open>The inspection of a message sequence\<close>

datatype inspect_report = NoDataHeader | FirstOrbitDiffers | TfCounterDiffers | RunNumberDiffers
  | NoProcessingHeader | StartDiffers | NoPartCount | SplitTooShort | SplitBadIndex

record inspect_state =
  inFirst :: u32
  inCounter :: u32
  inRun :: u32
  inStart :: u64

definition inspect_init :: inspect_state where
  "inspect_init = \<lparr>inFirst = - 1, inCounter = - 1, inRun = - 1, inStart = - 1\<rparr>"

definition inspect_fields :: "('d, 'o) DataHeader \<Rightarrow> inspect_state \<Rightarrow> inspect_report list \<times> inspect_state" where
  "inspect_fields h s =
     (let s1 = (if inCounter s = - 1 then s\<lparr>inFirst := firstTForbit h, inCounter := tfCounter h, inRun := runNumber h\<rparr> else s);
          s2 = (if inFirst s1 = 0 then s1\<lparr>inFirst := firstTForbit h\<rparr> else s1)
      in ((if firstTForbit h \<noteq> 0 \<and> inFirst s2 \<noteq> firstTForbit h then [FirstOrbitDiffers] else []) @
          (if inCounter s2 \<noteq> tfCounter h then [TfCounterDiffers] else []) @
          (if inRun s2 \<noteq> runNumber h then [RunNumberDiffers] else []), s2))"

definition inspect_start :: "u64 \<Rightarrow> inspect_state \<Rightarrow> inspect_report list \<times> inspect_state" where
  "inspect_start t s =
     (if inStart s = - 1 then ([], s\<lparr>inStart := t\<rparr>)
      else ((if inStart s \<noteq> t then [StartDiffers] else []), s))"

text \<open>
  The reports of the loop over the messages that are left. The steps are computed in 32 bits in
  the code; the numbers of messages are below \<open>2^31\<close>.
\<close>

function inspect_loop :: "('d, 'o) dpl_codec \<Rightarrow> inspect_state \<Rightarrow> fmq_message list \<Rightarrow> inspect_report list" where
  "inspect_loop C s [] = []"
| "inspect_loop C s (m # ms) =
     (case hdr_get C m of
        None \<Rightarrow> NoDataHeader # inspect_loop C s ms
      | Some x \<Rightarrow>
          (let h = dplHeader x; n = unat (splitPayloadParts h)
           in case inspect_fields h s of (r1, s1) \<Rightarrow>
              r1 @
              (case dplStart x of
                 None \<Rightarrow> NoProcessingHeader # inspect_loop C s1 (drop 1 ms)
               | Some t \<Rightarrow>
                   (case inspect_start t s1 of (r2, s2) \<Rightarrow>
                      r2 @ (if n = 0 then [NoPartCount] else []) @
                      (if n = 1 then inspect_loop C s2 (drop 1 ms)
                       else if n > length (m # ms) then [SplitTooShort]
                       else if \<not> (splitPayloadIndex h = 0 \<or> splitPayloadIndex h = splitPayloadParts h) then [SplitBadIndex]
                       else if n > 1 \<and> splitPayloadIndex h = splitPayloadParts h then inspect_loop C s2 (drop n ms)
                       else if n > 1 \<and> splitPayloadIndex h = 0 then inspect_loop C s2 (drop (2 * n - 1) ms)
                       else inspect_loop C s2 (drop 1 ms))))))"
  by pat_completeness auto
termination by (relation "measure (\<lambda>(C, s, ms). length ms)") auto

declare inspect_loop.simps(2) [simp del]

definition dpl_inspect :: "('d, 'o) dpl_codec \<Rightarrow> fmq_message list \<Rightarrow> inspect_report list" where
  "dpl_inspect C ms = inspect_loop C inspect_init ms"

section \<open>Sending\<close>

record stf_to_dpl =
  sdRunning :: bool
  sdInspect :: bool
  sdReducedHdr :: bool

text \<open>
  The multi-part messages given to the channel, whose answer is not looked at; with the reports
  of the inspection.
\<close>

definition sendToDpl ::
    "('d::linorder, 'o::linorder) dpl_codec \<Rightarrow> (('d, 'o) DataHeader \<Rightarrow> ('d, 'o) dpl_header) \<Rightarrow> nat \<Rightarrow> stf_to_dpl \<Rightarrow>
       ('d, 'o) SubTimeFrame \<Rightarrow> dpl_fault + (fmq_message list list \<times> inspect_report list)" where
  "sendToDpl C ext budget a f =
     (if \<not> sdRunning a then Inr ([], [])
      else
        (case dpl_visit_out C ext (sdReducedHdr a) budget (updateStf f) of
           Inl e \<Rightarrow> Inl e
         | Inr ms \<Rightarrow> Inr ([ms], if sdInspect a then dpl_inspect C ms else [])))"

definition dpl_eos_header :: "('d, 'o) dpl_codec \<Rightarrow> ('d, 'o) dpl_header" where
  "dpl_eos_header C =
     \<lparr>dplHeader = hdr_new C (gDataDescriptionInfo C) (gDataOriginAny C) 0, dplPayloadSize = 0,
      dplStart = Some 0, dplCreation = 0, dplCompleted = True\<rparr>"

definition sendEosToDpl :: "('d, 'o) dpl_codec \<Rightarrow> nat \<Rightarrow> fmq_message list list" where
  "sendEosToDpl C peers = replicate peers [hdr_bytes C (dpl_eos_header C), []]"

section \<open>From messages to a frame\<close>

text \<open>The parts after the first one: every second message, or all. \<open>None\<close>: outside the vector.\<close>

fun full_parts :: "nat \<Rightarrow> fmq_message list \<Rightarrow> (fmq_message list \<times> fmq_message list) option" where
  "full_parts 0 ms = Some ([], ms)"
| "full_parts (Suc k) [] = Some ([], [])"
| "full_parts (Suc k) [m] = None"
| "full_parts (Suc k) (m # p # ms) =
     (case full_parts k ms of None \<Rightarrow> None | Some (ps, rest) \<Rightarrow> Some (p # ps, rest))"

definition add_message ::
    "('d, 'o) DataHeader \<Rightarrow> fmq_message \<Rightarrow> fmq_message list \<Rightarrow> ('d, 'o) SubTimeFrame \<Rightarrow> ('d, 'o) SubTimeFrame" where
  "add_message h d ps f =
     (case addStfDataStart (dhDescription h, dhOrigin h) (dhSubSpecification h) \<lparr>sdHeader = Some h, sdData = d\<rparr> f of
        (p, f1) \<Rightarrow> fold (addStfDataAppend (Some p)) ps f1)"

definition lAddFullSplitPayload ::
    "('d, 'o) DataHeader \<Rightarrow> fmq_message list \<Rightarrow> ('d, 'o) SubTimeFrame \<Rightarrow> (('d, 'o) SubTimeFrame \<times> fmq_message list) option" where
  "lAddFullSplitPayload h rest f =
     (case rest of
        [] \<Rightarrow> None
      | d # rest1 \<Rightarrow>
          (case full_parts (unat (splitPayloadParts h) - 1) rest1 of
             None \<Rightarrow> None
           | Some (ps, rest2) \<Rightarrow> Some (add_message (h\<lparr>splitPayloadIndex := splitPayloadParts h\<rparr>) d ps f, rest2)))"

definition lAddReducedSplitPayload ::
    "('d, 'o) DataHeader \<Rightarrow> fmq_message list \<Rightarrow> ('d, 'o) SubTimeFrame \<Rightarrow> (('d, 'o) SubTimeFrame \<times> fmq_message list) option" where
  "lAddReducedSplitPayload h rest f =
     (case rest of
        [] \<Rightarrow> None
      | d # rest1 \<Rightarrow>
          (let k = unat (splitPayloadParts h) - 1 in Some (add_message h d (take k rest1) f, drop k rest1)))"

text \<open>
  The loop of \<open>DplToStfAdapter::visit\<close> on the messages that are left. \<open>None\<close>: the loop never ends.
\<close>

partial_function (option) dpl_loop ::
    "('d, 'o) dpl_codec \<Rightarrow> fmq_message list \<Rightarrow> bool \<Rightarrow> ('d, 'o) SubTimeFrame \<Rightarrow>
       (dpl_fault + (bool \<times> ('d, 'o) SubTimeFrame)) option" where
  "dpl_loop C ms found f =
     (case ms of
        [] \<Rightarrow> Some (Inr (found, f))
      | m # rest \<Rightarrow>
          if length m < sz_DataHeader C then Some (Inl DplUndefined)
          else
            (let h = dplHeader (hdr_of C m)
             in if splitPayloadParts h \<le> 1 then
                  (case rest of
                     [] \<Rightarrow> Some (Inl DplUndefined)
                   | d # rest1 \<Rightarrow>
                       if \<not> found \<and> sz_StfHeader C = length d \<and> length m < sz_DataHeader C then Some (Inl DplRuntimeError)
                       else if gDataDescSubTimeFrame C = dhDescription h then
                         (if length d < sz_StfHeader C then Some (Inl DplUndefined)
                          else dpl_loop C rest1 True (f\<lparr>stfHeader := stfh_of C d\<rparr>))
                       else dpl_loop C rest1 found (add_message h d [] f))
                else if splitPayloadIndex h = 0 then
                  (case lAddFullSplitPayload h rest f of
                     None \<Rightarrow> Some (Inl DplUndefined)
                   | Some (f1, rest1) \<Rightarrow> dpl_loop C rest1 found f1)
                else if splitPayloadIndex h = splitPayloadParts h then
                  (case lAddReducedSplitPayload h rest f of
                     None \<Rightarrow> Some (Inl DplUndefined)
                   | Some (f1, rest1) \<Rightarrow> dpl_loop C rest1 found f1)
                else dpl_loop C ms found f))"

definition dpl_visit_in ::
    "('d, 'o) dpl_codec \<Rightarrow> fmq_message list \<Rightarrow> ('d, 'o) SubTimeFrame \<Rightarrow> (dpl_fault + ('d, 'o) SubTimeFrame) option" where
  "dpl_visit_in C ms f =
     (if length ms < 2 then Some (Inl DplRuntimeError)
      else
        (case dpl_loop C ms False f of
           None \<Rightarrow> None
         | Some (Inl e) \<Rightarrow> Some (Inl e)
         | Some (Inr (found, f1)) \<Rightarrow> Some (if found then Inr f1 else Inl DplRuntimeError)))"

text \<open>
  The frame, or \<open>None\<close> for a null pointer. Exceptions are caught; \<open>now\<close> is the time of the
  constructor of the frame.
\<close>

definition deserialize_impl ::
    "('d, 'o) dpl_codec \<Rightarrow> u64 \<Rightarrow> fmq_message list \<Rightarrow> (dpl_fault + ('d, 'o) SubTimeFrame option) option" where
  "deserialize_impl C now ms =
     (if length ms = 2 \<and> (case hdr_get C (hd ms) of None \<Rightarrow> False | Some x \<Rightarrow> dplCompleted x) then Some (Inr None)
      else
        (case dpl_visit_in C ms (updateStf (SubTimeFrame_new now 0)) of
           None \<Rightarrow> None
         | Some (Inl DplUndefined) \<Rightarrow> Some (Inl DplUndefined)
         | Some (Inl e) \<Rightarrow> Some (Inr None)
         | Some (Inr f) \<Rightarrow> Some (Inr (Some (updateStf f)))))"

datatype dpl_receive = RecvTimeout | RecvInterrupted | RecvError | RecvMessages "fmq_message list"

text \<open>The value of \<open>Receive\<close> is the number of bytes; zero bytes are refused.\<close>

definition deserialize_channel ::
    "('d, 'o) dpl_codec \<Rightarrow> u64 \<Rightarrow> dpl_receive \<Rightarrow> (dpl_fault + ('d, 'o) SubTimeFrame option) option" where
  "deserialize_channel C now r =
     (case r of
        RecvMessages ms \<Rightarrow> if sum_list (map length ms) > 0 then deserialize_impl C now ms else Some (Inr None)
      | _ \<Rightarrow> Some (Inr None))"

end
