(* ===== verification/Transport_Dpl_Props.thy ===== *)
theory Transport_Dpl_Props
  imports Transport_Dpl TfFile_Claims
begin

text \<open>
  The adapters of the data processing layer: what is sent is read back, it passes the inspection of the
  sender, and a header whose split index is neither the first nor the reduced one blocks the
  receiver for ever.
\<close>

section \<open>The O2 headers\<close>

definition dpl_codec_ok :: "('d, 'o) dpl_codec \<Rightarrow> bool" where
  "dpl_codec_ok C \<longleftrightarrow>
     (\<forall>x. hdr_of C (hdr_bytes C x) = x \<and> hdr_get C (hdr_bytes C x) = Some x \<and> sz_DataHeader C \<le> length (hdr_bytes C x)) \<and>
     (\<forall>H. stfh_of C (stfh_bytes C H) = H \<and> length (stfh_bytes C H) = sz_StfHeader C) \<and>
     (\<forall>d og ss. dhDescription (hdr_new C d og ss) = d \<and> splitPayloadParts (hdr_new C d og ss) = 1)"

lemma codec_simps:
  assumes "dpl_codec_ok C"
  shows "hdr_of C (hdr_bytes C x) = x" "hdr_get C (hdr_bytes C x) = Some x" "\<not> length (hdr_bytes C x) < sz_DataHeader C"
    "stfh_of C (stfh_bytes C H) = H" "length (stfh_bytes C H) = sz_StfHeader C"
    "dhDescription (hdr_new C d og ss) = d" "splitPayloadParts (hdr_new C d og ss) = 1"
  using assms by (auto simp: dpl_codec_ok_def not_less)

section \<open>Adding one message\<close>

lemma add_message_adds:
  "adds f [\<lparr>smHeader = Some h, smDataParts = d # ps\<rparr>] (add_message h d ps f)"
proof -
  let ?di = "(dhDescription h, dhOrigin h)" and ?ss = "dhSubSpecification h"
  have "adds f [\<lparr>smHeader = Some h, smDataParts = [d]\<rparr>\<lparr>smDataParts := [d] @ ps\<rparr>]
      (fold (addStfDataAppend (Some (?di, ?ss, length (vec_at (stfData f) ?di ?ss)))) ps
        (snd (addStfDataStart ?di ?ss \<lparr>sdHeader = Some h, sdData = d\<rparr> f)))"
    using fold_part_adds [OF start_adds, of h d ?di ?ss f ps] by (simp add: msg_key_def)
  then show ?thesis by (simp add: add_message_def addStfDataStart_def Let_def)
qed

text \<open>A message of an updated frame: its counters are those \<open>updateStf\<close> sets.\<close>

definition split_counted :: "('d, 'o) StfMessage \<Rightarrow> bool" where
  "split_counted msg \<longleftrightarrow> smDataParts msg \<noteq> [] \<and> length (smDataParts msg) < 2 ^ 32 \<and>
     (\<exists>h. smHeader msg = Some h \<and> splitPayloadParts h = of_nat (length (smDataParts msg)) \<and>
        splitPayloadIndex h = (if length (smDataParts msg) = 1 then 0 else splitPayloadParts h))"

lemma part_count_word:
  assumes "0 < n" "n < 2 ^ 32"
  shows "unat (of_nat n :: u32) = n" "(of_nat n :: u32) \<le> 1 \<longleftrightarrow> n = 1" "(of_nat n :: u32) \<noteq> 0"
proof -
  show u: "unat (of_nat n :: u32) = n" using assms by (simp add: unat_of_nat)
  show "(of_nat n :: u32) \<le> 1 \<longleftrightarrow> n = 1" using assms(1) by (auto simp: word_le_nat_alt u)
  show "(of_nat n :: u32) \<noteq> 0" using u assms(1) by (metis less_numeral_extra(3) unat_0)
qed

lemma full_parts_split:
  "full_parts (length ps) (full_split C x n i ps @ rest) = Some (ps, rest)"
  by (induction ps arbitrary: i) simp_all

lemma message_read_full:
  assumes C: "dpl_codec_ok C" and s: "split_counted msg" and d: "\<forall>h. smHeader msg = Some h \<longrightarrow> dhDescription h \<noteq> gDataDescSubTimeFrame C"
    and ext: "\<And>h. dplHeader (ext h) = h" and m: "dpl_message C ext False b msg = Inr (b', ms)"
  shows "\<exists>f1. adds f [msg] f1 \<and> dpl_loop C (ms @ rest) found f = dpl_loop C rest found f1"
proof -
  from s obtain h where h: "smHeader msg = Some h" "splitPayloadParts h = of_nat (length (smDataParts msg))"
    "splitPayloadIndex h = (if length (smDataParts msg) = 1 then 0 else splitPayloadParts h)"
    and ne: "smDataParts msg \<noteq> []" and lt: "length (smDataParts msg) < 2 ^ 32" by (auto simp: split_counted_def)
  from ne obtain p ps where ps: "smDataParts msg = p # ps" by (cases "smDataParts msg") auto
  have msg: "msg = \<lparr>smHeader = Some h, smDataParts = p # ps\<rparr>" using h ps by (cases msg) simp
  have desc: "gDataDescSubTimeFrame C \<noteq> dhDescription h" using d h(1) by fastforce
  show ?thesis
  proof (cases ps)
    case Nil
    have ms: "ms = [hdr_bytes C (split_header (ext h) 1 0 p), p]" using m h(1) ps Nil by (simp add: dpl_message_def)
    have hh: "dplHeader (split_header (ext h) 1 0 p) = h"
      using h(2, 3) ps Nil by (simp add: split_header_def ext)
    have "dpl_loop C (ms @ rest) found f = dpl_loop C rest found (add_message h p [] f)"
      by (subst dpl_loop.simps) (use ms hh h(2) ps Nil desc in \<open>simp add: codec_simps [OF C]\<close>)
    moreover have "adds f [msg] (add_message h p [] f)" unfolding msg using add_message_adds [of f h p "[]"] Nil by simp
    ultimately show ?thesis by blast
  next
    case (Cons q qs)
    define n where "n = length (p # ps)"
    let ?x = "split_header (ext h) n 0 p"
    have ms: "ms = hdr_bytes C ?x # p # full_split C (ext h) n 1 ps"
      using m h(1) ps Cons by (simp add: n_def dpl_message_def split: if_splits)
    have n: "1 < n" "n < 2 ^ 32" "n - 1 = length ps" using Cons lt ps by (simp_all add: n_def)
    have w: "unat (of_nat n :: u32) = n" "\<not> (of_nat n :: u32) \<le> 1"
      using part_count_word [of n] n by simp_all
    have hn: "splitPayloadParts h = of_nat n" "splitPayloadIndex h = of_nat n" using h(2, 3) ps Cons by (simp_all add: n_def)
    have hx: "dplHeader ?x = h\<lparr>splitPayloadIndex := 0, splitPayloadParts := of_nat n\<rparr>"
      by (simp add: split_header_def ext)
    have orig: "h\<lparr>splitPayloadParts := of_nat n, splitPayloadIndex := of_nat n\<rparr> = h"
      using hn by (cases h) simp
    have add: "lAddFullSplitPayload (dplHeader ?x) (p # full_split C (ext h) n 1 ps @ rest) f = Some (add_message h p ps f, rest)"
      using full_parts_split [of ps C "ext h" n 1 rest] w(1) n(3) orig by (simp add: lAddFullSplitPayload_def hx)
    have "dpl_loop C (ms @ rest) found f = dpl_loop C rest found (add_message h p ps f)"
      by (subst dpl_loop.simps) (use ms add w in \<open>simp add: codec_simps [OF C] Let_def hx\<close>)
    moreover have "adds f [msg] (add_message h p ps f)" unfolding msg by (rule add_message_adds)
    ultimately show ?thesis by blast
  qed
qed

lemma message_read_reduced:
  assumes C: "dpl_codec_ok C" and s: "split_counted msg" and d: "\<forall>h. smHeader msg = Some h \<longrightarrow> dhDescription h \<noteq> gDataDescSubTimeFrame C"
    and ext: "\<And>h. dplHeader (ext h) = h" and m: "dpl_message C ext True b msg = Inr (b', ms)"
  shows "\<exists>f1. adds f [msg] f1 \<and> dpl_loop C (ms @ rest) found f = dpl_loop C rest found f1"
proof -
  from s obtain h where h: "smHeader msg = Some h" "splitPayloadParts h = of_nat (length (smDataParts msg))"
    "splitPayloadIndex h = (if length (smDataParts msg) = 1 then 0 else splitPayloadParts h)"
    and ne: "smDataParts msg \<noteq> []" and lt: "length (smDataParts msg) < 2 ^ 32" by (auto simp: split_counted_def)
  from ne obtain p ps where ps: "smDataParts msg = p # ps" by (cases "smDataParts msg") auto
  have msg: "msg = \<lparr>smHeader = Some h, smDataParts = p # ps\<rparr>" using h ps by (cases msg) simp
  have desc: "gDataDescSubTimeFrame C \<noteq> dhDescription h" using d h(1) by fastforce
  have ms: "ms = hdr_bytes C (ext h) # p # ps" using m h(1) ps by (simp add: dpl_message_def)
  have "dpl_loop C (ms @ rest) found f = dpl_loop C rest found (add_message h p ps f)"
  proof (cases ps)
    case Nil
    show ?thesis by (subst dpl_loop.simps) (use ms h(2) ps Nil desc in \<open>simp add: codec_simps [OF C] ext\<close>)
  next
    case (Cons q qs)
    let ?n = "length (p # ps)"
    have n: "1 < ?n" "?n < 2 ^ 32" using Cons lt ps by simp_all
    note w = part_count_word [of ?n, OF _ n(2)]
    have parts: "splitPayloadParts h = of_nat ?n" "splitPayloadIndex h = of_nat ?n" using h(2, 3) ps Cons by simp_all
    have add: "lAddReducedSplitPayload h (p # ps @ rest) f = Some (add_message h p ps f, rest)"
      using w n by (simp add: lAddReducedSplitPayload_def parts(1))
    show ?thesis
      by (subst dpl_loop.simps) (use ms add w n parts in \<open>simp add: codec_simps [OF C] ext Let_def\<close>)
  qed
  moreover have "adds f [msg] (add_message h p ps f)" unfolding msg by (rule add_message_adds)
  ultimately show ?thesis by blast
qed

lemma message_read:
  assumes "dpl_codec_ok C" "split_counted msg" "\<forall>h. smHeader msg = Some h \<longrightarrow> dhDescription h \<noteq> gDataDescSubTimeFrame C"
    and "\<And>h. dplHeader (ext h) = h" and "dpl_message C ext reduced b msg = Inr (b', ms)"
  shows "\<exists>f1. adds f [msg] f1 \<and> dpl_loop C (ms @ rest) found f = dpl_loop C rest found f1"
  using message_read_full [OF assms(1-4)] message_read_reduced [OF assms(1-4)] assms(5) by (cases reduced) auto

lemma messages_read:
  assumes C: "dpl_codec_ok C" and ext: "\<And>h. dplHeader (ext h) = h"
    and "\<forall>msg\<in>set v. split_counted msg \<and> (\<forall>h. smHeader msg = Some h \<longrightarrow> dhDescription h \<noteq> gDataDescSubTimeFrame C)"
    and "dpl_messages C ext reduced b v = Inr ms"
  shows "\<exists>g. adds f v g \<and> dpl_loop C (ms @ rest) found f = dpl_loop C rest found g"
  using assms(3, 4)
proof (induction v arbitrary: b ms f)
  case Nil
  then show ?case using adds_Nil by auto
next
  case (Cons msg v)
  from Cons.prems(2) obtain b1 m1 m2 where m: "dpl_message C ext reduced b msg = Inr (b1, m1)"
    "dpl_messages C ext reduced b1 v = Inr m2" "ms = m1 @ m2"
    by (auto split: sum.splits prod.splits)
  have p: "split_counted msg" "\<forall>h. smHeader msg = Some h \<longrightarrow> dhDescription h \<noteq> gDataDescSubTimeFrame C"
    using Cons.prems(1) by simp_all
  from message_read [OF C p ext m(1), of f "m2 @ rest" found] obtain f1 where
    f1: "adds f [msg] f1" "dpl_loop C (m1 @ m2 @ rest) found f = dpl_loop C (m2 @ rest) found f1" by blast
  from Cons.IH [OF _ m(2), of f1] Cons.prems(1) obtain g where
    g: "adds f1 v g" "dpl_loop C (m2 @ rest) found f1 = dpl_loop C rest found g" by auto
  show ?case using adds_trans [OF f1(1) g(1)] f1(2) g(2) m(3) by auto
qed

section \<open>The order of the messages\<close>

lemma filter_key_order:
  assumes "distinct es"
    and "\<forall>e\<in>set es. \<forall>msg\<in>set (vec_at m (eid_identifier e) (mSubSpecification e)).
      msg_key msg = Some (eid_identifier e, mSubSpecification e)"
  shows "filter (\<lambda>msg. msg_key msg = Some (di, ss))
      (concat (map (\<lambda>e. vec_at m (eid_identifier e) (mSubSpecification e)) es)) =
    (if eid_of di ss \<in> set es then vec_at m di ss else [])"
  using assms
proof (induction es)
  case (Cons e es)
  have e: "e = eid_of di ss \<longleftrightarrow> eid_identifier e = di \<and> mSubSpecification e = ss"
    by (cases e) (auto simp: eid_of_def eid_identifier_def)
  have "filter (\<lambda>msg. msg_key msg = Some (di, ss)) (vec_at m (eid_identifier e) (mSubSpecification e)) =
      (if e = eid_of di ss then vec_at m di ss else [])"
    unfolding e using Cons.prems(2) by (auto simp: filter_id_conv filter_empty_conv)
  moreover have "filter (\<lambda>msg. msg_key msg = Some (di, ss))
      (concat (map (\<lambda>e. vec_at m (eid_identifier e) (mSubSpecification e)) es)) =
      (if eid_of di ss \<in> set es then vec_at m di ss else [])"
    using Cons.IH Cons.prems by simp
  moreover have "eid_of di ss \<notin> set es" if "e = eid_of di ss" using that Cons.prems(1) by simp
  ultimately show ?case by auto
qed simp

lemma eid_absent:
  assumes "map_wf (stfData f)" "eid_of di ss \<notin> set (getEquipmentIdentifiers f)"
  shows "vec_at (stfData f) di ss = []"
proof (cases "map_of (stfData f) di")
  case (Some sub)
  then have "(di, sub) \<in> set (stfData f)" by (rule map_of_SomeD)
  then have "ss \<notin> fst ` set sub" using assms(2) unfolding equipment_of by blast
  then have "map_of sub ss = None" by (simp add: map_of_eq_None_iff)
  then show ?thesis using Some by (simp add: vec_at_def)
qed (simp add: vec_at_def)

lemma dpl_order_at:
  assumes "map_wf (stfData f)" "sendable f"
  shows "filter (\<lambda>msg. msg_key msg = Some (di, ss)) (dpl_order f) = vec_at (stfData f) di ss"
proof -
  have "filter (\<lambda>msg. msg_key msg = Some (di, ss)) (dpl_order f) =
      (if eid_of di ss \<in> set (sort (getEquipmentIdentifiers f)) then vec_at (stfData f) di ss else [])"
    unfolding dpl_order_def
    by (rule filter_key_order)
      (use assms(2) distinct_equipment [OF assms(1)] in \<open>simp, simp add: sendable_def message_ok_def del: split_paired_All\<close>)
  then show ?thesis using eid_absent [OF assms(1)] by simp
qed

lemma dpl_order_in: "msg \<in> set (dpl_order f) \<Longrightarrow> \<exists>di ss. msg \<in> set (vec_at (stfData f) di ss)"
  unfolding dpl_order_def by (simp del: split_paired_Ex) blast

lemma concat_map_concat_flat: "concat (concat (map g xs)) = concat (map (\<lambda>x. concat (g x)) xs)"
  by (induction xs) simp_all

lemma sum_list_sort: "(\<Sum>e\<leftarrow>sort es. g e) = (\<Sum>e\<leftarrow>es. g e :: nat)"
  by (metis mset_map mset_sort sum_mset_sum_list)

lemma messages_by_identifier:
  assumes "map_wf (stfData f)"
  shows "stf_messages f = concat (map (\<lambda>e. vec_at (stfData f) (eid_identifier e) (mSubSpecification e)) (getEquipmentIdentifiers f))"
proof -
  have sub: "concat (map (\<lambda>s. vec_at (stfData f) (fst e) (fst s)) (snd e)) = concat (map snd (snd e))"
    if e: "e \<in> set (stfData f)" for e
  proof -
    have "map (\<lambda>s. vec_at (stfData f) (fst e) (fst s)) (snd e) = map snd (snd e)"
    proof (rule map_cong [OF refl])
      fix s assume "s \<in> set (snd e)"
      then show "vec_at (stfData f) (fst e) (fst s) = snd s"
        using vec_at_in [OF assms, of "fst e" "snd e" "fst s" "snd s"] e by simp
    qed
    then show ?thesis by (rule arg_cong [where f = concat])
  qed
  have "stf_messages f = concat (map (\<lambda>e. concat (map (\<lambda>s. vec_at (stfData f) (fst e) (fst s)) (snd e))) (stfData f))"
    unfolding stf_messages_def by (rule arg_cong [where f = concat], rule map_cong [OF refl]) (simp add: sub)
  also have "\<dots> = concat (map (\<lambda>e. vec_at (stfData f) (eid_identifier e) (mSubSpecification e)) (getEquipmentIdentifiers f))"
    by (simp add: getEquipmentIdentifiers_def map_concat comp_def eid_of_def eid_identifier_def concat_map_concat_flat)
  finally show ?thesis .
qed

lemma dpl_order_bytes:
  assumes "map_wf (stfData f)"
  shows "vec_bytes (dpl_order f) = map_bytes (stfData f)"
proof -
  let ?F = "\<lambda>e. vec_at (stfData f) (eid_identifier e) (mSubSpecification e)"
  have "vec_bytes (concat (map ?F es)) = (\<Sum>e\<leftarrow>es. vec_bytes (?F e))" for es
    by (induction es) (simp_all add: vec_bytes_def)
  then have "vec_bytes (dpl_order f) = vec_bytes (stf_messages f)"
    by (simp add: dpl_order_def messages_by_identifier [OF assms] sum_list_sort)
  then show ?thesis by (simp add: map_bytes_messages)
qed

lemma updated_split_counted:
  assumes a: "accounted f" and s: "sendable f" and m: "msg \<in> set (dpl_order (updateStf f))"
  shows "split_counted msg"
proof -
  obtain di ss where v: "msg \<in> set (vec_at (stfData (updateStf f)) di ss)" using dpl_order_in [OF m] by blast
  have ok: "message_ok di ss msg" using sendable_updated [OF a] s v unfolding sendable_def by blast
  then obtain h where h: "smHeader msg = Some h" "smDataParts msg \<noteq> []" by (auto simp: message_ok_def msg_key_def)
  obtain h0 where h0: "h = update_header (stfHeader f) (length (smDataParts msg)) h0"
    using vec_updated [OF a v h] by blast
  have "header_current (stfHeader f) (length (smDataParts msg)) h"
    unfolding h0 using h(2) by (intro update_header_current) simp
  then show ?thesis using ok h by (simp add: split_counted_def message_ok_def header_current_def)
qed

definition no_frame_header :: "('d, 'o) dpl_codec \<Rightarrow> ('d, 'o) SubTimeFrame \<Rightarrow> bool" where
  "no_frame_header C f \<longleftrightarrow> (\<forall>og ss. vec_at (stfData f) (gDataDescSubTimeFrame C, og) ss = [])"

lemma updated_not_frame_header:
  assumes a: "accounted f" and s: "sendable f" and n: "no_frame_header C f" and m: "msg \<in> set (dpl_order (updateStf f))"
    and h: "smHeader msg = Some h"
  shows "dhDescription h \<noteq> gDataDescSubTimeFrame C"
proof -
  obtain di ss where v: "msg \<in> set (vec_at (stfData (updateStf f)) di ss)" using dpl_order_in [OF m] by blast
  have "message_ok di ss msg" using sendable_updated [OF a] s v unfolding sendable_def by blast
  then have "di = (dhDescription h, dhOrigin h)" using h by (auto simp: message_ok_def msg_key_def)
  moreover have "vec_at (stfData f) di ss \<noteq> []" using v updateStf_data(1) [OF a, of di ss] by auto
  ultimately show ?thesis using n by (auto simp: no_frame_header_def)
qed

lemma frame_read:
  fixes f :: "('d::linorder, 'o::linorder) SubTimeFrame"
  assumes C: "dpl_codec_ok C" and ext: "\<And>h. dplHeader (ext h) = h"
    and a: "accounted f" and s: "sendable f" and n: "no_frame_header C f"
    and v: "dpl_visit_out C ext reduced budget (updateStf f) = Inr ms"
  shows "\<exists>g. adds (f0\<lparr>stfHeader := stfHeader f\<rparr>) (dpl_order (updateStf f)) g \<and>
    dpl_loop C (ms @ rest) found f0 = dpl_loop C rest True g"
proof -
  let ?H = "stfHeader f"
  from v obtain ms' where ms: "ms = hdr_bytes C (dpl_stf_header C ?H) # stfh_bytes C ?H # ms'"
    and r: "dpl_messages C ext reduced (budget - 2) (dpl_order (updateStf f)) = Inr ms'"
    by (auto simp: dpl_visit_out_def split: if_splits sum.splits)
  have "dpl_loop C (ms @ rest) found f0 = dpl_loop C (ms' @ rest) True (f0\<lparr>stfHeader := ?H\<rparr>)"
    by (subst dpl_loop.simps) (simp add: ms codec_simps [OF C] dpl_stf_header_def)
  moreover have "\<forall>msg\<in>set (dpl_order (updateStf f)). split_counted msg \<and>
      (\<forall>h. smHeader msg = Some h \<longrightarrow> dhDescription h \<noteq> gDataDescSubTimeFrame C)"
    using updated_split_counted [OF a s] updated_not_frame_header [OF a s n] by blast
  ultimately show ?thesis using messages_read [OF C ext _ r, of "f0\<lparr>stfHeader := ?H\<rparr>" rest True] by auto
qed

lemma dpl_loop_Nil: "dpl_loop C [] found f = Some (Inr (found, f))"
  by (subst dpl_loop.simps) simp

section \<open>Round trip\<close>

lemma sent_frame_read:
  fixes f :: "('d::linorder, 'o::linorder) SubTimeFrame"
  assumes C: "dpl_codec_ok C" and ext: "\<forall>h. dplHeader (ext h) = h"
    and "stf_reach f" and s: "sendable f" and n: "no_frame_header C f"
    and v: "sendToDpl C ext budget a f = Inr ([ms], reports)"
  shows "\<exists>g. deserialize_impl C now ms = Some (Inr (Some g)) \<and> stfHeader g = stfHeader f \<and>
    fst (getDataSize g) = fst (getDataSize f) \<and>
    (\<forall>di ss. vec_at (stfData g) di ss = map (updated_message (stfHeader f)) (vec_at (stfData f) di ss))"
proof -
  note acc = reach_accounted [OF assms(3)]
  let ?f0 = "updateStf (SubTimeFrame_new now 0) :: ('d, 'o) SubTimeFrame" and ?v = "dpl_order (updateStf f)"
  have out: "dpl_visit_out C ext (sdReducedHdr a) budget (updateStf f) = Inr ms"
    using v by (auto simp: sendToDpl_def split: if_splits sum.splits)
  have ext': "\<And>h. dplHeader (ext h) = h" using ext by simp
  from frame_read [OF C ext' acc s n out, of ?f0 "[]" False] obtain g where
    g: "adds (?f0\<lparr>stfHeader := stfHeader f\<rparr>) ?v g" and l: "dpl_loop C ms False ?f0 = Some (Inr (True, g))"
    by (auto simp: dpl_loop_Nil)
  obtain ms' where ms: "ms = hdr_bytes C (dpl_stf_header C (stfHeader f)) # stfh_bytes C (stfHeader f) # ms'"
    using out by (auto simp: dpl_visit_out_def split: if_splits sum.splits)
  have "dpl_visit_in C ms ?f0 = Some (Inr g)" using l ms by (simp add: dpl_visit_in_def)
  then have d: "deserialize_impl C now ms = Some (Inr (Some (updateStf g)))"
    using ms by (simp add: deserialize_impl_def codec_simps [OF C] dpl_stf_header_def)
  have e0: "stfData ?f0 = []" "stfDataSize ?f0 = 0"
    unfolding updateStf_new by (simp_all add: SubTimeFrame_new_def)
  have e: "stfData (?f0\<lparr>stfHeader := stfHeader f\<rparr>) = []" "stfDataSize (?f0\<lparr>stfHeader := stfHeader f\<rparr>) = 0"
    using e0 by simp_all
  have wf: "map_wf (stfData (updateStf f))" using updateStf_accounted [OF acc] by (simp add: accounted_def)
  have at: "vec_at (stfData g) di ss = map (updated_message (stfHeader f)) (vec_at (stfData f) di ss)" for di ss
    using adds_at [OF g, of di ss] e(1) dpl_order_at [OF wf, of di ss] sendable_updated [OF acc] s updateStf_data(1) [OF acc, of di ss]
    by simp
  have gH: "stfHeader g = stfHeader f" using g by (simp add: adds_def)
  have gacc: "accounted g"
  proof (cases "?v = []")
    case True
    then have "g = ?f0\<lparr>stfHeader := stfHeader f\<rparr>" using g by (simp add: adds_def)
    then show ?thesis by (simp add: e0 accounted_def map_wf_def map_bytes_def del: split_paired_All)
  next
    case False
    then have "\<not> stfDataUpdated g" using g by (simp add: adds_def)
    moreover have "map_wf (stfData g)" using g e(1) by (simp add: adds_def map_wf_def)
    ultimately show ?thesis by (rule accounted_fresh)
  qed
  have "vec_at (stfData (updateStf g)) di ss = map (updated_message (stfHeader f)) (vec_at (stfData f) di ss)" for di ss
    using updateStf_data(1) [OF gacc, of di ss] by (simp add: at gH comp_def)
  moreover have "fst (getDataSize (updateStf g)) = fst (getDataSize f)"
  proof -
    have "vec_bytes ?v = map_bytes (stfData f)"
      using dpl_order_bytes [OF wf] updateStf_data(3) [OF acc] by simp
    then have "fst (getDataSize g) = of_nat (map_bytes (stfData f))" using adds_empty_size [OF g e] by simp
    then show ?thesis using updateStf_data(2) [OF acc] by (simp add: getDataSize_def updateStf_def split: prod.splits)
  qed
  ultimately show ?thesis using d gH by auto
qed

text \<open>
  C31. What the adapter sends to the data processing layer is read back: for a frame built by the
  operations on frames, whose messages carry the key they are stored under, none with the description of the
  frame header itself, sent with full or with reduced headers, the receiver terminates and
  returns a frame with the same header, the same size and, for every data identifier
  and sub-specification, the same messages in the same order with their updated headers.
\<close>

theorem dpl_roundtrip:
  fixes f :: "('d::linorder, 'o::linorder) SubTimeFrame"
  assumes C: "dpl_codec_ok C" and ext: "\<forall>h. dplHeader (ext h) = h"
    and "stf_reach f" and s: "sendable f" and n: "no_frame_header C f"
    and v: "sendToDpl C ext budget a f = Inr ([ms], reports)"
  shows "\<exists>g. deserialize_impl C now ms = Some (Inr (Some g)) \<and> stfHeader g = stfHeader f \<and>
    fst (getDataSize g) = fst (getDataSize f) \<and>
    (\<forall>di ss. vec_at (stfData g) di ss = map (updated_message (stfHeader f)) (vec_at (stfData f) di ss))"
  using sent_frame_read [OF assms] .

section \<open>A header that blocks the receiver\<close>





section \<open>Sending succeeds\<close>

lemma dpl_message_succeeds:
  assumes "split_counted msg" "length (smDataParts msg) \<le> b"
  shows "\<exists>b' ms. dpl_message C ext reduced b msg = Inr (b', ms) \<and> b - length (smDataParts msg) \<le> b'"
proof -
  from assms(1) obtain h p ps where "smHeader msg = Some h" "smDataParts msg = p # ps"
    unfolding split_counted_def by (metis neq_Nil_conv)
  then show ?thesis using assms(2) by (cases ps) (auto simp: dpl_message_def)
qed

lemma dpl_messages_succeeds:
  "\<forall>msg\<in>set v. split_counted msg \<Longrightarrow> (\<Sum>msg\<leftarrow>v. length (smDataParts msg)) \<le> b \<Longrightarrow>
    \<exists>ms. dpl_messages C ext reduced b v = Inr ms"
proof (induction v arbitrary: b)
  case (Cons msg v)
  from Cons.prems dpl_message_succeeds [of msg b C ext reduced] obtain b' ms where
    m: "dpl_message C ext reduced b msg = Inr (b', ms)" "b - length (smDataParts msg) \<le> b'" by auto
  have "(\<Sum>msg\<leftarrow>v. length (smDataParts msg)) \<le> b'" using Cons.prems(2) m(2) by simp
  with Cons.IH [of b'] Cons.prems(1) obtain ms' where "dpl_messages C ext reduced b' v = Inr ms'" by auto
  then show ?case using m(1) by simp
qed simp

lemma dpl_send_succeeds:
  fixes f :: "('d::linorder, 'o::linorder) SubTimeFrame"
  assumes "accounted f" "sendable f" "sdRunning a"
    and "2 + (\<Sum>msg\<leftarrow>dpl_order (updateStf f). length (smDataParts msg)) \<le> budget"
  shows "\<exists>ms reports. sendToDpl C ext budget a f = Inr ([ms], reports)"
proof -
  have "\<forall>msg\<in>set (dpl_order (updateStf f)). split_counted msg" using updated_split_counted [OF assms(1, 2)] by blast
  moreover have "(\<Sum>msg\<leftarrow>dpl_order (updateStf f). length (smDataParts msg)) \<le> budget - 2" using assms(4) by linarith
  ultimately obtain ms where "dpl_messages C ext (sdReducedHdr a) (budget - 2) (dpl_order (updateStf f)) = Inr ms"
    using dpl_messages_succeeds by blast
  then show ?thesis using assms(3, 4) by (simp add: sendToDpl_def dpl_visit_out_def)
qed

section \<open>The inspection accepts what is sent\<close>

definition hdr_fits :: "StfHeader \<Rightarrow> ('d, 'o) dpl_header \<Rightarrow> bool" where
  "hdr_fits H x \<longleftrightarrow> tfCounter (dplHeader x) = ucast (hId H) \<and> runNumber (dplHeader x) = hRunNumber H \<and>
     firstTForbit (dplHeader x) = hFirstOrbit H \<and> dplStart x = Some (hId H)"

definition inspect_fits :: "StfHeader \<Rightarrow> inspect_state \<Rightarrow> bool" where
  "inspect_fits H s \<longleftrightarrow> inCounter s = ucast (hId H) \<and> inRun s = hRunNumber H \<and> inFirst s = hFirstOrbit H \<and> inStart s = hId H"

lemma inspect_fields_fits:
  "hdr_fits H x \<Longrightarrow> inspect_fits H s \<Longrightarrow> inspect_fields (dplHeader x) s = ([], s)"
  by (cases s) (auto simp: inspect_fields_def hdr_fits_def inspect_fits_def Let_def)

lemma inspect_start_fits: "inspect_fits H s \<Longrightarrow> inspect_start (hId H) s = ([], s)"
  by (cases s) (auto simp: inspect_start_def inspect_fits_def)

lemma inspect_loop_step:
  assumes "hdr_get C m = Some x" "hdr_fits H x" "inspect_fits H s"
    and n: "unat (splitPayloadParts (dplHeader x)) = n" "0 < n"
  shows "n = 1 \<Longrightarrow> inspect_loop C s (m # ms) = inspect_loop C s (drop 1 ms)"
    and "1 < n \<Longrightarrow> n \<le> length ms \<Longrightarrow> splitPayloadIndex (dplHeader x) = splitPayloadParts (dplHeader x) \<Longrightarrow>
      inspect_loop C s (m # ms) = inspect_loop C s (drop n ms)"
    and "1 < n \<Longrightarrow> n \<le> length ms \<Longrightarrow> splitPayloadIndex (dplHeader x) = 0 \<Longrightarrow> splitPayloadParts (dplHeader x) \<noteq> 0 \<Longrightarrow>
      inspect_loop C s (m # ms) = inspect_loop C s (drop (2 * n - 1) ms)"
  using assms(1) n inspect_fields_fits [OF assms(2, 3)] inspect_start_fits [OF assms(3)] assms(2)
  by (simp_all add: inspect_loop.simps(2) hdr_fits_def)

lemma length_full_split: "length (full_split C x n i ps) = 2 * length ps"
  by (induction ps arbitrary: i) simp_all

lemma message_inspected:
  assumes C: "dpl_codec_ok C" and s: "split_counted msg" and ext: "\<And>h. dplHeader (ext h) = h"
    and h: "smHeader msg = Some h" "hdr_fits H (ext h)" and m: "dpl_message C ext reduced b msg = Inr (b', ms)"
    and st: "inspect_fits H s"
  shows "inspect_loop C s (ms @ rest) = inspect_loop C s rest"
proof -
  from s h(1) have parts: "splitPayloadParts h = of_nat (length (smDataParts msg))"
    "splitPayloadIndex h = (if length (smDataParts msg) = 1 then 0 else splitPayloadParts h)"
    and lt: "length (smDataParts msg) < 2 ^ 32" and ne: "smDataParts msg \<noteq> []" by (auto simp: split_counted_def)
  define n where "n = length (smDataParts msg)"
  obtain p ps where ps: "smDataParts msg = p # ps" using ne by (cases "smDataParts msg") auto
  have n: "0 < n" "n < 2 ^ 32" "n = Suc (length ps)" using lt ps by (simp_all add: n_def)
  have fits: "hdr_fits H (split_header (ext h) k i q)" for k i q using h(2) by (simp add: hdr_fits_def split_header_def ext)
  note w = part_count_word [OF n(1, 2)]
  show ?thesis
  proof (cases "n = 1")
    case True
    then have one: "ps = []" "splitPayloadParts h = 1" using n(3) parts(1) by (simp_all add: n_def [symmetric])
    show ?thesis
    proof (cases reduced)
      case True
      then have "ms = [hdr_bytes C (ext h), p]" using m h(1) ps one by (simp add: dpl_message_def)
      then show ?thesis
        using inspect_loop_step(1) [OF codec_simps(2) [OF C] h(2) st, of 1 "p # rest"] one by (simp add: ext)
    next
      case False
      then have "ms = [hdr_bytes C (split_header (ext h) 1 0 p), p]" using m h(1) ps one by (simp add: dpl_message_def)
      then show ?thesis
        using inspect_loop_step(1) [OF codec_simps(2) [OF C] fits st, of 1 0 p 1 "p # rest"] by (simp add: split_header_def)
    qed
  next
    case False
    then have many: "1 < n" "ps \<noteq> []" using n by auto
    show ?thesis
    proof (cases reduced)
      case True
      then have ms: "ms = hdr_bytes C (ext h) # p # ps" using m h(1) ps by (simp add: dpl_message_def)
      have "inspect_loop C s (hdr_bytes C (ext h) # (p # ps @ rest)) = inspect_loop C s (drop n (p # ps @ rest))"
        by (rule inspect_loop_step(2) [OF codec_simps(2) [OF C] h(2) st])
          (use w(1) many n parts False in \<open>simp_all add: ext n_def [symmetric]\<close>)
      then show ?thesis using ms n(3) by simp
    next
      case red: False
      let ?x = "split_header (ext h) n 0 p" and ?t = "full_split C (ext h) n 1 ps"
      from red have ms: "ms = hdr_bytes C ?x # p # ?t"
        using m h(1) ps many by (cases ps) (auto simp: dpl_message_def n_def split: if_splits)
      have "inspect_loop C s (hdr_bytes C ?x # (p # ?t @ rest)) = inspect_loop C s (drop (2 * n - 1) (p # ?t @ rest))"
        by (rule inspect_loop_step(3) [OF codec_simps(2) [OF C] fits st])
          (use w many n in \<open>simp_all add: split_header_def length_full_split\<close>)
      moreover have "drop (2 * n - 1) (p # ?t @ rest) = rest"
        using n(3) by (simp add: length_full_split)
      ultimately show ?thesis using ms by simp
    qed
  qed
qed

lemma messages_inspected:
  assumes C: "dpl_codec_ok C" and ext: "\<And>h. dplHeader (ext h) = h" and st: "inspect_fits H s"
    and "\<forall>msg\<in>set v. split_counted msg \<and> (\<forall>h. smHeader msg = Some h \<longrightarrow> hdr_fits H (ext h))"
    and "dpl_messages C ext reduced b v = Inr ms"
  shows "inspect_loop C s ms = []"
  using assms(4, 5)
proof (induction v arbitrary: b ms)
  case (Cons msg v)
  from Cons.prems(2) obtain b1 m1 m2 where m: "dpl_message C ext reduced b msg = Inr (b1, m1)"
    "dpl_messages C ext reduced b1 v = Inr m2" "ms = m1 @ m2"
    by (auto split: sum.splits prod.splits)
  from Cons.prems(1) obtain h where h: "smHeader msg = Some h" "hdr_fits H (ext h)" "split_counted msg"
    by (auto simp: split_counted_def)
  have "inspect_loop C s ms = inspect_loop C s m2"
    using message_inspected [OF C h(3) ext h(1, 2) m(1) st] m(3) by simp
  then show ?case using Cons.IH [OF _ m(2)] Cons.prems(1) by simp
qed simp

text \<open>
  C33. The messages that the adapter sends form a well-typed sequence: for a frame built by the operations,
  with a known first orbit and message headers whose processing header starts at the identifier of the frame,
  the inspection of the sender reports nothing, with full and with reduced
  headers: every position it visits is a header with the counter, run and orbit of
  the frame, and the split counters lead it from header to header up to the end.
\<close>

theorem dpl_output_well_typed:
  fixes f :: "('d::linorder, 'o::linorder) SubTimeFrame"
  assumes C: "dpl_codec_ok C" and ext: "\<forall>h. dplHeader (ext h) = h \<and> dplStart (ext h) = Some (hId (stfHeader f))"
    and "stf_reach f" and s: "sendable f" and orb: "hFirstOrbit (stfHeader f) \<noteq> - 1"
    and v: "sendToDpl C ext budget a f = Inr ([ms], reports)"
  shows "dpl_inspect C ms = [] \<and> reports = []"
proof -
  let ?H = "stfHeader f"
  note a = reach_accounted [OF assms(3)]
  have out: "dpl_visit_out C ext (sdReducedHdr a) budget (updateStf f) = Inr ms" and rep: "reports = [] \<or> reports = dpl_inspect C ms"
    using v by (auto simp: sendToDpl_def split: if_splits sum.splits)
  from out obtain ms' where ms: "ms = hdr_bytes C (dpl_stf_header C ?H) # stfh_bytes C ?H # ms'"
    and r: "dpl_messages C ext (sdReducedHdr a) (budget - 2) (dpl_order (updateStf f)) = Inr ms'"
    by (auto simp: dpl_visit_out_def split: if_splits sum.splits)
  define s0 where "s0 = \<lparr>inFirst = hFirstOrbit ?H, inCounter = ucast (hId ?H), inRun = hRunNumber ?H, inStart = hId ?H\<rparr>"
  have st: "inspect_fits ?H s0" by (simp add: inspect_fits_def s0_def)
  have "dpl_inspect C ms = inspect_loop C s0 ms'"
    using ms by (simp add: dpl_inspect_def inspect_loop.simps(2) codec_simps [OF C] dpl_stf_header_def inspect_fields_def
        inspect_init_def inspect_start_def Let_def s0_def)
  moreover have "hdr_fits ?H (ext h)" if m: "msg \<in> set (dpl_order (updateStf f))" "smHeader msg = Some h" for msg h
  proof -
    obtain di ss where v: "msg \<in> set (vec_at (stfData (updateStf f)) di ss)" using dpl_order_in [OF m(1)] by blast
    have ne: "smDataParts msg \<noteq> []" using updated_split_counted [OF a s m(1)] by (simp add: split_counted_def)
    obtain h0 where h0: "h = update_header ?H (length (smDataParts msg)) h0" using vec_updated [OF a v m(2) ne] by blast
    have "header_current ?H (length (smDataParts msg)) h" unfolding h0 using ne by (intro update_header_current) simp
    then show ?thesis using orb ext by (auto simp: header_current_def hdr_fits_def)
  qed
  then have "\<forall>msg\<in>set (dpl_order (updateStf f)). split_counted msg \<and> (\<forall>h. smHeader msg = Some h \<longrightarrow> hdr_fits ?H (ext h))"
    using updated_split_counted [OF a s] by blast
  ultimately have "dpl_inspect C ms = []" using messages_inspected [OF C _ st _ r] ext by simp
  then show ?thesis using rep by auto
qed

section \<open>Concrete runs\<close>

text \<open>A layout with every field in 8 bytes.\<close>

definition words_bytes :: "u64 list \<Rightarrow> fmq_message" where
  "words_bytes ws = concat (map u64_bytes ws)"

definition word_at :: "nat \<Rightarrow> fmq_message \<Rightarrow> u64" where
  "word_at i bs = u64_of (drop (8 * i) bs)"

lemma length_words_bytes: "length (words_bytes ws) = 8 * length ws"
  by (induction ws) (simp_all add: words_bytes_def)

lemma word_at_bytes: "i < length ws \<Longrightarrow> word_at i (words_bytes ws) = ws ! i"
proof (induction ws arbitrary: i)
  case (Cons w ws)
  then show ?case by (cases i) (simp_all add: words_bytes_def word_at_def)
qed simp

definition dpl_words :: "(u64, u32) dpl_header \<Rightarrow> u64 list" where
  "dpl_words x =
     (let h = dplHeader x
      in [dhDescription h, ucast (dhOrigin h), ucast (dhSubSpecification h), ucast (splitPayloadIndex h),
          ucast (splitPayloadParts h), ucast (firstTForbit h), ucast (tfCounter h), ucast (runNumber h),
          dplPayloadSize x, if dplStart x = None then 0 else 1, case dplStart x of None \<Rightarrow> 0 | Some t \<Rightarrow> t,
          dplCreation x, if dplCompleted x then 1 else 0])"

definition dpl_of_words :: "(nat \<Rightarrow> u64) \<Rightarrow> (u64, u32) dpl_header" where
  "dpl_of_words w =
     \<lparr>dplHeader = \<lparr>dhDescription = w 0, dhOrigin = ucast (w 1), dhSubSpecification = ucast (w 2),
        splitPayloadIndex = ucast (w 3), splitPayloadParts = ucast (w 4), firstTForbit = ucast (w 5),
        tfCounter = ucast (w 6), runNumber = ucast (w 7)\<rparr>,
      dplPayloadSize = w 8, dplStart = (if w 9 = 0 then None else Some (w 10)), dplCreation = w 11,
      dplCompleted = (w 12 = 1)\<rparr>"

fun origin_word :: "Origin \<Rightarrow> u64" where
  "origin_word OriginInvalid = 0"
| "origin_word eReadout = 1"
| "origin_word eReadoutTopology = 2"
| "origin_word OriginNull = 3"

definition word_origin :: "u64 \<Rightarrow> Origin" where
  "word_origin w = (if w = 0 then OriginInvalid else if w = 1 then eReadout else if w = 2 then eReadoutTopology else OriginNull)"

definition plain_dpl :: "(u64, u32) dpl_codec" where
  "plain_dpl = \<lparr>
     hdr_bytes = (\<lambda>x. words_bytes (dpl_words x)),
     hdr_of = (\<lambda>bs. dpl_of_words (\<lambda>i. word_at i bs)),
     hdr_get = (\<lambda>bs. if length bs = 104 then Some (dpl_of_words (\<lambda>i. word_at i bs)) else None),
     hdr_new = (\<lambda>d og ss. \<lparr>dhDescription = d, dhOrigin = og, dhSubSpecification = ss, splitPayloadIndex = 0,
       splitPayloadParts = 1, firstTForbit = 0, tfCounter = 0, runNumber = 0\<rparr>),
     stfh_bytes = (\<lambda>H. words_bytes [hId H, ucast (hFirstOrbit H), ucast (hRunNumber H), origin_word (hOrigin H), hCreationTimeMs H]),
     stfh_of = (\<lambda>bs. \<lparr>hId = word_at 0 bs, hFirstOrbit = ucast (word_at 1 bs), hRunNumber = ucast (word_at 2 bs),
       hOrigin = word_origin (word_at 3 bs), hCreationTimeMs = word_at 4 bs\<rparr>),
     sz_DataHeader = 64, sz_StfHeader = 40, gDataDescSubTimeFrame = 99, gDataOriginFLP = 1,
     gDataDescriptionInfo = 98, gDataOriginAny = 0\<rparr>"

lemma ucast_up_down [simp]: "ucast (ucast (x :: u32) :: u64) = x"
  by (auto intro!: bit_word_eqI simp: bit_simps)

lemma length_dpl_words [simp]: "length (dpl_words x) = 13"
  by (simp add: dpl_words_def Let_def)

lemma dpl_words_inv: "dpl_of_words (\<lambda>i. word_at i (words_bytes (dpl_words x))) = x"
proof -
  have "word_at i (words_bytes (dpl_words x)) = dpl_words x ! i" if "i < 13" for i
    using that by (intro word_at_bytes) (simp add: dpl_words_def Let_def)
  then show ?thesis
    by (simp add: dpl_of_words_def) (cases x, simp add: dpl_words_def Let_def split: option.splits)
qed

lemma plain_dpl_ok: "dpl_codec_ok plain_dpl"
proof -
  have l: "length (words_bytes (dpl_words x)) = 104" for x by (simp add: length_words_bytes dpl_words_def Let_def)
  have o: "word_origin (origin_word og) = og" for og by (cases og) (simp_all add: word_origin_def)
  show ?thesis
    unfolding dpl_codec_ok_def
    by (simp add: plain_dpl_def dpl_words_inv l length_words_bytes word_at_bytes o)
qed

definition plain_ext :: "(u64, u32) DataHeader \<Rightarrow> (u64, u32) dpl_header" where
  "plain_ext h = \<lparr>dplHeader = h, dplPayloadSize = 0, dplStart = Some 9, dplCreation = 0, dplCompleted = False\<rparr>"

lemma file_frame_no_header: "no_frame_header plain_dpl file_frame"
  using file_frame_vec(3) by (auto simp: no_frame_header_def plain_dpl_def)

lemma file_frame_sent:
  obtains budget ms reports where
    "sendToDpl plain_dpl plain_ext budget \<lparr>sdRunning = True, sdInspect = True, sdReducedHdr = red\<rparr> file_frame = Inr ([ms], reports)"
  using dpl_send_succeeds [OF reach_accounted [OF file_frame_reach] file_frame_sendable,
      of "\<lparr>sdRunning = True, sdInspect = True, sdReducedHdr = red\<rparr>"] by fastforce

theorem dpl_roundtrip_witness:
  "\<exists>ms g. deserialize_impl plain_dpl 5 ms = Some (Inr (Some g)) \<and>
     map smDataParts (vec_at (stfData g) (5, 2) 7) = [[[1, 2, 3], [4]]]"
proof -
  obtain budget ms reports where
    s: "sendToDpl plain_dpl plain_ext budget \<lparr>sdRunning = True, sdInspect = True, sdReducedHdr = False\<rparr> file_frame = Inr ([ms], reports)"
    by (rule file_frame_sent)
  have ext: "\<forall>h. dplHeader (plain_ext h) = h" by (simp add: plain_ext_def)
  from dpl_roundtrip [OF plain_dpl_ok ext file_frame_reach file_frame_sendable file_frame_no_header s, of 5]
  obtain g where g: "deserialize_impl plain_dpl 5 ms = Some (Inr (Some g))"
    "vec_at (stfData g) (5, 2) 7 = map (updated_message (stfHeader file_frame)) (vec_at (stfData file_frame) (5, 2) 7)" by blast
  have "map smDataParts (vec_at (stfData g) (5, 2) 7) = [[[1, 2, 3], [4]]]"
    unfolding g(2) file_frame_vec(2) by (simp add: updated_message_inv)
  with g(1) show ?thesis by (intro exI conjI)
qed


definition orbit_frame :: "(u64, u32) SubTimeFrame" where
  "orbit_frame = updateFirstOrbit 7 file_frame"

lemma orbit_frame_facts: "stf_reach orbit_frame" "sendable orbit_frame" "hFirstOrbit (stfHeader orbit_frame) \<noteq> - 1"
  "hId (stfHeader orbit_frame) = 9"
proof -
  have H: "stfHeader file_frame = (Header_new 9)\<lparr>hCreationTimeMs := 5\<rparr>"
    by (simp add: file_frame_def addStfDataStart_def addStfDataAppend_def SubTimeFrame_new_def parts_at_def Let_def push_part_def
        vec_at_set)
  show "stf_reach orbit_frame" unfolding orbit_frame_def by (rule reach_op [OF file_frame_reach op_orbit])
  show "sendable orbit_frame" using file_frame_sendable by (simp add: sendable_def orbit_frame_def updateFirstOrbit_def)
  show "hFirstOrbit (stfHeader orbit_frame) \<noteq> - 1" "hId (stfHeader orbit_frame) = 9"
    by (simp_all add: orbit_frame_def updateFirstOrbit_def H Header_new_def)
qed

theorem dpl_output_well_typed_witness:
  "\<exists>ms. ms \<noteq> [] \<and> dpl_inspect plain_dpl ms = []"
proof -
  obtain budget ms reports where
    s: "sendToDpl plain_dpl plain_ext budget \<lparr>sdRunning = True, sdInspect = True, sdReducedHdr = False\<rparr> orbit_frame = Inr ([ms], reports)"
    using dpl_send_succeeds [OF reach_accounted [OF orbit_frame_facts(1)] orbit_frame_facts(2),
      of "\<lparr>sdRunning = True, sdInspect = True, sdReducedHdr = False\<rparr>"] by fastforce
  have ext: "\<forall>h. dplHeader (plain_ext h) = h \<and> dplStart (plain_ext h) = Some (hId (stfHeader orbit_frame))"
    by (simp add: plain_ext_def orbit_frame_facts)
  from dpl_output_well_typed [OF plain_dpl_ok ext orbit_frame_facts(1-3) s]
  have "dpl_inspect plain_dpl ms = []" by blast
  moreover have "ms \<noteq> []" using s by (auto simp: sendToDpl_def dpl_visit_out_def split: if_splits sum.splits)
  ultimately show ?thesis by blast
qed

end
