(* ===== verification/Stfb_Device.thy ===== *)
theory Stfb_Device
  imports DD_Queue Stfb_Readout Disc_Consul
begin

text \<open>
  The StfBuilder device (\<open>StfBuilder/StfBuilderDevice.{h,cxx}\<close>): its configuration, the pipeline
  between the input (or the file source), the file sink and the output, the limit on the number of
  frames in it, and the output thread. \<open>'f\<close> is the type of frames; the thread gets the outcome of
  sending a frame as a function of the frame. Rates and monitoring are left out.
\<close>

section \<open>Stages of the pipeline\<close>

definition eStfBuilderOut :: nat where "eStfBuilderOut = 0"
definition eStfFileSourceOut :: nat where "eStfFileSourceOut = 0"
definition eStfFileSinkIn :: nat where "eStfFileSinkIn = 0"
definition eStfFileSinkOut :: nat where "eStfFileSinkOut = 1"
definition eStfSendIn :: nat where "eStfSendIn = 1"
definition eStfNullIn :: nat where "eStfNullIn = 2"
definition eStfPipelineSize :: nat where "eStfPipelineSize = 2"

lemmas stage_defs = eStfBuilderOut_def eStfFileSourceOut_def eStfFileSinkIn_def eStfFileSinkOut_def eStfSendIn_def
  eStfNullIn_def eStfPipelineSize_def

section \<open>State\<close>

text \<open>\<open>sbSinkEnabled\<close> and \<open>sbSourceEnabled\<close> are \<open>enabled()\<close> of the file sink and source.\<close>

record 'f stfb_device =
  sbPipeline :: "'f pipeline"
  sbPartitionId :: string
  sbInputChannelName :: string
  sbOutputChannelName :: string
  sbDplChannelName :: string
  sbStandalone :: bool
  sbMaxStfsInPipeline :: int
  sbMaxBuiltStfs :: u64
  sbPipelineLimit :: bool
  sbNumStfs :: int
  sbRunning :: bool
  sbInRunningState :: bool
  sbPaused :: bool
  sbSinkEnabled :: bool
  sbSourceEnabled :: bool
  sbReadoutRunning :: bool
  sbSourcePaused :: bool
  sbSentOutStfsTotal :: u64
  sbSentOutStfs :: u64
  sbRestartRateCounter :: bool

definition stfb_device_new :: "'f stfb_device" where
  "stfb_device_new =
     \<lparr>sbPipeline = pl_new eStfPipelineSize, sbPartitionId = [], sbInputChannelName = [], sbOutputChannelName = [],
      sbDplChannelName = [], sbStandalone = False, sbMaxStfsInPipeline = 0, sbMaxBuiltStfs = 0, sbPipelineLimit = False,
      sbNumStfs = 0, sbRunning = False, sbInRunningState = False, sbPaused = False, sbSinkEnabled = False,
      sbSourceEnabled = False, sbReadoutRunning = False, sbSourcePaused = False, sbSentOutStfsTotal = 0, sbSentOutStfs = 0,
      sbRestartRateCounter = True\<rparr>"

section \<open>The limit on buffered frames\<close>

text \<open>\<open>try_pop\<close> of a stage of the device, which always exists.\<close>

definition stage_try_pop :: "nat \<Rightarrow> 'f stfb_device \<Rightarrow> bool \<times> 'f stfb_device" where
  "stage_try_pop stage s =
     (case pl_try_pop stage (sbPipeline s) of None \<Rightarrow> (False, s) | Some (ok, p) \<Rightarrow> (ok, s\<lparr>sbPipeline := p\<rparr>))"

definition tryPopOldestStfs :: "'f stfb_device \<Rightarrow> bool \<times> 'f stfb_device" where
  "tryPopOldestStfs s =
     (case stage_try_pop eStfSendIn s of
        (True, s1) \<Rightarrow> (True, s1)
      | (False, s1) \<Rightarrow> stage_try_pop eStfFileSinkIn s1)"

text \<open>A new frame is counted; at the limit the oldest frame is dropped for it.\<close>

definition count_new_stf :: "'f stfb_device \<Rightarrow> 'f stfb_device" where
  "count_new_stf s =
     (let s1 = s\<lparr>sbNumStfs := sbNumStfs s + 1\<rparr>
      in if sbPipelineLimit s1 \<and> sbNumStfs s1 \<ge> sbMaxStfsInPipeline s1 then
           (case tryPopOldestStfs s1 of (ok, s') \<Rightarrow> if ok then s'\<lparr>sbNumStfs := sbNumStfs s' - 1\<rparr> else s')
         else s1)"

text \<open>\<open>None\<close>: the stage is neither, and the call throws.\<close>

definition getNextPipelineStage :: "nat \<Rightarrow> 'f stfb_device \<Rightarrow> (nat \<times> 'f stfb_device) option" where
  "getNextPipelineStage stage s =
     (if stage = eStfBuilderOut then
        (let s2 = count_new_stf s
         in if sbSinkEnabled s2 then Some (eStfFileSinkIn, s2\<lparr>sbNumStfs := sbNumStfs s2 - 1\<rparr>)
            else Some (eStfSendIn, s2))
      else if stage = eStfFileSinkOut then Some (eStfSendIn, s\<lparr>sbNumStfs := sbNumStfs s + 1\<rparr>)
      else None)"

text \<open>\<open>queue\<close> and \<open>close\<close> of the pipeline ask for the next stage first.\<close>

definition device_queue :: "nat \<Rightarrow> 'f \<Rightarrow> 'f stfb_device \<Rightarrow> (bool \<times> 'f stfb_device) option" where
  "device_queue stage x s =
     (case getNextPipelineStage stage s of
        None \<Rightarrow> None
      | Some (n, s1) \<Rightarrow>
          (case pl_queue (\<lambda>_. n) stage x (sbPipeline s1) of (ok, p) \<Rightarrow> Some (ok, s1\<lparr>sbPipeline := p\<rparr>)))"

definition device_close :: "nat \<Rightarrow> 'f stfb_device \<Rightarrow> 'f stfb_device option" where
  "device_close stage s =
     (case getNextPipelineStage stage s of
        None \<Rightarrow> None
      | Some (n, s1) \<Rightarrow> Some (s1\<lparr>sbPipeline := pl_close (\<lambda>_. n) stage (sbPipeline s1)\<rparr>))"

text \<open>The file sink takes a frame and hands it on.\<close>

definition sink_dequeue :: "'f stfb_device \<Rightarrow> ('f pop_result \<times> 'f stfb_device)" where
  "sink_dequeue s =
     (case pl_dequeue eStfFileSinkIn (sbPipeline s) of
        None \<Rightarrow> (Blocked, s)
      | Some (r, p) \<Rightarrow> (r, s\<lparr>sbPipeline := p\<rparr>))"

section \<open>The output thread\<close>

text \<open>
  What a round does with the frame it gets. \<open>soDone\<close>: the thread has left its loop.
\<close>

datatype 'f out_event = OutSent 'f | OutFailed 'f | OutDropped 'f | OutKept 'f | OutEos

record out_thread =
  soShouldSendEos :: bool
  soDone :: bool

definition dropped :: "'f option \<Rightarrow> 'f out_event list" where
  "dropped r = (case r of None \<Rightarrow> [] | Some f \<Rightarrow> [OutDropped f])"

definition out_exit :: "'f out_event list \<Rightarrow> out_thread \<Rightarrow> 'f stfb_device \<Rightarrow> 'f out_event list \<times> out_thread \<times> 'f stfb_device" where
  "out_exit es t s =
     (es @ (if \<not> sbStandalone s \<and> soShouldSendEos t then [OutEos] else []), t\<lparr>soDone := True\<rparr>, s\<lparr>sbRunning := False\<rparr>)"

definition count_sent_stf :: "'f stfb_device \<Rightarrow> 'f stfb_device" where
  "count_sent_stf s =
     (let s1 = (if sbRestartRateCounter s then s\<lparr>sbSentOutStfs := 0, sbRestartRateCounter := False\<rparr> else s)
      in s1\<lparr>sbSentOutStfs := sbSentOutStfs s1 + 1, sbSentOutStfsTotal := sbSentOutStfsTotal s1 + 1\<rparr>)"

definition max_reached :: "'f stfb_device \<Rightarrow> bool" where
  "max_reached s \<longleftrightarrow> sbMaxBuiltStfs s > 0 \<and> sbSentOutStfsTotal s = sbMaxBuiltStfs s"

text \<open>
  The part after a frame \<open>f\<close> has been taken in the running state. In standalone mode the frame is
  deleted (\<open>OutKept\<close>).
\<close>

definition out_frame :: "('f \<Rightarrow> bool) \<Rightarrow> 'f \<Rightarrow> out_thread \<Rightarrow> 'f stfb_device \<Rightarrow>
    'f out_event list \<times> out_thread \<times> 'f stfb_device" where
  "out_frame send f t s =
     (let s1 = s\<lparr>sbNumStfs := sbNumStfs s - 1\<rparr>
      in if sbStandalone s1 then
           (if max_reached s1 then out_exit [OutKept f] t s1 else ([OutKept f], t, s1))
         else if \<not> send f then ([OutFailed f], t, s1)
         else if max_reached (count_sent_stf s1) then out_exit [OutSent f] t (count_sent_stf s1)
         else ([OutSent f], t, count_sent_stf s1))"

text \<open>
  One round of \<open>StfOutputThread\<close>: \<open>head\<close> is \<open>mRunning\<close> at the head of the loop, the other states are
  those after the timed wait, whose wake-ups are \<open>ws\<close>. \<open>None\<close>: still waiting. Sending the end of stream without an adapter (standalone) is a null
  dereference, \<open>Some None\<close>.
\<close>

definition out_round :: "('f \<Rightarrow> bool) \<Rightarrow> bool \<Rightarrow> 'f wake list \<Rightarrow> out_thread \<Rightarrow> 'f stfb_device \<Rightarrow>
    ('f out_event list \<times> out_thread \<times> 'f stfb_device) option option" where
  "out_round send head ws t s =
     (if soDone t then Some (Some ([], t, s))
      else if \<not> head then Some (Some (out_exit [] t s))
      else
        (case pl_dequeue_for eStfSendIn ws (sbPipeline s) of
           None \<Rightarrow> None
         | Some (r, p) \<Rightarrow>
             (let s1 = s\<lparr>sbPipeline := p\<rparr>
              in if \<not> sbRunning s1 \<or> pl_is_running eStfSendIn p \<noteq> Some True then Some (Some (out_exit (dropped r) t s1))
                 else if \<not> sbInRunningState s1 then
                   (if soShouldSendEos t then
                      (if sbStandalone s1 then Some None
                       else Some (Some (dropped r @ [OutEos], t\<lparr>soShouldSendEos := False\<rparr>, s1)))
                    else Some (Some (dropped r, t, s1)))
                 else
                   (let t1 = t\<lparr>soShouldSendEos := True\<rparr>
                    in case r of
                         None \<Rightarrow> Some (Some ([], t1, s1))
                       | Some f \<Rightarrow> Some (Some (out_frame send f t1 s1))))))"

section \<open>Running and stopping\<close>

text \<open>
  The flags of the device, of its input and of the file source. The file sink makes its directory
  (theory \<open>TfFile_Sink\<close>).
\<close>

definition PreRun_flags :: "'f stfb_device \<Rightarrow> 'f stfb_device" where
  "PreRun_flags s =
     s\<lparr>sbReadoutRunning := True, sbPaused := False, sbSourcePaused := False, sbRestartRateCounter := True, sbInRunningState := True\<rparr>"

definition PostRun_flags :: "'f stfb_device \<Rightarrow> 'f stfb_device" where
  "PostRun_flags s = s\<lparr>sbInRunningState := False, sbReadoutRunning := False, sbPaused := True, sbSourcePaused := True\<rparr>"

text \<open>The status in the discovery store; the run number is set at the start.\<close>

definition write_run_state ::
    "'c consul \<Rightarrow> ('b config_status \<Rightarrow> string) \<Rightarrow> string \<times> u64 \<Rightarrow> ProcessState \<Rightarrow> u64 option \<Rightarrow> 'b consul_config \<Rightarrow> 'c \<Rightarrow>
       config_error + (bool \<times> 'b consul_config \<times> 'c)" where
  "write_run_state K ser time ps run cfg c =
     (if ccConnected cfg then
        consul_write K ser time False
          (cfg\<lparr>mStatus := (mStatus cfg)\<lparr>cs_process_state := ps,
             cs_run_number := (case run of None \<Rightarrow> cs_run_number (mStatus cfg) | Some r \<Rightarrow> r)\<rparr>\<rparr>) c
      else Inr (False, cfg, c))"

definition PreRun ::
    "'c consul \<Rightarrow> ('b config_status \<Rightarrow> string) \<Rightarrow> string \<times> u64 \<Rightarrow> u64 \<Rightarrow> 'b consul_config \<Rightarrow> 'f stfb_device \<Rightarrow> 'c \<Rightarrow>
       config_error + ('b consul_config \<times> 'f stfb_device \<times> 'c)" where
  "PreRun K ser time run cfg s c =
     (case write_run_state K ser time PROC_RUNNING (Some run) cfg c of
        Inl e \<Rightarrow> Inl e
      | Inr (ok, cfg1, c1) \<Rightarrow> Inr (cfg1, PreRun_flags s, c1))"

definition PostRun ::
    "'c consul \<Rightarrow> ('b config_status \<Rightarrow> string) \<Rightarrow> string \<times> u64 \<Rightarrow> 'b consul_config \<Rightarrow> 'f stfb_device \<Rightarrow> 'c \<Rightarrow>
       config_error + ('b consul_config \<times> 'f stfb_device \<times> 'c)" where
  "PostRun K ser time cfg s c =
     (case write_run_state K ser time PROC_NOT_RUNNING None cfg c of
        Inl e \<Rightarrow> Inl e
      | Inr (ok, cfg1, c1) \<Rightarrow> Inr (cfg1, PostRun_flags s, c1))"

definition StfBuilder_ConditionalRun :: "'f stfb_device \<Rightarrow> bool" where
  "StfBuilder_ConditionalRun s = sbRunning s"

text \<open>Stopping the threads comes after; they see the stopped queues.\<close>

definition ResetTask :: "'f stfb_device \<Rightarrow> 'f stfb_device" where
  "ResetTask s = s\<lparr>sbRunning := False, sbPipeline := clearPipeline (stopPipeline (sbPipeline s))\<rparr>"

section \<open>Configuration\<close>

text \<open>\<open>boost::to_upper_copy\<close> and the detectors; the constants of O2 are their three letters.\<close>

definition to_upper_char :: "char \<Rightarrow> char" where
  "to_upper_char c = (if 97 \<le> (of_char c :: nat) \<and> (of_char c :: nat) \<le> 122 then char_of ((of_char c :: nat) - 32) else c)"

datatype det_origin = DetOrigin string | DetInvalid | DetAny

definition detector_names :: "string list" where
  "detector_names = [''ACO'', ''CPV'', ''CTP'', ''EMC'', ''FT0'', ''FV0'', ''FDD'', ''HMP'', ''ITS'', ''MCH'', ''MFT'', ''MID'',
     ''PHS'', ''TOF'', ''TPC'', ''TRD'', ''ZDC'', ''TST'']"

definition getDataOriginFromOption :: "string \<Rightarrow> det_origin" where
  "getDataOriginFromOption a =
     (let d = map to_upper_char a
      in if d \<in> set detector_names then DetOrigin d
         else if d = ''NIL'' then DetInvalid
         else DetAny)"

text \<open>
  The options. \<open>opt\<close> gives the text options. \<open>soSink\<close> and \<open>soSource\<close>: the answers of
  \<open>loadVerifyConfig\<close> of sink and source, with whether they are enabled. \<open>soChannel\<close>: the channel is configured.
\<close>

record stfb_options =
  opt :: "string \<Rightarrow> string"
  soStandalone :: bool
  soMaxBufferedStfs :: int
  soMaxBuiltStfs :: u64
  soRunType :: RunType
  soRdhVersion :: RdhVersion
  soSink :: "bool \<times> bool"
  soSource :: "bool \<times> bool"
  soChannel :: "string \<Rightarrow> bool"
  soUuid :: string
  soHost :: string

datatype init_failure = InitThrow config_error | InitLogicError string | InitExit | InitWaits | InitUndefined

definition init_options :: "stfb_options \<Rightarrow> 'f stfb_device \<Rightarrow> 'f stfb_device" where
  "init_options cfo s =
     s\<lparr>sbInputChannelName := opt cfo ''input-channel-name'', sbOutputChannelName := opt cfo ''output-channel-name'',
       sbDplChannelName := opt cfo ''dpl-channel-name'', sbStandalone := soStandalone cfo,
       sbMaxStfsInPipeline := soMaxBufferedStfs cfo, sbMaxBuiltStfs := soMaxBuiltStfs cfo,
       sbPartitionId := (case getPartitionOption (opt cfo) of None \<Rightarrow> ''-'' | Some p \<Rightarrow> p)\<rparr>"

definition check_run_type :: "stfb_options \<Rightarrow> init_failure option" where
  "check_run_type cfo =
     (if soRunType cfo = RunInvalid then Some (InitLogicError ''Run type paramter must be correctly set.'')
      else if soRunType cfo = eTopology \<and>
          \<not> (getDataOriginFromOption (opt cfo ''detector'') = DetOrigin ''ITS'' \<or>
             getDataOriginFromOption (opt cfo ''detector'') = DetOrigin ''MFT'') then
        Some (InitLogicError ''Run type paramter 'topology' is supported only for ITS and MFT. Please specify the detector option.'')
      else None)"

definition init_limit :: "'f stfb_device \<Rightarrow> 'f stfb_device" where
  "init_limit s =
     (if sbMaxStfsInPipeline s > 0 then
        s\<lparr>sbMaxStfsInPipeline := (if sbMaxStfsInPipeline s < 4 then 4 else sbMaxStfsInPipeline s), sbPipelineLimit := True\<rparr>
      else s\<lparr>sbPipelineLimit := False\<rparr>)"

definition init_files :: "stfb_options \<Rightarrow> 'f stfb_device \<Rightarrow> init_failure + 'f stfb_device" where
  "init_files cfo s =
     (if \<not> fst (soSink cfo) then Inl InitExit
      else if \<not> fst (soSource cfo) then Inl InitExit
      else Inr (s\<lparr>sbSinkEnabled := snd (soSink cfo), sbSourceEnabled := snd (soSource cfo)\<rparr>))"

text \<open>
  The discovery client and what it publishes. \<open>ser\<close> and \<open>time\<close> as in \<open>consul_write\<close>; without a
  partition in the options the device waits.
\<close>

definition init_discovery ::
    "'c consul \<Rightarrow> bool \<Rightarrow> ('b config_status \<Rightarrow> string) \<Rightarrow> string \<times> u64 \<Rightarrow> stfb_options \<Rightarrow> 'b config_status \<Rightarrow> 'f stfb_device \<Rightarrow> 'c \<Rightarrow>
       init_failure + ('b consul_config \<times> 'f stfb_device \<times> 'c)" where
  "init_discovery K connect ser time cfo st s c =
     (let required = \<not> (sbSourceEnabled s \<or> sbStandalone s)
      in case consul_new K connect CfgStfBuilder PT_StfBuilder (getEndpointOption (opt cfo)) required st c of
           Inl e \<Rightarrow> Inl (InitThrow e)
         | Inr (cfg, c1) \<Rightarrow>
             if \<not> ccConnected cfg then Inr (cfg, s, c1)
             else
               (case getIdOption (soUuid cfo) (soHost cfo) PT_StfBuilder (opt cfo) required of
                  Inl e \<Rightarrow> Inl (InitThrow e)
                | Inr i \<Rightarrow>
                    (case getPartitionOption (opt cfo) of
                       None \<Rightarrow> Inl InitWaits
                     | Some p \<Rightarrow>
                         if sbPartitionId s = [] then Inl InitExit
                         else
                           (let cfg1 = cfg\<lparr>mStatus := (mStatus cfg)\<lparr>cs_type := ProcStfBuilder, cs_process_state := PROC_NOT_RUNNING, cs_process_id := i, cs_partition := p\<rparr>\<rparr>
                            in case consul_write K ser time False cfg1 c1 of
                                 Inl e \<Rightarrow> Inl (InitThrow e)
                               | Inr (ok, cfg2, c2) \<Rightarrow> Inr (cfg2, s\<lparr>sbPartitionId := p\<rparr>, c2)))))"

definition check_readout :: "stfb_options \<Rightarrow> 'f stfb_device \<Rightarrow> init_failure option" where
  "check_readout cfo s =
     (if sbSourceEnabled s then None
      else if rdh_version_to_int (soRdhVersion cfo) < rdh_version_to_int eRdhVer6 \<and>
          getDataOriginFromOption (opt cfo ''detector'') = DetAny then Some InitExit
      else if soRdhVersion cfo = eRdhInvalid then Some InitExit
      else None)"

definition init_dpl_channel :: "'f stfb_device \<Rightarrow> 'f stfb_device" where
  "init_dpl_channel s = (if sbDplChannelName s \<noteq> [] \<and> \<not> sbStandalone s then s else s\<lparr>sbDplChannelName := []\<rparr>)"

definition getOutputChannel :: "'f stfb_device \<Rightarrow> string" where
  "getOutputChannel s = (if sbDplChannelName s \<noteq> [] then sbDplChannelName s else sbOutputChannelName s)"

definition check_channels :: "stfb_options \<Rightarrow> 'f stfb_device \<Rightarrow> init_failure option" where
  "check_channels cfo s =
     (if \<not> sbSourceEnabled s \<and> \<not> soChannel cfo (sbInputChannelName s) then Some InitExit
      else if \<not> sbStandalone s \<and> \<not> soChannel cfo (getOutputChannel s) then Some InitExit
      else None)"

definition InitTask ::
    "'c consul \<Rightarrow> bool \<Rightarrow> ('b config_status \<Rightarrow> string) \<Rightarrow> string \<times> u64 \<Rightarrow> stfb_options \<Rightarrow> 'b config_status \<Rightarrow> 'f stfb_device \<Rightarrow> 'c \<Rightarrow>
       init_failure + ('b consul_config \<times> 'f stfb_device \<times> 'c)" where
  "InitTask K connect ser time cfo st s c =
     (let s1 = init_options cfo s
      in case check_run_type cfo of
           Some e \<Rightarrow> Inl e
         | None \<Rightarrow>
             (case init_files cfo (init_limit s1) of
                Inl e \<Rightarrow> Inl e
              | Inr s2 \<Rightarrow>
                  (case init_discovery K connect ser time cfo st s2 c of
                     Inl e \<Rightarrow> Inl e
                   | Inr (cfg, s3, c1) \<Rightarrow>
                       (let s4 = s3\<lparr>sbRunning := True\<rparr>
                        in case check_readout cfo s4 of
                             Some e \<Rightarrow> Inl e
                           | None \<Rightarrow>
                               (let s5 = init_dpl_channel s4
                                in case check_channels cfo s5 of Some e \<Rightarrow> Inl e | None \<Rightarrow> Inr (cfg, s5, c1))))))"

end
