(* ===== verification/Stfb_Device_Props.thy ===== *)
theory Stfb_Device_Props
  imports Stfb_Device Disc_Consul_Props
begin

text \<open>
  The StfBuilder device: how the counter of buffered frames relates to the frames in the output
  queue over all interleavings of its threads, what that means for the limit, the end of a replay, and
  which configurations are accepted.
\<close>

section \<open>The output queue\<close>

definition waiting :: "'f stfb_device \<Rightarrow> 'f list" where
  "waiting s = mContainer (sbPipeline s ! eStfSendIn)"

definition at_sink :: "'f stfb_device \<Rightarrow> 'f list" where
  "at_sink s = mContainer (sbPipeline s ! eStfFileSinkIn)"

definition output_open :: "'f stfb_device \<Rightarrow> bool" where
  "output_open s \<longleftrightarrow> cqRunning (sbPipeline s ! eStfSendIn)"

definition two_stages :: "'f stfb_device \<Rightarrow> bool" where
  "two_stages s \<longleftrightarrow> length (sbPipeline s) = 2"

lemma pipeline_cases:
  assumes "two_stages s"
  obtains q r where "sbPipeline s = [q, r]"
  using assms by (auto simp: two_stages_def numeral_2_eq_2 length_Suc_conv)

definition drift :: "'f stfb_device \<Rightarrow> int" where
  "drift s = sbNumStfs s - int (length (waiting s))"

lemmas device_defs = waiting_def at_sink_def output_open_def two_stages_def drift_def stage_defs

text \<open>Making room for a new frame.\<close>

definition full :: "'f stfb_device \<Rightarrow> bool" where
  "full s \<longleftrightarrow> sbPipelineLimit s \<and> sbNumStfs s + 1 \<ge> sbMaxStfsInPipeline s"

lemma try_pop_oldest:
  assumes "sbPipeline s = [q, r]"
  shows "tryPopOldestStfs s =
    (if mContainer r \<noteq> [] then (True, s\<lparr>sbPipeline := [q, r\<lparr>mContainer := tl (mContainer r)\<rparr>]\<rparr>)
     else if mContainer q \<noteq> [] then (True, s\<lparr>sbPipeline := [q\<lparr>mContainer := tl (mContainer q)\<rparr>, r]\<rparr>)
     else (False, s))"
  using assms
  by (cases s; cases "mContainer r"; cases "mContainer q")
    (simp_all add: tryPopOldestStfs_def stage_try_pop_def pl_try_pop_def cq_try_pop_def stage_defs)

lemma stage_try_pop_shape: "\<exists>ok p. stage_try_pop n s = (ok, s\<lparr>sbPipeline := p\<rparr>)"
proof (cases "pl_try_pop n (sbPipeline s)")
  case None
  then have "stage_try_pop n s = (False, s\<lparr>sbPipeline := sbPipeline s\<rparr>)" by (simp add: stage_try_pop_def)
  then show ?thesis by blast
next
  case (Some x)
  then have "stage_try_pop n s = (fst x, s\<lparr>sbPipeline := snd x\<rparr>)" by (simp add: stage_try_pop_def case_prod_beta)
  then show ?thesis by blast
qed

lemma try_pop_oldest_shape: "\<exists>ok p. tryPopOldestStfs s = (ok, s\<lparr>sbPipeline := p\<rparr>)"
proof -
  obtain ok p where 1: "stage_try_pop eStfSendIn s = (ok, s\<lparr>sbPipeline := p\<rparr>)" using stage_try_pop_shape by blast
  obtain ok' p' where 2: "stage_try_pop eStfFileSinkIn (s\<lparr>sbPipeline := p\<rparr>) = (ok', s\<lparr>sbPipeline := p\<rparr>\<lparr>sbPipeline := p'\<rparr>)"
    using stage_try_pop_shape by blast
  have "tryPopOldestStfs s = (if ok then (True, s\<lparr>sbPipeline := p\<rparr>) else (ok', s\<lparr>sbPipeline := p'\<rparr>))"
    using 1 2 by (cases ok) (simp_all add: tryPopOldestStfs_def)
  then show ?thesis by (cases ok) auto
qed

lemma count_new_shape: "\<exists>n p. count_new_stf s = s\<lparr>sbNumStfs := n, sbPipeline := p\<rparr>"
proof -
  obtain ok p where t: "tryPopOldestStfs (s\<lparr>sbNumStfs := sbNumStfs s + 1\<rparr>) =
      (ok, s\<lparr>sbNumStfs := sbNumStfs s + 1\<rparr>\<lparr>sbPipeline := p\<rparr>)" using try_pop_oldest_shape by blast
  have e: "s\<lparr>sbNumStfs := n\<rparr> = s\<lparr>sbNumStfs := n, sbPipeline := sbPipeline s\<rparr>" for n by simp
  have "count_new_stf s = (if sbPipelineLimit s \<and> sbNumStfs s + 1 \<ge> sbMaxStfsInPipeline s
      then (if ok then s\<lparr>sbNumStfs := sbNumStfs s, sbPipeline := p\<rparr> else s\<lparr>sbNumStfs := sbNumStfs s + 1, sbPipeline := p\<rparr>)
      else s\<lparr>sbNumStfs := sbNumStfs s + 1, sbPipeline := sbPipeline s\<rparr>)"
    by (simp add: count_new_stf_def Let_def t)
  then show ?thesis by (metis (full_types))
qed

lemma count_new_frame [frame]:
  "sbSinkEnabled (count_new_stf s) = sbSinkEnabled s" "sbPipelineLimit (count_new_stf s) = sbPipelineLimit s"
  "sbMaxStfsInPipeline (count_new_stf s) = sbMaxStfsInPipeline s" "sbRunning (count_new_stf s) = sbRunning s"
  "sbInRunningState (count_new_stf s) = sbInRunningState s" "sbStandalone (count_new_stf s) = sbStandalone s"
proof -
  obtain n p where "count_new_stf s = s\<lparr>sbNumStfs := n, sbPipeline := p\<rparr>" using count_new_shape by blast
  then show "sbSinkEnabled (count_new_stf s) = sbSinkEnabled s" "sbPipelineLimit (count_new_stf s) = sbPipelineLimit s"
    "sbMaxStfsInPipeline (count_new_stf s) = sbMaxStfsInPipeline s" "sbRunning (count_new_stf s) = sbRunning s"
    "sbInRunningState (count_new_stf s) = sbInRunningState s" "sbStandalone (count_new_stf s) = sbStandalone s" by simp_all
qed

lemma count_new:
  assumes p: "sbPipeline s = [q, r]"
  shows "sbPipeline (count_new_stf s) =
      (if full s \<and> mContainer r \<noteq> [] then [q, r\<lparr>mContainer := tl (mContainer r)\<rparr>]
       else if full s \<and> mContainer q \<noteq> [] then [q\<lparr>mContainer := tl (mContainer q)\<rparr>, r] else [q, r])"
    "sbNumStfs (count_new_stf s) =
      sbNumStfs s + (if full s \<and> (mContainer r \<noteq> [] \<or> mContainer q \<noteq> []) then 0 else 1)"
proof -
  have t: "tryPopOldestStfs (s\<lparr>sbNumStfs := n\<rparr>) =
    (if mContainer r \<noteq> [] then (True, s\<lparr>sbNumStfs := n, sbPipeline := [q, r\<lparr>mContainer := tl (mContainer r)\<rparr>]\<rparr>)
     else if mContainer q \<noteq> [] then (True, s\<lparr>sbNumStfs := n, sbPipeline := [q\<lparr>mContainer := tl (mContainer q)\<rparr>, r]\<rparr>)
     else (False, s\<lparr>sbNumStfs := n\<rparr>))" for n
    using try_pop_oldest [of "s\<lparr>sbNumStfs := n\<rparr>" q r] p by simp
  show "sbPipeline (count_new_stf s) =
      (if full s \<and> mContainer r \<noteq> [] then [q, r\<lparr>mContainer := tl (mContainer r)\<rparr>]
       else if full s \<and> mContainer q \<noteq> [] then [q\<lparr>mContainer := tl (mContainer q)\<rparr>, r] else [q, r])"
    using p by (simp add: count_new_stf_def Let_def t full_def)
  show "sbNumStfs (count_new_stf s) =
      sbNumStfs s + (if full s \<and> (mContainer r \<noteq> [] \<or> mContainer q \<noteq> []) then 0 else 1)"
    by (simp add: count_new_stf_def Let_def t full_def)
qed

section \<open>The counter\<close>

text \<open>How an operation changes the difference between the counter and the frames in the queue.\<close>

lemma queue_effect:
  assumes w: "two_stages s" and q: "device_queue eStfBuilderOut x s = Some (ok, s1)" and sink: "\<not> sbSinkEnabled s" "at_sink s = []"
  shows "two_stages s1" "drift s1 = drift s + (if ok then 0 else 1)" "ok = output_open s" "output_open s1 = output_open s"
    "at_sink s1 = []" "waiting s1 = (if full s then tl (waiting s) else waiting s) @ (if ok then [x] else [])"
proof -
  obtain q0 r where p: "sbPipeline s = [q0, r]" using w by (rule pipeline_cases)
  have sk: "mContainer q0 = []" using sink(2) by (simp add: at_sink_def p stage_defs)
  have nx: "getNextPipelineStage eStfBuilderOut s = Some (1, count_new_stf s)"
    using sink(1) by (simp add: getNextPipelineStage_def Let_def count_new_frame eStfSendIn_def)
  have pl: "sbPipeline (count_new_stf s) = [q0, if full s \<and> mContainer r \<noteq> [] then r\<lparr>mContainer := tl (mContainer r)\<rparr> else r]"
    using count_new(1) [OF p] sk by simp
  have num: "sbNumStfs (count_new_stf s) = sbNumStfs s + (if full s \<and> mContainer r \<noteq> [] then 0 else 1)"
    using count_new(2) [OF p] sk by simp
  define r' where "r' = (if full s \<and> mContainer r \<noteq> [] then r\<lparr>mContainer := tl (mContainer r)\<rparr> else r)"
  have r': "cqRunning r' = cqRunning r" "mContainer r' = (if full s then tl (mContainer r) else mContainer r)"
    by (auto simp: r'_def)
  have s1: "s1 = (count_new_stf s)\<lparr>sbPipeline := [q0, snd (cq_push eFIFO x r')]\<rparr>" and ok: "ok = fst (cq_push eFIFO x r')"
    using q pl by (auto simp: device_queue_def nx pl_queue_def Let_def case_prod_beta r'_def [symmetric])
  show "two_stages s1" by (simp add: s1 two_stages_def)
  show o: "ok = output_open s" using ok r' by (simp add: cq_push_def output_open_def p stage_defs)
  show "output_open s1 = output_open s" using r' by (simp add: s1 cq_push_def output_open_def p stage_defs)
  show "at_sink s1 = []" by (simp add: s1 at_sink_def stage_defs sk)
  show wt: "waiting s1 = (if full s then tl (waiting s) else waiting s) @ (if ok then [x] else [])"
    using r' o by (simp add: s1 waiting_def p stage_defs cq_push_def output_open_def)
  have "length (tl (mContainer r)) = length (mContainer r) - 1" by simp
  then show "drift s1 = drift s + (if ok then 0 else 1)"
    using wt num by (cases "mContainer r") (auto simp: drift_def s1 waiting_def p stage_defs)
qed

lemma close_effect:
  assumes w: "two_stages s" and c: "device_close eStfFileSourceOut s = Some s1" and sink: "\<not> sbSinkEnabled s" "at_sink s = []"
  shows "two_stages s1" "drift s1 = drift s + 1" "\<not> output_open s1" "at_sink s1 = []"
    "waiting s1 = (if full s then tl (waiting s) else waiting s)"
proof -
  obtain q0 r where p: "sbPipeline s = [q0, r]" using w by (rule pipeline_cases)
  have sk: "mContainer q0 = []" using sink(2) by (simp add: at_sink_def p stage_defs)
  have nx: "getNextPipelineStage eStfFileSourceOut s = Some (1, count_new_stf s)"
    using sink(1) by (simp add: getNextPipelineStage_def Let_def count_new_frame stage_defs)
  have pl: "sbPipeline (count_new_stf s) = [q0, if full s \<and> mContainer r \<noteq> [] then r\<lparr>mContainer := tl (mContainer r)\<rparr> else r]"
    using count_new(1) [OF p] sk by simp
  have num: "sbNumStfs (count_new_stf s) = sbNumStfs s + (if full s \<and> mContainer r \<noteq> [] then 0 else 1)"
    using count_new(2) [OF p] sk by simp
  define r' where "r' = (if full s \<and> mContainer r \<noteq> [] then r\<lparr>mContainer := tl (mContainer r)\<rparr> else r)"
  have r': "mContainer r' = (if full s then tl (mContainer r) else mContainer r)" by (auto simp: r'_def)
  have s1: "s1 = (count_new_stf s)\<lparr>sbPipeline := [q0, cq_stop r']\<rparr>"
    using c pl by (auto simp: device_close_def nx pl_close_def r'_def [symmetric])
  show "two_stages s1" by (simp add: s1 two_stages_def)
  show "\<not> output_open s1" by (simp add: s1 cq_stop_def output_open_def stage_defs)
  show "at_sink s1 = []" by (simp add: s1 at_sink_def stage_defs sk)
  show wt: "waiting s1 = (if full s then tl (waiting s) else waiting s)"
    using r' by (simp add: s1 waiting_def p stage_defs cq_stop_def)
  show "drift s1 = drift s + 1"
    using wt num by (cases "mContainer r") (auto simp: drift_def s1 waiting_def p stage_defs)
qed

section \<open>The output thread\<close>

fun event_frames :: "'f out_event list \<Rightarrow> 'f list" where
  "event_frames [] = []"
| "event_frames (OutSent f # es) = f # event_frames es"
| "event_frames (OutFailed f # es) = f # event_frames es"
| "event_frames (OutDropped f # es) = f # event_frames es"
| "event_frames (OutKept f # es) = f # event_frames es"
| "event_frames (OutEos # es) = event_frames es"

fun drop_count :: "'f out_event list \<Rightarrow> int" where
  "drop_count [] = 0"
| "drop_count (OutDropped f # es) = 1 + drop_count es"
| "drop_count (OutSent f # es) = drop_count es"
| "drop_count (OutFailed f # es) = drop_count es"
| "drop_count (OutKept f # es) = drop_count es"
| "drop_count (OutEos # es) = drop_count es"

lemma drop_count_nonneg: "0 \<le> drop_count es"
  by (induction es rule: drop_count.induct) simp_all

lemma out_exit_facts:
  "out_exit es t s = (es', t', s') \<Longrightarrow> event_frames es' = event_frames (es @ []) \<and> drop_count es' = drop_count es \<and>
    sbPipeline s' = sbPipeline s \<and> sbNumStfs s' = sbNumStfs s \<and> sbSinkEnabled s' = sbSinkEnabled s \<and>
    sbPipelineLimit s' = sbPipelineLimit s \<and> sbMaxStfsInPipeline s' = sbMaxStfsInPipeline s"
proof -
  have e: "event_frames (es @ [OutEos]) = event_frames es" "drop_count (es @ [OutEos]) = drop_count es"
    by (induction es rule: event_frames.induct) simp_all
  show "out_exit es t s = (es', t', s') \<Longrightarrow> event_frames es' = event_frames (es @ []) \<and> drop_count es' = drop_count es \<and>
    sbPipeline s' = sbPipeline s \<and> sbNumStfs s' = sbNumStfs s \<and> sbSinkEnabled s' = sbSinkEnabled s \<and>
    sbPipelineLimit s' = sbPipelineLimit s \<and> sbMaxStfsInPipeline s' = sbMaxStfsInPipeline s"
    using e by (auto simp: out_exit_def split: if_splits)
qed

lemma out_frame_facts:
  assumes "out_frame send f t s = (es, t', s')"
  shows "event_frames es = [f] \<and> drop_count es = 0 \<and> sbPipeline s' = sbPipeline s \<and> sbNumStfs s' = sbNumStfs s - 1 \<and>
    sbSinkEnabled s' = sbSinkEnabled s \<and> sbPipelineLimit s' = sbPipelineLimit s \<and>
    sbMaxStfsInPipeline s' = sbMaxStfsInPipeline s"
proof -
  let ?s1 = "s\<lparr>sbNumStfs := sbNumStfs s - 1\<rparr>"
  have c: "sbPipeline (count_sent_stf ?s1) = sbPipeline s" "sbNumStfs (count_sent_stf ?s1) = sbNumStfs s - 1"
    "sbSinkEnabled (count_sent_stf ?s1) = sbSinkEnabled s" "sbPipelineLimit (count_sent_stf ?s1) = sbPipelineLimit s"
    "sbMaxStfsInPipeline (count_sent_stf ?s1) = sbMaxStfsInPipeline s"
    by (simp_all add: count_sent_stf_def Let_def)
  consider "out_exit [OutKept f] t ?s1 = (es, t', s')" | "es = [OutKept f] \<or> es = [OutFailed f]" "s' = ?s1"
    | "out_exit [OutSent f] t (count_sent_stf ?s1) = (es, t', s')" | "es = [OutSent f]" "s' = count_sent_stf ?s1"
    using assms by (auto simp: out_frame_def Let_def split: if_splits)
  then show ?thesis
  proof cases
    case 1
    then show ?thesis using out_exit_facts [OF 1] by simp
  next
    case 3
    then show ?thesis using out_exit_facts [OF 3] c by simp
  next
    case 4
    then show ?thesis using c by simp
  qed auto
qed

lemma wait_now: "cq_pop_wait_for q [Timeout q] = Some (cq_try_pop q)"
  by (simp add: cq_pop_wait_for_def)

text \<open>One round, with what the other threads do during the wait done before it.\<close>

definition device_out_step :: "('f \<Rightarrow> bool) \<Rightarrow> bool \<Rightarrow> out_thread \<Rightarrow> 'f stfb_device \<Rightarrow>
    ('f out_event list \<times> out_thread \<times> 'f stfb_device) option option" where
  "device_out_step send head t s = out_round send head [Timeout (sbPipeline s ! eStfSendIn)] t s"

lemma out_effect:
  assumes w: "two_stages s" and o: "device_out_step send head t s = Some (Some (es, t1, s1))"
  shows "two_stages s1" "drift s1 = drift s + drop_count es" "waiting s = event_frames es @ waiting s1"
    "output_open s1 = output_open s" "at_sink s1 = at_sink s" "sbSinkEnabled s1 = sbSinkEnabled s"
    "sbPipelineLimit s1 = sbPipelineLimit s" "sbMaxStfsInPipeline s1 = sbMaxStfsInPipeline s"
proof -
  obtain q0 q where p: "sbPipeline s = [q0, q]" using w by (rule pipeline_cases)
  define p1 where "p1 = [q0, snd (cq_try_pop q)]"
  let ?r = "fst (cq_try_pop q)"
  have dq: "pl_dequeue_for eStfSendIn [Timeout (sbPipeline s ! eStfSendIn)] (sbPipeline s) = Some (?r, p1)"
    by (simp add: pl_dequeue_for_def p stage_defs wait_now p1_def case_prod_beta)
  have r: "mContainer q = (case ?r of None \<Rightarrow> [] | Some f \<Rightarrow> [f]) @ mContainer (snd (cq_try_pop q))"
    "cqRunning (snd (cq_try_pop q)) = cqRunning q"
    by (auto simp: cq_try_pop_def split: list.splits)
  have d: "event_frames (dropped ?r) = (case ?r of None \<Rightarrow> [] | Some f \<Rightarrow> [f])"
    "event_frames (dropped ?r @ [OutEos]) = event_frames (dropped ?r)"
    "drop_count (dropped ?r @ [OutEos]) = drop_count (dropped ?r)"
    "drop_count (dropped ?r) = int (length (event_frames (dropped ?r)))"
    by (cases ?r; simp add: dropped_def)+
  let ?goal = "sbPipeline s1 = [q0, snd (cq_try_pop q)] \<and> event_frames es = (case ?r of None \<Rightarrow> [] | Some f \<Rightarrow> [f]) \<and>
    sbNumStfs s1 = sbNumStfs s - int (length (event_frames es)) + drop_count es \<or>
    sbPipeline s1 = sbPipeline s \<and> event_frames es = [] \<and> drop_count es = 0 \<and> sbNumStfs s1 = sbNumStfs s"
  have "?goal \<and> sbSinkEnabled s1 = sbSinkEnabled s \<and> sbPipelineLimit s1 = sbPipelineLimit s \<and>
      sbMaxStfsInPipeline s1 = sbMaxStfsInPipeline s"
  proof -
    consider (nothing) "es = []" "s1 = s"
      | (exit) "out_exit [] t s = (es, t1, s1)"
      | (stop) "out_exit (dropped ?r) t (s\<lparr>sbPipeline := p1\<rparr>) = (es, t1, s1)"
      | (idle) "es = dropped ?r \<or> es = dropped ?r @ [OutEos]" "s1 = s\<lparr>sbPipeline := p1\<rparr>"
      | (empty) "?r = None" "es = []" "s1 = s\<lparr>sbPipeline := p1\<rparr>"
      | (frame) f where "?r = Some f" "out_frame send f (t\<lparr>soShouldSendEos := True\<rparr>) (s\<lparr>sbPipeline := p1\<rparr>) = (es, t1, s1)"
      using o unfolding device_out_step_def out_round_def dq by (auto simp: Let_def split: if_splits option.splits)
    then show ?thesis
    proof cases
      case exit
      then show ?thesis using out_exit_facts [OF exit] by simp
    next
      case stop
      then show ?thesis using out_exit_facts [OF stop] d by (simp add: p1_def)
    next
      case idle
      then show ?thesis using d by (auto simp: p1_def)
    next
      case frame
      then show ?thesis using out_frame_facts [OF frame(2)] by (simp add: p1_def)
    qed (simp_all add: p1_def)
  qed
  then show "two_stages s1" "drift s1 = drift s + drop_count es" "waiting s = event_frames es @ waiting s1"
    "output_open s1 = output_open s" "at_sink s1 = at_sink s" "sbSinkEnabled s1 = sbSinkEnabled s"
    "sbPipelineLimit s1 = sbPipelineLimit s" "sbMaxStfsInPipeline s1 = sbMaxStfsInPipeline s"
    using r p by (auto simp: two_stages_def waiting_def output_open_def at_sink_def drift_def stage_defs)
qed

section \<open>All interleavings\<close>

text \<open>
  The steps of the threads without a file sink: the input queues a frame, the source closes the stage at the
  end, the output thread makes a round, runs start and stop. \<open>k\<close> counts the frames that were refused, the
  closings, and the frames the output thread dropped because the device was not in a run.
\<close>

inductive device_run :: "('f \<Rightarrow> bool) \<Rightarrow> 'f stfb_device \<Rightarrow> int \<Rightarrow> 'f stfb_device \<Rightarrow> bool" for send s0 where
  run_start: "device_run send s0 0 s0"
| run_input: "device_run send s0 k s \<Longrightarrow> device_queue eStfBuilderOut x s = Some (ok, s1) \<Longrightarrow>
    device_run send s0 (k + (if ok then 0 else 1)) s1"
| run_close: "device_run send s0 k s \<Longrightarrow> device_close eStfFileSourceOut s = Some s1 \<Longrightarrow> device_run send s0 (k + 1) s1"
| run_output: "device_run send s0 k s \<Longrightarrow> device_out_step send head t s = Some (Some (es, t1, s1)) \<Longrightarrow>
    device_run send s0 (k + drop_count es) s1"
| run_begin: "device_run send s0 k s \<Longrightarrow> device_run send s0 k (PreRun_flags s)"
| run_end: "device_run send s0 k s \<Longrightarrow> device_run send s0 k (PostRun_flags s)"

inductive_cases device_runE: "device_run send s0 k s"

definition run_inv :: "'f stfb_device \<Rightarrow> int \<Rightarrow> 'f stfb_device \<Rightarrow> bool" where
  "run_inv s0 k s \<longleftrightarrow> two_stages s \<and> at_sink s = [] \<and> \<not> sbSinkEnabled s \<and> drift s = k \<and> 0 \<le> k \<and>
     sbPipelineLimit s = sbPipelineLimit s0 \<and> sbMaxStfsInPipeline s = sbMaxStfsInPipeline s0 \<and>
     (sbPipelineLimit s0 \<longrightarrow> int (length (waiting s)) \<le> sbMaxStfsInPipeline s0 - 1)"

lemma queue_frame:
  assumes "device_queue stage x s = Some (ok, s1)"
  shows "sbSinkEnabled s1 = sbSinkEnabled s" "sbPipelineLimit s1 = sbPipelineLimit s" "sbMaxStfsInPipeline s1 = sbMaxStfsInPipeline s"
  using assms by (auto simp: device_queue_def getNextPipelineStage_def Let_def count_new_frame split: option.splits if_splits prod.splits)

lemma close_frame:
  assumes "device_close stage s = Some s1"
  shows "sbSinkEnabled s1 = sbSinkEnabled s" "sbPipelineLimit s1 = sbPipelineLimit s" "sbMaxStfsInPipeline s1 = sbMaxStfsInPipeline s"
  using assms by (auto simp: device_close_def getNextPipelineStage_def Let_def count_new_frame split: option.splits if_splits prod.splits)

lemma device_run_inv:
  assumes "device_run send s0 k s" and s0: "two_stages s0" "at_sink s0 = []" "\<not> sbSinkEnabled s0" "waiting s0 = []"
    "sbNumStfs s0 = 0" "sbPipelineLimit s0 \<Longrightarrow> 2 \<le> sbMaxStfsInPipeline s0"
  shows "run_inv s0 k s"
  using assms(1)
proof (induction rule: device_run.induct)
  case run_start
  then show ?case using s0 by (auto simp: run_inv_def drift_def)
next
  case (run_input k s x ok s1)
  note i = run_input.IH [unfolded run_inv_def]
  note e = queue_effect [OF _ run_input.hyps(2)] queue_frame [OF run_input.hyps(2)]
  have len: "int (length (waiting s1)) \<le> sbMaxStfsInPipeline s0 - 1" if l: "sbPipelineLimit s0"
  proof (cases "full s")
    case True
    then show ?thesis using e(6) i l s0(6) by (cases "waiting s") auto
  next
    case False
    then have "sbNumStfs s + 1 < sbMaxStfsInPipeline s0" using i l by (simp add: full_def)
    then show ?thesis using e(6) i False by (auto simp: drift_def)
  qed
  show ?case using e i len by (simp add: run_inv_def)
next
  case (run_close k s s1)
  note i = run_close.IH [unfolded run_inv_def]
  note e = close_effect [OF _ run_close.hyps(2)] close_frame [OF run_close.hyps(2)]
  have "length (waiting s1) \<le> length (waiting s)" using e(5) i by simp
  then show ?case using e i by (auto simp: run_inv_def)
next
  case (run_output k s head t es t1 s1)
  note i = run_output.IH [unfolded run_inv_def]
  note e = out_effect [OF _ run_output.hyps(2)]
  have "length (waiting s1) \<le> length (waiting s)" using e(3) i by simp
  then show ?case using e i drop_count_nonneg [of es] by (auto simp: run_inv_def)
qed (auto simp: run_inv_def PreRun_flags_def PostRun_flags_def two_stages_def at_sink_def waiting_def drift_def)

lemma new_device: "two_stages stfb_device_new" "at_sink stfb_device_new = []" "waiting stfb_device_new = []"
  by (simp_all add: stfb_device_new_def device_defs pl_new_def cq_init_def)


text \<open>
  Frames dropped between runs shrink the buffer for good: once as many of them as the limit minus
  one have been counted, a new frame always takes the place of the oldest one waiting, so the
  backlog cannot grow any more, whatever the limit is.
\<close>

theorem stopped_run_shrinks_buffer:
  assumes "device_run send s0 k s" "two_stages s0" "at_sink s0 = []" "\<not> sbSinkEnabled s0" "waiting s0 = []" "sbNumStfs s0 = 0"
    and "sbPipelineLimit s0" "2 \<le> sbMaxStfsInPipeline s0" "sbMaxStfsInPipeline s0 - 1 \<le> k" "output_open s"
    and "device_queue eStfBuilderOut x s = Some (ok, s1)"
  shows "waiting s1 = tl (waiting s) @ [x] \<and> length (waiting s1) = max 1 (length (waiting s))"
proof -
  have i: "two_stages s" "at_sink s = []" "\<not> sbSinkEnabled s" "drift s = k" "sbPipelineLimit s"
    "sbMaxStfsInPipeline s = sbMaxStfsInPipeline s0"
    using device_run_inv [OF assms(1-6)] assms(7, 8) by (auto simp: run_inv_def)
  have "full s" using i assms(9) by (simp add: full_def drift_def)
  then have "waiting s1 = tl (waiting s) @ [x]"
    using queue_effect(3, 6) [OF i(1) assms(11) i(3, 2)] assms(10) by simp
  then show ?thesis by simp
qed

text \<open>A device with the limit 4, which drops three frames between runs.\<close>

definition limited :: "nat stfb_device" where
  "limited = stfb_device_new\<lparr>sbPipelineLimit := True, sbMaxStfsInPipeline := 4, sbRunning := True\<rparr>"

lemma limited_start: "two_stages limited" "at_sink limited = []" "\<not> sbSinkEnabled limited" "waiting limited = []"
  "sbNumStfs limited = 0" "sbPipelineLimit limited" "sbMaxStfsInPipeline limited = 4" "output_open limited"
  by (simp_all add: limited_def stfb_device_new_def device_defs pl_new_def cq_init_def)

lemma queue_some: "\<exists>ok s1. device_queue eStfBuilderOut x s = Some (ok, s1)"
  by (simp add: device_queue_def getNextPipelineStage_def Let_def case_prod_beta)

lemma drop_one:
  assumes "device_run (\<lambda>_. True) limited k s" "waiting s = []" "output_open s" "\<not> full s" "\<not> sbInRunningState s" "sbRunning s"
  obtains s1 where "device_run (\<lambda>_. True) limited (k + 1) s1" "waiting s1 = []" "output_open s1" "\<not> sbInRunningState s1" "sbRunning s1"
proof -
  have i: "two_stages s" "at_sink s = []" "\<not> sbSinkEnabled s"
    using device_run_inv [OF assms(1) limited_start(1-5)] limited_start(7) by (auto simp: run_inv_def)
  obtain ok s0 where q: "device_queue eStfBuilderOut 7 s = Some (ok, s0)" using queue_some [of 7 s] by blast
  note e = queue_effect [OF i(1) q i(3, 2)]
  have ok: "ok" and w: "waiting s0 = [7]" using e(3, 6) assms(2, 3, 4) by simp_all
  have fr: "sbInRunningState s0 = sbInRunningState s" "sbRunning s0 = sbRunning s"
    using q i(3) by (auto simp: device_queue_def getNextPipelineStage_def Let_def count_new_frame split: prod.splits if_splits)
  have r0: "device_run (\<lambda>_. True) limited k s0" using run_input [OF assms(1) q] ok by simp
  let ?t = "\<lparr>soShouldSendEos = False, soDone = False\<rparr>"
  obtain q0 r where p: "sbPipeline s0 = [q0, r]" using e(1) by (rule pipeline_cases)
  have r: "mContainer r = [7]" "cqRunning r" using w e(4) assms(3) by (simp_all add: waiting_def output_open_def p stage_defs)
  let ?s1 = "s0\<lparr>sbPipeline := [q0, r\<lparr>mContainer := []\<rparr>]\<rparr>"
  have o: "device_out_step (\<lambda>_. True) True ?t s0 = Some (Some ([OutDropped 7], ?t, ?s1))"
    using r assms(5, 6) fr
    by (simp add: device_out_step_def out_round_def pl_dequeue_for_def p stage_defs wait_now cq_try_pop_def dropped_def
        pl_is_running_def cq_is_running_def)
  have "device_run (\<lambda>_. True) limited (k + 1) ?s1" using run_output [OF r0 o] by simp
  then show ?thesis
    by (rule that) (use r assms(5, 6) fr in \<open>simp_all add: waiting_def output_open_def stage_defs\<close>)
qed

lemma limited_dropped:
  obtains s where "device_run (\<lambda>_. True) limited 3 s" "waiting s = []" "output_open s"
proof -
  have nf: "\<not> full s" if "device_run (\<lambda>_. True) limited k s" "k < 3" "waiting s = []" for k s
    using device_run_inv [OF that(1) limited_start(1-5)] limited_start(7) that(2, 3)
    by (auto simp: run_inv_def full_def drift_def)
  have s0: "\<not> sbInRunningState limited" "sbRunning limited" by (simp_all add: limited_def stfb_device_new_def)
  note r0 = run_start [of "\<lambda>_. True" limited]
  from drop_one [OF r0 limited_start(4, 8) nf [OF r0 _ limited_start(4)] s0] obtain s1 where
    1: "device_run (\<lambda>_. True) limited 1 s1" "waiting s1 = []" "output_open s1" "\<not> sbInRunningState s1" "sbRunning s1" by auto
  from drop_one [OF 1(1-3) nf [OF 1(1) _ 1(2)] 1(4, 5)] obtain s2 where
    2: "device_run (\<lambda>_. True) limited 2 s2" "waiting s2 = []" "output_open s2" "\<not> sbInRunningState s2" "sbRunning s2" by auto
  from drop_one [OF 2(1-3) nf [OF 2(1) _ 2(2)] 2(4, 5)] obtain s3 where
    3: "device_run (\<lambda>_. True) limited 3 s3" "waiting s3 = []" "output_open s3" by auto
  show thesis by (rule that [OF 3])
qed


theorem stopped_run_shrinks_buffer_witness:
  "\<exists>s s1 s2 ok. device_queue eStfBuilderOut 1 (s :: nat stfb_device) = Some (ok, s1) \<and>
     device_queue eStfBuilderOut 2 s1 = Some (True, s2) \<and> waiting s2 = [2]"
proof -
  obtain s where s: "device_run (\<lambda>_. True) limited 3 s" "waiting s = []" "output_open s" by (rule limited_dropped)
  have lim: "2 \<le> sbMaxStfsInPipeline limited" "sbMaxStfsInPipeline limited - 1 \<le> 3" by (simp_all add: limited_start)
  obtain ok s1 where 1: "device_queue eStfBuilderOut 1 s = Some (ok, s1)" using queue_some [of 1 s] by blast
  have i: "two_stages s" "at_sink s = []" "\<not> sbSinkEnabled s"
    using device_run_inv [OF s(1) limited_start(1-5)] lim by (auto simp: run_inv_def)
  note e = queue_effect [OF i(1) 1 i(3, 2)]
  have o: "ok" "output_open s1" using e(3, 4) s(3) by simp_all
  note w1 = stopped_run_shrinks_buffer [OF s(1) limited_start(1-6) lim s(3) 1]
  obtain ok2 s2 where 2: "device_queue eStfBuilderOut 2 s1 = Some (ok2, s2)" using queue_some [of 2 s1] by blast
  have r1: "device_run (\<lambda>_. True) limited 3 s1" using run_input [OF s(1) 1] o(1) by simp
  have "waiting s2 = [2]"
    using stopped_run_shrinks_buffer [OF r1 limited_start(1-6) lim o(2) 2] w1 s(2) by simp
  moreover have "ok2"
  proof -
    have "two_stages s1" "at_sink s1 = []" "\<not> sbSinkEnabled s1"
      using device_run_inv [OF r1 limited_start(1-5)] lim by (auto simp: run_inv_def)
    from queue_effect(3) [OF this(1) 2 this(3, 2)] o(2) show ?thesis by simp
  qed
  ultimately show ?thesis using 1 2 by auto
qed

section \<open>The end of a replay\<close>

text \<open>
  The end of a file replay loses the frames that are waiting: the source closes the stage, which stops the
  queue of the output thread, and the next round of the thread then returns without waiting,
  takes the oldest frame, finds the queue stopped and ends, although the frame and all
  those behind it have not been sent.
\<close>

theorem replay_end_loses_frames:
  assumes "two_stages s" "at_sink s = []" "\<not> sbSinkEnabled s" "device_close eStfFileSourceOut s = Some s1" "\<not> soDone t"
    and "waiting s1 = f # fs"
  shows "\<exists>es t' s2. out_round send True ws t s1 = Some (Some (es, t', s2)) \<and> soDone t' \<and> \<not> sbRunning s2 \<and>
    OutDropped f \<in> set es \<and> (\<forall>g. OutSent g \<notin> set es) \<and> waiting s2 = fs"
proof -
  note e = close_effect [OF assms(1, 4, 3, 2)]
  obtain q0 q where p: "sbPipeline s1 = [q0, q]" using e(1) by (rule pipeline_cases)
  have q: "\<not> cqRunning q" "mContainer q = f # fs"
    using e(3) assms(6) by (simp_all add: p output_open_def waiting_def stage_defs)
  let ?q = "q\<lparr>mContainer := fs\<rparr>"
  have dq: "pl_dequeue_for eStfSendIn ws (sbPipeline s1) = Some (Some f, [q0, ?q])"
    using q by (simp add: pl_dequeue_for_def p stage_defs cq_pop_wait_for_def cq_try_pop_def)
  have st: "pl_is_running eStfSendIn [q0, ?q] \<noteq> Some True"
    using q by (simp add: pl_is_running_def stage_defs cq_is_running_def)
  have "out_round send True ws t s1 = Some (Some (out_exit [OutDropped f] t (s1\<lparr>sbPipeline := [q0, ?q]\<rparr>)))"
    using assms(5) dq st by (simp add: out_round_def Let_def dropped_def)
  then show ?thesis by (auto simp: out_exit_def waiting_def stage_defs)
qed

definition replay :: "nat stfb_device" where
  "replay = stfb_device_new\<lparr>sbPipeline := [cq_init, \<lparr>mContainer = [4, 5], cqRunning = True\<rparr>], sbNumStfs := 2,
     sbRunning := True, sbInRunningState := True\<rparr>"

theorem replay_end_loses_frames_witness:
  "\<exists>s1 es t' s2. device_close eStfFileSourceOut replay = Some s1 \<and>
     out_round (\<lambda>_. True) True [] \<lparr>soShouldSendEos = True, soDone = False\<rparr> s1 = Some (Some (es, t', s2)) \<and>
     OutDropped 4 \<in> set es \<and> waiting s2 = [5]"
proof -
  have s: "two_stages replay" "at_sink replay = []" "\<not> sbSinkEnabled replay" "waiting replay = [4, 5]" "\<not> full replay"
    by (simp_all add: replay_def stfb_device_new_def device_defs cq_init_def full_def)
  have "sbSinkEnabled (count_new_stf replay) = False" using s(3) by (simp add: count_new_frame)
  then obtain s1 where c: "device_close eStfFileSourceOut replay = Some s1"
    by (simp add: device_close_def getNextPipelineStage_def stage_defs Let_def)
  have "waiting s1 = [4, 5]" using close_effect(5) [OF s(1) c s(3, 2)] s(4, 5) by simp
  from replay_end_loses_frames [OF s(1-3) c _ this, of "\<lparr>soShouldSendEos = True, soDone = False\<rparr>" "\<lambda>_. True" "[]"] c
  show ?thesis by auto
qed

section \<open>Configuration\<close>

lemma consul_new_connected:
  assumes "consul_new K connect kind PT_StfBuilder ep required st c = Inr (cfg, c1)"
  shows "ccConnected cfg \<or> \<not> required \<or> \<not> connect \<or> starts_with ep ''no-op''"
proof -
  have r: "ccConnected (fst (ConsulPollingThread_round K s c)) = ccConnected s" for s
    by (simp add: ConsulPollingThread_round_def Let_def split: prod.splits)
  show ?thesis
    using assms r [of "(new_config kind st)\<lparr>ccConnected := True\<rparr>"]
    by (auto simp: consul_new_def Let_def split: if_splits)
qed

lemma consul_write_connected:
  "consul_write K ser time i s c = Inr (ok, s1, c1) \<Longrightarrow> ccConnected s1 = ccConnected s"
  by (auto simp: consul_write_def createKeyPrefix_def Let_def split: if_splits sum.splits prod.splits)

lemma init_discovery_facts:
  assumes "init_discovery K connect ser time cf st s c = Inr (cfg, s1, c1)"
  shows "\<exists>p. s1 = s\<lparr>sbPartitionId := p\<rparr> \<and> (ccConnected cfg \<or> sbSourceEnabled s \<or> sbStandalone s \<or> \<not> connect \<or>
    starts_with (getEndpointOption (opt cf)) ''no-op'')"
proof -
  let ?req = "\<not> (sbSourceEnabled s \<or> sbStandalone s)"
  obtain cfg0 c0 where n: "consul_new K connect CfgStfBuilder PT_StfBuilder (getEndpointOption (opt cf)) ?req st c = Inr (cfg0, c0)"
    using assms by (auto simp: init_discovery_def Let_def split: sum.splits)
  note con = consul_new_connected [OF n]
  show ?thesis
  proof (cases "ccConnected cfg0")
    case False
    then have "cfg = cfg0" "s1 = s\<lparr>sbPartitionId := sbPartitionId s\<rparr>" using assms n by (simp_all add: init_discovery_def)
    then show ?thesis using con by blast
  next
    case True
    obtain p ok cfg1 where "s1 = s\<lparr>sbPartitionId := p\<rparr>" "consul_write K ser time False cfg1 c0 = Inr (ok, cfg, c1)"
      and c: "ccConnected cfg1 = ccConnected cfg0"
      using assms n True by (auto simp: init_discovery_def Let_def split: sum.splits option.splits if_splits prod.splits)
    then show ?thesis using consul_write_connected [of K ser time False cfg1 c0 ok cfg c1] True by auto
  qed
qed

text \<open>
  C35. What an accepted configuration guarantees: when \<open>InitTask\<close> succeeds, the run type is set, and is topology only
  for ITS and MFT; the limit on buffered frames is at least 4 or off; without file source the
  RDH version is known, and the detector too unless the version is 6, and the input
  channel exists; outside standalone mode an output channel exists; the DPL channel is
  used only outside standalone mode; and without discovery client either none was
  required, or the endpoint says so (no-op), or it could not connect.
\<close>

theorem init_config_accepted:
  assumes "InitTask K connect ser time cf st s c = Inr (cfg, s1, c1)"
  shows "soRunType cf \<noteq> RunInvalid \<and>
    (soRunType cf = eTopology \<longrightarrow> getDataOriginFromOption (opt cf ''detector'') \<in> {DetOrigin ''ITS'', DetOrigin ''MFT''}) \<and>
    (sbPipelineLimit s1 \<longrightarrow> 4 \<le> sbMaxStfsInPipeline s1) \<and> (sbPipelineLimit s1 \<longleftrightarrow> 0 < soMaxBufferedStfs cf) \<and>
    (\<not> sbSourceEnabled s1 \<longrightarrow> soRdhVersion cf \<noteq> eRdhInvalid \<and> soChannel cf (opt cf ''input-channel-name'') \<and>
       (soRdhVersion cf \<noteq> eRdhVer6 \<longrightarrow> getDataOriginFromOption (opt cf ''detector'') \<noteq> DetAny)) \<and>
    (\<not> sbStandalone s1 \<longrightarrow> soChannel cf (getOutputChannel s1)) \<and> (sbStandalone s1 \<longrightarrow> sbDplChannelName s1 = []) \<and>
    sbRunning s1 \<and> (\<not> ccConnected cfg \<longrightarrow> sbSourceEnabled s1 \<or> sbStandalone s1 \<or> \<not> connect \<or>
       starts_with (getEndpointOption (opt cf)) ''no-op'')"
proof -
  let ?s0 = "init_limit (init_options cf s)"
  obtain s2 s3 where rt: "check_run_type cf = None" and f: "init_files cf ?s0 = Inr s2"
    and d: "init_discovery K connect ser time cf st s2 c = Inr (cfg, s3, c1)"
    and ro: "check_readout cf (s3\<lparr>sbRunning := True\<rparr>) = None"
    and ch: "check_channels cf (init_dpl_channel (s3\<lparr>sbRunning := True\<rparr>)) = None"
    and s1: "s1 = init_dpl_channel (s3\<lparr>sbRunning := True\<rparr>)"
    using assms by (auto simp: InitTask_def Let_def split: option.splits sum.splits prod.splits)
  have s2: "s2 = ?s0\<lparr>sbSinkEnabled := snd (soSink cf), sbSourceEnabled := snd (soSource cf)\<rparr>"
    using f by (auto simp: init_files_def split: if_splits)
  from init_discovery_facts [OF d] obtain p where s3: "s3 = s2\<lparr>sbPartitionId := p\<rparr>"
    and con: "ccConnected cfg \<or> sbSourceEnabled s2 \<or> sbStandalone s2 \<or> \<not> connect \<or> starts_with (getEndpointOption (opt cf)) ''no-op''"
    by blast
  have s1': "sbSourceEnabled s1 = snd (soSource cf)" "sbStandalone s1 = soStandalone cf" "sbRunning s1"
    "sbPipelineLimit s1 = sbPipelineLimit ?s0" "sbMaxStfsInPipeline s1 = sbMaxStfsInPipeline ?s0"
    "sbInputChannelName s1 = opt cf ''input-channel-name''"
    by (simp_all add: s1 s2 s3 init_dpl_channel_def init_limit_def init_options_def)
  have lim: "sbPipelineLimit ?s0 \<longleftrightarrow> 0 < soMaxBufferedStfs cf" "sbPipelineLimit ?s0 \<longrightarrow> 4 \<le> sbMaxStfsInPipeline ?s0"
    by (simp_all add: init_limit_def init_options_def)
  have dpl: "sbStandalone s1 \<longrightarrow> sbDplChannelName s1 = []" by (simp add: s1 init_dpl_channel_def)
  have run: "soRunType cf \<noteq> RunInvalid"
    "soRunType cf = eTopology \<longrightarrow> getDataOriginFromOption (opt cf ''detector'') \<in> {DetOrigin ''ITS'', DetOrigin ''MFT''}"
    using rt by (auto simp: check_run_type_def split: if_splits)
  have src: "sbSourceEnabled (s3\<lparr>sbRunning := True\<rparr>) = sbSourceEnabled s1" by (simp add: s1 init_dpl_channel_def)
  have rdh: "\<not> sbSourceEnabled s1 \<longrightarrow> soRdhVersion cf \<noteq> eRdhInvalid \<and>
      (soRdhVersion cf \<noteq> eRdhVer6 \<longrightarrow> getDataOriginFromOption (opt cf ''detector'') \<noteq> DetAny)"
    using ro unfolding check_readout_def src by (cases "soRdhVersion cf") (auto split: if_splits)
  have chan: "\<not> sbSourceEnabled s1 \<longrightarrow> soChannel cf (opt cf ''input-channel-name'')"
    "\<not> sbStandalone s1 \<longrightarrow> soChannel cf (getOutputChannel s1)"
    using ch unfolding s1 [symmetric] check_channels_def s1' by (auto split: if_splits)
  have "sbSourceEnabled s2 = sbSourceEnabled s1" "sbStandalone s2 = sbStandalone s1"
    by (simp_all add: s1 s3 init_dpl_channel_def)
  then have con1: "\<not> ccConnected cfg \<longrightarrow> sbSourceEnabled s1 \<or> sbStandalone s1 \<or> \<not> connect \<or>
      starts_with (getEndpointOption (opt cf)) ''no-op''" using con by blast
  have lim1: "sbPipelineLimit s1 \<longleftrightarrow> 0 < soMaxBufferedStfs cf" "sbPipelineLimit s1 \<longrightarrow> 4 \<le> sbMaxStfsInPipeline s1"
    using lim by (simp_all only: s1')
  show ?thesis
    by (intro conjI) (fact run lim1 dpl con1 s1'(3) chan | (use rdh chan in blast))+
qed

definition standalone_options :: stfb_options where
  "standalone_options = \<lparr>opt = (\<lambda>k. if k = ''detector'' then ''its'' else []), soStandalone = True, soMaxBufferedStfs = 2,
     soMaxBuiltStfs = 0, soRunType = eTopology, soRdhVersion = eRdhVer6, soSink = (True, False), soSource = (True, False),
     soChannel = (\<lambda>_. True), soUuid = [], soHost = []\<rparr>"

theorem init_config_accepted_witness:
  "\<exists>cfg (s1 :: nat stfb_device) c1. InitTask mem_consul True (\<lambda>s. []) (''now'', 9) standalone_options blank_status stfb_device_new (True, []) = Inr (cfg, s1, c1) \<and>
     sbPipelineLimit s1 \<and> 4 \<le> sbMaxStfsInPipeline s1"
proof -
  have d: "getDataOriginFromOption ''its'' = DetOrigin ''ITS''"
    by code_simp
  obtain cfg and s1 :: "nat stfb_device" and c1 where
    i: "InitTask mem_consul True (\<lambda>s. []) (''now'', 9) standalone_options blank_status stfb_device_new (True, []) = Inr (cfg, s1, c1)"
    by (simp add: InitTask_def standalone_options_def check_run_type_def d init_files_def init_limit_def init_options_def
        stfb_device_new_def init_discovery_def consul_new_def getEndpointOption_def new_config_def check_readout_def
        init_dpl_channel_def check_channels_def Let_def)
  from init_config_accepted [OF i] show ?thesis using i by (simp add: standalone_options_def)
qed

end
