(* ===== verification/Stfs_Device.thy ===== *)
theory Stfs_Device
  imports Stfs_Output Disc_SchedClient Transport_Dpl Stfb_Device
begin

text \<open>
  The StfSender device (\<open>StfSender/StfSenderDevice.{h,cxx}\<close>): its configuration, the pipeline from the
  receiver thread over the file sink to the scheduler thread of the output, and the run changes. Reading the parameters in
  \<open>StfSenderOutput::start\<close> is here as well. The receiver takes its frames with the adapter of theory \<open>Transport_Dpl\<close>; the
  scheduler thread takes them over with \<open>sched_dequeue\<close> of theory \<open>Stfs_Output\<close>. Rates, monitoring and the info thread are left out.
\<close>

section \<open>Stages of the pipeline\<close>

definition eReceiverOut :: nat where "eReceiverOut = 0"
definition eFileSinkIn :: nat where "eFileSinkIn = 0"
definition eFileSinkOut :: nat where "eFileSinkOut = 1"
definition eSenderIn :: nat where "eSenderIn = 1"
definition eNullIn :: nat where "eNullIn = 2"
definition ePipelineSize :: nat where "ePipelineSize = 2"

lemmas stfs_stage_defs = eReceiverOut_def eFileSinkIn_def eFileSinkOut_def eSenderIn_def eNullIn_def ePipelineSize_def

section \<open>State\<close>

text \<open>\<open>snSinkEnabled\<close> is \<open>enabled()\<close> of the file sink.\<close>

record stfs_device =
  snPipeline :: "frame_t pipeline"
  snInputChannelName :: string
  snStandalone :: bool
  snPartitionId :: string
  snTfSchedulerRpcClient :: sched_client
  snRunning :: bool
  snAcceptingData :: bool
  snSinkEnabled :: bool
  snOutput :: StfSenderOutput

text \<open>The output handler before \<open>start\<close>, with its default size of the buffer.\<close>

definition output_new :: StfSenderOutput where
  "output_new = (output_start 0 [])\<lparr>ssBufferSize := push_bit 30 32, ssBackend := NoOutput, ssUCXRunning := False\<rparr>"

definition stfs_Init :: "bool \<Rightarrow> stfs_device" where
  "stfs_Init standalone =
     \<lparr>snPipeline = pl_new ePipelineSize, snInputChannelName = [], snStandalone = standalone, snPartitionId = [],
      snTfSchedulerRpcClient = sched_client_new, snRunning = False, snAcceptingData = False, snSinkEnabled = False,
      snOutput = output_new\<rparr>"

text \<open>\<open>None\<close>: the stage is neither, and the call throws. The null stage is the drop queue behind the last one.\<close>

definition stfs_getNextPipelineStage :: "nat \<Rightarrow> stfs_device \<Rightarrow> nat option" where
  "stfs_getNextPipelineStage stage s =
     (if stage = eReceiverOut then
        Some (if snSinkEnabled s then eFileSinkIn else if snStandalone s then eNullIn else eSenderIn)
      else if stage = eFileSinkOut then Some (if snStandalone s then eNullIn else eSenderIn)
      else None)"

definition stfs_queue :: "nat \<Rightarrow> frame_t \<Rightarrow> stfs_device \<Rightarrow> (bool \<times> stfs_device) option" where
  "stfs_queue stage f s =
     (case stfs_getNextPipelineStage stage s of
        None \<Rightarrow> None
      | Some n \<Rightarrow> (case pl_queue (\<lambda>_. n) stage f (snPipeline s) of (ok, p) \<Rightarrow> Some (ok, s\<lparr>snPipeline := p\<rparr>)))"

definition stfs_dequeue :: "nat \<Rightarrow> stfs_device \<Rightarrow> frame_t pop_result \<times> stfs_device" where
  "stfs_dequeue stage s =
     (case pl_dequeue stage (snPipeline s) of None \<Rightarrow> (Blocked, s) | Some (r, p) \<Rightarrow> (r, s\<lparr>snPipeline := p\<rparr>))"

section \<open>The threads\<close>

text \<open>
  One round of \<open>StfReceiverThread\<close>: \<open>r\<close> is what the channel gives, \<open>now\<close> the time of the frame's constructor;
  \<open>acceptingData\<close> is read after the frame has been received. \<open>None\<close>: the adapter does not return;
  \<open>Some (Inl e)\<close>: it reads outside the messages. \<open>Some (Inr (ok, s))\<close>: \<open>ok\<close> says that a frame has been queued.
\<close>

definition StfReceiverThread_round ::
    "(string, string) dpl_codec \<Rightarrow> u64 \<Rightarrow> dpl_receive \<Rightarrow> stfs_device \<Rightarrow> (dpl_fault + (bool \<times> stfs_device)) option" where
  "StfReceiverThread_round C now r s =
     (case deserialize_channel C now r of
        None \<Rightarrow> None
      | Some (Inl e) \<Rightarrow> Some (Inl e)
      | Some (Inr None) \<Rightarrow> Some (Inr (False, s))
      | Some (Inr (Some f)) \<Rightarrow>
          if \<not> snAcceptingData s then Some (Inr (False, s))
          else map_option Inr (stfs_queue eReceiverOut (snd (getDataSize f)) s))"

text \<open>The head of a round of \<open>StfSchedulerThread\<close>: \<open>False\<close> when the thread ends.\<close>

definition sched_take :: "stfs_device \<Rightarrow> (bool \<times> stfs_device) option" where
  "sched_take s =
     (case stfs_dequeue eSenderIn s of
        (Blocked, s1) \<Rightarrow> None
      | (Stopped, s1) \<Rightarrow> Some (False, s1)
      | (Popped f, s1) \<Rightarrow> Some (True, s1\<lparr>snOutput := sched_dequeue f (snOutput s1)\<rparr>))"

section \<open>Configuration\<close>

text \<open>The parameters that \<open>StfSenderOutput::start\<close> asks for.\<close>

definition start_output :: "'b consul_config \<Rightarrow> stfs_device \<Rightarrow> 'b consul_config \<times> stfs_device" where
  "start_output cfg s =
     (let (mb, cfg1) = getUInt64Param ''StfBufferSizeMB'' (push_bit 10 32) cfg;
          (transport, cfg2) = getStringParam ''DataDistNetworkTransport'' ''ucx'' cfg1
      in (cfg2, s\<lparr>snOutput := output_start mb transport\<rparr>))"

text \<open>
  The attempts to reach the scheduler: \<open>env\<close> gives, for each, what others have done to the store before it. \<open>None\<close>: still trying.
\<close>

fun contact_scheduler ::
    "'c consul \<Rightarrow> (string \<Rightarrow> bool \<times> sched_conf) \<Rightarrow> ('c \<Rightarrow> 'c) list \<Rightarrow> 'b consul_config \<Rightarrow> sched_client \<Rightarrow> 'c \<Rightarrow>
       (sched_client \<times> 'b consul_config \<times> 'c) option" where
  "contact_scheduler K parse env cfg t c =
     (if \<not> mShouldRetryStart t then Some (t, cfg, c)
      else
        (case env of
           [] \<Rightarrow> None
         | e # es \<Rightarrow>
             (case sched_client_start K parse cfg t (e c) of (ok, t1, cfg1, c1) \<Rightarrow>
                if ok then Some (t1, cfg1, c1) else contact_scheduler K parse es cfg1 t1 c1)))"

text \<open>
  The options, with whether the partition is set while the device waits for it (\<open>so_late\<close>): \<open>so_iface\<close> is \<open>getInterfaceIP\<close>, \<open>so_sink\<close> the answer of the sink's \<open>loadVerifyConfig\<close> and whether it is enabled,
  \<open>so_channel\<close> whether the channel is configured, \<open>so_port\<close> the port the RPC server gets.
\<close>

record stfs_options =
  so_opt :: "string \<Rightarrow> string"
  so_late :: bool
  so_shm :: bool
  so_iface :: "string \<Rightarrow> string option"
  so_sink :: "bool \<times> bool"
  so_channel :: "string \<Rightarrow> bool"
  so_port :: nat
  so_uuid :: string
  so_host :: string

text \<open>
  The discovery client and what it publishes; \<open>setAddr\<close> sets the address in the rest of the status, \<open>ser\<close> and \<open>time\<close> are as
  in \<open>consul_write\<close>.
\<close>

definition stfs_init_discovery ::
    "'c consul \<Rightarrow> bool \<Rightarrow> ('b config_status \<Rightarrow> string) \<Rightarrow> string \<times> u64 \<Rightarrow> (string \<Rightarrow> 'b \<Rightarrow> 'b) \<Rightarrow> stfs_options \<Rightarrow> 'b config_status \<Rightarrow>
       stfs_device \<Rightarrow> 'c \<Rightarrow> init_failure + ('b consul_config \<times> stfs_device \<times> 'c)" where
  "stfs_init_discovery K connect ser time setAddr cfo st s c =
     (let required = \<not> snStandalone s
      in case consul_new K connect CfgStfSender PT_StfSender (getEndpointOption (so_opt cfo)) required st c of
           Inl e \<Rightarrow> Inl (InitThrow e)
         | Inr (cfg, c1) \<Rightarrow>
             if \<not> ccConnected cfg then Inr (cfg, s, c1)
             else
               (case getIdOption (so_uuid cfo) (so_host cfo) PT_StfSender (so_opt cfo) required of
                  Inl e \<Rightarrow> Inl (InitThrow e)
                | Inr i \<Rightarrow>
                    (case getNetworkIfAddressOption (so_iface cfo) (so_opt cfo) of
                       Inl e \<Rightarrow> Inl (InitThrow e)
                     | Inr addr \<Rightarrow>
                         if getPartitionOption (so_opt cfo) = None \<and> \<not> so_late cfo then Inl InitWaits
                         else if snPartitionId s = [] then Inl InitExit
                         else
                                (let cfg1 = cfg\<lparr>mStatus := (mStatus cfg)\<lparr>cs_type := ProcStfSender, cs_process_state := PROC_NOT_RUNNING,
                                       cs_process_id := i, cs_partition := snPartitionId s, cs_body := setAddr addr (cs_body (mStatus cfg))\<rparr>\<rparr>
                                 in case consul_write K ser time False cfg1 c1 of
                                      Inl e \<Rightarrow> Inl (InitThrow e)
                                    | Inr (ok, cfg2, c2) \<Rightarrow> Inr (cfg2, s, c2)))))"

text \<open>
  Outside standalone mode: the output, the RPC server with its address in the status, and the scheduler. Without a connection to
  the store, the client dereferences a null pointer (\<open>InitUndefined\<close>).
\<close>

definition start_services ::
    "'c consul \<Rightarrow> ('b config_status \<Rightarrow> string) \<Rightarrow> string \<times> u64 \<Rightarrow> ('b \<Rightarrow> string) \<Rightarrow> (string \<Rightarrow> 'b \<Rightarrow> 'b) \<Rightarrow>
       (string \<Rightarrow> bool \<times> sched_conf) \<Rightarrow> ('c \<Rightarrow> 'c) list \<Rightarrow> stfs_options \<Rightarrow> 'b consul_config \<Rightarrow> stfs_device \<Rightarrow> 'c \<Rightarrow>
       init_failure + ('b consul_config \<times> stfs_device \<times> 'c)" where
  "start_services K ser time addr setRpc parse env cfo cfg s c =
     (let (cfg1, s1) = start_output cfg s;
          b = cs_body (mStatus cfg1);
          cfg2 = cfg1\<lparr>mStatus := (mStatus cfg1)\<lparr>cs_body := setRpc (addr b @ '':'' @ dec_string (so_port cfo)) b\<rparr>\<rparr>
      in case consul_write K ser time False cfg2 c of
           Inl e \<Rightarrow> Inl (InitThrow e)
         | Inr (ok, cfg3, c1) \<Rightarrow>
             if \<not> ccConnected cfg3 \<and> mShouldRetryStart (snTfSchedulerRpcClient s1) then Inl InitUndefined
             else
             (case contact_scheduler K parse env cfg3 (snTfSchedulerRpcClient s1) c1 of
                None \<Rightarrow> Inl InitWaits
              | Some (t, cfg4, c2) \<Rightarrow>
                  if \<not> mShouldRetryStart t then Inl (InitThrow (RuntimeError ''Cannot connect to TfScheduler.''))
                  else Inr (cfg4, s1\<lparr>snTfSchedulerRpcClient := t\<rparr>, c2)))"

definition stfs_InitTask ::
    "'c consul \<Rightarrow> bool \<Rightarrow> ('b config_status \<Rightarrow> string) \<Rightarrow> string \<times> u64 \<Rightarrow> ('b \<Rightarrow> string) \<Rightarrow> (string \<Rightarrow> 'b \<Rightarrow> 'b) \<Rightarrow> (string \<Rightarrow> 'b \<Rightarrow> 'b) \<Rightarrow>
       (string \<Rightarrow> bool \<times> sched_conf) \<Rightarrow> ('c \<Rightarrow> 'c) list \<Rightarrow> stfs_options \<Rightarrow> 'b config_status \<Rightarrow> stfs_device \<Rightarrow> 'c \<Rightarrow>
       init_failure + ('b consul_config \<times> stfs_device \<times> 'c)" where
  "stfs_InitTask K connect ser time addr setAddr setRpc parse env cfo st s c =
     (if \<not> so_shm cfo then Inl (InitThrow (RuntimeError ''Default transport parameter must be set to shm''))
      else
        (let s1 = s\<lparr>snInputChannelName := so_opt cfo ''input-channel-name'',
               snPartitionId := (case getPartitionOption (so_opt cfo) of None \<Rightarrow> ''-'' | Some p \<Rightarrow> p)\<rparr>
         in case stfs_init_discovery K connect ser time setAddr cfo st s1 c of
              Inl e \<Rightarrow> Inl e
            | Inr (cfg, s2, c1) \<Rightarrow>
                if \<not> so_channel cfo (snInputChannelName s2) then Inl InitExit
                else if \<not> fst (so_sink cfo) then Inl InitExit
                else
                  (let s3 = s2\<lparr>snSinkEnabled := snd (so_sink cfo), snRunning := True\<rparr>
                   in if snStandalone s3 then Inr (cfg, s3, c1)
                      else start_services K ser time addr setRpc parse env cfo cfg s3 c1)))"

section \<open>Running and stopping\<close>

definition stfs_PreRun ::
    "'c consul \<Rightarrow> ('b config_status \<Rightarrow> string) \<Rightarrow> string \<times> u64 \<Rightarrow> u64 \<Rightarrow> 'b consul_config \<Rightarrow> stfs_device \<Rightarrow> 'c \<Rightarrow>
       config_error + ('b consul_config \<times> stfs_device \<times> 'c)" where
  "stfs_PreRun K ser time run cfg s c =
     (case (if \<not> snStandalone s then
              consul_write K ser time False (cfg\<lparr>mStatus := (mStatus cfg)\<lparr>cs_process_state := PROC_RUNNING, cs_run_number := run\<rparr>\<rparr>) c
            else Inr (False, cfg, c)) of
        Inl e \<Rightarrow> Inl e
      | Inr (ok, cfg1, c1) \<Rightarrow>
          Inr (cfg1, s\<lparr>snOutput := snd (resetCounters (snOutput s)), snAcceptingData := True\<rparr>, c1))"

definition stfs_PostRun ::
    "'c consul \<Rightarrow> ('b config_status \<Rightarrow> string) \<Rightarrow> string \<times> u64 \<Rightarrow> 'b consul_config \<Rightarrow> stfs_device \<Rightarrow> 'c \<Rightarrow>
       config_error + ('b consul_config \<times> stfs_device \<times> 'c)" where
  "stfs_PostRun K ser time cfg s c =
     (let s1 = s\<lparr>snAcceptingData := False\<rparr>
      in case (if \<not> snStandalone s1 then
              consul_write K ser time False (cfg\<lparr>mStatus := (mStatus cfg)\<lparr>cs_process_state := PROC_NOT_RUNNING\<rparr>\<rparr>) c
            else Inr (False, cfg, c)) of
        Inl e \<Rightarrow> Inl e
      | Inr (ok, cfg1, c1) \<Rightarrow> Inr (cfg1, s1\<lparr>snOutput := snd (resetCounters (snOutput s1))\<rparr>, c1))"

text \<open>
  \<open>stop\<close> of the output and of its back ends; the threads are joined between, they see the stopped queues. The memory mappings of
  UCX are left out.
\<close>

definition ucx_stop :: "StfSenderOutput \<Rightarrow> StfSenderOutput" where
  "ucx_stop s = s\<lparr>ssUCXRunning := False, ssSendRequestQueue := cq_stop (ssSendRequestQueue s), ssUCXMap := []\<rparr>"

definition output_stop :: "bool \<Rightarrow> StfSenderOutput \<Rightarrow> StfSenderOutput" where
  "output_stop standalone s =
     (let s1 = s\<lparr>ssDropQueue := cq_stop (ssDropQueue s)\<rparr>
      in if standalone then s1
         else (case ssBackend s1 of OutputFairMQ \<Rightarrow> fmq_stop s1 | OutputUCX \<Rightarrow> ucx_stop s1 | NoOutput \<Rightarrow> s1))"

definition stfs_ResetTask :: "stfs_device \<Rightarrow> stfs_device" where
  "stfs_ResetTask s =
     (let s1 = s\<lparr>snPipeline := clearPipeline (stopPipeline (snPipeline s)), snRunning := False\<rparr>
      in if snStandalone s1 then s1
         else s1\<lparr>snOutput := output_stop (snStandalone s1) (snOutput s1),
                snTfSchedulerRpcClient := sched_client_stop (snTfSchedulerRpcClient s1)\<rparr>)"

text \<open>The answer, and whether the heartbeat has been sent.\<close>

definition stfs_ConditionalRun :: "channel_state \<Rightarrow> bool \<Rightarrow> stfs_device \<Rightarrow> bool \<times> bool" where
  "stfs_ConditionalRun g ok s =
     (if ssTerminateRequested (snOutput s) then (False, False)
      else (True, snRunning s \<and> \<not> snStandalone s \<and> snd (HeartBeat (snTfSchedulerRpcClient s) g ok)))"

end
