(* ===== verification/Stfs_Device_Props.thy ===== *)
theory Stfs_Device_Props
  imports Stfs_Device Transport_Dpl_Props Stfs_Output_Props TfFile_Sink_Props
begin

text \<open>
  Properties of the StfSender device: the pipeline is one FIFO queue of frames, what it announces is what the StfBuilder
  has sent, and a device that has been reset takes no frame any more.
\<close>

section \<open>The pipeline as one queue\<close>








text \<open>A change of the run is such a step.\<close>

lemma run_changes:
  "stfs_PreRun K ser time run cfg s c = Inr (cfg', s', c') \<Longrightarrow>
    s' = s\<lparr>snOutput := snd (resetCounters (snOutput s)), snAcceptingData := True\<rparr>"
  "stfs_PostRun K ser time cfg s c = Inr (cfg', s', c') \<Longrightarrow>
    s' = s\<lparr>snOutput := snd (resetCounters (snOutput s)), snAcceptingData := False\<rparr>"
  by (auto simp: stfs_PreRun_def stfs_PostRun_def Let_def split: sum.splits)










section \<open>From the StfBuilder to the scheduler\<close>

lemma sent_not_empty:
  assumes "dpl_codec_ok C" "0 < sz_DataHeader C" "sendToDpl C ext budget a f = Inr ([ms], reports)"
  shows "0 < sum_list (map length ms)"
proof -
  have out: "dpl_visit_out C ext (sdReducedHdr a) budget (updateStf f) = Inr ms"
    using assms(3) by (auto simp: sendToDpl_def split: if_splits sum.splits)
  then obtain ms' where "ms = hdr_bytes C (dpl_stf_header C (stfHeader f)) # stfh_bytes C (stfHeader f) # ms'"
    by (auto simp: dpl_visit_out_def split: if_splits sum.splits)
  moreover have "sz_DataHeader C \<le> length (hdr_bytes C (dpl_stf_header C (stfHeader f)))"
    using assms(1) by (simp add: dpl_codec_ok_def)
  ultimately show ?thesis using assms(2) by auto
qed






section \<open>After a reset\<close>

lemma init_keeps_pipeline:
  assumes "stfs_InitTask K connect ser time addr setAddr setRpc parse env cfo st s c = Inr (cfg, s1, c1)"
  shows "snPipeline s1 = snPipeline s"
proof -
  have d: "snPipeline x' = snPipeline x" if "stfs_init_discovery K connect ser time setAddr cfo st x c = Inr (cf, x', c')" for x x' cf c'
    using that by (auto simp: stfs_init_discovery_def Let_def split: sum.splits prod.splits if_splits)
  have v: "snPipeline x' = snPipeline x" if "start_services K ser time addr setRpc parse env cfo cf x c' = Inr (cf', x', c'')" for cf x c' cf' x' c''
    using that by (auto simp: start_services_def start_output_def Let_def case_prod_beta split: sum.splits option.splits if_splits)
  show ?thesis using assms
    by (auto simp: stfs_InitTask_def Let_def split: sum.splits if_splits dest!: d v)
qed

lemma closed_queue:
  assumes "\<forall>q\<in>set (snPipeline s). \<not> cqRunning q" "stfs_queue n f s = Some (ok, s')"
  shows "\<not> ok \<and> snPipeline s' = snPipeline s"
  using assms by (auto simp: stfs_queue_def pl_queue_def cq_push_def Let_def split: option.splits prod.splits if_splits)

text \<open>
  C38. A StfSender whose task has been reset takes no frame any more: when the task is initialised and run again on the same device, the receiver thread
  goes on receiving but every frame is destroyed, because the queues are stopped and nothing starts them again, and
  the scheduler thread ends at once, so nothing is announced.
\<close>

theorem reset_device_is_deaf:
  assumes "length (snPipeline s) = ePipelineSize"
    and "stfs_InitTask K connect ser time addr setAddr setRpc parse env cfo st (stfs_ResetTask s) c = Inr (cfg, s1, c1)"
    and "stfs_PreRun K ser' time' run cfg s1 c1 = Inr (cfg2, s2, c2)"
  shows "sched_take s2 = Some (False, s2) \<and>
    (\<forall>C now r ok s3. StfReceiverThread_round C now r s2 = Some (Inr (ok, s3)) \<longrightarrow> \<not> ok \<and> snPipeline s3 = snPipeline s2)"
proof -
  have p: "snPipeline s2 = clearPipeline (stopPipeline (snPipeline s))"
    using init_keeps_pipeline [OF assms(2)] run_changes(1) [OF assms(3)] by (simp add: stfs_ResetTask_def Let_def)
  obtain q r where q: "snPipeline s = [q, r]"
    using assms(1) by (auto simp: stfs_stage_defs length_Suc_conv numeral_2_eq_2)
  have closed: "\<forall>q\<in>set (snPipeline s2). \<not> cqRunning q"
    by (simp add: p q clearPipeline_def stopPipeline_def cq_flush_def cq_stop_def)
  have "sched_take s2 = Some (False, s2)"
    by (simp add: sched_take_def stfs_dequeue_def p q clearPipeline_def stopPipeline_def pl_dequeue_def stfs_stage_defs cq_pop_def
        cq_flush_def cq_stop_def)
  moreover have "\<not> ok \<and> snPipeline s3 = snPipeline s2" if "StfReceiverThread_round C now x s2 = Some (Inr (ok, s3))" for C now x ok s3
    using that closed_queue [OF closed] by (auto simp: StfReceiverThread_round_def split: option.splits sum.splits if_splits)
  ultimately show ?thesis by blast
qed

section \<open>Concrete runs\<close>

text \<open>A layout for headers with text: the numbers as in \<open>plain_dpl\<close>, then the texts, each character after a 1, ended by a 0.\<close>

fun text_bytes :: "string \<Rightarrow> fmq_message" where
  "text_bytes [] = [0]"
| "text_bytes (c # cs) = 1 # of_nat (of_char c) # text_bytes cs"

fun text_of :: "fmq_message \<Rightarrow> string \<times> fmq_message" where
  "text_of (b # c # bs) = (if b = 0 then ([], c # bs) else (case text_of bs of (t, r) \<Rightarrow> (char_of (unat c) # t, r)))"
| "text_of [b] = ([], [])"
| "text_of [] = ([], [])"

lemma char_byte: "char_of (unat (of_nat (of_char c) :: u8)) = c"
proof -
  have "(of_char c :: nat) < 256" by simp
  then have "unat (of_nat (of_char c) :: u8) = (of_char c :: nat)" by (simp add: unat_of_nat)
  then show ?thesis by simp
qed

lemma text_of_bytes: "text_of (text_bytes t @ r) = (t, r)"
proof (induction t)
  case Nil
  then show ?case by (cases r) simp_all
qed (simp add: char_byte)

definition numbers_of :: "(string, string) dpl_header \<Rightarrow> (u64, u32) dpl_header" where
  "numbers_of x =
     (let h = dplHeader x
      in \<lparr>dplHeader = \<lparr>dhDescription = 0, dhOrigin = 0, dhSubSpecification = dhSubSpecification h, splitPayloadIndex = splitPayloadIndex h,
            splitPayloadParts = splitPayloadParts h, firstTForbit = firstTForbit h, tfCounter = tfCounter h, runNumber = runNumber h\<rparr>,
          dplPayloadSize = dplPayloadSize x, dplStart = dplStart x, dplCreation = dplCreation x, dplCompleted = dplCompleted x\<rparr>)"

definition with_texts :: "string \<Rightarrow> string \<Rightarrow> (u64, u32) dpl_header \<Rightarrow> (string, string) dpl_header" where
  "with_texts d og x =
     (let h = dplHeader x
      in \<lparr>dplHeader = \<lparr>dhDescription = d, dhOrigin = og, dhSubSpecification = dhSubSpecification h, splitPayloadIndex = splitPayloadIndex h,
            splitPayloadParts = splitPayloadParts h, firstTForbit = firstTForbit h, tfCounter = tfCounter h, runNumber = runNumber h\<rparr>,
          dplPayloadSize = dplPayloadSize x, dplStart = dplStart x, dplCreation = dplCreation x, dplCompleted = dplCompleted x\<rparr>)"

lemma with_texts_numbers: "with_texts (dhDescription (dplHeader x)) (dhOrigin (dplHeader x)) (numbers_of x) = x"
  by (cases x; cases "dplHeader x") (simp add: with_texts_def numbers_of_def Let_def)

definition text_header :: "fmq_message \<Rightarrow> (string, string) dpl_header" where
  "text_header bs =
     (case text_of (drop 104 bs) of (d, r) \<Rightarrow> with_texts d (fst (text_of r)) (dpl_of_words (\<lambda>i. word_at i (take 104 bs))))"

definition text_dpl :: "(string, string) dpl_codec" where
  "text_dpl = \<lparr>
     hdr_bytes = (\<lambda>x. words_bytes (dpl_words (numbers_of x)) @ text_bytes (dhDescription (dplHeader x)) @ text_bytes (dhOrigin (dplHeader x))),
     hdr_of = text_header, hdr_get = (\<lambda>bs. if 104 \<le> length bs then Some (text_header bs) else None),
     hdr_new = (\<lambda>d og ss. \<lparr>dhDescription = d, dhOrigin = og, dhSubSpecification = ss, splitPayloadIndex = 0,
       splitPayloadParts = 1, firstTForbit = 0, tfCounter = 0, runNumber = 0\<rparr>),
     stfh_bytes = stfh_bytes plain_dpl, stfh_of = stfh_of plain_dpl,
     sz_DataHeader = 64, sz_StfHeader = 40, gDataDescSubTimeFrame = ''SUBTIMEFRAMEMD'', gDataOriginFLP = ''FLP'',
     gDataDescriptionInfo = ''INFORMATION'', gDataOriginAny = ''***''\<rparr>"

lemma text_dpl_ok: "dpl_codec_ok text_dpl"
proof -
  have l: "length (words_bytes (dpl_words x)) = 104" for x by (simp add: length_words_bytes)
  have "text_header (words_bytes (dpl_words (numbers_of x)) @ text_bytes (dhDescription (dplHeader x)) @ text_bytes (dhOrigin (dplHeader x))) = x" for x
    using text_of_bytes [of "dhOrigin (dplHeader x)" "[]"]
    by (simp add: text_header_def l text_of_bytes dpl_words_inv with_texts_numbers)
  moreover have "sz_StfHeader plain_dpl = 40" by (simp add: plain_dpl_def)
  ultimately show ?thesis
    using codec_simps(4, 5) [OF plain_dpl_ok] by (simp add: dpl_codec_ok_def text_dpl_def l)
qed

definition text_ext :: "(string, string) DataHeader \<Rightarrow> (string, string) dpl_header" where
  "text_ext h = \<lparr>dplHeader = h, dplPayloadSize = 0, dplStart = Some 9, dplCreation = 0, dplCompleted = False\<rparr>"

text \<open>A frame of raw data with one block of three bytes.\<close>

definition raw_frame :: frame_t where
  "raw_frame = setOrigin eReadout ex_stf"

lemma raw_frame_reach: "stf_reach raw_frame"
  unfolding raw_frame_def ex_stf_def by (rule reach_op [OF reach_op [OF reach_new op_start] op_origin])

lemma raw_frame_vec:
  "vec_at (stfData raw_frame) di ss = (if (di, ss) = ((''RAWDATA'', ''TPC''), 7) then
     [\<lparr>smHeader = Some \<lparr>dhDescription = ''RAWDATA'', dhOrigin = ''TPC'', dhSubSpecification = 7, splitPayloadIndex = 0,
        splitPayloadParts = 0, firstTForbit = 0, tfCounter = 0, runNumber = 0\<rparr>, smDataParts = [[1, 2, 3]]\<rparr>] else [])"
  by (simp add: raw_frame_def setOrigin_def ex_stf_def addStfDataStart_def SubTimeFrame_new_def push_part_def vec_at_set Let_def)

lemma raw_frame_facts: "sendable raw_frame" "no_frame_header text_dpl raw_frame" "frame_size raw_frame = 3"
  "hOrigin (stfHeader raw_frame) = eReadout" "hId (stfHeader raw_frame) = 9"
proof -
  show "sendable raw_frame" "no_frame_header text_dpl raw_frame"
    by (auto simp: sendable_def message_ok_def msg_key_def no_frame_header_def raw_frame_vec text_dpl_def)
  show "frame_size raw_frame = 3" "hOrigin (stfHeader raw_frame) = eReadout" "hId (stfHeader raw_frame) = 9"
    by (simp_all add: raw_frame_def setOrigin_def ex_stf_def frame_size_def getDataSize_def updateStf_def update_idents_eq
      addStfDataStart_def SubTimeFrame_new_def Header_new_def vec_set_def push_part_def Let_def
      map_bytes_def sub_bytes_def vec_bytes_def message_bytes_def message_size_def)
qed

lemma raw_frame_sent:
  obtains budget ms reports where
    "sendToDpl text_dpl text_ext budget \<lparr>sdRunning = True, sdInspect = False, sdReducedHdr = False\<rparr> raw_frame = Inr ([ms], reports)"
  using dpl_send_succeeds [OF reach_accounted [OF raw_frame_reach] raw_frame_facts(1),
      of "\<lparr>sdRunning = True, sdInspect = False, sdReducedHdr = False\<rparr>"] by fastforce




lemma text_dpl_size: "0 < sz_DataHeader text_dpl" "\<forall>h. dplHeader (text_ext h) = h"
  by (simp_all add: text_dpl_def text_ext_def)



text \<open>A store with one record that is not valid, and a configuration of the StfSender over it.\<close>

definition blank_kv :: KeyValue where
  "blank_kv = \<lparr>kv_key = ''k'', kv_value = [], kv_valid = False\<rparr>"

definition blank_consul :: "unit consul" where
  "blank_consul = \<lparr>c_items = \<lambda>p c. (Some [blank_kv], c), c_item = \<lambda>k c. (Some blank_kv, c), c_count = \<lambda>k c. (Some 0, c),
     c_set = \<lambda>k v c. (Some (), c), c_erase = \<lambda>k c. (Some (), c), c_erase_all = \<lambda>k c. (Some (), c)\<rparr>"

definition sender_options :: stfs_options where
  "sender_options = \<lparr>so_opt = (\<lambda>k. ''x''), so_late = False, so_shm = True, so_iface = (\<lambda>i. Some ''1.2.3.4''), so_sink = (True, False),
     so_channel = (\<lambda>c. True), so_port = 80, so_uuid = ''u'', so_host = ''h''\<rparr>"

definition sender_status :: "string config_status" where
  "sender_status = \<lparr>cs_type = ProcStfSender, cs_process_id = [], cs_process_state = PROC_RUNNING, cs_partition = [], cs_run_number = 0,
     cs_partition_state = PARTITION_IGNORE, cs_last_update = [], cs_last_update_t = 0, cs_body = []\<rparr>"

lemma sender_configured:
  "\<exists>cfg s1. stfs_InitTask blank_consul True cs_body (''t'', 1) (\<lambda>b. b) (\<lambda>a b. a) (\<lambda>a b. a) (\<lambda>v. (True, sched_conf_clear)) [\<lambda>c. c]
     sender_options sender_status (stfs_ResetTask (stfs_Init False)) () = Inr (cfg, s1, ()) \<and>
     cs_partition (mStatus cfg) = ''x'' \<and> \<not> snStandalone s1"
  by (simp add: stfs_InitTask_def stfs_ResetTask_def stfs_Init_def sender_options_def sender_status_def stfs_init_discovery_def consul_new_def
      getEndpointOption_def new_config_def starts_with_def ConsulPollingThread_round_def poll_prefix_def blank_consul_def blank_kv_def
      getIdOption_def getNetworkIfAddressOption_def getPartitionOption_def consul_write_def createKeyPrefix_def write_string_def
      start_services_def start_output_def getUInt64Param_def getStringParam_def add_tunable_def sched_client_stop_def sched_client_new_def
      sched_client_start_def getTfSchedulerConfig_def sched_conf_clear_def Let_def case_prod_beta)

lemma sender_started:
  "cs_partition (mStatus cfg) = ''x'' \<Longrightarrow>
    \<exists>cfg'. stfs_PreRun blank_consul cs_body (''t'', 1) 4 cfg s () =
      Inr (cfg', s\<lparr>snOutput := snd (resetCounters (snOutput s)), snAcceptingData := True\<rparr>, ())"
  by (simp add: stfs_PreRun_def consul_write_def createKeyPrefix_def Let_def split: prod.splits sum.splits)

theorem reset_device_is_deaf_witness:
  "\<exists>ms g s2 s3. deserialize_impl text_dpl 5 ms = Some (Inr (Some g)) \<and> \<not> snStandalone s2 \<and> snAcceptingData s2 \<and>
     sched_take s2 = Some (False, s2) \<and> StfReceiverThread_round text_dpl 5 (RecvMessages ms) s2 = Some (Inr (False, s3))"
proof -
  obtain cfg s1 where i: "stfs_InitTask blank_consul True cs_body (''t'', 1) (\<lambda>b. b) (\<lambda>a b. a) (\<lambda>a b. a) (\<lambda>v. (True, sched_conf_clear))
      [\<lambda>c. c] sender_options sender_status (stfs_ResetTask (stfs_Init False)) () = Inr (cfg, s1, ())"
    "cs_partition (mStatus cfg) = ''x''" "\<not> snStandalone s1" using sender_configured by blast
  let ?s2 = "s1\<lparr>snOutput := snd (resetCounters (snOutput s1)), snAcceptingData := True\<rparr>"
  from sender_started [OF i(2), of s1] obtain cfg' where
    p: "stfs_PreRun blank_consul cs_body (''t'', 1) 4 cfg s1 () = Inr (cfg', ?s2, ())" by blast
  have l: "length (snPipeline (stfs_Init False)) = ePipelineSize" by (simp add: stfs_Init_def pl_new_def)
  note t = reset_device_is_deaf [OF l i(1) p]
  obtain budget ms reports where
    v: "sendToDpl text_dpl text_ext budget \<lparr>sdRunning = True, sdInspect = False, sdReducedHdr = False\<rparr> raw_frame = Inr ([ms], reports)"
    by (rule raw_frame_sent)
  from sent_frame_read [OF text_dpl_ok text_dpl_size(2) raw_frame_reach raw_frame_facts(1, 2) v] obtain g where
    g: "deserialize_impl text_dpl 5 ms = Some (Inr (Some g))" by blast
  have "0 < sum_list (map length ms)" using sent_not_empty [OF text_dpl_ok text_dpl_size(1) v] .
  then obtain ok s3 where r: "StfReceiverThread_round text_dpl 5 (RecvMessages ms) ?s2 = Some (Inr (ok, s3))"
    using g by (auto simp: StfReceiverThread_round_def deserialize_channel_def stfs_queue_def stfs_getNextPipelineStage_def case_prod_beta)
  have "\<not> ok" using t r by blast
  then show ?thesis using g r t i(3) by (intro exI [of _ ms] exI [of _ g] exI [of _ ?s2] exI [of _ s3]) auto
qed

end
