(* ===== verification/Transport_Adapt.thy ===== *)
theory Transport_Adapt
  imports DD_SubTimeFrame
begin

text \<open>
  The two operations that prepare the header stacks of a frame for the data processing layer: \<open>adaptHeaders\<close> of
  \<open>SubTimeFrameFileBuilder\<close> and of \<open>TimeFrameBuilder\<close> in \<open>common/SubTimeFrameBuilder.cxx\<close>. The stacks belong to O2: a header message is
  its size, whether its first header is a \<open>DataHeader\<close>, the \<open>DataHeader\<close> and the processing header (start and creation time) that
  a search in the stack finds, the other headers, and whether it is in shared memory. \<open>hb\<close> and \<open>db\<close>: how many header and
  data messages can still be allocated. \<open>None\<close>: a null pointer is used.
\<close>

section \<open>Messages\<close>

record ('d, 'o) header_message =
  hmSize :: nat
  hmFirst :: bool
  hmData :: "('d, 'o) DataHeader option"
  hmDpl :: "(u64 \<times> u64) option"
  hmRest :: fmq_message
  hmShm :: bool

record ('d, 'o) adapt_message =
  amHeader :: "('d, 'o) header_message option"
  amParts :: "(fmq_message \<times> bool) list"

text \<open>The messages of a frame in the order of its maps.\<close>

record ('d, 'o) adapt_frame =
  afHeader :: StfHeader
  afMessages :: "('d, 'o) adapt_message list"

text \<open>The sizes of a \<open>DataHeader\<close> and of a processing header.\<close>

record header_sizes =
  szDataHeader :: nat
  szDplHeader :: nat

section \<open>Frames read from a file\<close>

text \<open>The flag is false when the function returns before the end. A new stack holds only the \<open>DataHeader\<close> and the processing header.\<close>

fun file_adapt_loop :: "header_sizes \<Rightarrow> StfHeader \<Rightarrow> nat \<Rightarrow> ('d, 'o) adapt_message list \<Rightarrow> bool \<times> ('d, 'o) adapt_message list" where
  "file_adapt_loop Z H hb [] = (True, [])"
| "file_adapt_loop Z H hb (m # ms) =
     (case amHeader m of
        None \<Rightarrow> (False, m # ms)
      | Some h \<Rightarrow>
          if hmSize h < szDataHeader Z then (False, m # ms)
          else
            (case hmDpl h of
               Some x \<Rightarrow>
                 (case file_adapt_loop Z H hb ms of (ok, ms') \<Rightarrow>
                    (ok, m\<lparr>amHeader := Some (h\<lparr>hmDpl := Some (hId H, hCreationTimeMs H)\<rparr>)\<rparr> # ms'))
             | None \<Rightarrow>
                 (case hmData h of
                    None \<Rightarrow> (False, m # ms)
                  | Some dh \<Rightarrow>
                      if hb = 0 then (False, m\<lparr>amHeader := None\<rparr> # ms)
                      else
                        (case file_adapt_loop Z H (hb - 1) ms of (ok, ms') \<Rightarrow>
                           (ok, m\<lparr>amHeader := Some \<lparr>hmSize = szDataHeader Z + szDplHeader Z, hmFirst = True, hmData = Some dh,
                                    hmDpl = Some (hId H, hCreationTimeMs H), hmRest = [], hmShm = True\<rparr>\<rparr> # ms')))))"

definition SubTimeFrameFileBuilder_adaptHeaders ::
    "header_sizes \<Rightarrow> nat \<Rightarrow> ('d, 'o) adapt_frame \<Rightarrow> bool \<times> ('d, 'o) adapt_frame" where
  "SubTimeFrameFileBuilder_adaptHeaders Z hb F =
     (case file_adapt_loop Z (afHeader F) hb (afMessages F) of (ok, ms) \<Rightarrow> (ok, F\<lparr>afMessages := ms\<rparr>))"

section \<open>Time frames\<close>

text \<open>\<open>newHeaderMessage\<close> of \<open>TimeFrameBuilder\<close>: a copy in shared memory, with the number of messages left.\<close>

definition TimeFrameBuilder_newHeaderMessage ::
    "header_sizes \<Rightarrow> nat \<Rightarrow> ('d, 'o) header_message \<Rightarrow> (('d, 'o) header_message \<times> nat) option" where
  "TimeFrameBuilder_newHeaderMessage Z hb h =
     (if hmSize h < szDataHeader Z then None
      else if \<not> hmFirst h then None
      else if hb = 0 then None
      else Some (h\<lparr>hmShm := True\<rparr>, hb - 1))"

text \<open>The first loop: the processing headers.\<close>

fun dpl_header_loop ::
    "header_sizes \<Rightarrow> StfHeader \<Rightarrow> nat \<Rightarrow> ('d, 'o) adapt_message list \<Rightarrow> bool \<times> nat \<times> ('d, 'o) adapt_message list" where
  "dpl_header_loop Z H hb [] = (True, hb, [])"
| "dpl_header_loop Z H hb (m # ms) =
     (case amHeader m of
        None \<Rightarrow> (case dpl_header_loop Z H hb ms of (ok, hb', ms') \<Rightarrow> (ok, hb', m # ms'))
      | Some h \<Rightarrow>
          if hmSize h < szDataHeader Z \<or> hmData h = None then
            (case dpl_header_loop Z H hb ms of (ok, hb', ms') \<Rightarrow> (ok, hb', m # ms'))
          else
            (let h' = h\<lparr>hmDpl := Some (hId H, hCreationTimeMs H)\<rparr>
             in if hmDpl h \<noteq> None then
                  (case dpl_header_loop Z H hb ms of (ok, hb', ms') \<Rightarrow> (ok, hb', m\<lparr>amHeader := Some h'\<rparr> # ms'))
                else
                  (case TimeFrameBuilder_newHeaderMessage Z hb (h'\<lparr>hmSize := hmSize h + szDplHeader Z\<rparr>) of
                     None \<Rightarrow> (False, hb, m\<lparr>amHeader := None\<rparr> # ms)
                   | Some (n, hb1) \<Rightarrow>
                       (case dpl_header_loop Z H hb1 ms of (ok, hb', ms') \<Rightarrow> (ok, hb', m\<lparr>amHeader := Some n\<rparr> # ms')))))"

text \<open>The second loop: moving headers and data to shared memory.\<close>

fun move_parts :: "nat \<Rightarrow> (fmq_message \<times> bool) list \<Rightarrow> bool \<times> nat \<times> (fmq_message \<times> bool) list" where
  "move_parts db [] = (True, db, [])"
| "move_parts db ((p, shm) # ps) =
     (if shm then (case move_parts db ps of (ok, db', ps') \<Rightarrow> (ok, db', (p, shm) # ps'))
      else if db = 0 then (False, db, (p, shm) # ps)
      else (case move_parts (db - 1) ps of (ok, db', ps') \<Rightarrow> (ok, db', (p, True) # ps')))"

fun shm_loop ::
    "header_sizes \<Rightarrow> nat \<Rightarrow> nat \<Rightarrow> ('d, 'o) adapt_message list \<Rightarrow> (bool \<times> ('d, 'o) adapt_message list) option" where
  "shm_loop Z hb db [] = Some (True, [])"
| "shm_loop Z hb db (m # ms) =
     (case amHeader m of
        None \<Rightarrow> None
      | Some h \<Rightarrow>
          (case (if hmShm h then Some (h, hb) else TimeFrameBuilder_newHeaderMessage Z hb h) of
             None \<Rightarrow> Some (False, m # ms)
           | Some (h', hb') \<Rightarrow>
               (case move_parts db (amParts m) of (ok, db', ps) \<Rightarrow>
                  let m' = m\<lparr>amHeader := Some h', amParts := ps\<rparr>
                  in if \<not> ok then Some (False, m' # ms)
                     else map_option (\<lambda>(ok2, ms'). (ok2, m' # ms')) (shm_loop Z hb' db' ms))))"

text \<open>\<open>ready\<close>: both regions exist; \<open>now\<close>: the current time.\<close>

definition adapt_creation :: "u64 \<Rightarrow> StfHeader \<Rightarrow> StfHeader" where
  "adapt_creation now H = (if hCreationTimeMs H = - 1 \<or> hCreationTimeMs H = 0 then H\<lparr>hCreationTimeMs := now\<rparr> else H)"

definition TimeFrameBuilder_adaptHeaders ::
    "header_sizes \<Rightarrow> bool \<Rightarrow> u64 \<Rightarrow> nat \<Rightarrow> nat \<Rightarrow> ('d, 'o) adapt_frame \<Rightarrow> (bool \<times> ('d, 'o) adapt_frame) option" where
  "TimeFrameBuilder_adaptHeaders Z ready now hb db F =
     (if \<not> ready then Some (False, F)
      else
        (let H = adapt_creation now (afHeader F)
         in case dpl_header_loop Z H hb (afMessages F) of (ok, hb', ms) \<Rightarrow>
              if \<not> ok then Some (False, F\<lparr>afHeader := H, afMessages := ms\<rparr>)
              else map_option (\<lambda>(ok2, ms'). (ok2, F\<lparr>afHeader := H, afMessages := ms'\<rparr>)) (shm_loop Z hb' db ms)))"

section \<open>Properties\<close>

text \<open>What a message becomes: the same \<open>DataHeader\<close>, other headers and data, everything in shared memory, and a processing header.\<close>

definition well_formed_header :: "header_sizes \<Rightarrow> ('d, 'o) adapt_message \<Rightarrow> bool" where
  "well_formed_header Z m = (case amHeader m of None \<Rightarrow> False | Some h \<Rightarrow> szDataHeader Z \<le> hmSize h \<and> hmFirst h \<and> hmData h \<noteq> None)"

definition stamped :: "StfHeader \<Rightarrow> ('d, 'o) adapt_message \<Rightarrow> ('d, 'o) adapt_message \<Rightarrow> bool" where
  "stamped H m m' \<longleftrightarrow>
     (case (amHeader m, amHeader m') of
        (Some h, Some h') \<Rightarrow> hmData h' = hmData h \<and> hmRest h' = hmRest h \<and> hmDpl h' = Some (hId H, hCreationTimeMs H)
      | _ \<Rightarrow> False) \<and>
     map fst (amParts m') = map fst (amParts m)"

definition in_shm :: "('d, 'o) adapt_message \<Rightarrow> bool" where
  "in_shm m \<longleftrightarrow> (case amHeader m of None \<Rightarrow> False | Some h \<Rightarrow> hmShm h) \<and> (\<forall>p\<in>set (amParts m). snd p)"

lemma well_formed_cases:
  assumes "well_formed_header Z m"
  obtains h dh where "amHeader m = Some h" "szDataHeader Z \<le> hmSize h" "hmFirst h" "hmData h = Some dh"
  using assms by (auto simp: well_formed_header_def split: option.splits)

lemma dpl_header_loop_stamps:
  assumes "\<forall>m\<in>set ms. well_formed_header Z m" "n + length ms \<le> hb"
  shows "\<exists>hb' ms'. dpl_header_loop Z H hb ms = (True, hb', ms') \<and> n \<le> hb' \<and> list_all2 (stamped H) ms ms' \<and>
    (\<forall>m\<in>set ms'. well_formed_header Z m)"
  using assms
proof (induction ms arbitrary: hb)
  case (Cons m ms)
  obtain h dh where h: "amHeader m = Some h" "szDataHeader Z \<le> hmSize h" "hmFirst h" "hmData h = Some dh"
    using Cons.prems(1) by (auto elim: well_formed_cases)
  show ?case
  proof (cases "hmDpl h = None")
    case False
    from Cons.IH [of hb] Cons.prems obtain hb' ms' where
      "dpl_header_loop Z H hb ms = (True, hb', ms')" "n \<le> hb'" "list_all2 (stamped H) ms ms'" "\<forall>m\<in>set ms'. well_formed_header Z m"
      by auto
    then show ?thesis using h False by (auto simp add: stamped_def [of H m] well_formed_header_def Let_def)
  next
    case True
    have le: "n + length ms \<le> hb - 1" "hb \<noteq> 0" using Cons.prems(2) by simp_all
    from Cons.IH [of "hb - 1"] le(1) Cons.prems(1) obtain hb' ms' where
      "dpl_header_loop Z H (hb - 1) ms = (True, hb', ms')" "n \<le> hb'" "list_all2 (stamped H) ms ms'" "\<forall>m\<in>set ms'. well_formed_header Z m"
      by auto
    then show ?thesis using h True Cons.prems(2)
      by (auto simp add: stamped_def [of H m] well_formed_header_def Let_def TimeFrameBuilder_newHeaderMessage_def)
  qed
qed simp

lemma move_parts_moves:
  "n + length ps \<le> db \<Longrightarrow> \<exists>db' ps'. move_parts db ps = (True, db', ps') \<and> n \<le> db' \<and> map fst ps' = map fst ps \<and> (\<forall>p\<in>set ps'. snd p)"
proof (induction ps arbitrary: db)
  case (Cons p ps)
  obtain b shm where p: "p = (b, shm)" by (cases p)
  show ?case
  proof (cases shm)
    case True
    from Cons.IH [of db] Cons.prems show ?thesis using p True by auto
  next
    case False
    have "n + length ps \<le> db - 1" "db \<noteq> 0" using Cons.prems by simp_all
    with Cons.IH [of "db - 1"] show ?thesis using p False by auto
  qed
qed simp

lemma shm_loop_moves:
  assumes "\<forall>m\<in>set ms. well_formed_header Z m" "length ms \<le> hb" "(\<Sum>m\<leftarrow>ms. length (amParts m)) \<le> db"
  shows "\<exists>ms'. shm_loop Z hb db ms = Some (True, ms') \<and> (\<forall>m\<in>set ms'. in_shm m) \<and>
    list_all2 (\<lambda>m m'. map_option (\<lambda>h. h\<lparr>hmShm := True\<rparr>) (amHeader m) = amHeader m' \<and> map fst (amParts m') = map fst (amParts m)) ms ms'"
  using assms
proof (induction ms arbitrary: hb db)
  case (Cons m ms)
  obtain h dh where h: "amHeader m = Some h" "szDataHeader Z \<le> hmSize h" "hmFirst h" "hmData h = Some dh"
    using Cons.prems(1) by (auto elim: well_formed_cases)
  from move_parts_moves [of "\<Sum>m\<leftarrow>ms. length (amParts m)" "amParts m" db] Cons.prems(3) obtain db' ps where
    p: "move_parts db (amParts m) = (True, db', ps)" "(\<Sum>m\<leftarrow>ms. length (amParts m)) \<le> db'" "map fst ps = map fst (amParts m)"
      "\<forall>p\<in>set ps. snd p" by (auto simp: add.commute)
  obtain hb' where n: "(if hmShm h then Some (h, hb) else TimeFrameBuilder_newHeaderMessage Z hb h) = Some (h\<lparr>hmShm := True\<rparr>, hb')"
    "length ms \<le> hb'"
    using h Cons.prems(2) by (cases "hmShm h") (auto simp: TimeFrameBuilder_newHeaderMessage_def)
  from Cons.IH [of hb' db'] Cons.prems(1) p(2) n(2) obtain ms' where
    r: "shm_loop Z hb' db' ms = Some (True, ms')" "\<forall>m\<in>set ms'. in_shm m"
      "list_all2 (\<lambda>m m'. map_option (\<lambda>h. h\<lparr>hmShm := True\<rparr>) (amHeader m) = amHeader m' \<and> map fst (amParts m') = map fst (amParts m)) ms ms'"
    by auto
  have "shm_loop Z hb db (m # ms) = Some (True, m\<lparr>amHeader := Some (h\<lparr>hmShm := True\<rparr>), amParts := ps\<rparr> # ms')"
    using h(1) n(1) p(1) r(1) by simp
  moreover have "in_shm (m\<lparr>amHeader := Some (h\<lparr>hmShm := True\<rparr>), amParts := ps\<rparr>)" using p(4) by (simp add: in_shm_def)
  ultimately show ?case using h(1) p(3) r(2, 3) by simp
qed simp

text \<open>A missing header stops the second loop, wherever it is.\<close>

lemma shm_loop_missing:
  assumes "m \<in> set ms" "amHeader m = None" "\<forall>m\<in>set ms. amHeader m \<noteq> None \<longrightarrow> well_formed_header Z m" "length ms \<le> hb"
    "(\<Sum>m\<leftarrow>ms. length (amParts m)) \<le> db"
  shows "shm_loop Z hb db ms = None"
  using assms
proof (induction ms arbitrary: hb db)
  case (Cons x ms)
  show ?case
  proof (cases "amHeader x")
    case (Some h)
    then have h: "szDataHeader Z \<le> hmSize h" "hmFirst h" using Cons.prems(3) by (auto simp: well_formed_header_def)
    from move_parts_moves [of "\<Sum>m\<leftarrow>ms. length (amParts m)" "amParts x" db] Cons.prems(5) obtain db' ps where
      p: "move_parts db (amParts x) = (True, db', ps)" "(\<Sum>m\<leftarrow>ms. length (amParts m)) \<le> db'" by (auto simp: add.commute)
    obtain hb' where n: "(if hmShm h then Some (h, hb) else TimeFrameBuilder_newHeaderMessage Z hb h) = Some (h\<lparr>hmShm := True\<rparr>, hb')"
      "length ms \<le> hb'"
      using h Cons.prems(4) by (cases "hmShm h") (auto simp: TimeFrameBuilder_newHeaderMessage_def)
    have "m \<in> set ms" using Cons.prems(1, 2) Some by auto
    then have "shm_loop Z hb' db' ms = None" using Cons.IH [of hb' db'] Cons.prems(2, 3) p(2) n(2) by simp
    then show ?thesis using Some n(1) p(1) by simp
  qed simp
qed simp

lemma dpl_header_loop_missing:
  assumes "\<forall>m\<in>set ms. amHeader m \<noteq> None \<longrightarrow> well_formed_header Z m" "n + length ms \<le> hb"
  shows "\<exists>hb' ms'. dpl_header_loop Z H hb ms = (True, hb', ms') \<and> n \<le> hb' \<and>
    list_all2 (\<lambda>m m'. (amHeader m' = None \<longleftrightarrow> amHeader m = None) \<and> amParts m' = amParts m) ms ms' \<and>
    (\<forall>m\<in>set ms'. amHeader m \<noteq> None \<longrightarrow> well_formed_header Z m)"
  using assms
proof (induction ms arbitrary: hb)
  case (Cons m ms)
  let ?R = "\<lambda>m m'. (amHeader m' = None \<longleftrightarrow> amHeader m = None) \<and> amParts m' = amParts m"
  consider "amHeader m = None" | h dh where "amHeader m = Some h" "szDataHeader Z \<le> hmSize h" "hmFirst h" "hmData h = Some dh"
    using Cons.prems(1) by (auto elim: well_formed_cases)
  then show ?case
  proof cases
    case 1
    then show ?thesis using Cons.IH [of hb] Cons.prems by auto
  next
    case 2
    show ?thesis
    proof (cases "hmDpl h = None")
      case False
      from Cons.IH [of hb] Cons.prems obtain hb' ms' where
        "dpl_header_loop Z H hb ms = (True, hb', ms')" "n \<le> hb'" "list_all2 ?R ms ms'"
        "\<forall>m\<in>set ms'. amHeader m \<noteq> None \<longrightarrow> well_formed_header Z m" by auto
      then show ?thesis using 2 False by (auto simp: well_formed_header_def [of Z "m\<lparr>amHeader := x\<rparr>" for x] Let_def)
    next
      case True
      have le: "n + length ms \<le> hb - 1" "hb \<noteq> 0" using Cons.prems(2) by simp_all
      from Cons.IH [of "hb - 1"] le(1) Cons.prems(1) obtain hb' ms' where
        "dpl_header_loop Z H (hb - 1) ms = (True, hb', ms')" "n \<le> hb'" "list_all2 ?R ms ms'"
        "\<forall>m\<in>set ms'. amHeader m \<noteq> None \<longrightarrow> well_formed_header Z m" by auto
      then show ?thesis using 2 True le(2)
        by (auto simp: well_formed_header_def [of Z "m\<lparr>amHeader := x\<rparr>" for x] Let_def TimeFrameBuilder_newHeaderMessage_def)
    qed
  qed
qed simp

text \<open>
  C39. A time frame that is given to the data processing layer is complete: when every message has a header stack that starts with
  a \<open>DataHeader\<close> and the regions have room, \<open>adaptHeaders\<close> reaches its end; then every message keeps its \<open>DataHeader\<close>, its other
  headers and the bytes of its parts, has a processing header with the identifier and the (then valid) creation time of the frame,
  and all its parts are in shared memory.
\<close>

theorem adapted_time_frame:
  assumes "\<forall>m\<in>set (afMessages F). well_formed_header Z m" "2 * length (afMessages F) \<le> hb"
    and "(\<Sum>m\<leftarrow>afMessages F. length (amParts m)) \<le> db"
  shows "\<exists>G. TimeFrameBuilder_adaptHeaders Z True now hb db F = Some (True, G) \<and> hId (afHeader G) = hId (afHeader F) \<and>
    (0 < now \<and> now < - 1 \<longrightarrow> 0 < hCreationTimeMs (afHeader G) \<and> hCreationTimeMs (afHeader G) < - 1) \<and>
    list_all2 (stamped (afHeader G)) (afMessages F) (afMessages G) \<and> (\<forall>m\<in>set (afMessages G). in_shm m)"
proof -
  let ?H = "adapt_creation now (afHeader F)"
  from dpl_header_loop_stamps [OF assms(1), of "length (afMessages F)" hb ?H] assms(2) obtain hb' ms where
    l: "dpl_header_loop Z ?H hb (afMessages F) = (True, hb', ms)" "length (afMessages F) \<le> hb'"
      "list_all2 (stamped ?H) (afMessages F) ms" "\<forall>m\<in>set ms. well_formed_header Z m" by auto
  have len: "length ms = length (afMessages F)" using l(3) by (simp add: list_all2_lengthD)
  have "map (\<lambda>m. length (amParts m)) ms = map (\<lambda>m. length (amParts m)) (afMessages F)"
    using l(3) by (induction rule: list_all2_induct) (auto simp: stamped_def dest: map_eq_imp_length_eq)
  then have "(\<Sum>m\<leftarrow>ms. length (amParts m)) \<le> db" using assms(3) by simp
  from shm_loop_moves [OF l(4) _ this, of hb'] l(2) len obtain ms' where
    s: "shm_loop Z hb' db ms = Some (True, ms')" "\<forall>m\<in>set ms'. in_shm m"
      "list_all2 (\<lambda>m m'. map_option (\<lambda>h. h\<lparr>hmShm := True\<rparr>) (amHeader m) = amHeader m' \<and> map fst (amParts m') = map fst (amParts m)) ms ms'"
    by auto
  have "list_all2 (stamped ?H) (afMessages F) ms'"
    by (rule list_all2_trans [OF _ l(3) s(3)]) (auto simp: stamped_def split: option.splits)
  moreover have "0 < now \<and> now < - 1 \<longrightarrow> 0 < hCreationTimeMs ?H \<and> hCreationTimeMs ?H < - 1"
    using word_neq_0_conv [of "hCreationTimeMs (afHeader F)"] by (auto simp: adapt_creation_def order.not_eq_order_implies_strict)
  moreover have "hId ?H = hId (afHeader F)" by (simp add: adapt_creation_def)
  ultimately show ?thesis using l(1) s(1, 2) by (auto simp: TimeFrameBuilder_adaptHeaders_def Let_def)
qed

text \<open>
  C40. A message without header is reported by the first loop of \<open>adaptHeaders\<close> and kept, and the second loop then uses its null
  pointer: for a time frame with such a message, in which all other headers are in order, the call does not survive.
\<close>

theorem missing_header_crashes:
  assumes "m \<in> set (afMessages F)" "amHeader m = None" "\<forall>m\<in>set (afMessages F). amHeader m \<noteq> None \<longrightarrow> well_formed_header Z m"
    and "2 * length (afMessages F) \<le> hb" "(\<Sum>m\<leftarrow>afMessages F. length (amParts m)) \<le> db"
  shows "TimeFrameBuilder_adaptHeaders Z True now hb db F = None"
proof -
  let ?H = "adapt_creation now (afHeader F)"
  from dpl_header_loop_missing [OF assms(3), of "length (afMessages F)" hb ?H] assms(4) obtain hb' ms where
    l: "dpl_header_loop Z ?H hb (afMessages F) = (True, hb', ms)" "length (afMessages F) \<le> hb'"
      "list_all2 (\<lambda>m m'. (amHeader m' = None \<longleftrightarrow> amHeader m = None) \<and> amParts m' = amParts m) (afMessages F) ms"
      "\<forall>m\<in>set ms. amHeader m \<noteq> None \<longrightarrow> well_formed_header Z m" by auto
  have "map amParts ms = map amParts (afMessages F)" using l(3) by (induction rule: list_all2_induct) simp_all
  then have "map (\<lambda>m. length (amParts m)) ms = map (\<lambda>m. length (amParts m)) (afMessages F)"
    by (metis (no_types) map_map [unfolded comp_def])
  then have db: "(\<Sum>m\<leftarrow>ms. length (amParts m)) \<le> db" using assms(5) by simp
  obtain i where i: "i < length (afMessages F)" "afMessages F ! i = m" using assms(1) by (auto simp: in_set_conv_nth)
  then have "ms ! i \<in> set ms" "amHeader (ms ! i) = None"
    using l(3) assms(2) by (auto simp: list_all2_conv_all_nth)
  then have "shm_loop Z hb' db ms = None"
    using shm_loop_missing [of "ms ! i" ms Z hb' db] l(2-4) db by (simp add: list_all2_lengthD)
  then show ?thesis using l(1) by (simp add: TimeFrameBuilder_adaptHeaders_def Let_def)
qed

text \<open>A frame from a file keeps its \<open>DataHeader\<close>s and gets the processing headers as far as the function goes.\<close>

lemma file_adapt_stamps:
  assumes "file_adapt_loop Z H hb ms = (True, ms')"
  shows "list_all2 (\<lambda>m m'. amParts m' = amParts m \<and> (\<exists>h h'. amHeader m = Some h \<and> amHeader m' = Some h' \<and> hmData h' = hmData h \<and>
    hmDpl h' = Some (hId H, hCreationTimeMs H))) ms ms'"
  using assms
proof (induction ms arbitrary: hb ms')
  case (Cons m ms)
  then obtain h where h: "amHeader m = Some h" by (auto split: option.splits)
  show ?case
  proof (cases "hmDpl h")
    case (Some x)
    then show ?thesis using Cons.prems h Cons.IH [of hb] by (auto split: if_splits prod.splits)
  next
    case None
    then show ?thesis using Cons.prems h Cons.IH [of "hb - 1"] by (auto split: if_splits prod.splits option.splits)
  qed
qed simp

text \<open>Two messages, one of them with a processing header and in shared memory.\<close>

definition adapt_sizes :: header_sizes where
  "adapt_sizes = \<lparr>szDataHeader = 80, szDplHeader = 64\<rparr>"

definition adapt_header :: "(u64 \<times> u64) option \<Rightarrow> (string, string) header_message" where
  "adapt_header p = \<lparr>hmSize = 80, hmFirst = True, hmData = Some \<lparr>dhDescription = ''RAWDATA'', dhOrigin = ''TPC'', dhSubSpecification = 7,
     splitPayloadIndex = 0, splitPayloadParts = 1, firstTForbit = 0, tfCounter = 0, runNumber = 0\<rparr>, hmDpl = p, hmRest = [4], hmShm = (p \<noteq> None)\<rparr>"

definition adapt_example :: "(string, string) adapt_frame" where
  "adapt_example = \<lparr>afHeader = \<lparr>hId = 9, hFirstOrbit = 0, hRunNumber = 0, hOrigin = eReadout, hCreationTimeMs = - 1\<rparr>,
     afMessages = [\<lparr>amHeader = Some (adapt_header None), amParts = [([1, 2], False), ([3], True)]\<rparr>,
       \<lparr>amHeader = Some (adapt_header (Some (0, 0))), amParts = [([5], False)]\<rparr>]\<rparr>"

theorem adapted_time_frame_witness:
  "\<exists>G. TimeFrameBuilder_adaptHeaders adapt_sizes True 100 4 3 adapt_example = Some (True, G) \<and>
     list_all2 (stamped (afHeader G)) (afMessages adapt_example) (afMessages G)"
  using adapted_time_frame [of adapt_example adapt_sizes 4 3 100]
  by (auto simp: adapt_example_def well_formed_header_def adapt_header_def adapt_sizes_def)

theorem missing_header_crashes_witness:
  "TimeFrameBuilder_adaptHeaders adapt_sizes True 100 6 4
     (adapt_example\<lparr>afMessages := afMessages adapt_example @ [\<lparr>amHeader = None, amParts = [([6], True)]\<rparr>]\<rparr>) = None"
  by (rule missing_header_crashes [of "\<lparr>amHeader = None, amParts = [([6], True)]\<rparr>"])
    (auto simp: adapt_example_def well_formed_header_def adapt_header_def adapt_sizes_def)

end
