(* ===== verification/Tfb_Device.thy ===== *)
theory Tfb_Device
  imports Tfb_Input Stfb_Device
begin

text \<open>
  The TfBuilder device (\<open>TfBuilder/TfBuilderDevice.{h,cxx}\<close>): its configuration, start and stop. The input with its RPC object, the
  queue of the forwarding thread and the thread itself are in theory \<open>Tfb_Input\<close>. The allocation of the regions, which runs
  beside \<open>InitTask\<close>, is its outcome; monitoring and joining threads are left out.
\<close>

section \<open>State\<close>

definition eTfBuilderOut :: nat where "eTfBuilderOut = 0"
definition eTfFileSinkIn :: nat where "eTfFileSinkIn = 0"
definition eTfFileSinkOut :: nat where "eTfFileSinkOut = 1"
definition eTfFwdIn :: nat where "eTfFwdIn = 1"

lemmas tfb_stage_defs = eTfBuilderOut_def eTfFileSinkIn_def eTfFileSinkOut_def eTfFwdIn_def

text \<open>
  \<open>tdSinkQueue\<close> is stage 0 of the pipeline, \<open>inOut\<close> of the input stage 1. \<open>tdInputExists\<close>, \<open>tdRpcExists\<close> and \<open>tdAdapter\<close>:
  the pointers to input, RPC object and adapter are not null.
\<close>

record tfb_device =
  tdInput :: TfBuilderInput
  tdInputExists :: bool
  tdRpcExists :: bool
  tdSinkQueue :: "frame_t cqueue"
  tdForward :: TfForward
  tdAdapter :: bool
  tdDplChannelName :: string
  tdDataRegionSize :: u64
  tdDataRegionId :: "16 word option"
  tdHdrRegionSize :: u64
  tdHdrRegionId :: "16 word option"
  tdPartitionId :: string
  tdSinkEnabled :: bool
  tdRunning :: bool
  tdShouldExit :: bool

definition tfb_getNextPipelineStage :: "nat \<Rightarrow> tfb_device \<Rightarrow> nat option" where
  "tfb_getNextPipelineStage stage s =
     (if stage = eTfBuilderOut then Some (if tdSinkEnabled s then eTfFileSinkIn else eTfFwdIn)
      else if stage = eTfFileSinkOut then Some eTfFwdIn
      else None)"

section \<open>Start and stop\<close>

text \<open>
  The attempts to start the RPC object: what \<open>should_retry_start\<close>, the scheduler client and the StfSender clients answer, and whether
  the device is asked to leave its state. \<open>None\<close>: still trying.
\<close>

fun rpc_start_loop :: "u64 \<Rightarrow> (bool \<times> bool \<times> bool \<times> bool) list \<Rightarrow> TfBuilderRpc \<Rightarrow> (bool \<times> TfBuilderRpc) option" where
  "rpc_start_loop bsize [] r = None"
| "rpc_start_loop bsize ((retry, sched, clients, leave) # as) r =
     (case rpc_start bsize retry sched clients r of (ok, r1) \<Rightarrow>
        if ok then Some (True, r1)
        else if rpTerminateRequested r1 then Some (False, r1)
        else if leave then Some (False, r1)
        else rpc_start_loop bsize as r1)"

datatype tfb_failure = TfbFailure init_failure | TfbThrowText string | TfbChannelMissing

text \<open>\<open>connected\<close> is what the start of the transport answers, \<open>channel\<close> says that the channel is configured.\<close>

definition tfbd_start ::
    "(bool \<times> bool \<times> bool \<times> bool) list \<Rightarrow> bool \<Rightarrow> bool option \<Rightarrow> BasicInfo \<Rightarrow> u64 \<Rightarrow> tfb_device \<Rightarrow> (tfb_failure + (bool \<times> tfb_device)) option" where
  "tfbd_start as channel connected info freeData s =
     (case rpc_start_loop (tdDataRegionSize s) as (inRpc (tdInput s)) of
        None \<Rightarrow> None
      | Some (ok, r) \<Rightarrow>
          (let s1 = s\<lparr>tdInput := (tdInput s)\<lparr>inRpc := r\<rparr>\<rparr>
           in if \<not> ok then Some (Inr (False, s1\<lparr>tdShouldExit := True\<rparr>))
              else if \<not> fwStandalone (tdForward s1) \<and> \<not> channel then Some (Inl TfbChannelMissing)
              else Some (Inr (True, s1\<lparr>tdRunning := True, tdAdapter := tdAdapter s1 \<or> \<not> fwStandalone (tdForward s1),
                     tdInput := input_start connected info freeData (tdInput s1)\<rparr>))))"

text \<open>The order of \<open>stop\<close>: no more time frames, the adapter, the pipeline, the input, the RPC object.\<close>

definition tfbd_stop :: "BasicInfo \<Rightarrow> u64 \<Rightarrow> tfb_device \<Rightarrow> tfb_device" where
  "tfbd_stop info freeData s =
     (let i = tdInput s;
          i1 = (if tdRpcExists s then i\<lparr>inRpc := snd (stopAcceptingTfs info freeData (inRpc i))\<rparr> else i);
          i2 = i1\<lparr>inOut := cq_stop (inOut i1)\<rparr>;
          i3 = (if tdInputExists s then input_stop info freeData i2 else i2);
          i4 = (if tdRpcExists s then i3\<lparr>inRpc := rpc_stop info freeData (inRpc i3)\<rparr> else i3)
      in s\<lparr>tdInput := i4, tdRunning := False, tdSinkQueue := cq_stop (tdSinkQueue s), tdInputExists := False, tdRpcExists := False\<rparr>)"

section \<open>Configuration\<close>

text \<open>
  The options. \<open>to_sink\<close>: the answer of the sink's \<open>loadVerifyConfig\<close> and whether it is enabled; \<open>to_late\<close>: the partition that is set while the device waits
  for it; \<open>to_alloc\<close>: the regions have been allocated.
\<close>

record tfb_options =
  to_opt :: "string \<Rightarrow> string"
  to_dataSize :: u64
  to_dataId :: "16 word"
  to_hdrSize :: u64
  to_hdrId :: "16 word"
  to_late :: "string option"
  to_sink :: "bool \<times> bool"
  to_channel :: bool
  to_iface :: "string \<Rightarrow> string option"
  to_port :: nat
  to_uuid :: string
  to_host :: string
  to_alloc :: bool

text \<open>The option \<open>stand-alone\<close> is read and then replaced by whether there is a DPL channel.\<close>

definition tfb_init_options :: "tfb_options \<Rightarrow> tfb_device \<Rightarrow> tfb_device" where
  "tfb_init_options o1 s =
     s\<lparr>tdDplChannelName := to_opt o1 ''dpl-channel-name'',
       tdDataRegionSize := push_bit 20 (to_dataSize o1), tdDataRegionId := (if to_dataId o1 = - 1 then None else Some (to_dataId o1)),
       tdHdrRegionSize := push_bit 20 (to_hdrSize o1), tdHdrRegionId := (if to_hdrId o1 = - 1 then None else Some (to_hdrId o1)),
       tdForward := (tdForward s)\<lparr>fwStandalone := (to_opt o1 ''dpl-channel-name'' = [])\<rparr>\<rparr>"

text \<open>The discovery client with the status before it is published; the partition ends the wait.\<close>

definition tfb_init_discovery ::
    "'c consul \<Rightarrow> bool \<Rightarrow> (string \<Rightarrow> 'b \<Rightarrow> 'b) \<Rightarrow> tfb_options \<Rightarrow> 'b config_status \<Rightarrow> 'c \<Rightarrow>
       init_failure + (string \<times> 'b consul_config \<times> 'c)" where
  "tfb_init_discovery K connect setAddr o1 st c =
     (case consul_new K connect CfgTfBuilder PT_TfBuilder (getEndpointOption (to_opt o1)) True st c of
        Inl e \<Rightarrow> Inl (InitThrow e)
      | Inr (cfg, c1) \<Rightarrow>
          (case getIdOption (to_uuid o1) (to_host o1) PT_TfBuilder (to_opt o1) True of
             Inl e \<Rightarrow> Inl (InitThrow e)
           | Inr i \<Rightarrow>
               (case getNetworkIfAddressOption (to_iface o1) (to_opt o1) of
                  Inl e \<Rightarrow> Inl (InitThrow e)
                | Inr a \<Rightarrow>
                    (case (case getPartitionOption (to_opt o1) of None \<Rightarrow> to_late o1 | Some p \<Rightarrow> Some p) of
                       None \<Rightarrow> Inl InitWaits
                     | Some p \<Rightarrow>
                         Inr (p, cfg\<lparr>mStatus := (mStatus cfg)\<lparr>cs_type := ProcTfBuilder, cs_process_state := PROC_NOT_RUNNING,
                           cs_process_id := i, cs_partition := p, cs_body := setAddr a (cs_body (mStatus cfg))\<rparr>\<rparr>, c1)))))"

text \<open>
  \<open>InitTask\<close>. The new RPC object and the new input start in their initial state, the queues of the pipeline are those
  of the device. The process is published only if its key is not there yet.
\<close>

definition tfb_new_input :: "tfb_device \<Rightarrow> TfBuilderInput" where
  "tfb_new_input s =
     \<lparr>inRunning = False, inRpc = rpc_new, inStfMergeMap = [], inMaxMergedTfId = 0, inStfsForMerging = cq_init,
      inOut = inOut (tdInput s)\<rparr>"

definition tfb_InitTask ::
    "'c consul \<Rightarrow> bool \<Rightarrow> ('b config_status \<Rightarrow> string) \<Rightarrow> string \<times> u64 \<Rightarrow> ('b \<Rightarrow> string) \<Rightarrow> (string \<Rightarrow> 'b \<Rightarrow> 'b) \<Rightarrow> (string \<Rightarrow> 'b \<Rightarrow> 'b) \<Rightarrow>
       (bool \<times> bool \<times> bool \<times> bool) list \<Rightarrow> bool option \<Rightarrow> BasicInfo \<Rightarrow> u64 \<Rightarrow> tfb_options \<Rightarrow> 'b config_status \<Rightarrow> tfb_device \<Rightarrow> 'c \<Rightarrow>
       tfb_failure + ('b consul_config \<times> tfb_device \<times> 'c)" where
  "tfb_InitTask K connect ser time addr setAddr setRpc as connected info freeData o1 st s c =
     (let s1 = tfb_init_options o1 s
      in case tfb_init_discovery K connect setAddr o1 st c of
           Inl e \<Rightarrow> Inl (TfbFailure e)
         | Inr (p, cfg, c1) \<Rightarrow>
             (let s2 = s1\<lparr>tdPartitionId := p\<rparr>
              in if \<not> fst (to_sink o1) then Inl (TfbThrowText ''File Sink options'')
                 else
                   (let s3 = s2\<lparr>tdSinkEnabled := snd (to_sink o1), tdInput := tfb_new_input s2, tdInputExists := True, tdRpcExists := True\<rparr>;
                        b = cs_body (mStatus cfg);
                        cfg1 = cfg\<lparr>mStatus := (mStatus cfg)\<lparr>cs_body := setRpc (addr b @ '':'' @ dec_string (to_port o1)) b\<rparr>\<rparr>
                    in case consul_write K ser time True cfg1 c1 of
                         Inl e \<Rightarrow> Inl (TfbFailure (InitThrow e))
                       | Inr (ok, cfg2, c2) \<Rightarrow>
                           if \<not> ok then Inl (TfbThrowText ''Discovery database error: this TfBuilder was/is already present.'')
                           else
                             (case tfbd_start as (to_channel o1) connected info freeData s3 of
                                None \<Rightarrow> Inl (TfbFailure InitWaits)
                              | Some (Inl e) \<Rightarrow> Inl e
                              | Some (Inr (False, s4)) \<Rightarrow>
                                  Inl (TfbFailure (InitThrow (RuntimeError ''Aborting InitTask(). Cannot configure.'')))
                              | Some (Inr (True, s4)) \<Rightarrow>
                                  if to_alloc o1 then Inr (cfg2, s4, c2)
                                  else Inl (TfbThrowText ''InitTask::MemorySegment allocation failed. Exiting...'')))))"

definition tfb_ResetTask :: "BasicInfo \<Rightarrow> u64 \<Rightarrow> tfb_device \<Rightarrow> tfb_device" where
  "tfb_ResetTask = tfbd_stop"

definition tfb_ConditionalRun :: "tfb_device \<Rightarrow> bool" where
  "tfb_ConditionalRun s \<longleftrightarrow> \<not> (tdShouldExit s \<or> rpTerminateRequested (inRpc (tdInput s)))"

section \<open>Properties\<close>

lemma rpc_start_loop_facts:
  "rpc_start_loop bsize as r = Some (True, r') \<Longrightarrow> rpRunning r' \<and> rpBufferSize r' = bsize \<and> rpCurrentTfBufferSize r' = bsize"
proof (induction bsize as r rule: rpc_start_loop.induct)
  case (2 bsize retry sched clients leave as r)
  then show ?case by (auto simp: rpc_start_def Let_def split: prod.splits if_splits)
qed simp

lemma input_start_facts:
  "inRunning (input_start connected info freeData i)" "inOut (input_start connected info freeData i) = inOut i"
  "rpRunning (inRpc (input_start connected info freeData i)) = rpRunning (inRpc i)"
  "rpBufferSize (inRpc (input_start connected info freeData i)) = rpBufferSize (inRpc i)"
  "rpCurrentTfBufferSize (inRpc (input_start connected info freeData i)) = rpCurrentTfBufferSize (inRpc i)"
  by (simp_all add: input_start_def startAcceptingTfs_def Let_def)

lemma tfbd_start_facts:
  assumes "tfbd_start as channel connected info freeData s = Some (Inr (True, s'))"
  shows "inOut (tdInput s') = inOut (tdInput s)" "tdRunning s'" "inRunning (tdInput s')" "rpRunning (inRpc (tdInput s'))"
    "rpBufferSize (inRpc (tdInput s')) = tdDataRegionSize s" "rpCurrentTfBufferSize (inRpc (tdInput s')) = tdDataRegionSize s"
    "tdForward s' = tdForward s" "tdAdapter s' = (tdAdapter s \<or> \<not> fwStandalone (tdForward s))" "tdDataRegionSize s' = tdDataRegionSize s"
    "tdPartitionId s' = tdPartitionId s" "fwStandalone (tdForward s) \<or> channel"
proof -
  obtain r where r: "rpc_start_loop (tdDataRegionSize s) as (inRpc (tdInput s)) = Some (True, r)"
    and c: "fwStandalone (tdForward s) \<or> channel"
    and s': "s' = s\<lparr>tdInput := input_start connected info freeData ((tdInput s)\<lparr>inRpc := r\<rparr>), tdRunning := True,
      tdAdapter := tdAdapter s \<or> \<not> fwStandalone (tdForward s)\<rparr>"
    using assms by (auto simp: tfbd_start_def Let_def split: option.splits prod.splits if_splits)
  show "inOut (tdInput s') = inOut (tdInput s)" "tdRunning s'" "inRunning (tdInput s')" "rpRunning (inRpc (tdInput s'))"
    "rpBufferSize (inRpc (tdInput s')) = tdDataRegionSize s" "rpCurrentTfBufferSize (inRpc (tdInput s')) = tdDataRegionSize s"
    "tdForward s' = tdForward s" "tdAdapter s' = (tdAdapter s \<or> \<not> fwStandalone (tdForward s))" "tdDataRegionSize s' = tdDataRegionSize s"
    "tdPartitionId s' = tdPartitionId s" "fwStandalone (tdForward s) \<or> channel"
    using rpc_start_loop_facts [OF r] c by (simp_all add: s' input_start_facts)
qed

lemma tfb_init_started:
  assumes "tfb_InitTask K connect ser time addr setAddr setRpc as connected info freeData o1 st s c = Inr (cfg, s1, c1)"
  obtains p s3 where "tfbd_start as (to_channel o1) connected info freeData s3 = Some (Inr (True, s1))"
    "inOut (tdInput s3) = inOut (tdInput s)" "tdDataRegionSize s3 = push_bit 20 (to_dataSize o1)"
    "fwStandalone (tdForward s3) = (to_opt o1 ''dpl-channel-name'' = [])" "to_alloc o1"
  using assms
  by (auto simp: tfb_InitTask_def tfb_init_options_def tfb_new_input_def Let_def
      split: sum.splits option.splits prod.splits if_splits bool.splits)

text \<open>
  What a configured TfBuilder has: a running input and RPC object, a free buffer of the size of the data region, and an adapter for DPL exactly when
  there is a channel for it, whatever the option \<open>stand-alone\<close> says.
\<close>

lemma tfb_configured:
  assumes "tfb_InitTask K connect ser time addr setAddr setRpc as connected info freeData o1 st s c = Inr (cfg, s1, c1)" "\<not> tdAdapter s"
  shows "tdRunning s1" "inRunning (tdInput s1)" "rpRunning (inRpc (tdInput s1))"
    "rpCurrentTfBufferSize (inRpc (tdInput s1)) = push_bit 20 (to_dataSize o1)"
    "fwStandalone (tdForward s1) = (to_opt o1 ''dpl-channel-name'' = [])"
  using tfb_init_started [OF assms(1)] tfbd_start_facts by metis+

text \<open>After a reset the forwarding thread ends at once and merged time frames are dropped, as in the StfSender.\<close>

lemma reset_tfb_forwards_nothing:
  assumes "tfb_InitTask K connect ser time addr setAddr setRpc as connected info freeData o1 st (tfb_ResetTask info' free' s) c = Inr (cfg, s1, c1)"
  shows "forward_step d (tdInput s1) = Some (d, None, tdInput s1)" "fst (cq_push eFIFO tf (inOut (tdInput s1))) = False"
proof -
  obtain s3 where s3: "tfbd_start as (to_channel o1) connected info freeData s3 = Some (Inr (True, s1))"
    "inOut (tdInput s3) = inOut (tdInput (tfb_ResetTask info' free' s))" using assms by (rule tfb_init_started)
  have "\<not> cqRunning (inOut (tdInput (tfb_ResetTask info' free' s)))"
    by (simp add: tfb_ResetTask_def tfbd_stop_def Let_def cq_stop_def input_stop_def case_prod_beta)
  then have "\<not> cqRunning (inOut (tdInput s1))" using tfbd_start_facts(1) [OF s3(1)] s3(2) by simp
  then show "forward_step d (tdInput s1) = Some (d, None, tdInput s1)" "fst (cq_push eFIFO tf (inOut (tdInput s1))) = False"
    by (simp_all add: forward_step_def cq_push_def)
qed

end
